(* ===== verification/Prelude.thy ===== *)
theory Prelude
  imports Complex_Main "HOL-Library.List_Lexorder" "HOL-Library.Char_ord" "HOL-Library.Multiset"
begin

text \<open>
  Shared vocabulary of the development: the exceptions the API throws, transactions on the
  database as functions that either fail (and change nothing) or return the next database,
  tables as lists of rows in insertion order, the 32-bit range of Prisma's \<open>Int\<close> columns,
  strings, and an interface for invariants of transition systems. Lemmas that the component
  proofs share are collected in \<open>tx_simps\<close> and \<open>table_simps\<close>.
\<close>

named_theorems tx_simps \<open>unfolding of the transaction combinators\<close>
named_theorems table_simps \<open>rows, updates, deletions and look-ups\<close>

section \<open>Exceptions\<close>

text \<open>
  A thrown value is a Nest \<open>HttpException\<close> (status, the \<open>getResponse()\<close> value and the
  \<open>message\<close>), one of Prisma's known request errors (by its code) or anything else. The
  abbreviations are Nest's exception constructors: with a string they respond with an object
  holding that message, with an object they respond with the object.
\<close>

datatype exn_message = MsgOne string | MsgMany "string list"

datatype exn_response =
    RespText string
  | RespObj (resp_code: "string option") (resp_message: "exn_message option")

datatype exn =
    HttpException (exn_status: nat) (exn_resp: exn_response) (exn_msg: string)
  | PrismaKnown (exn_pcode: string)
  | OtherError (exn_text: string)

abbreviation BadRequestException :: "string \<Rightarrow> exn" where
  "BadRequestException m \<equiv> HttpException 400 (RespObj None (Some (MsgOne m))) m"

abbreviation UnauthorizedException :: "string \<Rightarrow> exn" where
  "UnauthorizedException m \<equiv> HttpException 401 (RespObj None (Some (MsgOne m))) m"

abbreviation ForbiddenException :: "string \<Rightarrow> exn" where
  "ForbiddenException m \<equiv> HttpException 403 (RespObj None (Some (MsgOne m))) m"

abbreviation NotFoundException :: "string \<Rightarrow> exn" where
  "NotFoundException m \<equiv> HttpException 404 (RespObj None (Some (MsgOne m))) m"

abbreviation ConflictException :: "string \<Rightarrow> exn" where
  "ConflictException m \<equiv> HttpException 409 (RespObj None (Some (MsgOne m))) m"

abbreviation ServiceUnavailableException :: "string \<Rightarrow> exn" where
  "ServiceUnavailableException m \<equiv> HttpException 503 (RespObj None (Some (MsgOne m))) m"

section \<open>Transactions\<close>

text \<open>
  The callback of \<open>prisma.$transaction\<close> maps the database it sees to an error, after which
  the database rolls back to what it was, or to the database to commit and a result. A failed
  transaction therefore cannot leave a partial write: its value holds no database at all.
\<close>

type_synonym ('s, 'a) tx = "'s \<Rightarrow> exn + ('s \<times> 'a)"

definition tx_return :: "'a \<Rightarrow> ('s, 'a) tx" where
  "tx_return a s = Inr (s, a)"

definition tx_throw :: "exn \<Rightarrow> ('s, 'a) tx" where
  "tx_throw e s = Inl e"

definition tx_bind :: "('s, 'a) tx \<Rightarrow> ('a \<Rightarrow> ('s, 'b) tx) \<Rightarrow> ('s, 'b) tx" where
  "tx_bind m k s = (case m s of Inl e \<Rightarrow> Inl e | Inr (s', a) \<Rightarrow> k a s')"

definition tx_read :: "('s \<Rightarrow> 'a) \<Rightarrow> ('s, 'a) tx" where
  "tx_read f s = Inr (s, f s)"

definition tx_when :: "bool \<Rightarrow> exn \<Rightarrow> ('s, unit) tx" where
  "tx_when b e = (if b then tx_throw e else tx_return ())"

definition tx_some :: "'a option \<Rightarrow> exn \<Rightarrow> ('s, 'a) tx" where
  "tx_some x e = (case x of None \<Rightarrow> tx_throw e | Some a \<Rightarrow> tx_return a)"

definition tx_lift :: "exn + 'a \<Rightarrow> ('s, 'a) tx" where
  "tx_lift r s = (case r of Inl e \<Rightarrow> Inl e | Inr a \<Rightarrow> Inr (s, a))"

lemma tx_bind_Inr [tx_simps]:
  "tx_bind m k s = Inr (s'', b) \<longleftrightarrow>
     (\<exists>s' a. m s = Inr (s', a) \<and> k a s' = Inr (s'', b))"
  by (auto simp: tx_bind_def split: sum.splits prod.splits)

lemma tx_return_Inr [tx_simps]: "tx_return a s = Inr (s', b) \<longleftrightarrow> s' = s \<and> b = a"
  by (auto simp: tx_return_def)

lemma tx_throw_Inr [tx_simps]: "tx_throw e s = Inr x \<longleftrightarrow> False"
  by (simp add: tx_throw_def)

lemma tx_read_Inr [tx_simps]: "tx_read f s = Inr (s', b) \<longleftrightarrow> s' = s \<and> b = f s"
  by (auto simp: tx_read_def)

lemma tx_when_Inr [tx_simps]: "tx_when b e s = Inr (s', u) \<longleftrightarrow> s' = s \<and> \<not> b"
  by (auto simp: tx_when_def tx_return_def tx_throw_def)

lemma tx_some_Inr [tx_simps]: "tx_some x e s = Inr (s', a) \<longleftrightarrow> s' = s \<and> x = Some a"
  by (auto simp: tx_some_def tx_return_def tx_throw_def split: option.splits)

lemma tx_lift_Inr [tx_simps]: "tx_lift r s = Inr (s', a) \<longleftrightarrow> s' = s \<and> r = Inr a"
  by (auto simp: tx_lift_def split: sum.splits)

lemmas tx_defs = tx_bind_def tx_return_def tx_throw_def tx_read_def tx_when_def tx_some_def
  tx_lift_def

section \<open>Tables\<close>

text \<open>
  A table is the list of its rows in insertion order. \<open>ins_row\<close> is a create with a unique
  key (Prisma's P2002 when it is taken), \<open>upd_rows\<close> and \<open>del_rows\<close> are \<open>updateMany\<close>
  and \<open>deleteMany\<close>, and \<open>find\<close> is \<open>findUnique\<close>/\<open>findFirst\<close>.
\<close>

definition ins_row :: "('r \<Rightarrow> 'k) \<Rightarrow> 'r \<Rightarrow> 'r list \<Rightarrow> exn + 'r list" where
  "ins_row key r t =
     (if List.member (map key t) (key r) then Inl (PrismaKnown ''P2002'') else Inr (t @ [r]))"

definition upd_rows :: "('r \<Rightarrow> bool) \<Rightarrow> ('r \<Rightarrow> 'r) \<Rightarrow> 'r list \<Rightarrow> 'r list" where
  "upd_rows P f t = map (\<lambda>r. if P r then f r else r) t"

definition del_rows :: "('r \<Rightarrow> bool) \<Rightarrow> 'r list \<Rightarrow> 'r list" where
  "del_rows P t = filter (\<lambda>r. \<not> P r) t"

definition count_rows :: "('r \<Rightarrow> bool) \<Rightarrow> 'r list \<Rightarrow> nat" where
  "count_rows P t = length (filter P t)"

lemma ins_row_Inr [table_simps]:
  "ins_row key r t = Inr t' \<longleftrightarrow> key r \<notin> key ` set t \<and> t' = t @ [r]"
  by (auto simp: ins_row_def)

lemma set_upd_rows [table_simps]:
  "set (upd_rows P f t) = (\<lambda>r. if P r then f r else r) ` set t"
  by (simp add: upd_rows_def)

lemma set_del_rows [table_simps]: "set (del_rows P t) = {r \<in> set t. \<not> P r}"
  by (simp add: del_rows_def)

lemma upd_rows_Nil [simp]: "upd_rows P f [] = []"
  by (simp add: upd_rows_def)

lemma upd_rows_Cons [simp]:
  "upd_rows P f (x # xs) = (if P x then f x else x) # upd_rows P f xs"
  by (simp add: upd_rows_def)

lemma upd_rows_append [simp]: "upd_rows P f (xs @ ys) = upd_rows P f xs @ upd_rows P f ys"
  by (simp add: upd_rows_def)

lemma length_upd_rows [simp]: "length (upd_rows P f t) = length t"
  by (simp add: upd_rows_def)

lemma upd_rows_idle: "(\<And>r. r \<in> set t \<Longrightarrow> \<not> P r) \<Longrightarrow> upd_rows P f t = t"
  by (induction t) auto

lemma map_upd_rows_key [table_simps]:
  "(\<And>r. key (f r) = key r) \<Longrightarrow> map key (upd_rows P f t) = map key t"
  by (simp add: upd_rows_def)

lemma del_rows_Nil [simp]: "del_rows P [] = []"
  by (simp add: del_rows_def)

lemma del_rows_append [simp]: "del_rows P (xs @ ys) = del_rows P xs @ del_rows P ys"
  by (simp add: del_rows_def)

lemma find_Some_in [table_simps]: "List.find P t = Some r \<Longrightarrow> r \<in> set t \<and> P r"
  by (induction t) (auto split: if_splits)

lemma find_None_iff_all: "List.find P t = None \<longleftrightarrow> (\<forall>r \<in> set t. \<not> P r)"
  by (induction t) auto

lemma find_append:
  "List.find P (xs @ ys) = (case List.find P xs of None \<Rightarrow> List.find P ys | Some r \<Rightarrow> Some r)"
  by (induction xs) auto

lemma find_upd_rows:
  "(\<And>r. P (f r) = P r) \<Longrightarrow>
   List.find P (upd_rows Q f t) = map_option (\<lambda>r. if Q r then f r else r) (List.find P t)"
  by (induction t) auto

lemma find_del_rows: "List.find P (del_rows P t) = None"
  by (simp add: find_None_iff_all set_del_rows)

lemma distinct_map_ins:
  "distinct (map key t) \<Longrightarrow> key r \<notin> key ` set t \<Longrightarrow> distinct (map key (t @ [r]))"
  by simp

lemma distinct_map_del: "distinct (map key t) \<Longrightarrow> distinct (map key (del_rows P t))"
  by (simp add: del_rows_def distinct_map_filter)

lemma distinct_key_unique:
  "distinct (map key t) \<Longrightarrow> r \<in> set t \<Longrightarrow> r' \<in> set t \<Longrightarrow> key r = key r' \<Longrightarrow> r = r'"
  by (induction t) (auto simp: image_iff)

subsection \<open>Updates of one row of a keyed table\<close>

text \<open>
  The interface behind every \<open>update({ where: { id } })\<close>: the table has a key, and the
  update does not change it. What follows is what the services rely on: the key column stays
  as it was, the updated row is found under its key, and every other row is found unchanged.
\<close>

locale keyed_update =
  fixes key :: "'r \<Rightarrow> 'k" and f :: "'r \<Rightarrow> 'r"
  assumes key_f: "key (f r) = key r"
begin

lemma keys_kept: "map key (upd_rows (\<lambda>r. key r = k) f t) = map key t"
  by (simp add: map_upd_rows_key key_f)

lemma distinct_kept:
  "distinct (map key t) \<Longrightarrow> distinct (map key (upd_rows (\<lambda>r. key r = k) f t))"
  by (simp add: keys_kept)

lemma find_same:
  "List.find (\<lambda>r. key r = k) (upd_rows (\<lambda>r. key r = k) f t) =
     map_option f (List.find (\<lambda>r. key r = k) t)"
  by (induction t) (auto simp: key_f)

lemma find_other:
  "j \<noteq> k \<Longrightarrow>
   List.find (\<lambda>r. key r = j) (upd_rows (\<lambda>r. key r = k) f t) = List.find (\<lambda>r. key r = j) t"
  by (induction t) (auto simp: key_f)

lemma updated_row:
  "r \<in> set (upd_rows (\<lambda>r. key r = k) f t) \<Longrightarrow>
   (r \<in> set t \<and> key r \<noteq> k) \<or> (\<exists>r0 \<in> set t. key r0 = k \<and> r = f r0)"
  by (auto simp: set_upd_rows)

lemma other_row_kept:
  "r \<in> set t \<Longrightarrow> key r \<noteq> k \<Longrightarrow> r \<in> set (upd_rows (\<lambda>r. key r = k) f t)"
  by (force simp: set_upd_rows)

end

section \<open>Column ranges, pages and strings\<close>

text \<open>Prisma's \<open>Int\<close> is PostgreSQL's 32-bit integer: a write outside it fails.\<close>

definition int4_max :: int where
  "int4_max = 2147483647"

definition int4 :: "int \<Rightarrow> bool" where
  "int4 n \<longleftrightarrow> - 2147483648 \<le> n \<and> n \<le> int4_max"

abbreviation Int4Overflow :: exn where
  "Int4Overflow \<equiv> OtherError ''Unable to fit integer value into an INT4''"

definition page :: "nat \<Rightarrow> nat \<Rightarrow> 'r list \<Rightarrow> 'r list" where
  "page skip n rows = take n (drop skip rows)"

definition order_asc :: "('r \<Rightarrow> 'k::linorder) \<Rightarrow> 'r list \<Rightarrow> 'r list" where
  "order_asc k t = sort_key k t"

definition order_desc :: "('r \<Rightarrow> 'k::linorder) \<Rightarrow> 'r list \<Rightarrow> 'r list" where
  "order_desc k t = rev (sort_key k t)"

lemma length_page: "length (page skip n rows) \<le> n"
  by (simp add: page_def)

lemma set_page: "set (page skip n rows) \<subseteq> set rows"
  unfolding page_def by (meson order_trans set_drop_subset set_take_subset)

lemma set_order_asc [simp]: "set (order_asc k t) = set t"
  by (simp add: order_asc_def)

lemma set_order_desc [simp]: "set (order_desc k t) = set t"
  by (simp add: order_desc_def)

lemma sorted_order_asc: "sorted (map k (order_asc k t))"
  by (simp add: order_asc_def)

lemma sorted_order_desc: "sorted (rev (map k (order_desc k t)))"
  by (simp add: order_desc_def rev_map)

text \<open>JavaScript's \<open>toLowerCase\<close>/\<open>toUpperCase\<close> and \<open>includes\<close>/\<open>startsWith\<close>, on ASCII.\<close>

definition lower_char :: "char \<Rightarrow> char" where
  "lower_char c = (if CHR ''A'' \<le> c \<and> c \<le> CHR ''Z'' then char_of (of_char c + (32::nat)) else c)"

definition upper_char :: "char \<Rightarrow> char" where
  "upper_char c = (if CHR ''a'' \<le> c \<and> c \<le> CHR ''z'' then char_of (of_char c - (32::nat)) else c)"

definition to_lower :: "string \<Rightarrow> string" where
  "to_lower s = map lower_char s"

definition to_upper :: "string \<Rightarrow> string" where
  "to_upper s = map upper_char s"

definition starts_with :: "string \<Rightarrow> string \<Rightarrow> bool" where
  "starts_with s p \<longleftrightarrow> take (length p) s = p"

fun contains :: "string \<Rightarrow> string \<Rightarrow> bool" where
  "contains [] p = (p = [])"
| "contains (c # cs) p = (starts_with (c # cs) p \<or> contains cs p)"

definition ends_with :: "string \<Rightarrow> string \<Rightarrow> bool" where
  "ends_with s p \<longleftrightarrow> starts_with (rev s) (rev p)"

definition contains_ci :: "string \<Rightarrow> string \<Rightarrow> bool" where
  "contains_ci s p = contains (to_lower s) (to_lower p)"

definition is_digit :: "char \<Rightarrow> bool" where
  "is_digit c \<longleftrightarrow> CHR ''0'' \<le> c \<and> c \<le> CHR ''9''"

definition is_lower :: "char \<Rightarrow> bool" where
  "is_lower c \<longleftrightarrow> CHR ''a'' \<le> c \<and> c \<le> CHR ''z''"

definition digit_val :: "char \<Rightarrow> nat" where
  "digit_val c = of_char c - 48"

fun show_nat_aux :: "nat \<Rightarrow> nat \<Rightarrow> string \<Rightarrow> string" where
  "show_nat_aux 0 n acc = acc"
| "show_nat_aux (Suc fuel) n acc =
     (let acc' = char_of (48 + n mod 10) # acc
      in if n < 10 then acc' else show_nat_aux fuel (n div 10) acc')"

definition show_nat :: "nat \<Rightarrow> string" where
  "show_nat n = show_nat_aux (Suc n) n []"

definition show_int :: "int \<Rightarrow> string" where
  "show_int i = (if i < 0 then CHR ''-'' # show_nat (nat (- i)) else show_nat (nat i))"

text \<open>
  \<open>Date.prototype.toISOString\<close> for the years 0 to 9999: the civil date of a day number (days
  since 1970-01-01, in 400-year eras that start in March), then the time of day.
\<close>

definition pad_nat :: "nat \<Rightarrow> nat \<Rightarrow> string" where
  "pad_nat width n = (let s = show_nat n in replicate (width - length s) CHR ''0'' @ s)"

definition civil_of_days :: "int \<Rightarrow> int \<times> int \<times> int" where
  "civil_of_days z0 =
     (let z = z0 + 719468; era = z div 146097; doe = z mod 146097;
          yoe = (doe - doe div 1460 + doe div 36524 - doe div 146096) div 365;
          doy = doe - (365 * yoe + yoe div 4 - yoe div 100);
          mp = (5 * doy + 2) div 153;
          d = doy - (153 * mp + 2) div 5 + 1;
          m = (if mp < 10 then mp + 3 else mp - 9);
          y = yoe + era * 400 + (if m \<le> 2 then 1 else 0)
      in (y, m, d))"

definition iso_string :: "int \<Rightarrow> string" where
  "iso_string ms =
     (let (y, m, d) = civil_of_days (ms div 86400000); t = ms mod 86400000
      in pad_nat 4 (nat y) @ ''-'' @ pad_nat 2 (nat m) @ ''-'' @ pad_nat 2 (nat d) @ ''T''
         @ pad_nat 2 (nat (t div 3600000)) @ '':'' @ pad_nat 2 (nat (t div 60000 mod 60)) @ '':''
         @ pad_nat 2 (nat (t div 1000 mod 60)) @ ''.'' @ pad_nat 3 (nat (t mod 1000)) @ ''Z'')"

section \<open>Invariants of transition systems\<close>

text \<open>
  A component with state is a set of initial states and a step relation. An invariant that the
  initial states satisfy and every step keeps holds in every reachable state.
\<close>

inductive reach :: "('s \<Rightarrow> bool) \<Rightarrow> ('s \<Rightarrow> 's \<Rightarrow> bool) \<Rightarrow> 's \<Rightarrow> bool"
  for init :: "'s \<Rightarrow> bool" and step :: "'s \<Rightarrow> 's \<Rightarrow> bool" where
  reach_init: "init s \<Longrightarrow> reach init step s"
| reach_step: "reach init step s \<Longrightarrow> step s s' \<Longrightarrow> reach init step s'"

locale invariant_system =
  fixes init :: "'s \<Rightarrow> bool" and step :: "'s \<Rightarrow> 's \<Rightarrow> bool" and inv :: "'s \<Rightarrow> bool"
  assumes inv_init: "init s \<Longrightarrow> inv s"
    and inv_step: "inv s \<Longrightarrow> step s s' \<Longrightarrow> inv s'"
begin

lemma reach_inv: "reach init step s \<Longrightarrow> inv s"
  by (induction rule: reach.induct) (auto intro: inv_init inv_step)

lemma steps_inv: "step\<^sup>*\<^sup>* s s' \<Longrightarrow> inv s \<Longrightarrow> inv s'"
  by (induction rule: rtranclp_induct) (auto intro: inv_step)

end

end
