(* ===== verification/Schema.thy ===== *)
theory Schema
  imports Prelude
begin

text \<open>
  The data of the program: one record per Prisma model of \<open>backend/prisma/schema.prisma\<close> that
  the modelled services touch, the database that holds the tables, the caller
  (\<open>AuthUser\<close>), and the context of a call (the clock, the successive values of
  \<open>randomUUID()\<close>, the audit context). Columns documented as a closed set of strings are
  datatypes; timestamps are milliseconds.
\<close>

section \<open>Rows\<close>

datatype user_status = Active | Suspended

record user =
  u_id :: string
  u_email :: string
  u_handle :: "string option"
  u_passwordHash :: string
  u_firstName :: string
  u_lastName :: string
  u_status :: user_status
  u_totpSecret :: "string option"
  u_totpEnabled :: bool
  u_totpRecoveryHashes :: "string list"
  u_roleId :: string
  u_createdAt :: int

record role =
  r_id :: string
  r_name :: string
  r_description :: "string option"
  r_permissions :: "string list"

record refresh_token =
  rt_id :: string
  rt_tokenHash :: string
  rt_familyId :: string
  rt_usedAt :: "int option"
  rt_userId :: string
  rt_expiresAt :: int

record wallet =
  w_id :: string
  w_userId :: string
  w_name :: string
  w_currency :: string
  w_balance :: int
  w_createdAt :: int

text \<open>The ledger's row types and states, as the schema's comments list them.\<close>

datatype txn_type = Deposit | Withdrawal | Adjustment | TransferOut | TransferIn

datatype txn_status = Pending | Approved | Rejected

record txn =
  t_id :: string
  t_walletId :: string
  t_type :: txn_type
  t_amount :: int
  t_balanceBefore :: "int option"
  t_balanceAfter :: "int option"
  t_status :: txn_status
  t_requestedBy :: string
  t_reviewedBy :: "string option"
  t_reviewedAt :: "int option"
  t_note :: "string option"
  t_transferId :: "string option"
  t_counterpartyWalletId :: "string option"
  t_exchangeRate :: "rat option"
  t_createdAt :: int

text \<open>
  \<open>AuditAction\<close> and \<open>AuditEntityType\<close> are closed unions of the source. The JSON objects of
  an entry are lists of named values.
\<close>

datatype audit_action =
    DepositSettle | DepositApprove | DepositReject | WithdrawalApprove | WithdrawalReject
  | WalletAdjust | WalletTransfer | UserStatusChange | UserRoleChange

datatype audit_entity = EntTransaction | EntWallet | EntUser

datatype jval = JNull | JBool bool | JNum rat | JStr string | JArr "jval list"
  | JObj "(string \<times> jval) list"

record audit_entry =
  ae_actorUserId :: string
  ae_action :: audit_action
  ae_entityType :: audit_entity
  ae_entityId :: string
  ae_oldValue :: jval
  ae_newValue :: jval

record audit_row =
  al_id :: string
  al_entry :: audit_entry
  al_ipAddress :: "string option"
  al_userAgent :: "string option"
  al_createdAt :: int

record passkey =
  pk_id :: string
  pk_userId :: string
  pk_credentialId :: string
  pk_publicKey :: string
  pk_counter :: int
  pk_transports :: "string list"
  pk_deviceType :: string
  pk_backedUp :: bool
  pk_label :: "string option"
  pk_createdAt :: int
  pk_lastUsedAt :: "int option"

record push_subscription =
  ps_endpoint :: string
  ps_userId :: string
  ps_p256dh :: string
  ps_auth :: string

datatype outbox_status = OutPending | OutPublished

record outbox_event =
  ob_id :: string
  ob_routingKey :: string
  ob_payload :: jval
  ob_status :: outbox_status
  ob_attempts :: nat
  ob_lastError :: "string option"
  ob_createdAt :: int
  ob_publishedAt :: "int option"

section \<open>The database\<close>

record db =
  users :: "user list"
  roles :: "role list"
  refresh_tokens :: "refresh_token list"
  wallets :: "wallet list"
  txns :: "txn list"
  audit_logs :: "audit_row list"
  passkeys :: "passkey list"
  outbox :: "outbox_event list"

definition empty_db :: db where
  "empty_db = \<lparr>users = [], roles = [], refresh_tokens = [], wallets = [], txns = [],
     audit_logs = [], passkeys = [], outbox = []\<rparr>"

section \<open>Callers and call contexts\<close>

record auth_user =
  au_id :: string
  au_email :: string
  au_role :: string
  au_totpEnabled :: bool

text \<open>
  \<open>uuids c n\<close> is the \<open>n\<close>-th identifier drawn during the call \<open>c\<close>, whether by
  \<open>randomUUID()\<close> or by a \<open>@default(uuid())\<close> column; \<open>now c\<close> is the clock the call reads.
  The other fields are the audit context that the HTTP middleware stores.
\<close>

record call_ctx =
  now :: int
  uuids :: "nat \<Rightarrow> string"
  cx_requestId :: string
  cx_ipAddress :: "string option"
  cx_userAgent :: "string option"

section \<open>Transactional access to the tables\<close>

definition tx_user_by :: "(user \<Rightarrow> bool) \<Rightarrow> (db, user option) tx" where
  "tx_user_by P = tx_read (\<lambda>d. List.find P (users d))"

definition find_wallet :: "string \<Rightarrow> db \<Rightarrow> wallet option" where
  "find_wallet i d = List.find (\<lambda>w. w_id w = i) (wallets d)"

definition find_txn :: "string \<Rightarrow> db \<Rightarrow> txn option" where
  "find_txn i d = List.find (\<lambda>t. t_id t = i) (txns d)"

definition find_user :: "string \<Rightarrow> db \<Rightarrow> user option" where
  "find_user i d = List.find (\<lambda>u. u_id u = i) (users d)"

definition find_role :: "string \<Rightarrow> db \<Rightarrow> role option" where
  "find_role i d = List.find (\<lambda>r. r_id r = i) (roles d)"

definition wallet_create :: "wallet \<Rightarrow> (db, wallet) tx" where
  "wallet_create r d = (case ins_row w_id r (wallets d) of
      Inl e \<Rightarrow> Inl e | Inr t \<Rightarrow> Inr (d\<lparr>wallets := t\<rparr>, r))"

text \<open>\<open>tx.wallet.update({ where: { id }, data: { balance } })\<close>\<close>

definition wallet_set_balance :: "string \<Rightarrow> int \<Rightarrow> (db, unit) tx" where
  "wallet_set_balance i b d =
     (if \<not> int4 b then Inl Int4Overflow
      else if find_wallet i d = None then Inl (PrismaKnown ''P2025'')
      else Inr (d\<lparr>wallets := upd_rows (\<lambda>w. w_id w = i) (w_balance_update (\<lambda>_. b)) (wallets d)\<rparr>, ()))"

definition int4_opt :: "int option \<Rightarrow> bool" where
  "int4_opt x = (case x of None \<Rightarrow> True | Some n \<Rightarrow> int4 n)"

definition txn_create :: "txn \<Rightarrow> (db, txn) tx" where
  "txn_create r d =
     (if \<not> (int4 (t_amount r) \<and> int4_opt (t_balanceBefore r) \<and> int4_opt (t_balanceAfter r))
      then Inl Int4Overflow
      else case ins_row t_id r (txns d) of
        Inl e \<Rightarrow> Inl e | Inr t \<Rightarrow> Inr (d\<lparr>txns := t\<rparr>, r))"

text \<open>\<open>tx.transaction.update({ where: { id }, data })\<close>: returns the updated row.\<close>

definition txn_update :: "string \<Rightarrow> (txn \<Rightarrow> txn) \<Rightarrow> (db, txn) tx" where
  "txn_update i f d =
     (case find_txn i d of
        None \<Rightarrow> Inl (PrismaKnown ''P2025'')
      | Some t \<Rightarrow>
          if \<not> (int4_opt (t_balanceBefore (f t)) \<and> int4_opt (t_balanceAfter (f t)))
          then Inl Int4Overflow
          else Inr (d\<lparr>txns := upd_rows (\<lambda>t. t_id t = i) f (txns d)\<rparr>, f t))"

text \<open>\<open>tx.user.update({ where: { id }, data })\<close>\<close>

definition user_update :: "string \<Rightarrow> (user \<Rightarrow> user) \<Rightarrow> (db, user) tx" where
  "user_update i f d =
     (case find_user i d of
        None \<Rightarrow> Inl (PrismaKnown ''P2025'')
      | Some u \<Rightarrow> Inr (d\<lparr>users := upd_rows (\<lambda>u. u_id u = i) f (users d)\<rparr>, f u))"

lemma wallet_create_Inr [tx_simps]:
  "wallet_create r d = Inr (d', x) \<longleftrightarrow>
     w_id r \<notin> w_id ` set (wallets d) \<and> d' = d\<lparr>wallets := wallets d @ [r]\<rparr> \<and> x = r"
  by (auto simp: wallet_create_def ins_row_def split: if_splits)

lemma wallet_set_balance_Inr [tx_simps]:
  "wallet_set_balance i b d = Inr (d', u) \<longleftrightarrow>
     int4 b \<and> find_wallet i d \<noteq> None \<and>
     d' = d\<lparr>wallets := upd_rows (\<lambda>w. w_id w = i) (w_balance_update (\<lambda>_. b)) (wallets d)\<rparr>"
  by (auto simp: wallet_set_balance_def)

lemma txn_create_Inr [tx_simps]:
  "txn_create r d = Inr (d', x) \<longleftrightarrow>
     int4 (t_amount r) \<and> int4_opt (t_balanceBefore r) \<and> int4_opt (t_balanceAfter r) \<and>
     t_id r \<notin> t_id ` set (txns d) \<and> d' = d\<lparr>txns := txns d @ [r]\<rparr> \<and> x = r"
  by (auto simp: txn_create_def ins_row_def split: if_splits)

lemma txn_update_Inr [tx_simps]:
  "txn_update i f d = Inr (d', x) \<longleftrightarrow>
     (\<exists>t. find_txn i d = Some t \<and> int4_opt (t_balanceBefore (f t)) \<and>
        int4_opt (t_balanceAfter (f t)) \<and> x = f t \<and>
        d' = d\<lparr>txns := upd_rows (\<lambda>t. t_id t = i) f (txns d)\<rparr>)"
  by (auto simp: txn_update_def split: option.splits if_splits)

lemma user_update_Inr [tx_simps]:
  "user_update i f d = Inr (d', x) \<longleftrightarrow>
     (\<exists>u. find_user i d = Some u \<and> x = f u \<and>
        d' = d\<lparr>users := upd_rows (\<lambda>u. u_id u = i) f (users d)\<rparr>)"
  by (auto simp: user_update_def split: option.splits)

lemma find_wallet_in: "find_wallet i d = Some w \<Longrightarrow> w \<in> set (wallets d) \<and> w_id w = i"
  unfolding find_wallet_def by (rule find_Some_in)

lemma find_txn_in: "find_txn i d = Some t \<Longrightarrow> t \<in> set (txns d) \<and> t_id t = i"
  unfolding find_txn_def by (rule find_Some_in)

lemma find_user_in: "find_user i d = Some u \<Longrightarrow> u \<in> set (users d) \<and> u_id u = i"
  unfolding find_user_def by (rule find_Some_in)

interpretation wallet_balance: keyed_update w_id "w_balance_update (\<lambda>_. b)" for b
  by unfold_locales simp

lemma find_wallet_set_balance:
  "find_wallet j (d\<lparr>wallets := upd_rows (\<lambda>w. w_id w = i) (w_balance_update (\<lambda>_. b)) (wallets d)\<rparr>) =
     (if j = i then map_option (w_balance_update (\<lambda>_. b)) (find_wallet i d) else find_wallet j d)"
  by (simp add: find_wallet_def wallet_balance.find_same wallet_balance.find_other)

end
