(* ===== verification/Queue.thy ===== *)
theory Queue
  imports Schema
begin

text \<open>
  The message broker seen from the program: \<open>queue/events.ts\<close> (names, retry delays, the
  notification event and its parser) and \<open>queue/queue.service.ts\<close> (publishing, the connection
  life cycle and the topology asserted on every open). RabbitMQ and amqplib are outside: what
  the channel answers to a publish is the argument \<open>chan\<close>, whether opening succeeds is an
  argument of \<open>queue_open\<close>, and routing in a topology follows the documented exchange types.
\<close>

section \<open>Names and delays\<close>

definition EXCHANGE_events :: string where "EXCHANGE_events = ''wallet.events''"
definition EXCHANGE_dlx :: string where "EXCHANGE_dlx = ''wallet.dlx''"

definition RETRY_DELAYS_MS :: "int list" where
  "RETRY_DELAYS_MS = [5000, 30000, 120000]"

definition MAX_RETRIES :: nat where
  "MAX_RETRIES = length RETRY_DELAYS_MS"

definition QUEUE_push :: string where "QUEUE_push = ''notifications.push''"
definition QUEUE_dead :: string where "QUEUE_dead = ''notifications.push.dead''"
definition QUEUE_retry :: "nat \<Rightarrow> string" where
  "QUEUE_retry n = ''notifications.push.retry.'' @ show_nat n"

definition KEY_push :: string where "KEY_push = ''notification.push''"
definition KEY_dead :: string where "KEY_dead = ''notification.push.dead''"
definition KEY_retry :: "nat \<Rightarrow> string" where
  "KEY_retry n = ''notification.push.retry.'' @ show_nat n"

lemmas queue_names = EXCHANGE_events_def EXCHANGE_dlx_def QUEUE_push_def QUEUE_dead_def
  QUEUE_retry_def KEY_push_def KEY_dead_def KEY_retry_def

section \<open>The notification event\<close>

record notification_payload =
  np_title :: string
  np_body :: string
  np_tag :: "string option"
  np_url :: "string option"

record push_event =
  ev_id :: string
  ev_occurredAt :: string
  ev_userId :: string
  ev_payload :: notification_payload
  ev_requestId :: "string option"

definition opt_field :: "string \<Rightarrow> string option \<Rightarrow> (string \<times> jval) list" where
  "opt_field k x = (case x of None \<Rightarrow> [] | Some s \<Rightarrow> [(k, JStr s)])"

definition payload_json :: "notification_payload \<Rightarrow> jval" where
  "payload_json p = JObj ([(''title'', JStr (np_title p)), (''body'', JStr (np_body p))] @
     opt_field ''tag'' (np_tag p) @ opt_field ''url'' (np_url p))"

text \<open>The event as plain JSON on the wire.\<close>

definition event_json :: "push_event \<Rightarrow> jval" where
  "event_json e = JObj ([(''id'', JStr (ev_id e)), (''type'', JStr KEY_push),
     (''occurredAt'', JStr (ev_occurredAt e)), (''userId'', JStr (ev_userId e)),
     (''payload'', payload_json (ev_payload e))] @ opt_field ''requestId'' (ev_requestId e))"

text \<open>Reading a property of a JSON value: \<open>undefined\<close> is \<open>None\<close>.\<close>

definition jget :: "string \<Rightarrow> jval \<Rightarrow> jval option" where
  "jget k j = (case j of JObj fs \<Rightarrow> map_of fs k | _ \<Rightarrow> None)"

definition jstring :: "jval option \<Rightarrow> string option" where
  "jstring j = (case j of Some (JStr s) \<Rightarrow> Some s | _ \<Rightarrow> None)"

definition jtruthy :: "jval option \<Rightarrow> bool" where
  "jtruthy j = (case j of
      None \<Rightarrow> False | Some JNull \<Rightarrow> False | Some (JBool b) \<Rightarrow> b | Some (JNum n) \<Rightarrow> n \<noteq> 0
    | Some (JStr s) \<Rightarrow> s \<noteq> [] | Some (JArr _) \<Rightarrow> True | Some (JObj _) \<Rightarrow> True)"

text \<open>
  \<open>parseNotificationPushEvent\<close>: its argument is the result of \<open>JSON.parse\<close> on the body,
  \<open>None\<close> when that throws. It returns the parsed value itself (a cast), so the fields that are
  not checked stay whatever they were.
\<close>

definition parseNotificationPushEvent :: "jval option \<Rightarrow> exn + jval" where
  "parseNotificationPushEvent raw =
     (case raw of
        None \<Rightarrow> Inl (OtherError ''notification.push: body is not JSON'')
      | Some obj \<Rightarrow>
          if \<not> jtruthy (Some obj)
             \<or> jstring (jget ''id'' obj) = None
             \<or> jget ''type'' obj \<noteq> Some (JStr KEY_push)
             \<or> jstring (jget ''userId'' obj) = None
             \<or> \<not> jtruthy (jget ''payload'' obj)
             \<or> jstring (Option.bind (jget ''payload'' obj) (jget ''title'')) = None
             \<or> jstring (Option.bind (jget ''payload'' obj) (jget ''body'')) = None
          then Inl (OtherError ''notification.push: bad shape'')
          else Inr obj)"

lemma parse_event_json: "parseNotificationPushEvent (Some (event_json e)) = Inr (event_json e)"
  by (simp add: parseNotificationPushEvent_def event_json_def payload_json_def jget_def jstring_def
      jtruthy_def)

lemma parse_ok_fields:
  assumes "parseNotificationPushEvent raw = Inr obj"
  obtains i u where "raw = Some obj" "jget ''id'' obj = Some (JStr i)"
    "jget ''userId'' obj = Some (JStr u)" "jtruthy (jget ''payload'' obj)"
  using assms
  by (auto simp: parseNotificationPushEvent_def jstring_def split: option.splits if_splits
      jval.splits)

section \<open>The channel\<close>

record amqp_out =
  ao_routingKey :: string
  ao_content :: jval
  ao_retryCount :: "nat option"
  ao_messageId :: "string option"

text \<open>
  What \<open>channel.publish\<close> does: it takes the message and returns \<open>true\<close>, takes it and returns
  \<open>false\<close> because its buffer is full, or throws.
\<close>

datatype chan_reply = ChanAccepts | ChanBufferFull | ChanThrows string

text \<open>
  The service's fields. \<open>q_timer\<close> is the delay of the pending reconnect timeout (the handle that
  \<open>onModuleDestroy\<close> clears is no longer pending); \<open>q_opens\<close> and \<open>q_closes\<close> count the calls of
  the registered listeners, \<open>q_sent\<close> is what the channel took.
\<close>

record queue =
  q_channel :: bool
  q_conn :: bool
  q_consumerTag :: "string option"
  q_closing :: bool
  q_attempt :: nat
  q_timer :: "nat option"
  q_lastWarned :: "string option"
  q_log :: "string list"
  q_sent :: "amqp_out list"
  q_opens :: nat
  q_closes :: nat

definition fresh_queue :: queue where
  "fresh_queue = \<lparr>q_channel = False, q_conn = False, q_consumerTag = None, q_closing = False,
     q_attempt = 0, q_timer = None, q_lastWarned = None, q_log = [], q_sent = [], q_opens = 0,
     q_closes = 0\<rparr>"

definition isConnected :: "queue \<Rightarrow> bool" where
  "isConnected q \<longleftrightarrow> q_channel q"

definition queue_warn :: "string \<Rightarrow> queue \<Rightarrow> queue" where
  "queue_warn msg q =
     (if q_lastWarned q = Some msg then q
      else q\<lparr>q_lastWarned := Some msg, q_log := q_log q @ [''RabbitMQ unavailable -- '' @ msg]\<rparr>)"

definition publish :: "(amqp_out \<Rightarrow> chan_reply) \<Rightarrow> amqp_out \<Rightarrow> queue \<Rightarrow> bool \<times> queue" where
  "publish chan m q =
     (if \<not> q_channel q then (False, queue_warn ''not connected'' q)
      else case chan m of
             ChanAccepts \<Rightarrow> (True, q\<lparr>q_sent := q_sent q @ [m]\<rparr>)
           | ChanBufferFull \<Rightarrow> (False, q\<lparr>q_sent := q_sent q @ [m]\<rparr>)
           | ChanThrows e \<Rightarrow> (False, queue_warn e q))"

section \<open>Connection life cycle\<close>

definition RECONNECT_CAP_MS :: nat where
  "RECONNECT_CAP_MS = 10000"

definition scheduleReconnect :: "queue \<Rightarrow> queue" where
  "scheduleReconnect q =
     (if q_closing q \<or> q_timer q \<noteq> None then q
      else let a = q_attempt q + 1
           in q\<lparr>q_attempt := a, q_timer := Some (min (a * 500) RECONNECT_CAP_MS)\<rparr>)"

text \<open>\<open>open\<close>: the argument is the error that connecting or asserting the topology throws.\<close>

definition queue_open :: "string option \<Rightarrow> queue \<Rightarrow> queue" where
  "queue_open err q =
     (case err of
        None \<Rightarrow> q\<lparr>q_conn := True, q_channel := True, q_attempt := 0, q_lastWarned := None,
                  q_log := q_log q @ [''Connected to RabbitMQ -- exchange '' @ EXCHANGE_events @ '', queue '' @ QUEUE_push], q_opens := q_opens q + 1\<rparr>
      | Some e \<Rightarrow> scheduleReconnect (queue_warn e q))"

definition onConnectionClosed :: "queue \<Rightarrow> queue" where
  "onConnectionClosed q =
     (let q1 = q\<lparr>q_channel := False, q_conn := False, q_consumerTag := None\<rparr>
      in if q_closing q then q1
         else scheduleReconnect (queue_warn ''connection closed'' (q1\<lparr>q_closes := q_closes q + 1\<rparr>)))"

text \<open>The reconnect timer fires.\<close>

definition timer_fires :: "string option \<Rightarrow> queue \<Rightarrow> queue" where
  "timer_fires err q = queue_open err (q\<lparr>q_timer := None\<rparr>)"

definition queue_cancel :: "queue \<Rightarrow> queue" where
  "queue_cancel q = q\<lparr>q_consumerTag := None\<rparr>"

definition queue_consume :: "string \<Rightarrow> queue \<Rightarrow> (exn + unit) \<times> queue" where
  "queue_consume tag q =
     (if \<not> q_channel q then (Inl (OtherError ''QueueService: not connected''), q)
      else (Inr (), q\<lparr>q_consumerTag := Some tag\<rparr>))"

definition onModuleDestroy :: "queue \<Rightarrow> queue" where
  "onModuleDestroy q =
     (queue_cancel q)\<lparr>q_closing := True, q_timer := None, q_channel := False, q_conn := False\<rparr>"

text \<open>\<open>depth\<close>: the broker's count, or \<open>null\<close> when disconnected or when the check throws.\<close>

definition queue_depth :: "(string + nat) \<Rightarrow> queue \<Rightarrow> nat option \<times> queue" where
  "queue_depth reply q =
     (if \<not> q_channel q then (None, q)
      else case reply of Inr n \<Rightarrow> (Some n, q) | Inl e \<Rightarrow> (None, queue_warn e q))"

inductive queue_step :: "queue \<Rightarrow> queue \<Rightarrow> bool" where
  qs_publish: "queue_step q (snd (publish chan m q))"
| qs_close: "q_conn q \<Longrightarrow> queue_step q (onConnectionClosed q)"
| qs_timer: "q_timer q \<noteq> None \<Longrightarrow> queue_step q (timer_fires err q)"
| qs_consume: "queue_step q (snd (queue_consume tag q))"
| qs_cancel: "queue_step q (queue_cancel q)"
| qs_depth: "queue_step q (snd (queue_depth reply q))"
| qs_destroy: "queue_step q (onModuleDestroy q)"

definition queue_booted :: "queue \<Rightarrow> bool" where
  "queue_booted q \<longleftrightarrow> (\<exists>err. q = queue_open err fresh_queue)"

text \<open>
  The life-cycle invariant: unless the module is shutting down, a service without a channel has a
  reconnect scheduled, with a delay within the cap; a connected one has none; channel and
  connection go together and only a connected service holds a consumer.
\<close>

definition queue_inv :: "queue \<Rightarrow> bool" where
  "queue_inv q \<longleftrightarrow>
     (q_channel q \<longleftrightarrow> q_conn q)
     \<and> (\<not> q_closing q \<longrightarrow> (q_channel q \<longleftrightarrow> q_timer q = None))
     \<and> (q_closing q \<longrightarrow> \<not> q_channel q \<and> q_timer q = None)
     \<and> (\<forall>d. q_timer q = Some d \<longrightarrow> 0 < d \<and> d \<le> RECONNECT_CAP_MS)
     \<and> (q_consumerTag q \<noteq> None \<longrightarrow> q_channel q)"

lemma queue_warn_fields [simp]:
  "q_channel (queue_warn m q) = q_channel q" "q_conn (queue_warn m q) = q_conn q"
  "q_consumerTag (queue_warn m q) = q_consumerTag q" "q_closing (queue_warn m q) = q_closing q"
  "q_attempt (queue_warn m q) = q_attempt q" "q_timer (queue_warn m q) = q_timer q"
  "q_sent (queue_warn m q) = q_sent q" "q_closes (queue_warn m q) = q_closes q"
  by (simp_all add: queue_warn_def)

lemmas queue_defs = publish_def queue_open_def scheduleReconnect_def onConnectionClosed_def
  timer_fires_def queue_cancel_def queue_consume_def onModuleDestroy_def queue_depth_def

lemma queue_inv_boot: "queue_booted q \<Longrightarrow> queue_inv q"
  by (auto simp: queue_booted_def queue_inv_def queue_defs fresh_queue_def RECONNECT_CAP_MS_def
      Let_def split: option.splits)

lemma queue_inv_step: "queue_step q q' \<Longrightarrow> queue_inv q \<Longrightarrow> queue_inv q'"
proof (induction rule: queue_step.induct)
  case (qs_publish q chan m)
  then show ?case by (auto simp: queue_inv_def publish_def split: chan_reply.splits)
next
  case (qs_close q)
  then show ?case
    by (auto simp: queue_inv_def onConnectionClosed_def scheduleReconnect_def Let_def
        RECONNECT_CAP_MS_def)
next
  case (qs_timer q err)
  then show ?case
    by (auto simp: queue_inv_def timer_fires_def queue_open_def scheduleReconnect_def Let_def
        RECONNECT_CAP_MS_def split: option.splits)
next
  case (qs_depth q reply)
  then show ?case by (auto simp: queue_inv_def queue_depth_def split: sum.splits)
qed (auto simp: queue_inv_def queue_consume_def queue_cancel_def onModuleDestroy_def)

interpretation queue_life: invariant_system queue_booted queue_step queue_inv
  by unfold_locales (auto intro: queue_inv_boot queue_inv_step)

lemma publish_connected_accepts:
  "q_channel q \<Longrightarrow> chan m = ChanAccepts \<Longrightarrow> publish chan m q = (True, q\<lparr>q_sent := q_sent q @ [m]\<rparr>)"
  by (simp add: publish_def)

lemma publish_true_sent: "publish chan m q = (True, q') \<Longrightarrow> q_sent q' = q_sent q @ [m]"
  by (auto simp: publish_def split: if_splits chan_reply.splits)

lemma publish_sent_mono: "set (q_sent q) \<subseteq> set (q_sent (snd (publish chan m q)))"
  by (auto simp: publish_def split: chan_reply.splits)

lemma publish_channel [simp]: "q_channel (snd (publish chan m q)) = q_channel q"
  by (auto simp: publish_def split: chan_reply.splits)

section \<open>Topology\<close>

datatype exchange_type = Topic | Direct

datatype topology_decl =
    AssertExchange string exchange_type
  | AssertQueue (aq_name: string) (aq_ttl: "int option") (aq_dead: "(string \<times> string) option")
  | BindQueue (bq_queue: string) (bq_exchange: string) (bq_pattern: string)

text \<open>The declarations of \<open>open\<close>, in order; queue number \<open>n\<close> of the retry loop is \<open>i + 1\<close>.\<close>

definition retry_decls :: "nat \<Rightarrow> topology_decl list" where
  "retry_decls i =
     [AssertQueue (QUEUE_retry (i + 1)) (Some (RETRY_DELAYS_MS ! i)) (Some (EXCHANGE_events, KEY_push)),
      BindQueue (QUEUE_retry (i + 1)) EXCHANGE_events (KEY_retry (i + 1))]"

definition topology :: "topology_decl list" where
  "topology =
     [AssertExchange EXCHANGE_events Topic,
      AssertExchange EXCHANGE_dlx Direct,
      AssertQueue QUEUE_dead None None,
      BindQueue QUEUE_dead EXCHANGE_dlx KEY_dead,
      AssertQueue QUEUE_push None (Some (EXCHANGE_dlx, KEY_dead)),
      BindQueue QUEUE_push EXCHANGE_events KEY_push]
     @ concat (map retry_decls [0..<length RETRY_DELAYS_MS])"

text \<open>
  Routing: the queues bound to the exchange with the message's key (the patterns here hold no
  wildcard, so topic and direct exchanges agree). A message that a queue drops goes where its
  dead-letter arguments say.
\<close>

definition route :: "topology_decl list \<Rightarrow> string \<Rightarrow> string \<Rightarrow> string list" where
  "route tp ex key =
     [q. d \<leftarrow> tp, q \<leftarrow> (case d of BindQueue q e p \<Rightarrow> if e = ex \<and> p = key then [q] else [] | _ \<Rightarrow> [])]"

definition dead_letter :: "topology_decl list \<Rightarrow> string \<Rightarrow> string list" where
  "dead_letter tp qn =
     [r. d \<leftarrow> tp, r \<leftarrow> (case d of
        AssertQueue n ttl (Some (ex, key)) \<Rightarrow> if n = qn then route tp ex key else [] | _ \<Rightarrow> [])]"

definition queue_ttl :: "topology_decl list \<Rightarrow> string \<Rightarrow> int option" where
  "queue_ttl tp qn =
     (case [t. d \<leftarrow> tp, t \<leftarrow> (case d of AssertQueue n (Some ttl) x \<Rightarrow> if n = qn then [ttl] else [] | _ \<Rightarrow> [])]
      of [] \<Rightarrow> None | t # _ \<Rightarrow> Some t)"

text \<open>The connection heals itself. In every state the queue service can reach, unless it is
  shutting down, it is connected or a reconnect is scheduled within ten seconds; while shutting
  down it neither holds a channel nor reconnects; only a connected service holds a consumer.\<close>

theorem connection_heals:
  assumes "reach queue_booted queue_step q"
  shows "(\<not> q_closing q \<longrightarrow> q_channel q \<or> (\<exists>d. q_timer q = Some d \<and> 0 < d \<and> d \<le> RECONNECT_CAP_MS))
     \<and> (q_closing q \<longrightarrow> \<not> q_channel q \<and> q_timer q = None)
     \<and> (q_consumerTag q \<noteq> None \<longrightarrow> q_channel q)"
  using queue_life.reach_inv [OF assms] by (auto simp: queue_inv_def)

lemma connection_heals_witness:
  "\<exists>d. q_timer (onConnectionClosed (queue_open None fresh_queue)) = Some d \<and> d \<le> RECONNECT_CAP_MS"
proof -
  have "reach queue_booted queue_step (onConnectionClosed (queue_open None fresh_queue))"
  proof (rule reach_step)
    show "reach queue_booted queue_step (queue_open None fresh_queue)"
      by (rule reach_init) (auto simp: queue_booted_def)
    show "queue_step (queue_open None fresh_queue) (onConnectionClosed (queue_open None fresh_queue))"
      by (rule qs_close) (simp add: queue_open_def)
  qed
  from connection_heals [OF this] show ?thesis
    by (auto simp: onConnectionClosed_def queue_open_def fresh_queue_def scheduleReconnect_def Let_def)
qed

end
