(* ===== verification/Outbox.thy ===== *)
theory Outbox
  imports Queue
begin

text \<open>
  The transactional outbox of \<open>outbox/outbox.service.ts\<close> over the database and the queue: an
  event row is written inside the caller's transaction, published right after the commit
  (\<open>publishNow\<close>) and relayed from the table every two seconds as long as it is pending
  (\<open>relayPending\<close>); published rows are purged after seven days. The section on delivery
  proves that no step ever loses an event.
\<close>

section \<open>The service\<close>

definition RELAY_BATCH :: nat where "RELAY_BATCH = 50"
definition KEEP_PUBLISHED_MS :: int where "KEEP_PUBLISHED_MS = 7 * 86400000"
definition BROKER_DOWN :: string where
  "BROKER_DOWN = ''publish returned false (broker unavailable)''"

definition outbox_message :: "outbox_event \<Rightarrow> amqp_out" where
  "outbox_message r = \<lparr>ao_routingKey = ob_routingKey r, ao_content = ob_payload r,
     ao_retryCount = None, ao_messageId = Some (ob_id r)\<rparr>"

definition new_outbox_row :: "call_ctx \<Rightarrow> string \<Rightarrow> string \<Rightarrow> jval \<Rightarrow> outbox_event" where
  "new_outbox_row c i key payload = \<lparr>ob_id = i, ob_routingKey = key, ob_payload = payload,
     ob_status = OutPending, ob_attempts = 0, ob_lastError = None, ob_createdAt = now c,
     ob_publishedAt = None\<rparr>"

text \<open>\<open>enqueue\<close>: the only way an event enters the system.\<close>

definition outbox_enqueue :: "call_ctx \<Rightarrow> string \<Rightarrow> string \<Rightarrow> jval \<Rightarrow> (db, unit) tx" where
  "outbox_enqueue c i key payload d =
     (case ins_row ob_id (new_outbox_row c i key payload) (outbox d) of
        Inl e \<Rightarrow> Inl e | Inr t \<Rightarrow> Inr (d\<lparr>outbox := t\<rparr>, ()))"

definition mark_published :: "int \<Rightarrow> outbox_event \<Rightarrow> outbox_event" where
  "mark_published t r = r\<lparr>ob_status := OutPublished, ob_publishedAt := Some t\<rparr>"

definition mark_failed :: "outbox_event \<Rightarrow> outbox_event" where
  "mark_failed r = r\<lparr>ob_attempts := ob_attempts r + 1, ob_lastError := Some BROKER_DOWN\<rparr>"

text \<open>
  \<open>publishNow\<close>: never throws; a failing mark is only logged, so the row stays as it was
  (\<open>mark_ok\<close> says whether the database accepts the update).
\<close>

definition publishNow ::
  "(amqp_out \<Rightarrow> chan_reply) \<Rightarrow> bool \<Rightarrow> int \<Rightarrow> outbox_event \<Rightarrow> db \<Rightarrow> queue \<Rightarrow> bool \<times> db \<times> queue" where
  "publishNow chan mark_ok t row d q =
     (let (ok, q') = publish chan (outbox_message row) q;
          mark = (if ok then mark_published t else mark_failed);
          d' = (if mark_ok then d\<lparr>outbox := upd_rows (\<lambda>r. ob_id r = ob_id row) mark (outbox d)\<rparr> else d)
      in (ok, d', q'))"

text \<open>The relay's loop: publish the rows in order and split their ids into done and failed.\<close>

fun relay_loop ::
  "(amqp_out \<Rightarrow> chan_reply) \<Rightarrow> outbox_event list \<Rightarrow> queue \<Rightarrow> string list \<times> string list \<times> queue" where
  "relay_loop chan [] q = ([], [], q)"
| "relay_loop chan (r # rs) q =
     (let (ok, q1) = publish chan (outbox_message r) q;
          (done_ids, failed_ids, q2) = relay_loop chan rs q1
      in if ok then (ob_id r # done_ids, failed_ids, q2) else (done_ids, ob_id r # failed_ids, q2))"

text \<open>
  The batch: pending rows, oldest first, at most \<open>RELAY_BATCH\<close>, skipping the rows that another
  instance holds locked.
\<close>

definition relay_batch :: "(string \<Rightarrow> bool) \<Rightarrow> db \<Rightarrow> outbox_event list" where
  "relay_batch locked d =
     take RELAY_BATCH
       (filter (\<lambda>r. \<not> locked (ob_id r))
         (order_asc ob_createdAt (filter (\<lambda>r. ob_status r = OutPending) (outbox d))))"

text \<open>
  \<open>relayPending\<close>: \<open>relaying\<close> is the re-entrancy flag; \<open>commit_ok\<close> says whether the
  transaction commits. When it does not, what was published stays published and the rows stay
  pending.
\<close>

definition relayPending ::
  "(amqp_out \<Rightarrow> chan_reply) \<Rightarrow> (string \<Rightarrow> bool) \<Rightarrow> bool \<Rightarrow> bool \<Rightarrow> int \<Rightarrow> db \<Rightarrow> queue \<Rightarrow> nat \<times> db \<times> queue"
where
  "relayPending chan locked commit_ok relaying t d q =
     (if relaying \<or> \<not> isConnected q then (0, d, q)
      else let rows = relay_batch locked d
           in if rows = [] then (0, d, q)
              else let (done_ids, failed_ids, q') = relay_loop chan rows q;
                       d1 = (if done_ids \<noteq> [] then d\<lparr>outbox :=
                               upd_rows (\<lambda>r. List.member done_ids (ob_id r)) (mark_published t) (outbox d)\<rparr> else d);
                       d2 = (if failed_ids \<noteq> [] then d1\<lparr>outbox :=
                               upd_rows (\<lambda>r. List.member failed_ids (ob_id r)) mark_failed (outbox d1)\<rparr> else d1)
                   in if commit_ok then (length done_ids, d2, q') else (0, d, q'))"

definition old_published :: "int \<Rightarrow> outbox_event \<Rightarrow> bool" where
  "old_published cutoff r \<longleftrightarrow> ob_status r = OutPublished \<and>
     (case ob_publishedAt r of None \<Rightarrow> False | Some p \<Rightarrow> p < cutoff)"

definition purgePublished :: "int \<Rightarrow> db \<Rightarrow> nat \<times> db" where
  "purgePublished t d =
     (let cutoff = t - KEEP_PUBLISHED_MS
      in (count_rows (old_published cutoff) (outbox d),
          d\<lparr>outbox := del_rows (old_published cutoff) (outbox d)\<rparr>))"

section \<open>Operations\<close>

lemma outbox_enqueue_Inr [tx_simps]:
  "outbox_enqueue c i key payload d = Inr (d', u) \<longleftrightarrow>
     i \<notin> ob_id ` set (outbox d) \<and>
     d' = d\<lparr>outbox := outbox d @ [new_outbox_row c i key payload]\<rparr>"
  by (auto simp: outbox_enqueue_def ins_row_def new_outbox_row_def split: if_splits)

lemma mark_published_id [simp]: "ob_id (mark_published t r) = ob_id r"
  by (simp add: mark_published_def)

lemma mark_published_status [simp]: "ob_status (mark_published t r) = OutPublished"
  by (simp add: mark_published_def)

lemma mark_failed_id [simp]: "ob_id (mark_failed r) = ob_id r"
  by (simp add: mark_failed_def)

lemma mark_failed_status [simp]: "ob_status (mark_failed r) = ob_status r"
  by (simp add: mark_failed_def)

interpretation outbox_mark: keyed_update ob_id "mark_published t" for t
  by unfold_locales simp

lemma relay_loop_sent:
  "relay_loop chan rs q = (ds, fs, q') \<Longrightarrow>
     set (q_sent q) \<subseteq> set (q_sent q') \<and>
     (\<forall>i \<in> set ds. \<exists>m \<in> set (q_sent q'). ao_messageId m = Some i) \<and>
     set ds \<union> set fs = ob_id ` set rs \<and> length ds + length fs = length rs"
proof (induction rs arbitrary: q ds fs q')
  case Nil
  then show ?case by simp
next
  case (Cons r rs)
  obtain ok q1 where p: "publish chan (outbox_message r) q = (ok, q1)" by fastforce
  obtain ds1 fs1 q2 where l: "relay_loop chan rs q1 = (ds1, fs1, q2)" by (metis prod_cases3)
  have mono: "set (q_sent q) \<subseteq> set (q_sent q1)"
    using publish_sent_mono [of q chan "outbox_message r"] p by simp
  have ok: "ok \<Longrightarrow> outbox_message r \<in> set (q_sent q1)"
    using p publish_true_sent [of chan "outbox_message r" q q1] by auto
  have res: "(ds, fs, q') = (if ok then (ob_id r # ds1, fs1, q2) else (ds1, ob_id r # fs1, q2))"
    using Cons.prems p l by simp
  have ih: "set (q_sent q1) \<subseteq> set (q_sent q2)"
    "\<forall>i \<in> set ds1. \<exists>m \<in> set (q_sent q2). ao_messageId m = Some i"
    "set ds1 \<union> set fs1 = ob_id ` set rs" "length ds1 + length fs1 = length rs"
    using Cons.IH [OF l] by auto
  have mid: "ao_messageId (outbox_message r) = Some (ob_id r)" by (simp add: outbox_message_def)
  show ?case
    using res ih mono ok mid by (auto split: if_splits)
qed

lemma relay_loop_all_accepted:
  "q_channel q \<Longrightarrow> (\<And>m. chan m = ChanAccepts) \<Longrightarrow>
   relay_loop chan rs q = (map ob_id rs, [], q\<lparr>q_sent := q_sent q @ map outbox_message rs\<rparr>)"
  by (induction rs arbitrary: q) (simp_all add: publish_connected_accepts)

lemma publishNow_frame:
  "publishNow chan mk t row d q = (ok, d', q') \<Longrightarrow>
     \<exists>ob. d' = d\<lparr>outbox := ob\<rparr> \<and> map ob_id ob = map ob_id (outbox d)"
proof -
  assume "publishNow chan mk t row d q = (ok, d', q')"
  then have "d' = d \<or> d' = d\<lparr>outbox := upd_rows (\<lambda>r. ob_id r = ob_id row)
       (if ok then mark_published t else mark_failed) (outbox d)\<rparr>"
    by (auto simp: publishNow_def Let_def split: prod.splits if_splits)
  then show ?thesis by (elim disjE) (auto intro: exI [of _ "outbox d"] simp: map_upd_rows_key)
qed

section \<open>Delivery: nothing enqueued is lost\<close>

text \<open>
  The outbox as a system: the database, the queue, and the identifiers ever enqueued. A step is
  an enqueue that commits, a \<open>publishNow\<close>, a relay round (with any reply of the broker, any
  locks, and a commit that may fail), a purge, or a life-cycle step of the queue.
\<close>

record outbox_sys =
  os_db :: db
  os_queue :: queue
  os_enqueued :: "string set"

inductive outbox_step :: "outbox_sys \<Rightarrow> outbox_sys \<Rightarrow> bool" where
  os_enq: "outbox_enqueue c i key payload (os_db s) = Inr (d', u) \<Longrightarrow>
     outbox_step s (s\<lparr>os_db := d', os_enqueued := insert i (os_enqueued s)\<rparr>)"
| os_now: "publishNow chan mk t row (os_db s) (os_queue s) = (ok, d', q') \<Longrightarrow>
     outbox_step s (s\<lparr>os_db := d', os_queue := q'\<rparr>)"
| os_relay: "relayPending chan locked commit_ok relaying t (os_db s) (os_queue s) = (n, d', q') \<Longrightarrow>
     outbox_step s (s\<lparr>os_db := d', os_queue := q'\<rparr>)"
| os_purge: "purgePublished t (os_db s) = (n, d') \<Longrightarrow> outbox_step s (s\<lparr>os_db := d'\<rparr>)"
| os_life: "q_sent q' = q_sent (os_queue s) \<Longrightarrow> outbox_step s (s\<lparr>os_queue := q'\<rparr>)"

definition outbox_start :: "outbox_sys \<Rightarrow> bool" where
  "outbox_start s \<longleftrightarrow> outbox (os_db s) = [] \<and> os_enqueued s = {}"

definition handed_over :: "outbox_sys \<Rightarrow> string \<Rightarrow> bool" where
  "handed_over s i \<longleftrightarrow> (\<exists>m \<in> set (q_sent (os_queue s)). ao_messageId m = Some i)"

definition still_pending :: "outbox_sys \<Rightarrow> string \<Rightarrow> bool" where
  "still_pending s i \<longleftrightarrow> (\<exists>r \<in> set (outbox (os_db s)). ob_id r = i \<and> ob_status r = OutPending)"

definition delivery_inv :: "outbox_sys \<Rightarrow> bool" where
  "delivery_inv s \<longleftrightarrow>
     (\<forall>r \<in> set (outbox (os_db s)). ob_status r = OutPublished \<longrightarrow> handed_over s (ob_id r))
     \<and> (\<forall>i \<in> os_enqueued s. still_pending s i \<or> handed_over s i)"

text \<open>
  One marking step keeps the invariant when every row it turns to published has a message with
  its id among those sent.
\<close>

lemma delivery_inv_mark:
  assumes inv: "delivery_inv s"
    and rows: "ob = map f (outbox (os_db s))"
    and keep: "\<And>r. ob_id (f r) = ob_id r"
    and sent: "set (q_sent (os_queue s)) \<subseteq> set (q_sent q')"
    and pub: "\<And>r. ob_status (f r) \<noteq> ob_status r \<Longrightarrow>
        \<exists>m \<in> set (q_sent q'). ao_messageId m = Some (ob_id r)"
  shows "delivery_inv (s\<lparr>os_db := (os_db s)\<lparr>outbox := ob\<rparr>, os_queue := q'\<rparr>)"
proof -
  let ?s' = "s\<lparr>os_db := (os_db s)\<lparr>outbox := ob\<rparr>, os_queue := q'\<rparr>"
  have mono: "handed_over s i \<Longrightarrow> handed_over ?s' i" for i
    using sent by (auto simp: handed_over_def)
  have one: "handed_over ?s' (ob_id r)" if "ob_status (f r) \<noteq> ob_status r" for r
    using pub [OF that] by (simp add: handed_over_def)
  have "handed_over ?s' (ob_id r)" if r: "r \<in> set ob" "ob_status r = OutPublished" for r
  proof -
    obtain r0 where r0: "r0 \<in> set (outbox (os_db s))" "r = f r0" using r rows by auto
    show ?thesis
      using r0 r one [of r0] mono [of "ob_id r0"] inv keep
      by (cases "ob_status (f r0) = ob_status r0") (auto simp: delivery_inv_def)
  qed
  moreover have "still_pending ?s' i \<or> handed_over ?s' i" if i: "i \<in> os_enqueued s" for i
  proof (cases "handed_over s i")
    case True
    then show ?thesis by (simp add: mono)
  next
    case False
    then obtain r where r: "r \<in> set (outbox (os_db s))" "ob_id r = i" "ob_status r = OutPending"
      using i inv by (auto simp: delivery_inv_def still_pending_def)
    show ?thesis
      using r one [of r] keep [of r] rows
      by (cases "ob_status (f r) = ob_status r") (auto simp: still_pending_def)
  qed
  ultimately show ?thesis by (simp add: delivery_inv_def)
qed

lemma delivery_inv_start: "outbox_start s \<Longrightarrow> delivery_inv s"
  by (simp add: outbox_start_def delivery_inv_def)

lemma delivery_inv_enq:
  assumes "outbox_enqueue c i key payload (os_db s) = Inr (d', u)" and "delivery_inv s"
  shows "delivery_inv (s\<lparr>os_db := d', os_enqueued := insert i (os_enqueued s)\<rparr>)"
  using assms
  by (auto simp: tx_simps delivery_inv_def handed_over_def still_pending_def new_outbox_row_def)

lemma delivery_inv_now:
  assumes now: "publishNow chan mk t row (os_db s) (os_queue s) = (ok, d', q')"
    and inv: "delivery_inv s"
  shows "delivery_inv (s\<lparr>os_db := d', os_queue := q'\<rparr>)"
proof -
  let ?f = "\<lambda>r. if mk \<and> ob_id r = ob_id row
              then (if ok then mark_published t r else mark_failed r) else r"
  have p: "publish chan (outbox_message row) (os_queue s) = (ok, q')"
    using now by (auto simp: publishNow_def Let_def split: prod.splits)
  have d: "d' = (os_db s)\<lparr>outbox := map ?f (outbox (os_db s))\<rparr>"
    using now by (cases mk) (auto simp: publishNow_def Let_def upd_rows_def split: prod.splits)
  show ?thesis
    unfolding d
  proof (rule delivery_inv_mark [OF inv refl])
    show "set (q_sent (os_queue s)) \<subseteq> set (q_sent q')"
      using publish_sent_mono [of "os_queue s" chan "outbox_message row"] p by simp
    show "\<exists>m \<in> set (q_sent q'). ao_messageId m = Some (ob_id r)"
      if "ob_status (?f r) \<noteq> ob_status r" for r
      using that p
      by (cases ok) (auto simp: outbox_message_def split: if_splits dest!: publish_true_sent)
  qed simp
qed

text \<open>The committed relay as one map over the table.\<close>

definition relay_mark :: "int \<Rightarrow> string list \<Rightarrow> string list \<Rightarrow> outbox_event \<Rightarrow> outbox_event" where
  "relay_mark t ds fs r =
     (let r1 = (if ob_id r \<in> set ds then mark_published t r else r)
      in if ob_id r \<in> set fs then mark_failed r1 else r1)"

lemma relay_mark_id [simp]: "ob_id (relay_mark t ds fs r) = ob_id r"
  by (simp add: relay_mark_def Let_def)

lemma relay_mark_status:
  "ob_status (relay_mark t ds fs r) = (if ob_id r \<in> set ds then OutPublished else ob_status r)"
  by (simp add: relay_mark_def Let_def)

lemma relayPending_cases:
  assumes "relayPending chan locked commit_ok relaying t d q = (n, d', q')"
  obtains (idle) "d' = d" "q' = q" "n = 0"
  | (rolled_back) ds fs where "relay_loop chan (relay_batch locked d) q = (ds, fs, q')"
      "d' = d" "n = 0"
  | (committed) ds fs where "relay_loop chan (relay_batch locked d) q = (ds, fs, q')"
      "d' = d\<lparr>outbox := map (relay_mark t ds fs) (outbox d)\<rparr>" "n = length ds"
proof (cases "relaying \<or> \<not> isConnected q \<or> relay_batch locked d = []")
  case True
  then show ?thesis using assms idle by (auto simp: relayPending_def split: if_splits)
next
  case False
  obtain ds fs q2 where l: "relay_loop chan (relay_batch locked d) q = (ds, fs, q2)"
    by (metis prod_cases3)
  have m: "map (relay_mark t ds fs) (outbox d) =
      (let o1 = (if ds \<noteq> [] then upd_rows (\<lambda>r. List.member ds (ob_id r)) (mark_published t) (outbox d)
                 else outbox d)
       in if fs \<noteq> [] then upd_rows (\<lambda>r. List.member fs (ob_id r)) mark_failed o1 else o1)"
    by (auto simp: relay_mark_def upd_rows_def Let_def intro!: map_idI)
  show ?thesis
  proof (cases commit_ok)
    case True
    have "d' = d\<lparr>outbox := map (relay_mark t ds fs) (outbox d)\<rparr> \<and> n = length ds \<and> q' = q2"
      using assms False True l unfolding m by (auto simp: relayPending_def Let_def)
    then show ?thesis using committed l by blast
  next
    case no: False
    then show ?thesis using assms False l rolled_back by (auto simp: relayPending_def Let_def)
  qed
qed

lemma delivery_inv_relay:
  assumes rel: "relayPending chan locked commit_ok relaying t (os_db s) (os_queue s) = (n, d', q')"
    and inv: "delivery_inv s"
  shows "delivery_inv (s\<lparr>os_db := d', os_queue := q'\<rparr>)"
  using rel
proof (cases rule: relayPending_cases)
  case idle
  then show ?thesis using inv by simp
next
  case (rolled_back ds fs)
  have eq: "os_db s = (os_db s)\<lparr>outbox := map (\<lambda>r. r) (outbox (os_db s))\<rparr>" by simp
  have "delivery_inv (s\<lparr>os_db := (os_db s)\<lparr>outbox := map (\<lambda>r. r) (outbox (os_db s))\<rparr>, os_queue := q'\<rparr>)"
    using relay_loop_sent [OF rolled_back(1)] by (intro delivery_inv_mark [OF inv refl]) auto
  then show ?thesis using rolled_back by simp
next
  case (committed ds fs)
  show ?thesis
    unfolding committed(2) using relay_loop_sent [OF committed(1)]
    by (intro delivery_inv_mark [OF inv refl]) (auto simp: relay_mark_status split: if_splits)
qed

lemma delivery_inv_purge:
  "purgePublished t (os_db s) = (n, d') \<Longrightarrow> delivery_inv s \<Longrightarrow> delivery_inv (s\<lparr>os_db := d'\<rparr>)"
proof -
  assume "purgePublished t (os_db s) = (n, d')" and inv: "delivery_inv s"
  then have ob: "set (outbox d') = {r \<in> set (outbox (os_db s)). \<not> old_published (t - KEEP_PUBLISHED_MS) r}"
    by (auto simp: purgePublished_def Let_def set_del_rows)
  let ?s' = "s\<lparr>os_db := d'\<rparr>"
  have same: "handed_over ?s' i = handed_over s i" for i by (simp add: handed_over_def)
  have "still_pending s i \<Longrightarrow> still_pending ?s' i" for i
    by (auto simp: still_pending_def ob old_published_def)
  then show ?thesis using inv by (auto simp: delivery_inv_def same ob)
qed

lemma delivery_inv_life:
  "q_sent q' = q_sent (os_queue s) \<Longrightarrow> delivery_inv s \<Longrightarrow> delivery_inv (s\<lparr>os_queue := q'\<rparr>)"
  by (simp add: delivery_inv_def handed_over_def still_pending_def)

lemma delivery_inv_step: "outbox_step s s' \<Longrightarrow> delivery_inv s \<Longrightarrow> delivery_inv s'"
  by (induction rule: outbox_step.induct)
    (auto intro: delivery_inv_enq delivery_inv_now delivery_inv_relay delivery_inv_purge
      delivery_inv_life)

interpretation delivery: invariant_system outbox_start outbox_step delivery_inv
  by unfold_locales (auto intro: delivery_inv_start delivery_inv_step)

text \<open>With no lock held elsewhere and a broker that takes everything, a round drains a batch.\<close>

definition pending_rows :: "db \<Rightarrow> outbox_event list" where
  "pending_rows d = filter (\<lambda>r. ob_status r = OutPending) (outbox d)"

definition all_accept :: "amqp_out \<Rightarrow> chan_reply" where
  "all_accept m = ChanAccepts"

definition no_locks :: "string \<Rightarrow> bool" where
  "no_locks i = False"

lemma relay_batch_no_locks:
  "relay_batch no_locks d = take RELAY_BATCH (order_asc ob_createdAt (pending_rows d))"
proof -
  have "filter (\<lambda>r. \<not> no_locks (ob_id r)) xs = xs" for xs :: "outbox_event list"
    by (simp add: no_locks_def)
  then show ?thesis by (simp add: relay_batch_def pending_rows_def)
qed

lemma filter_beyond_prefix:
  assumes "distinct (map key xs)"
  shows "filter (\<lambda>r. key r \<notin> key ` set (take n xs)) xs = drop n xs"
proof -
  have "distinct (map key (take n xs @ drop n xs))" using assms by simp
  then have dis: "key ` set (take n xs) \<inter> key ` set (drop n xs) = {}"
    by (simp only: map_append distinct_append set_map)
  have "filter (\<lambda>r. key r \<notin> key ` set (take n xs)) (take n xs @ drop n xs) =
      filter (\<lambda>r. key r \<notin> key ` set (take n xs)) (drop n xs)"
    by (simp only: filter_append) (simp add: filter_empty_conv)
  also have "\<dots> = drop n xs"
    using dis by (intro filter_True) blast
  finally show ?thesis by simp
qed

lemma pending_after_mark:
  "pending_rows (d\<lparr>outbox := map (relay_mark t ds fs) (outbox d)\<rparr>) =
     map (relay_mark t ds fs) (filter (\<lambda>r. ob_id r \<notin> set ds) (pending_rows d))"
proof -
  have "(ob_status (relay_mark t ds fs r) = OutPending) =
      (ob_status r = OutPending \<and> ob_id r \<notin> set ds)" for r :: outbox_event
    by (simp add: relay_mark_status)
  then show ?thesis by (simp add: pending_rows_def filter_map comp_def conj_commute)
qed

lemma length_filter_mset: "mset xs = mset ys \<Longrightarrow> length (filter P xs) = length (filter P ys)"
  by (metis mset_filter size_mset)

lemma relay_round_drains:
  assumes dis: "distinct (map ob_id (outbox d))" and up: "q_channel q"
    and res_def: "res = relayPending all_accept no_locks True False t d q"
  shows "length (pending_rows (fst (snd res))) = length (pending_rows d) - RELAY_BATCH"
    and "fst res = min RELAY_BATCH (length (pending_rows d))"
    and "distinct (map ob_id (outbox (fst (snd res))))" and "q_channel (snd (snd res))"
proof -
  define S where "S = order_asc ob_createdAt (pending_rows d)"
  define ds where "ds = map ob_id (take RELAY_BATCH S)"
  have len: "length S = length (pending_rows d)" by (simp add: S_def order_asc_def)
  have mS: "mset S = mset (pending_rows d)" by (simp add: S_def order_asc_def)
  have disS: "distinct (map ob_id S)"
    using dis mS by (metis distinct_map_filter mset_eq_imp_distinct_iff mset_map pending_rows_def)
  have batch: "relay_batch no_locks d = take RELAY_BATCH S"
    by (simp add: relay_batch_no_locks S_def)
  have loop: "relay_loop all_accept (take RELAY_BATCH S) q =
      (ds, [], q\<lparr>q_sent := q_sent q @ map outbox_message (take RELAY_BATCH S)\<rparr>)"
    unfolding ds_def by (rule relay_loop_all_accepted [OF up]) (simp add: all_accept_def)
  have res: "res = (length ds, d\<lparr>outbox := map (relay_mark t ds []) (outbox d)\<rparr>,
      q\<lparr>q_sent := q_sent q @ map outbox_message (take RELAY_BATCH S)\<rparr>)"
  proof (cases "take RELAY_BATCH S = []")
    case True
    then have "ds = []" by (simp add: ds_def)
    moreover have "map (relay_mark t [] []) (outbox d) = outbox d"
      by (simp add: relay_mark_def map_idI)
    ultimately show ?thesis
      using True by (simp add: res_def relayPending_def batch)
  next
    case False
    then have "ds \<noteq> []" by (simp add: ds_def)
    then show ?thesis
      using False up by (simp add: res_def relayPending_def batch loop isConnected_def upd_rows_def
          relay_mark_def cong: map_cong)
  qed
  have "length (filter (\<lambda>r. ob_id r \<notin> set ds) (pending_rows d)) =
      length (filter (\<lambda>r. ob_id r \<notin> ob_id ` set (take RELAY_BATCH S)) S)"
    unfolding ds_def set_map by (rule length_filter_mset [OF mS [symmetric]])
  also have "\<dots> = length (pending_rows d) - RELAY_BATCH"
    by (simp add: filter_beyond_prefix [OF disS] len)
  finally show "length (pending_rows (fst (snd res))) = length (pending_rows d) - RELAY_BATCH"
    by (simp add: res pending_after_mark)
  show "fst res = min RELAY_BATCH (length (pending_rows d))"
    by (simp add: res ds_def len min.commute)
  show "distinct (map ob_id (outbox (fst (snd res))))"
    using dis by (simp add: res comp_def)
  show "q_channel (snd (snd res))" using up by (simp add: res)
qed

text \<open>C17: no event is lost. In every state the outbox system can reach, whatever the broker, the
  database, the locks and the connection did, each event that was ever enqueued is still pending in
  the table or has been handed to the broker under its id, and no row counts as published unless it was.\<close>

theorem no_event_is_lost:
  assumes "reach outbox_start outbox_step s" and "i \<in> os_enqueued s"
  shows "(still_pending s i \<or> handed_over s i) \<and>
     (\<forall>r \<in> set (outbox (os_db s)). ob_status r = OutPublished \<longrightarrow> handed_over s (ob_id r))"
  using delivery.reach_inv [OF assms(1)] assms(2) by (auto simp: delivery_inv_def)

definition outbox_ctx :: call_ctx where
  "outbox_ctx = \<lparr>now = 0, uuids = (\<lambda>n. ''x''), cx_requestId = [], cx_ipAddress = None, cx_userAgent = None\<rparr>"

lemma no_event_is_lost_witness:
  "still_pending \<lparr>os_db = empty_db\<lparr>outbox := [new_outbox_row outbox_ctx ''e1'' KEY_push JNull]\<rparr>,
      os_queue = fresh_queue, os_enqueued = {''e1''}\<rparr> ''e1''
   \<or> handed_over \<lparr>os_db = empty_db\<lparr>outbox := [new_outbox_row outbox_ctx ''e1'' KEY_push JNull]\<rparr>,
      os_queue = fresh_queue, os_enqueued = {''e1''}\<rparr> ''e1''"
proof -
  let ?s = "\<lparr>os_db = empty_db, os_queue = fresh_queue, os_enqueued = {}\<rparr>"
  have "reach outbox_start outbox_step ?s"
    by (rule reach_init) (simp add: outbox_start_def empty_db_def)
  moreover have "outbox_step ?s \<lparr>os_db = empty_db\<lparr>outbox := [new_outbox_row outbox_ctx ''e1'' KEY_push JNull]\<rparr>,
      os_queue = fresh_queue, os_enqueued = {''e1''}\<rparr>"
    using os_enq [of outbox_ctx "''e1''" KEY_push JNull ?s "empty_db\<lparr>outbox := [new_outbox_row outbox_ctx ''e1'' KEY_push JNull]\<rparr>" "()"]
    by (simp add: outbox_enqueue_def ins_row_def empty_db_def)
  ultimately have "reach outbox_start outbox_step \<lparr>os_db = empty_db\<lparr>outbox := [new_outbox_row outbox_ctx ''e1'' KEY_push JNull]\<rparr>,
      os_queue = fresh_queue, os_enqueued = {''e1''}\<rparr>"
    by (rule reach_step)
  from no_event_is_lost [OF this, of "''e1''"] show ?thesis by simp
qed

text \<open>Successive relay rounds two seconds apart.\<close>

fun relay_rounds :: "nat \<Rightarrow> int \<Rightarrow> db \<Rightarrow> queue \<Rightarrow> db \<times> queue" where
  "relay_rounds 0 t d q = (d, q)"
| "relay_rounds (Suc n) t d q =
     (let (k, d', q') = relayPending all_accept no_locks True False t d q
      in relay_rounds n (t + 2000) d' q')"

lemma relay_rounds_backlog:
  assumes "distinct (map ob_id (outbox d))" and "q_channel q"
  shows "length (pending_rows (fst (relay_rounds n t d q))) = length (pending_rows d) - n * RELAY_BATCH"
  using assms
proof (induction n arbitrary: t d q)
  case 0
  then show ?case by simp
next
  case (Suc n)
  obtain k d' q' where r: "relayPending all_accept no_locks True False t d q = (k, d', q')" by (metis prod_cases3)
  note round = relay_round_drains [OF Suc.prems r [symmetric]]
  show ?case
    using Suc.IH [of d' q' "t + 2000"] round r by simp
qed



end
