(* ===== verification/Cache.thy ===== *)
theory Cache
  imports Prelude
begin

text \<open>
  \<open>backend/src/cache/cache.service.ts\<close>: cache-aside over Redis. Redis is a store of values with
  an expiry time that is either reachable or failing every command; a failing Redis turns reads
  into misses and writes into no-ops (\<open>lastWarned\<close> keeps the log quiet). The values are of any
  type: each user of the cache has its own key prefix and its own instance. The last section
  states what a client may rely on as a locale and interprets it on the service.
\<close>

section \<open>The service\<close>

record 'v cache =
  redis_error :: "string option"
  redis_store :: "string \<rightharpoonup> 'v \<times> int"
  last_warned :: "string option"
  warnings :: "string list"

definition empty_cache :: "'v cache" where
  "empty_cache = \<lparr>redis_error = None, redis_store = Map.empty, last_warned = None, warnings = []\<rparr>"

text \<open>\<open>warn\<close>: one line per distinct error.\<close>

definition cache_warn :: "string \<Rightarrow> 'v cache \<Rightarrow> 'v cache" where
  "cache_warn msg c =
     (if last_warned c = Some msg then c
      else c\<lparr>last_warned := Some msg,
             warnings := warnings c @ [''Redis unavailable -- running uncached: '' @ msg]\<rparr>)"

definition cache_ping :: "'v cache \<Rightarrow> bool" where
  "cache_ping c \<longleftrightarrow> redis_error c = None"

text \<open>Redis answers a \<open>GET\<close> with the value that has not expired yet.\<close>

definition redis_lookup :: "int \<Rightarrow> string \<Rightarrow> 'v cache \<Rightarrow> 'v option" where
  "redis_lookup t k c =
     (case redis_store c k of
        None \<Rightarrow> None
      | Some (v, expires) \<Rightarrow> if t < expires then Some v else None)"

definition cache_get :: "int \<Rightarrow> string \<Rightarrow> 'v cache \<Rightarrow> 'v option \<times> 'v cache" where
  "cache_get t k c =
     (case redis_error c of
        None \<Rightarrow> (redis_lookup t k c, c)
      | Some e \<Rightarrow> (None, cache_warn e c))"

definition cache_set :: "int \<Rightarrow> string \<Rightarrow> 'v \<Rightarrow> int \<Rightarrow> 'v cache \<Rightarrow> 'v cache" where
  "cache_set t k v ttlSeconds c =
     (case redis_error c of
        None \<Rightarrow> c\<lparr>redis_store := (redis_store c)(k \<mapsto> (v, t + 1000 * ttlSeconds))\<rparr>
      | Some e \<Rightarrow> cache_warn e c)"

definition cache_del :: "string \<Rightarrow> 'v cache \<Rightarrow> 'v cache" where
  "cache_del k c =
     (case redis_error c of
        None \<Rightarrow> c\<lparr>redis_store := (redis_store c)(k := None)\<rparr>
      | Some e \<Rightarrow> cache_warn e c)"

text \<open>
  What a \<open>cacheable\<close> callback returns: \<open>false\<close>, \<open>true\<close>, or a number of seconds. The
  default keeps everything but \<open>null\<close> and empty lists; on the list-valued caches that is
  \<open>default_cacheable_list\<close>.
\<close>

datatype cache_decision = DontCache | CacheTtl | CacheFor int

definition default_cacheable :: "'v \<Rightarrow> cache_decision" where
  "default_cacheable v = CacheTtl"

definition default_cacheable_list :: "'e list \<Rightarrow> cache_decision" where
  "default_cacheable_list v = (if v = [] then DontCache else CacheTtl)"

text \<open>
  \<open>wrap\<close>: a hit is returned as it is; a miss runs \<open>fn\<close>, which has a state of its own (the
  requests it sends) and may throw, in which case nothing is stored.
\<close>

definition cache_wrap ::
  "int \<Rightarrow> string \<Rightarrow> int \<Rightarrow> ('s \<Rightarrow> (exn + 'v) \<times> 's) \<Rightarrow> ('v \<Rightarrow> cache_decision) \<Rightarrow> 'v cache \<Rightarrow> 's
     \<Rightarrow> (exn + 'v) \<times> 'v cache \<times> 's" where
  "cache_wrap t key ttlSeconds fn cacheable c s =
     (case cache_get t key c of
        (Some hit, c') \<Rightarrow> (Inr hit, c', s)
      | (None, c') \<Rightarrow>
          (case fn s of
             (Inl e, s') \<Rightarrow> (Inl e, c', s')
           | (Inr v, s') \<Rightarrow>
               (case cacheable v of
                  DontCache \<Rightarrow> (Inr v, c', s')
                | CacheTtl \<Rightarrow> (Inr v, cache_set t key v ttlSeconds c', s')
                | CacheFor n \<Rightarrow> (Inr v, cache_set t key v n c', s'))))"

section \<open>Operations\<close>

lemma cache_warn_idem: "cache_warn m (cache_warn m c) = cache_warn m c"
  by (simp add: cache_warn_def)

lemma cache_warn_store [simp]: "redis_store (cache_warn m c) = redis_store c"
  by (simp add: cache_warn_def)

lemma cache_warn_error [simp]: "redis_error (cache_warn m c) = redis_error c"
  by (simp add: cache_warn_def)

lemma cache_get_store [simp]: "redis_store (snd (cache_get t k c)) = redis_store c"
  by (auto simp: cache_get_def split: option.splits)

lemma cache_get_error [simp]: "redis_error (snd (cache_get t k c)) = redis_error c"
  by (auto simp: cache_get_def split: option.splits)

lemma cache_set_error [simp]: "redis_error (cache_set t k v n c) = redis_error c"
  by (auto simp: cache_set_def split: option.splits)

lemma cache_get_set_same:
  "redis_error c = None \<Longrightarrow> t' < t + 1000 * ttl \<Longrightarrow>
   cache_get t' k (cache_set t k v ttl c) = (Some v, cache_set t k v ttl c)"
  by (simp add: cache_get_def cache_set_def redis_lookup_def)

lemma cache_get_set_other:
  "k' \<noteq> k \<Longrightarrow> fst (cache_get t' k' (cache_set t k v ttl c)) = fst (cache_get t' k' c)"
  by (auto simp: cache_get_def cache_set_def redis_lookup_def split: option.splits)

lemma cache_get_expired:
  "redis_error c = None \<Longrightarrow> t + 1000 * ttl \<le> t' \<Longrightarrow>
   fst (cache_get t' k (cache_set t k v ttl c)) = None"
  by (simp add: cache_get_def cache_set_def redis_lookup_def)

lemma cache_down_miss: "redis_error c = Some e \<Longrightarrow> fst (cache_get t k c) = None"
  by (simp add: cache_get_def)

section \<open>What a client of the cache relies on\<close>

text \<open>
  The interface of a cache-aside store: a value put under a key is read back under that key until
  it expires and under no other key, as long as the store is up; a store that is down answers no
  read. The client lemma is the one the services use: after a miss whose value was kept, the next
  wrap within the time to live returns that value and does not run its function.
\<close>

locale cache_store =
  fixes get :: "int \<Rightarrow> string \<Rightarrow> 'c \<Rightarrow> 'v option \<times> 'c"
    and put :: "int \<Rightarrow> string \<Rightarrow> 'v \<Rightarrow> int \<Rightarrow> 'c \<Rightarrow> 'c"
    and up :: "'c \<Rightarrow> bool"
  assumes get_put: "up c \<Longrightarrow> t' < t + 1000 * ttl \<Longrightarrow> fst (get t' k (put t k v ttl c)) = Some v"
    and get_put_other: "k' \<noteq> k \<Longrightarrow> fst (get t' k' (put t k v ttl c)) = fst (get t' k' c)"
    and get_expired: "up c \<Longrightarrow> t + 1000 * ttl \<le> t' \<Longrightarrow> fst (get t' k (put t k v ttl c)) = None"
    and get_down: "\<not> up c \<Longrightarrow> fst (get t k c) = None"
    and put_up: "up (put t k v ttl c) \<longleftrightarrow> up c"
begin

lemma read_back_iff:
  "up c \<Longrightarrow> fst (get t' k (put t k v ttl c)) = Some v \<longleftrightarrow> t' < t + 1000 * ttl"
  by (metis get_expired get_put not_less option.distinct(1))

lemma last_put_wins:
  "up c \<Longrightarrow> t' < t2 + 1000 * ttl2 \<Longrightarrow>
   fst (get t' k (put t2 k v2 ttl2 (put t1 k v1 ttl1 c))) = Some v2"
  by (rule get_put) (simp_all add: put_up)

lemma down_forever: "\<not> up c \<Longrightarrow> fst (get t' k (put t k v ttl c)) = None"
  by (simp add: get_down put_up)

end

interpretation cs: cache_store cache_get cache_set cache_ping
  by unfold_locales
    (auto simp: cache_ping_def cache_get_set_same cache_get_set_other cache_get_expired
      cache_down_miss)

lemma cache_wrap_hit:
  "fst (cache_get t k c) = Some v \<Longrightarrow>
   cache_wrap t k ttl fn cacheable c s = (Inr v, snd (cache_get t k c), s)"
  by (cases "cache_get t k c") (auto simp: cache_wrap_def)

lemma cache_wrap_miss_error:
  "fst (cache_get t k c) = None \<Longrightarrow> fn s = (Inl e, s') \<Longrightarrow>
   cache_wrap t k ttl fn cacheable c s = (Inl e, snd (cache_get t k c), s')"
  by (cases "cache_get t k c") (auto simp: cache_wrap_def)

lemma cache_wrap_miss_ok:
  "fst (cache_get t k c) = None \<Longrightarrow> fn s = (Inr v, s') \<Longrightarrow> cacheable v = CacheTtl \<Longrightarrow>
   cache_wrap t k ttl fn cacheable c s =
     (Inr v, cache_set t k v ttl (snd (cache_get t k c)), s')"
  by (cases "cache_get t k c") (auto simp: cache_wrap_def)

lemma cache_wrap_down:
  "redis_error c = Some e \<Longrightarrow> fst (cache_wrap t k ttl fn cacheable c s) = fst (fn s)"
  by (auto simp: cache_wrap_def cache_get_def split: cache_decision.splits sum.splits prod.splits)

lemma cache_wrap_error_store:
  assumes "cache_wrap t k ttl fn cacheable c s = (Inl e, c', s')"
  shows "redis_store c' = redis_store c"
proof -
  have "c' = snd (cache_get t k c)"
    using assms by (auto simp: cache_wrap_def split: prod.splits option.splits sum.splits
        cache_decision.splits)
  then show ?thesis by simp
qed

text \<open>Two wraps of one key: the second returns what the first stored and runs nothing.\<close>

lemma cache_wrap_twice:
  assumes "redis_error c = None" "fst (cache_get t k c) = None" "fn s = (Inr v, s')"
    and "cacheable v = CacheTtl" "t' < t + 1000 * ttl"
    and "cache_wrap t k ttl fn cacheable c s = (r, c', s1)"
  shows "fst (cache_wrap t' k ttl fn' cacheable' c' s1) = Inr v"
    and "snd (snd (cache_wrap t' k ttl fn' cacheable' c' s1)) = s1"
proof -
  have c': "c' = cache_set t k v ttl (snd (cache_get t k c))" "s1 = s'"
    using assms by (auto simp: cache_wrap_miss_ok)
  have "fst (cache_get t' k c') = Some v"
    unfolding c' using assms by (intro cs.get_put) (simp_all add: cache_ping_def)
  then show "fst (cache_wrap t' k ttl fn' cacheable' c' s1) = Inr v"
    and "snd (snd (cache_wrap t' k ttl fn' cacheable' c' s1)) = s1"
    by (simp_all add: cache_wrap_hit)
qed

end
