(* ===== verification/Rates.thy ===== *)
theory Rates
  imports Cache
begin

text \<open>
  Money arithmetic and foreign exchange: \<open>wallets/format-money.ts\<close>, \<open>rates/convert-minor.ts\<close>
  and \<open>rates/rates.service.ts\<close>. A \<open>Prisma.Decimal\<close> is identified with its numeric value (a
  rational); its operations belong to decimal.js and are a parameter \<open>decimal_lib\<close>. The
  documented behaviour used here is the locale \<open>decimal_laws\<close>. The exchange-rate provider is a
  function from the requested URL to a reply.
\<close>

section \<open>Amounts as text\<close>

text \<open>
  \<open>(amount / 100).toFixed(2)\<close> for the integer amounts of the ledger; the symbols of \<open>EUR\<close> and
  \<open>GBP\<close> are given by their UTF-8 bytes.
\<close>

definition to_fixed2 :: "int \<Rightarrow> string" where
  "to_fixed2 amount =
     (let n = nat \<bar>amount\<bar>; c = n mod 100;
          digits = show_nat (n div 100) @ ''.'' @ (if c < 10 then ''0'' else []) @ show_nat c
      in if amount < 0 then ''-'' @ digits else digits)"

definition currency_symbol :: "string \<Rightarrow> string option" where
  "currency_symbol c =
     (if c = ''USD'' then Some ''$''
      else if c = ''EUR'' then Some [CHR 0xE2, CHR 0x82, CHR 0xAC]
      else if c = ''GBP'' then Some [CHR 0xC2, CHR 0xA3]
      else None)"

definition formatMinor :: "int \<Rightarrow> string \<Rightarrow> string" where
  "formatMinor amount currency =
     (let n = to_fixed2 amount
      in case currency_symbol currency of Some symb \<Rightarrow> symb @ n | None \<Rightarrow> n @ '' '' @ currency)"

section \<open>Decimals\<close>

record decimal_lib =
  d_times :: "rat \<Rightarrow> rat \<Rightarrow> rat"
  d_round0 :: "rat \<Rightarrow> int"
  d_toString :: "rat \<Rightarrow> string"
  d_parse :: "string \<Rightarrow> rat"

text \<open>\<open>new Decimal(amountMinor).times(rate).toDecimalPlaces(0, ROUND_HALF_EVEN).toNumber()\<close>\<close>

definition convertMinor :: "decimal_lib \<Rightarrow> int \<Rightarrow> rat \<Rightarrow> int" where
  "convertMinor D amountMinor rate = d_round0 D (d_times D (of_int amountMinor) rate)"

text \<open>Round half to even, as a reference.\<close>

definition round_half_even :: "rat \<Rightarrow> int" where
  "round_half_even x =
     (let f = \<lfloor>x\<rfloor>; d = x - of_int f
      in if d < 1/2 then f else if 1/2 < d then f + 1 else if even f then f else f + 1)"

text \<open>
  What decimal.js documents: a product that fits the default precision of 20 significant digits
  is exact, and rounding to 0 places with \<open>ROUND_HALF_EVEN\<close> gives the nearest integer, the even
  one of two.
\<close>

definition fits20 :: "rat \<Rightarrow> bool" where
  "fits20 x \<longleftrightarrow> (\<exists>m k. x = of_int m / 10 ^ k \<and> \<bar>m\<bar> < 10 ^ 20)"

locale decimal_laws =
  fixes D :: decimal_lib
  assumes times_exact: "fits20 (x * y) \<Longrightarrow> d_times D x y = x * y"
    and round_nearest: "2 * \<bar>of_int (d_round0 D x) - x\<bar> \<le> 1"
    and round_tie: "2 * \<bar>of_int (d_round0 D x) - x\<bar> = 1 \<Longrightarrow> even (d_round0 D x)"

lemma nearest_even_unique:
  fixes x :: rat and m n :: int
  assumes m: "2 * \<bar>of_int m - x\<bar> \<le> 1" "2 * \<bar>of_int m - x\<bar> = 1 \<Longrightarrow> even m"
    and n: "2 * \<bar>of_int n - x\<bar> \<le> 1" "2 * \<bar>of_int n - x\<bar> = 1 \<Longrightarrow> even n"
  shows "m = n"
proof (rule ccontr)
  assume neq: "m \<noteq> n"
  have "2 * \<bar>of_int m - of_int n :: rat\<bar> \<le> 2 * \<bar>of_int m - x\<bar> + 2 * \<bar>of_int n - x\<bar>"
    by (simp add: abs_if)
  also have "\<dots> \<le> 2" using m(1) n(1) by simp
  finally have le: "\<bar>of_int m - of_int n :: rat\<bar> \<le> 1" by simp
  then have "\<bar>m - n\<bar> \<le> 1" by (metis of_int_abs of_int_diff of_int_le_1_iff)
  with neq have one: "m = n + 1 \<or> n = m + 1" by linarith
  then have ev: "\<not> (even m \<and> even n)" by auto
  from one have "(of_int m :: rat) = of_int n + 1 \<or> (of_int n :: rat) = of_int m + 1"
    by (metis of_int_1 of_int_add)
  with m(1) n(1) have "2 * \<bar>of_int m - x\<bar> = 1 \<and> 2 * \<bar>of_int n - x\<bar> = 1"
    by (auto simp: abs_if split: if_splits)
  with m(2) n(2) ev show False by blast
qed

lemma round_half_even_cases:
  obtains (down) "round_half_even x = \<lfloor>x\<rfloor>" "x - of_int \<lfloor>x\<rfloor> \<le> 1/2"
      "x - of_int \<lfloor>x\<rfloor> = 1/2 \<Longrightarrow> even \<lfloor>x\<rfloor>"
  | (up) "round_half_even x = \<lfloor>x\<rfloor> + 1" "1/2 \<le> x - of_int \<lfloor>x\<rfloor>"
      "x - of_int \<lfloor>x\<rfloor> = 1/2 \<Longrightarrow> even (\<lfloor>x\<rfloor> + 1)"
  by (cases "x - of_int \<lfloor>x\<rfloor> < 1/2"; cases "1/2 < x - of_int \<lfloor>x\<rfloor>"; cases "even \<lfloor>x\<rfloor>")
    (auto simp: round_half_even_def Let_def)

lemma round_half_even_nearest: "2 * \<bar>of_int (round_half_even x) - x\<bar> \<le> 1"
proof -
  have floor_le: "of_int \<lfloor>x\<rfloor> \<le> x" and less_floor: "x < of_int \<lfloor>x\<rfloor> + 1" by linarith+
  show ?thesis
  proof (cases x rule: round_half_even_cases)
    case down
    have "\<bar>of_int \<lfloor>x\<rfloor> - x\<bar> = x - of_int \<lfloor>x\<rfloor>" using floor_le by linarith
    then show ?thesis using down by simp
  next
    case up
    have "\<bar>of_int (\<lfloor>x\<rfloor> + 1) - x\<bar> = of_int \<lfloor>x\<rfloor> + 1 - x" using less_floor by simp
    then show ?thesis using up by simp
  qed
qed

lemma round_half_even_tie:
  assumes tie: "2 * \<bar>of_int (round_half_even x) - x\<bar> = 1"
  shows "even (round_half_even x)"
proof (cases x rule: round_half_even_cases)
  case down
  have "\<bar>of_int \<lfloor>x\<rfloor> - x\<bar> = x - of_int \<lfloor>x\<rfloor>" by linarith
  then show ?thesis using down tie by simp
next
  case up
  have "x < of_int \<lfloor>x\<rfloor> + 1" by linarith
  then have "\<bar>of_int (\<lfloor>x\<rfloor> + 1) - x\<bar> = of_int \<lfloor>x\<rfloor> + 1 - x" by simp
  then show ?thesis using up tie by simp
qed

context decimal_laws
begin

lemma round0_is_half_even: "d_round0 D x = round_half_even x"
  by (rule nearest_even_unique [of _ x])
    (use round_nearest round_tie round_half_even_nearest round_half_even_tie in blast)+

lemma convertMinor_reference:
  "fits20 (of_int a * r) \<Longrightarrow> convertMinor D a r = round_half_even (of_int a * r)"
  by (simp add: convertMinor_def times_exact round0_is_half_even)

end

lemma round_half_even_mono: "x \<le> y \<Longrightarrow> round_half_even x \<le> round_half_even y"
proof (rule ccontr)
  assume "x \<le> y" "\<not> round_half_even x \<le> round_half_even y"
  then have lt: "round_half_even y + 1 \<le> round_half_even x" by simp
  then have ge: "(of_int (round_half_even y) :: rat) + 1 \<le> of_int (round_half_even x)"
    by (metis of_int_1 of_int_add of_int_le_iff)
  have bx: "2 * \<bar>of_int (round_half_even x) - x\<bar> \<le> 1" and
    by': "2 * \<bar>of_int (round_half_even y) - y\<bar> \<le> 1"
    by (rule round_half_even_nearest)+
  have eq: "x = y" "of_int (round_half_even x) - x = 1/2" "y - of_int (round_half_even y) = 1/2"
    using bx by' ge \<open>x \<le> y\<close> by (auto simp: abs_if split: if_splits)
  then show False using lt by simp
qed

lemma round_half_even_of_int [simp]: "round_half_even (of_int n) = n"
  by (simp add: round_half_even_def Let_def)

lemma round_half_even_nonneg: "0 \<le> x \<Longrightarrow> 0 \<le> round_half_even x"
  using round_half_even_mono [of 0 x] round_half_even_of_int [of 0] by simp

text \<open>Decimals computed exactly satisfy the laws.\<close>

definition exact_decimal :: decimal_lib where
  "exact_decimal = \<lparr>d_times = (*), d_round0 = round_half_even,
     d_toString = (\<lambda>r. show_int (fst (quotient_of r)) @ ''/'' @ show_int (snd (quotient_of r))),
     d_parse = (\<lambda>_. 1)\<rparr>"

interpretation exact: decimal_laws exact_decimal
  by unfold_locales
    (auto simp: exact_decimal_def round_half_even_nearest round_half_even_tie)

section \<open>Exchange rates\<close>

text \<open>
  A reply of the provider: no connection, a status outside 2xx, a 2xx body that is not JSON, or
  the \<open>rates\<close> of the body (\<open>None\<close> when the field is missing).
\<close>

datatype fx_reply = FxUnreachable | FxNotOk | FxNotJson | FxRates "(string \<times> rat) list option"

type_synonym net_log = "string list"

definition fx_url :: "string \<Rightarrow> string \<Rightarrow> string" where
  "fx_url base_cur to_cur =
     ''https://api.frankfurter.app/latest?base='' @ base_cur @ ''&symbols='' @ to_cur"

definition fetchRate ::
  "(string \<Rightarrow> fx_reply) \<Rightarrow> string \<Rightarrow> string \<Rightarrow> net_log \<Rightarrow> (exn + rat) \<times> net_log" where
  "fetchRate fx from_cur to_cur net =
     (let url = fx_url from_cur to_cur; net' = net @ [url]
      in (case fx url of
            FxUnreachable \<Rightarrow> Inl (ServiceUnavailableException ''Exchange rate provider unavailable'')
          | FxNotOk \<Rightarrow> Inl (ServiceUnavailableException ''Exchange rate provider unavailable'')
          | FxNotJson \<Rightarrow> Inl (OtherError ''SyntaxError'')
          | FxRates rates \<Rightarrow>
              (case Option.bind rates (\<lambda>rs. map_of rs to_cur) of
                 None \<Rightarrow> Inl (ServiceUnavailableException
                            (''No exchange rate for '' @ from_cur @ '' -> '' @ to_cur))
               | Some rate \<Rightarrow> Inr rate), net'))"

definition RATE_TTL :: int where
  "RATE_TTL = 60"

definition rate_key :: "string \<Rightarrow> string \<Rightarrow> string" where
  "rate_key from_cur to_cur = ''rates:'' @ from_cur @ '':'' @ to_cur"

text \<open>The cache holds the rate's string, because a Decimal does not survive JSON.\<close>

definition getRate ::
  "decimal_lib \<Rightarrow> (string \<Rightarrow> fx_reply) \<Rightarrow> int \<Rightarrow> string \<Rightarrow> string \<Rightarrow> string cache \<Rightarrow> net_log
     \<Rightarrow> (exn + rat) \<times> string cache \<times> net_log" where
  "getRate D fx t from_cur to_cur c net =
     (if from_cur = to_cur then (Inr 1, c, net)
      else case cache_wrap t (rate_key from_cur to_cur) RATE_TTL
                  (\<lambda>n. case fetchRate fx from_cur to_cur n of
                         (Inl e, n') \<Rightarrow> (Inl e, n')
                       | (Inr r, n') \<Rightarrow> (Inr (d_toString D r), n'))
                  default_cacheable c net of
             (Inl e, c', net') \<Rightarrow> (Inl e, c', net')
           | (Inr s, c', net') \<Rightarrow> (Inr (d_parse D s), c', net'))"

record quote_reply =
  q_from :: string
  q_to :: string
  q_amount :: int
  q_rate :: string
  q_converted :: int

definition quote ::
  "decimal_lib \<Rightarrow> (string \<Rightarrow> fx_reply) \<Rightarrow> int \<Rightarrow> string \<Rightarrow> string \<Rightarrow> int \<Rightarrow> string cache \<Rightarrow> net_log
     \<Rightarrow> (exn + quote_reply) \<times> string cache \<times> net_log" where
  "quote D fx t from_cur to_cur amount c net =
     (case getRate D fx t from_cur to_cur c net of
        (Inl e, c', net') \<Rightarrow> (Inl e, c', net')
      | (Inr r, c', net') \<Rightarrow>
          (Inr \<lparr>q_from = from_cur, q_to = to_cur, q_amount = amount, q_rate = d_toString D r,
                q_converted = convertMinor D amount r\<rparr>, c', net'))"

section \<open>Properties\<close>

lemma getRate_same: "getRate D fx t a a c net = (Inr 1, c, net)"
  by (simp add: getRate_def)

lemma fetchRate_log: "snd (fetchRate fx a b net) = net @ [fx_url a b]"
  by (simp add: fetchRate_def Let_def)

text \<open>A failed look-up leaves the cached rates as they were.\<close>

lemma getRate_error_stores_nothing:
  "getRate D fx t a b c net = (Inl e, c', net') \<Longrightarrow> redis_store c' = redis_store c"
  by (auto simp: getRate_def split: if_splits sum.splits prod.splits
      dest: cache_wrap_error_store)



text \<open>A rate is fetched once a minute. After a successful look-up that missed the cache, the same
  pair within 60 seconds is answered from the cache with the same rate and without a request.\<close>

theorem rate_fetched_once:
  assumes up: "redis_error c = None" and miss: "fst (cache_get t (rate_key a b) c) = None" and ne: "a \<noteq> b"
    and first: "getRate D fx t a b c net = (Inr r, c1, net1)" and soon: "t' < t + 1000 * RATE_TTL"
  shows "net1 = net @ [fx_url a b] \<and> (\<exists>c2. getRate D fx' t' a b c1 net1 = (Inr r, c2, net1))"
proof -
  obtain r0 where r0: "fetchRate fx a b net = (Inr r0, net @ [fx_url a b])"
    and rest: "c1 = cache_set t (rate_key a b) (d_toString D r0) RATE_TTL c" "r = d_parse D (d_toString D r0)"
      "net1 = net @ [fx_url a b]"
    using first ne miss up fetchRate_log [of fx a b net]
    by (cases "fetchRate fx a b net"; cases "fst (fetchRate fx a b net)")
      (auto simp: getRate_def cache_wrap_def cache_get_def default_cacheable_def)
  have hit: "fst (cache_get t' (rate_key a b) c1) = Some (d_toString D r0)"
    unfolding rest(1) using up soon by (intro cs.get_put) (simp_all add: cache_ping_def)
  show ?thesis
    using ne rest(2,3) by (simp add: getRate_def cache_wrap_hit [OF hit])
qed

definition demo_fx :: "string \<Rightarrow> fx_reply" where
  "demo_fx url = FxRates (Some [(''EUR'', 9/10)])"

lemma rate_fetched_once_witness:
  "\<exists>c1 c2. getRate exact_decimal (\<lambda>_. FxNotOk) 2000 ''USD'' ''EUR'' c1 [fx_url ''USD'' ''EUR''] =
     (Inr 1, c2, [fx_url ''USD'' ''EUR''])"
proof -
  have "getRate exact_decimal demo_fx 1000 ''USD'' ''EUR'' empty_cache [] =
      (Inr 1, cache_set 1000 (rate_key ''USD'' ''EUR'') (d_toString exact_decimal (9/10)) RATE_TTL empty_cache,
       [fx_url ''USD'' ''EUR''])"
    by (simp add: getRate_def cache_wrap_def cache_get_def empty_cache_def redis_lookup_def fetchRate_def Let_def
        demo_fx_def default_cacheable_def exact_decimal_def)
  from rate_fetched_once [OF _ _ _ this, of 2000 "\<lambda>_. FxNotOk"]
  show ?thesis by (auto simp: empty_cache_def cache_get_def redis_lookup_def RATE_TTL_def)
qed

end
