(* ===== verification/Notify.thy ===== *)
theory Notify
  imports Outbox Rates
begin

text \<open>
  What a service does besides changing its tables: audit rows (\<open>audit/audit.service.ts\<close>),
  notification events (\<open>realtime/notification.service.ts\<close>: \<open>enqueue\<close> inside the transaction,
  \<open>dispatch\<close> after the commit) and socket messages (\<open>realtime/realtime.service.ts\<close>). The
  \<open>world\<close> is the state a request runs in: the database, the queue, the socket messages sent so
  far, the rate cache and the log of outgoing requests.
\<close>

section \<open>The audit log\<close>

record audit_context =
  ac_requestId :: string
  ac_ipAddress :: "string option"
  ac_userAgent :: "string option"

definition getAuditContext :: "audit_context option \<Rightarrow> audit_context" where
  "getAuditContext store =
     (case store of Some a \<Rightarrow> a
      | None \<Rightarrow> \<lparr>ac_requestId = '''', ac_ipAddress = None, ac_userAgent = None\<rparr>)"

text \<open>
  The middleware: the incoming \<open>x-request-id\<close> when it is not empty, else a fresh one; the result
  is the context the request runs in and the header it echoes.
\<close>

definition auditContextMiddleware ::
  "string option \<Rightarrow> string \<Rightarrow> string option \<Rightarrow> string option \<Rightarrow> audit_context" where
  "auditContextMiddleware header fresh_id ip ua =
     (let requestId = (case header of Some h \<Rightarrow> if h = [] then fresh_id else h | None \<Rightarrow> fresh_id)
      in \<lparr>ac_requestId = requestId, ac_ipAddress = ip, ac_userAgent = ua\<rparr>)"

definition audit_log :: "call_ctx \<Rightarrow> string \<Rightarrow> audit_entry \<Rightarrow> (db, unit) tx" where
  "audit_log c i entry d =
     (case ins_row al_id \<lparr>al_id = i, al_entry = entry, al_ipAddress = cx_ipAddress c,
             al_userAgent = cx_userAgent c, al_createdAt = now c\<rparr> (audit_logs d) of
        Inl e \<Rightarrow> Inl e | Inr t \<Rightarrow> Inr (d\<lparr>audit_logs := t\<rparr>, ()))"

definition audit_row_of :: "call_ctx \<Rightarrow> string \<Rightarrow> audit_entry \<Rightarrow> audit_row" where
  "audit_row_of c i entry = \<lparr>al_id = i, al_entry = entry, al_ipAddress = cx_ipAddress c,
     al_userAgent = cx_userAgent c, al_createdAt = now c\<rparr>"

lemma audit_log_Inr [tx_simps]:
  "audit_log c i entry d = Inr (d', u) \<longleftrightarrow>
     i \<notin> al_id ` set (audit_logs d) \<and>
     d' = d\<lparr>audit_logs := audit_logs d @ [audit_row_of c i entry]\<rparr>"
  by (auto simp: audit_log_def audit_row_of_def ins_row_def split: if_splits)

section \<open>The world of a request\<close>

datatype emission =
    EmitBalance (em_user: string) (em_wallet: string) (em_currency: string) (em_balance: int)
  | EmitNotification (em_user: string) (em_payload: notification_payload)

record world =
  wdb :: db
  wq :: queue
  wemits :: "emission list"
  wrates :: "string cache"
  wnet :: net_log

text \<open>
  What the request depends on outside the program: decimal arithmetic, the exchange-rate provider,
  the broker's channel, and whether the update that marks an outbox row succeeds.
\<close>

record outside =
  x_decimal :: decimal_lib
  x_fx :: "string \<Rightarrow> fx_reply"
  x_chan :: "amqp_out \<Rightarrow> chan_reply"
  x_mark_ok :: bool

definition emitBalance :: "string \<Rightarrow> string \<Rightarrow> string \<Rightarrow> int \<Rightarrow> world \<Rightarrow> world" where
  "emitBalance userId walletId currency balance w =
     w\<lparr>wemits := wemits w @ [EmitBalance userId walletId currency balance]\<rparr>"

definition emitNotification :: "string \<Rightarrow> notification_payload \<Rightarrow> world \<Rightarrow> world" where
  "emitNotification userId p w = w\<lparr>wemits := wemits w @ [EmitNotification userId p]\<rparr>"

section \<open>The notification service\<close>

definition notification_event :: "call_ctx \<Rightarrow> string \<Rightarrow> string \<Rightarrow> notification_payload \<Rightarrow> push_event" where
  "notification_event c i userId p = \<lparr>ev_id = i, ev_occurredAt = iso_string (now c),
     ev_userId = userId, ev_payload = p,
     ev_requestId = (if cx_requestId c = [] then None else Some (cx_requestId c))\<rparr>"

definition notify_enqueue ::
  "call_ctx \<Rightarrow> string \<Rightarrow> string \<Rightarrow> notification_payload \<Rightarrow> (db, push_event) tx" where
  "notify_enqueue c i userId p =
     (let event = notification_event c i userId p
      in tx_bind (outbox_enqueue c i KEY_push (event_json event)) (\<lambda>_. tx_return event))"

text \<open>\<open>dispatch\<close>: the socket message, then \<open>publishNow\<close> on the event's outbox row.\<close>

definition event_row :: "call_ctx \<Rightarrow> push_event \<Rightarrow> outbox_event" where
  "event_row c e = new_outbox_row c (ev_id e) KEY_push (event_json e)"

definition dispatch :: "outside \<Rightarrow> call_ctx \<Rightarrow> push_event \<Rightarrow> world \<Rightarrow> world" where
  "dispatch x c e w =
     (let w1 = emitNotification (ev_userId e) (ev_payload e) w;
          (ok, d', q') = publishNow (x_chan x) (x_mark_ok x) (now c) (event_row c e) (wdb w1) (wq w1)
      in w1\<lparr>wdb := d', wq := q'\<rparr>)"

lemma notify_enqueue_Inr [tx_simps]:
  "notify_enqueue c i userId p d = Inr (d', e) \<longleftrightarrow>
     e = notification_event c i userId p \<and> i \<notin> ob_id ` set (outbox d) \<and>
     d' = d\<lparr>outbox := outbox d @ [event_row c e]\<rparr>"
  by (auto simp: notify_enqueue_def Let_def tx_simps event_row_def notification_event_def)

section \<open>What the money services rely on\<close>

text \<open>
  The interface of the notification service towards a service that moves money: inside the
  transaction it adds one pending row for the event and touches no other table; after the commit
  it changes nothing but the outbox.
\<close>

definition same_but_outbox :: "db \<Rightarrow> db \<Rightarrow> bool" where
  "same_but_outbox d d' \<longleftrightarrow> (\<exists>ob. d' = d\<lparr>outbox := ob\<rparr>)"

locale notifier =
  fixes enq :: "call_ctx \<Rightarrow> string \<Rightarrow> string \<Rightarrow> notification_payload \<Rightarrow> (db, push_event) tx"
    and disp :: "outside \<Rightarrow> call_ctx \<Rightarrow> push_event \<Rightarrow> world \<Rightarrow> world"
  assumes enq_frame: "enq c i u p d = Inr (d', e) \<Longrightarrow> same_but_outbox d d'"
    and enq_row: "enq c i u p d = Inr (d', e) \<Longrightarrow>
        \<exists>r. outbox d' = outbox d @ [r] \<and> ob_id r = i \<and> ob_status r = OutPending \<and>
            ob_payload r = event_json e"
    and enq_event: "enq c i u p d = Inr (d', e) \<Longrightarrow> ev_id e = i \<and> ev_userId e = u \<and> ev_payload e = p"
    and disp_frame: "same_but_outbox (wdb w) (wdb (disp x c e w))"
    and disp_ids: "map ob_id (outbox (wdb (disp x c e w))) = map ob_id (outbox (wdb w))"
begin

lemma enq_money:
  "enq c i u p d = Inr (d', e) \<Longrightarrow>
     wallets d' = wallets d \<and> txns d' = txns d \<and> audit_logs d' = audit_logs d \<and>
     users d' = users d \<and> refresh_tokens d' = refresh_tokens d"
  using enq_frame [of c i u p d d' e] by (auto simp: same_but_outbox_def)

lemma disp_money:
  "wallets (wdb (disp x c e w)) = wallets (wdb w)" "txns (wdb (disp x c e w)) = txns (wdb w)"
  "audit_logs (wdb (disp x c e w)) = audit_logs (wdb w)"
  using disp_frame [of w x c e] by (auto simp: same_but_outbox_def)

lemma enq_parses:
  "enq c i u p d = Inr (d', e) \<Longrightarrow>
     \<exists>r \<in> set (outbox d'). ob_id r = i \<and> parseNotificationPushEvent (Some (ob_payload r)) = Inr (event_json e)"
  using enq_row [of c i u p d d' e] by (auto simp: parse_event_json)

end

lemma dispatch_db:
  "\<exists>ob. wdb (dispatch x c e w) = (wdb w)\<lparr>outbox := ob\<rparr> \<and> map ob_id ob = map ob_id (outbox (wdb w))"
proof -
  obtain ok d' q' where p: "publishNow (x_chan x) (x_mark_ok x) (now c) (event_row c e)
      (wdb w) (wq w) = (ok, d', q')" by (metis prod_cases3)
  then show ?thesis
    using publishNow_frame [OF p] by (simp add: dispatch_def emitNotification_def)
qed

interpretation nf: notifier notify_enqueue dispatch
proof unfold_locales
  fix x c e w
  show "same_but_outbox (wdb w) (wdb (dispatch x c e w))"
    using dispatch_db [of x c e w] by (auto simp: same_but_outbox_def)
  show "map ob_id (outbox (wdb (dispatch x c e w))) = map ob_id (outbox (wdb w))"
    using dispatch_db [of x c e w] by auto
qed (auto simp: tx_simps same_but_outbox_def event_row_def new_outbox_row_def
      notification_event_def)

end
