(* ===== verification/Users.thy ===== *)
theory Users
  imports Notify
begin

text \<open>
  \<open>users/users.service.ts\<close>, \<open>users/roles.service.ts\<close>, \<open>users/to-safe-user.ts\<close>, the seed data
  of \<open>prisma/seed.ts\<close> and its mirror \<open>frontend/lib/auth/permissions.ts\<close>: look-ups, the staff
  operations that change a user's status or role with their audit entry, onboarding with a default
  wallet, and the persistence of the second factor.
\<close>

section \<open>Reading users and roles\<close>

record safe_user =
  su_id :: string
  su_email :: string
  su_handle :: "string option"
  su_firstName :: string
  su_lastName :: string
  su_status :: user_status
  su_totpEnabled :: bool
  su_roleId :: string
  su_createdAt :: int
  su_role :: "(string \<times> string) option"

text \<open>\<open>toSafeUser\<close> on a row read with its role's id and name: no hash, no 2FA material.\<close>

definition toSafeUser :: "user \<Rightarrow> role option \<Rightarrow> safe_user" where
  "toSafeUser u r = \<lparr>su_id = u_id u, su_email = u_email u, su_handle = u_handle u,
     su_firstName = u_firstName u, su_lastName = u_lastName u, su_status = u_status u,
     su_totpEnabled = u_totpEnabled u, su_roleId = u_roleId u, su_createdAt = u_createdAt u,
     su_role = map_option (\<lambda>r. (r_id r, r_name r)) r\<rparr>"

definition role_of :: "user \<Rightarrow> db \<Rightarrow> role option" where
  "role_of u d = find_role (u_roleId u) d"

definition findByEmail :: "string \<Rightarrow> db \<Rightarrow> user option" where
  "findByEmail email d = List.find (\<lambda>u. u_email u = email) (users d)"

definition findByHandle :: "string \<Rightarrow> db \<Rightarrow> user option" where
  "findByHandle handle d = List.find (\<lambda>u. u_handle u = Some handle) (users d)"

text \<open>\<open>findByIdWithPermissions\<close>: the row and the codes of its role.\<close>

definition findByIdWithPermissions :: "string \<Rightarrow> db \<Rightarrow> (user \<times> string list) option" where
  "findByIdWithPermissions i d =
     map_option (\<lambda>u. (u, case role_of u d of None \<Rightarrow> [] | Some r \<Rightarrow> r_permissions r)) (find_user i d)"

definition findById :: "string \<Rightarrow> db \<Rightarrow> exn + safe_user" where
  "findById i d =
     (case find_user i d of
        None \<Rightarrow> Inl (NotFoundException ''User not found'')
      | Some u \<Rightarrow> Inr (toSafeUser u (role_of u d)))"

definition roles_findByName :: "string \<Rightarrow> db \<Rightarrow> role option" where
  "roles_findByName n d = List.find (\<lambda>r. r_name r = n) (roles d)"

definition roles_findByNameOrThrow :: "string \<Rightarrow> db \<Rightarrow> exn + role" where
  "roles_findByNameOrThrow n d =
     (case roles_findByName n d of None \<Rightarrow> Inl (PrismaKnown ''P2025'') | Some r \<Rightarrow> Inr r)"

definition roles_findAll :: "db \<Rightarrow> (string \<times> string \<times> string option) list" where
  "roles_findAll d = map (\<lambda>r. (r_id r, r_name r, r_description r)) (order_asc r_name (roles d))"

text \<open>
  \<open>findMany\<close>: one page of the users that match every given filter, and their total. The sort
  string is \<open>field:dir\<close>; the DTO admits the fields below.
\<close>

record user_query =
  uq_skip :: "nat option"
  uq_take :: "nat option"
  uq_q :: "string option"
  uq_role :: "string option"
  uq_status :: "user_status option"
  uq_sort :: "string option"

definition opt_default :: "'a option \<Rightarrow> 'a \<Rightarrow> 'a" where
  "opt_default x d = (case x of None \<Rightarrow> d | Some a \<Rightarrow> a)"

definition given :: "string option \<Rightarrow> bool" where
  "given x \<longleftrightarrow> (case x of None \<Rightarrow> False | Some s \<Rightarrow> s \<noteq> [])"

definition status_text :: "user_status \<Rightarrow> string" where
  "status_text s = (case s of Active \<Rightarrow> ''active'' | Suspended \<Rightarrow> ''suspended'')"

definition user_where :: "user_query \<Rightarrow> db \<Rightarrow> user \<Rightarrow> bool" where
  "user_where q d u \<longleftrightarrow>
     (given (uq_q q) \<longrightarrow>
        contains_ci (u_email u) (the (uq_q q)) \<or>
        (case u_handle u of None \<Rightarrow> False | Some h \<Rightarrow> contains_ci h (the (uq_q q))) \<or>
        contains_ci (u_firstName u) (the (uq_q q)) \<or>
        contains_ci (u_lastName u) (the (uq_q q)))
     \<and> (given (uq_role q) \<longrightarrow>
          (case role_of u d of None \<Rightarrow> False | Some r \<Rightarrow> Some (r_name r) = uq_role q))
     \<and> (case uq_status q of None \<Rightarrow> True | Some s \<Rightarrow> u_status u = s)"

definition user_order :: "string \<Rightarrow> (user list \<Rightarrow> user list) option" where
  "user_order s =
     (if s = ''createdAt:asc'' then Some (order_asc u_createdAt)
      else if s = ''createdAt:desc'' then Some (order_desc u_createdAt)
      else if s = ''email:asc'' then Some (order_asc u_email)
      else if s = ''email:desc'' then Some (order_desc u_email)
      else if s = ''status:asc'' then Some (order_asc (status_text \<circ> u_status))
      else if s = ''status:desc'' then Some (order_desc (status_text \<circ> u_status))
      else None)"

record 'r paged =
  pg_total :: nat
  pg_skip :: nat
  pg_take :: nat
  pg_rows :: "'r list"

definition users_findMany :: "user_query \<Rightarrow> db \<Rightarrow> exn + safe_user paged" where
  "users_findMany q d =
     (let skip = opt_default (uq_skip q) 0; n = opt_default (uq_take q) 20;
          rows = filter (user_where q d) (users d)
      in case user_order (opt_default (uq_sort q) ''createdAt:desc'') of
           None \<Rightarrow> Inl (OtherError ''PrismaClientValidationError'')
         | Some ord \<Rightarrow> Inr \<lparr>pg_total = length rows, pg_skip = skip, pg_take = n,
             pg_rows = map (\<lambda>u. toSafeUser u (role_of u d)) (page skip n (ord rows))\<rparr>)"

section \<open>Onboarding\<close>

record create_user_data =
  cu_email :: string
  cu_handle :: string
  cu_passwordHash :: string
  cu_firstName :: string
  cu_lastName :: string
  cu_roleId :: string

definition new_user :: "call_ctx \<Rightarrow> string \<Rightarrow> create_user_data \<Rightarrow> user" where
  "new_user c i a = \<lparr>u_id = i, u_email = cu_email a, u_handle = Some (cu_handle a),
     u_passwordHash = cu_passwordHash a, u_firstName = cu_firstName a, u_lastName = cu_lastName a,
     u_status = Active, u_totpSecret = None, u_totpEnabled = False, u_totpRecoveryHashes = [],
     u_roleId = cu_roleId a, u_createdAt = now c\<rparr>"

definition user_create :: "user \<Rightarrow> (db, user) tx" where
  "user_create u d =
     (if \<exists>v \<in> set (users d). u_id v = u_id u \<or> u_email v = u_email u \<or>
          (u_handle u \<noteq> None \<and> u_handle v = u_handle u)
      then Inl (PrismaKnown ''P2002'')
      else Inr (d\<lparr>users := users d @ [u]\<rparr>, u))"

definition new_wallet :: "call_ctx \<Rightarrow> string \<Rightarrow> string \<Rightarrow> string \<Rightarrow> string \<Rightarrow> wallet" where
  "new_wallet c i owner name cur = \<lparr>w_id = i, w_userId = owner, w_name = name, w_currency = cur,
     w_balance = 0, w_createdAt = now c\<rparr>"

definition createWithDefaultWallet :: "call_ctx \<Rightarrow> create_user_data \<Rightarrow> (db, user) tx" where
  "createWithDefaultWallet c a =
     tx_bind (user_create (new_user c (uuids c 0) a)) (\<lambda>u.
     tx_bind (wallet_create (new_wallet c (uuids c 1) (u_id u) ''My Wallet'' ''USD'')) (\<lambda>_.
     tx_return u))"

section \<open>Staff operations\<close>

definition status_json :: "user_status \<Rightarrow> jval" where
  "status_json s = JObj [(''status'', JStr (status_text s))]"

text \<open>The transaction of \<open>updateStatus\<close>; \<open>before\<close> is the row read before it opened.\<close>

definition updateStatus_tx ::
  "call_ctx \<Rightarrow> string \<Rightarrow> user_status \<Rightarrow> auth_user \<Rightarrow> safe_user \<Rightarrow> (db, safe_user) tx" where
  "updateStatus_tx c i status actor before =
     tx_bind (user_update i (u_status_update (\<lambda>_. status))) (\<lambda>u.
     tx_bind (if status = Suspended
              then (\<lambda>d. Inr (d\<lparr>refresh_tokens := del_rows (\<lambda>r. rt_userId r = i) (refresh_tokens d)\<rparr>, ()))
              else tx_return ()) (\<lambda>_.
     tx_bind (audit_log c (uuids c 0) \<lparr>ae_actorUserId = au_id actor, ae_action = UserStatusChange,
                ae_entityType = EntUser, ae_entityId = i, ae_oldValue = status_json (su_status before),
                ae_newValue = status_json status\<rparr>) (\<lambda>_.
     tx_bind (tx_read (role_of u)) (\<lambda>r.
     tx_return (toSafeUser u r)))))"

definition updateStatus ::
  "call_ctx \<Rightarrow> string \<Rightarrow> user_status \<Rightarrow> auth_user \<Rightarrow> (db, safe_user) tx" where
  "updateStatus c i status actor d =
     (if i = au_id actor then Inl (ForbiddenException ''You cannot change your own status'')
      else case findById i d of
             Inl e \<Rightarrow> Inl e
           | Inr before \<Rightarrow> updateStatus_tx c i status actor before d)"

definition role_json :: "string \<Rightarrow> jval" where
  "role_json n = JObj [(''role'', JStr n)]"

definition updateRole_tx ::
  "call_ctx \<Rightarrow> string \<Rightarrow> role \<Rightarrow> auth_user \<Rightarrow> safe_user \<Rightarrow> (db, safe_user) tx" where
  "updateRole_tx c i new_role actor before =
     tx_bind (user_update i (u_roleId_update (\<lambda>_. r_id new_role))) (\<lambda>u.
     tx_bind (audit_log c (uuids c 0) \<lparr>ae_actorUserId = au_id actor, ae_action = UserRoleChange,
                ae_entityType = EntUser, ae_entityId = i,
                ae_oldValue = role_json (case su_role before of None \<Rightarrow> [] | Some (x, n) \<Rightarrow> n),
                ae_newValue = role_json (r_name new_role)\<rparr>) (\<lambda>_.
     tx_bind (tx_read (role_of u)) (\<lambda>r.
     tx_return (toSafeUser u r))))"

text \<open>\<open>updateRole\<close>: the guards read the caller's role from the access token.\<close>

definition updateRole :: "call_ctx \<Rightarrow> string \<Rightarrow> string \<Rightarrow> auth_user \<Rightarrow> (db, safe_user) tx" where
  "updateRole c i roleName actor d =
     (if i = au_id actor then Inl (ForbiddenException ''You cannot change your own role'')
      else if roleName = ''super_admin'' \<and> au_role actor \<noteq> ''super_admin''
        then Inl (ForbiddenException ''Only a super_admin may assign the super_admin role'')
      else case roles_findByName roleName d of
             None \<Rightarrow> Inl (NotFoundException (''Unknown role: '' @ roleName))
           | Some r \<Rightarrow>
               (case findById i d of
                  Inl e \<Rightarrow> Inl e
                | Inr before \<Rightarrow> updateRole_tx c i r actor before d))"

section \<open>Persistence of the second factor\<close>

definition setTotpPending :: "string \<Rightarrow> string \<Rightarrow> (db, user) tx" where
  "setTotpPending i secret =
     user_update i (\<lambda>u. u\<lparr>u_totpSecret := Some secret, u_totpEnabled := False, u_totpRecoveryHashes := []\<rparr>)"

definition enableTotp :: "string \<Rightarrow> string list \<Rightarrow> (db, user) tx" where
  "enableTotp i hashes =
     user_update i (\<lambda>u. u\<lparr>u_totpEnabled := True, u_totpRecoveryHashes := hashes\<rparr>)"

definition disableTotp :: "string \<Rightarrow> (db, user) tx" where
  "disableTotp i =
     user_update i (\<lambda>u. u\<lparr>u_totpSecret := None, u_totpEnabled := False, u_totpRecoveryHashes := []\<rparr>)"

text \<open>
  \<open>consumeRecoveryHash\<close> reads the hashes and then writes the remaining ones: two database
  calls, with nothing that makes them one.
\<close>

definition recovery_remaining :: "string \<Rightarrow> string \<Rightarrow> db \<Rightarrow> string list" where
  "recovery_remaining i h d =
     filter (\<lambda>x. x \<noteq> h) (case find_user i d of None \<Rightarrow> [] | Some u \<Rightarrow> u_totpRecoveryHashes u)"

definition write_recovery :: "string \<Rightarrow> string list \<Rightarrow> (db, user) tx" where
  "write_recovery i remaining = user_update i (u_totpRecoveryHashes_update (\<lambda>_. remaining))"

definition consumeRecoveryHash :: "string \<Rightarrow> string \<Rightarrow> (db, user) tx" where
  "consumeRecoveryHash i h =
     tx_bind (tx_read (recovery_remaining i h)) (\<lambda>rest. write_recovery i rest)"

section \<open>Roles and permissions as seeded\<close>

definition PERMISSIONS :: "string list" where
  "PERMISSIONS = [''deposit.approve'', ''withdrawal.approve'', ''wallet.adjust'', ''user.manage'',
     ''audit.view'', ''transaction.view_all'']"

definition ROLE_PERMISSIONS :: "(string \<times> string list) list" where
  "ROLE_PERMISSIONS =
     [(''super_admin'', PERMISSIONS),
      (''admin'', [''user.manage'', ''transaction.view_all'', ''audit.view'']),
      (''finance'', [''deposit.approve'', ''withdrawal.approve'', ''wallet.adjust'', ''transaction.view_all'']),
      (''support'', [''transaction.view_all'']),
      (''user'', [])]"

text \<open>\<open>role.upsert\<close>: set the permissions of the role with this name, or create it.\<close>

definition seed_role :: "string \<Rightarrow> string \<times> string list \<Rightarrow> db \<Rightarrow> db" where
  "seed_role fresh_id r d =
     (if List.member (map r_name (roles d)) (fst r)
      then d\<lparr>roles := upd_rows (\<lambda>x. r_name x = fst r) (r_permissions_update (\<lambda>_. snd r)) (roles d)\<rparr>
      else d\<lparr>roles := roles d @ [\<lparr>r_id = fresh_id, r_name = fst r, r_description = None,
               r_permissions = snd r\<rparr>]\<rparr>)"

fun seed_roles :: "(nat \<Rightarrow> string) \<Rightarrow> nat \<Rightarrow> (string \<times> string list) list \<Rightarrow> db \<Rightarrow> db" where
  "seed_roles ids n [] d = d"
| "seed_roles ids n (r # rs) d = seed_roles ids (Suc n) rs (seed_role (ids n) r d)"

text \<open>The super-admin: created on the first run, later runs only set the handle.\<close>

definition seed_admin :: "call_ctx \<Rightarrow> string \<Rightarrow> string \<Rightarrow> role \<Rightarrow> db \<Rightarrow> db" where
  "seed_admin c fresh_id passwordHash r d =
     (case findByEmail ''admin@wallet.local'' d of
        Some u \<Rightarrow> d\<lparr>users := upd_rows (\<lambda>v. u_email v = ''admin@wallet.local'')
                     (u_handle_update (\<lambda>_. Some ''admin'')) (users d)\<rparr>
      | None \<Rightarrow> d\<lparr>users := users d @ [new_user c fresh_id
                   \<lparr>cu_email = ''admin@wallet.local'', cu_handle = ''admin'',
                    cu_passwordHash = passwordHash, cu_firstName = ''Super'', cu_lastName = ''Admin'',
                    cu_roleId = r_id r\<rparr>]\<rparr>)"

definition seed_main :: "call_ctx \<Rightarrow> string \<Rightarrow> (db, unit) tx" where
  "seed_main c passwordHash d =
     (let d1 = seed_roles (uuids c) 0 ROLE_PERMISSIONS d
      in case roles_findByNameOrThrow ''super_admin'' d1 of
           Inl e \<Rightarrow> Inl e
         | Inr r \<Rightarrow> Inr (seed_admin c (uuids c (length ROLE_PERMISSIONS)) passwordHash r d1, ()))"

text \<open>The staff console's copy of the table.\<close>

definition console_ALL :: "string list" where
  "console_ALL = [''deposit.approve'', ''withdrawal.approve'', ''wallet.adjust'', ''user.manage'',
     ''audit.view'', ''transaction.view_all'']"

definition console_ROLE_PERMISSIONS :: "(string \<times> string list) list" where
  "console_ROLE_PERMISSIONS =
     [(''super_admin'', console_ALL),
      (''admin'', [''user.manage'', ''transaction.view_all'', ''audit.view'']),
      (''finance'', [''deposit.approve'', ''withdrawal.approve'', ''wallet.adjust'', ''transaction.view_all'']),
      (''support'', [''transaction.view_all'']),
      (''user'', [])]"

definition permissionsForRole :: "string \<Rightarrow> string list" where
  "permissionsForRole r = (case map_of console_ROLE_PERMISSIONS r of None \<Rightarrow> [] | Some ps \<Rightarrow> ps)"

definition roleHasPermission :: "string \<Rightarrow> string \<Rightarrow> bool" where
  "roleHasPermission r p = List.member (permissionsForRole r) p"

end
