(* ===== verification/Wallets.thy ===== *)
theory Wallets
  imports Users
begin

text \<open>
  \<open>wallets/wallets.service.ts\<close>: wallets and the append-only ledger. Each operation that moves
  money is a transaction body (\<open>..._tx\<close>, what runs under the row locks) and the whole handler
  around it: the checks before the transaction, the body, and the socket and notification
  messages after the commit. The body is separate because other requests may commit between the
  checks and the locks: the theory \<open>Ledger\<close> proves its invariants for bodies started in any
  database state.
\<close>

section \<open>Reading\<close>

definition getOwnedWallet :: "db \<Rightarrow> string \<Rightarrow> auth_user \<Rightarrow> exn + wallet" where
  "getOwnedWallet d i actor =
     (case find_wallet i d of
        None \<Rightarrow> Inl (NotFoundException ''Wallet not found'')
      | Some w \<Rightarrow>
          if w_userId w \<noteq> au_id actor then Inl (ForbiddenException ''Access denied'') else Inr w)"

definition getWallet :: "string \<Rightarrow> auth_user \<Rightarrow> db \<Rightarrow> exn + wallet" where
  "getWallet i actor d = getOwnedWallet d i actor"

definition listWallets :: "auth_user \<Rightarrow> db \<Rightarrow> wallet list" where
  "listWallets actor d = order_asc w_createdAt (filter (\<lambda>w. w_userId w = au_id actor) (wallets d))"

record recipient =
  rc_walletId :: string
  rc_currency :: string
  rc_recipientName :: string

definition findRecipientByHandle :: "string \<Rightarrow> db \<Rightarrow> exn + recipient" where
  "findRecipientByHandle handle d =
     (case findByHandle (to_lower handle) d of
        None \<Rightarrow> Inl (NotFoundException ''Account not found'')
      | Some u \<Rightarrow>
          (case order_asc w_createdAt (filter (\<lambda>w. w_userId w = u_id u) (wallets d)) of
             [] \<Rightarrow> Inl (NotFoundException ''Wallet not found'')
           | w # ws \<Rightarrow> Inr \<lparr>rc_walletId = w_id w, rc_currency = w_currency w,
               rc_recipientName = u_firstName u @ '' '' @ u_lastName u\<rparr>))"

definition wallet_txns_desc :: "string \<Rightarrow> db \<Rightarrow> txn list" where
  "wallet_txns_desc i d = order_desc t_createdAt (filter (\<lambda>t. t_walletId t = i) (txns d))"

definition listTransactions :: "string \<Rightarrow> auth_user \<Rightarrow> db \<Rightarrow> exn + txn list" where
  "listTransactions i actor d =
     (case getOwnedWallet d i actor of Inl e \<Rightarrow> Inl e | Inr w \<Rightarrow> Inr (wallet_txns_desc i d))"

text \<open>Staff reads: the wallet columns staff see, joined with the owner's email.\<close>

record staff_wallet =
  sw_id :: string
  sw_name :: string
  sw_currency :: string
  sw_balance :: int
  sw_createdAt :: int
  sw_email :: string

definition owner_email :: "wallet \<Rightarrow> db \<Rightarrow> string" where
  "owner_email w d = (case find_user (w_userId w) d of None \<Rightarrow> [] | Some u \<Rightarrow> u_email u)"

definition staff_view :: "db \<Rightarrow> wallet \<Rightarrow> staff_wallet" where
  "staff_view d w = \<lparr>sw_id = w_id w, sw_name = w_name w, sw_currency = w_currency w,
     sw_balance = w_balance w, sw_createdAt = w_createdAt w, sw_email = owner_email w d\<rparr>"

record wallet_query =
  wq_skip :: "nat option"
  wq_take :: "nat option"
  wq_q :: "string option"
  wq_currency :: "string option"
  wq_sort :: "string option"

definition wallet_where :: "wallet_query \<Rightarrow> db \<Rightarrow> wallet \<Rightarrow> bool" where
  "wallet_where q d w \<longleftrightarrow>
     (given (wq_q q) \<longrightarrow>
        contains_ci (w_name w) (the (wq_q q)) \<or> contains_ci (owner_email w d) (the (wq_q q)))
     \<and> (given (wq_currency q) \<longrightarrow> w_currency w = to_upper (the (wq_currency q)))"

definition wallet_order :: "string \<Rightarrow> (wallet list \<Rightarrow> wallet list) option" where
  "wallet_order s =
     (if s = ''balance:asc'' then Some (order_asc w_balance)
      else if s = ''balance:desc'' then Some (order_desc w_balance)
      else if s = ''createdAt:asc'' then Some (order_asc w_createdAt)
      else if s = ''createdAt:desc'' then Some (order_desc w_createdAt)
      else if s = ''name:asc'' then Some (order_asc w_name)
      else if s = ''name:desc'' then Some (order_desc w_name)
      else None)"

definition listAllWallets :: "wallet_query \<Rightarrow> db \<Rightarrow> exn + staff_wallet paged" where
  "listAllWallets q d =
     (let skip = opt_default (wq_skip q) 0; n = opt_default (wq_take q) 20;
          rows = filter (wallet_where q d) (wallets d)
      in case wallet_order (opt_default (wq_sort q) ''createdAt:asc'') of
           None \<Rightarrow> Inl (OtherError ''PrismaClientValidationError'')
         | Some ord \<Rightarrow> Inr \<lparr>pg_total = length rows, pg_skip = skip, pg_take = n,
             pg_rows = map (staff_view d) (page skip n (ord rows))\<rparr>)"

definition getWalletForStaff :: "string \<Rightarrow> db \<Rightarrow> exn + staff_wallet" where
  "getWalletForStaff i d =
     (case find_wallet i d of
        None \<Rightarrow> Inl (NotFoundException ''Wallet not found'') | Some w \<Rightarrow> Inr (staff_view d w))"

definition listTransactionsForStaff :: "string \<Rightarrow> db \<Rightarrow> exn + txn list" where
  "listTransactionsForStaff i d =
     (case getWalletForStaff i d of Inl e \<Rightarrow> Inl e | Inr w \<Rightarrow> Inr (wallet_txns_desc i d))"

text \<open>The approvals queue: each pending row with its wallet's name, currency and owner's email.\<close>

record pending_row =
  pr_txn :: txn
  pr_walletId :: string
  pr_walletName :: string
  pr_currency :: string
  pr_email :: string

definition pending_view :: "db \<Rightarrow> txn \<Rightarrow> pending_row" where
  "pending_view d t =
     (case find_wallet (t_walletId t) d of
        Some w \<Rightarrow> \<lparr>pr_txn = t, pr_walletId = w_id w, pr_walletName = w_name w,
                   pr_currency = w_currency w, pr_email = owner_email w d\<rparr>
      | None \<Rightarrow> \<lparr>pr_txn = t, pr_walletId = t_walletId t, pr_walletName = [], pr_currency = [],
                 pr_email = []\<rparr>)"

definition listPending :: "db \<Rightarrow> pending_row list" where
  "listPending d =
     map (pending_view d) (order_asc t_createdAt (filter (\<lambda>t. t_status t = Pending) (txns d)))"

section \<open>Creating wallets\<close>

definition createWallet :: "call_ctx \<Rightarrow> auth_user \<Rightarrow> string \<Rightarrow> string \<Rightarrow> (db, wallet) tx" where
  "createWallet c actor name cur = wallet_create (new_wallet c (uuids c 0) (au_id actor) name cur)"

section \<open>Deposits\<close>

definition jint :: "int \<Rightarrow> jval" where
  "jint n = JNum (of_int n)"

definition jopt :: "string option \<Rightarrow> jval" where
  "jopt s = (case s of None \<Rightarrow> JNull | Some x \<Rightarrow> JStr x)"

text \<open>An object literal keeps no field whose value is \<open>undefined\<close> once it is JSON.\<close>

definition money_note :: "string \<Rightarrow> string \<Rightarrow> string \<Rightarrow> string \<Rightarrow> notification_payload" where
  "money_note title body tag url =
     \<lparr>np_title = title, np_body = body, np_tag = Some tag, np_url = Some url\<rparr>"

record owner_info =
  ow_userId :: string
  ow_walletId :: string
  ow_currency :: string
  ow_balance :: int

definition owner_of :: "wallet \<Rightarrow> int \<Rightarrow> owner_info" where
  "owner_of w balance = \<lparr>ow_userId = w_userId w, ow_walletId = w_id w, ow_currency = w_currency w,
     ow_balance = balance\<rparr>"

definition settled_row ::
  "call_ctx \<Rightarrow> string \<Rightarrow> string \<Rightarrow> txn_type \<Rightarrow> int \<Rightarrow> int \<Rightarrow> int \<Rightarrow> string \<Rightarrow> string option \<Rightarrow> txn" where
  "settled_row c i walletId ty amount before after actorId note =
     \<lparr>t_id = i, t_walletId = walletId, t_type = ty, t_amount = amount,
      t_balanceBefore = Some before, t_balanceAfter = Some after, t_status = Approved,
      t_requestedBy = actorId, t_reviewedBy = Some actorId, t_reviewedAt = Some (now c),
      t_note = note, t_transferId = None, t_counterpartyWalletId = None, t_exchangeRate = None,
      t_createdAt = now c\<rparr>"

definition deposit_tx ::
  "call_ctx \<Rightarrow> string \<Rightarrow> auth_user \<Rightarrow> int \<Rightarrow> string option \<Rightarrow> (db, txn \<times> owner_info \<times> push_event) tx"
where
  "deposit_tx c i actor amount note =
     tx_bind (tx_read (find_wallet i)) (\<lambda>found.
     tx_bind (tx_some found (NotFoundException ''Wallet not found'')) (\<lambda>w.
     let before = w_balance w; after = before + amount in
     tx_bind (wallet_set_balance i after) (\<lambda>_.
     tx_bind (txn_create (settled_row c (uuids c 0) i Deposit amount before after (au_id actor) note)) (\<lambda>created.
     tx_bind (audit_log c (uuids c 1) \<lparr>ae_actorUserId = au_id actor, ae_action = DepositSettle,
                ae_entityType = EntTransaction, ae_entityId = t_id created,
                ae_oldValue = JObj [(''balance'', jint before)],
                ae_newValue = JObj [(''balance'', jint after), (''amount'', jint amount)]\<rparr>) (\<lambda>_.
     tx_bind (notify_enqueue c (uuids c 2) (w_userId w)
                (money_note ''Money added'' (formatMinor amount (w_currency w) @ '' added to your wallet'')
                   (t_id created) ''/'')) (\<lambda>event.
     tx_return (created, owner_of w after, event)))))))"

text \<open>After the commit: the balance to the owner's sockets, then the notification.\<close>

definition announce :: "owner_info \<Rightarrow> world \<Rightarrow> world" where
  "announce ow w = emitBalance (ow_userId ow) (ow_walletId ow) (ow_currency ow) (ow_balance ow) w"

definition deposit ::
  "outside \<Rightarrow> call_ctx \<Rightarrow> string \<Rightarrow> auth_user \<Rightarrow> int \<Rightarrow> string option \<Rightarrow> world \<Rightarrow> (exn + txn) \<times> world" where
  "deposit x c i actor amount note w =
     (case getOwnedWallet (wdb w) i actor of
        Inl e \<Rightarrow> (Inl e, w)
      | Inr _ \<Rightarrow>
          (case deposit_tx c i actor amount note (wdb w) of
             Inl e \<Rightarrow> (Inl e, w)
           | Inr (d', created, ow, event) \<Rightarrow>
               (Inr created, dispatch x c event (announce ow (w\<lparr>wdb := d'\<rparr>)))))"

section \<open>Withdrawal requests\<close>

definition pending_txn :: "call_ctx \<Rightarrow> string \<Rightarrow> string \<Rightarrow> txn_type \<Rightarrow> int \<Rightarrow> string \<Rightarrow> string option \<Rightarrow> txn" where
  "pending_txn c i walletId ty amount actorId note =
     \<lparr>t_id = i, t_walletId = walletId, t_type = ty, t_amount = amount, t_balanceBefore = None,
      t_balanceAfter = None, t_status = Pending, t_requestedBy = actorId, t_reviewedBy = None,
      t_reviewedAt = None, t_note = note, t_transferId = None, t_counterpartyWalletId = None,
      t_exchangeRate = None, t_createdAt = now c\<rparr>"

definition requestWithdrawal ::
  "call_ctx \<Rightarrow> string \<Rightarrow> auth_user \<Rightarrow> int \<Rightarrow> string option \<Rightarrow> (db, txn) tx" where
  "requestWithdrawal c i actor amount note d =
     (case getOwnedWallet d i actor of
        Inl e \<Rightarrow> Inl e
      | Inr w \<Rightarrow>
          if w_balance w < amount then Inl (BadRequestException ''Insufficient funds'')
          else txn_create (pending_txn c (uuids c 0) i Withdrawal amount (au_id actor) note) d)"

section \<open>Approving and rejecting\<close>

definition getSettleableType :: "string \<Rightarrow> db \<Rightarrow> exn + txn_type" where
  "getSettleableType i d =
     (case find_txn i d of
        None \<Rightarrow> Inl (NotFoundException ''Transaction not found'') | Some t \<Rightarrow> Inr (t_type t))"

definition approve_code :: "txn_type \<Rightarrow> string" where
  "approve_code ty = (if ty = Withdrawal then ''withdrawal.approve'' else ''deposit.approve'')"

definition held_permissions :: "string \<Rightarrow> db \<Rightarrow> string list" where
  "held_permissions uid d =
     (case findByIdWithPermissions uid d of None \<Rightarrow> [] | Some (u, codes) \<Rightarrow> codes)"

definition assertApprovePermission :: "auth_user \<Rightarrow> txn_type \<Rightarrow> db \<Rightarrow> exn + unit" where
  "assertApprovePermission actor ty d =
     (if List.member (held_permissions (au_id actor) d) (approve_code ty) then Inr ()
      else Inl (ForbiddenException ''Access denied''))"

definition settle_json :: "string \<Rightarrow> jval" where
  "settle_json s = JObj [(''status'', JStr s)]"

definition approve_tx ::
  "call_ctx \<Rightarrow> string \<Rightarrow> auth_user \<Rightarrow> (db, txn \<times> owner_info \<times> push_event) tx" where
  "approve_tx c i actor =
     tx_bind (tx_read (find_txn i)) (\<lambda>found_t.
     tx_bind (tx_some found_t (NotFoundException ''Transaction not found'')) (\<lambda>t.
     tx_bind (tx_when (t_status t \<noteq> Pending) (ConflictException ''Transaction already reviewed'')) (\<lambda>_.
     tx_bind (tx_read (find_wallet (t_walletId t))) (\<lambda>found_w.
     tx_bind (tx_some found_w (NotFoundException ''Wallet not found'')) (\<lambda>w.
     let before = w_balance w in
     tx_bind (tx_when (t_type t = Withdrawal \<and> before < t_amount t)
                (BadRequestException ''Insufficient funds'')) (\<lambda>_.
     let after = (if t_type t = Withdrawal then before - t_amount t else before + t_amount t) in
     tx_bind (wallet_set_balance (w_id w) after) (\<lambda>_.
     tx_bind (txn_update (t_id t) (\<lambda>r. r\<lparr>t_status := Approved, t_reviewedBy := Some (au_id actor),
                t_reviewedAt := Some (now c), t_balanceBefore := Some before,
                t_balanceAfter := Some after\<rparr>)) (\<lambda>updated.
     tx_bind (audit_log c (uuids c 0) \<lparr>ae_actorUserId = au_id actor,
                ae_action = (if t_type t = Withdrawal then WithdrawalApprove else DepositApprove),
                ae_entityType = EntTransaction, ae_entityId = t_id t,
                ae_oldValue = settle_json ''pending'',
                ae_newValue = JObj [(''status'', JStr ''approved''), (''balanceAfter'', jint after)]\<rparr>) (\<lambda>_.
     let money = formatMinor (t_amount t) (w_currency w) in
     tx_bind (notify_enqueue c (uuids c 1) (w_userId w)
                (if t_type t = Withdrawal
                 then money_note ''Withdrawal sent'' (money @ '' withdrawn'') (t_id updated) ''/''
                 else money_note ''Deposit approved'' (money @ '' added to your wallet'') (t_id updated) ''/'')) (\<lambda>event.
     tx_return (updated, owner_of w after, event)))))))))))"

definition approve ::
  "outside \<Rightarrow> call_ctx \<Rightarrow> string \<Rightarrow> auth_user \<Rightarrow> world \<Rightarrow> (exn + txn) \<times> world" where
  "approve x c i actor w =
     (case getSettleableType i (wdb w) of
        Inl e \<Rightarrow> (Inl e, w)
      | Inr ty \<Rightarrow>
          (case assertApprovePermission actor ty (wdb w) of
             Inl e \<Rightarrow> (Inl e, w)
           | Inr _ \<Rightarrow>
               (case approve_tx c i actor (wdb w) of
                  Inl e \<Rightarrow> (Inl e, w)
                | Inr (d', updated, ow, event) \<Rightarrow>
                    (Inr updated, dispatch x c event (announce ow (w\<lparr>wdb := d'\<rparr>))))))"

definition reject_kind :: "txn_type \<Rightarrow> string" where
  "reject_kind ty = (if ty = Withdrawal then ''Withdrawal'' else ''Deposit'')"

definition reject_tx ::
  "call_ctx \<Rightarrow> string \<Rightarrow> auth_user \<Rightarrow> string option \<Rightarrow> (db, txn \<times> push_event option) tx" where
  "reject_tx c i actor note =
     tx_bind (tx_read (find_txn i)) (\<lambda>found_t.
     tx_bind (tx_some found_t (NotFoundException ''Transaction not found'')) (\<lambda>t.
     tx_bind (tx_when (t_status t \<noteq> Pending) (ConflictException ''Transaction already reviewed'')) (\<lambda>_.
     let note' = (case note of Some s \<Rightarrow> Some s | None \<Rightarrow> t_note t) in
     tx_bind (txn_update (t_id t) (\<lambda>r. r\<lparr>t_status := Rejected, t_reviewedBy := Some (au_id actor),
                t_reviewedAt := Some (now c), t_note := note'\<rparr>)) (\<lambda>updated.
     tx_bind (audit_log c (uuids c 0) \<lparr>ae_actorUserId = au_id actor,
                ae_action = (if t_type t = Withdrawal then WithdrawalReject else DepositReject),
                ae_entityType = EntTransaction, ae_entityId = t_id t,
                ae_oldValue = settle_json ''pending'',
                ae_newValue = JObj [(''status'', JStr ''rejected''), (''note'', jopt note')]\<rparr>) (\<lambda>_.
     tx_bind (tx_read (find_wallet (t_walletId t))) (\<lambda>owner.
     case owner of
       None \<Rightarrow> tx_return (updated, None)
     | Some w \<Rightarrow>
         tx_bind (notify_enqueue c (uuids c 1) (w_userId w)
           (money_note (reject_kind (t_type t) @ '' declined'')
              (''Your '' @ formatMinor (t_amount t) (w_currency w) @ '' '' @ to_lower (reject_kind (t_type t)) @ '' was declined'')
              (t_id updated) ''/'')) (\<lambda>event.
         tx_return (updated, Some event))))))))"

definition reject ::
  "outside \<Rightarrow> call_ctx \<Rightarrow> string \<Rightarrow> auth_user \<Rightarrow> string option \<Rightarrow> world \<Rightarrow> (exn + txn) \<times> world" where
  "reject x c i actor note w =
     (case getSettleableType i (wdb w) of
        Inl e \<Rightarrow> (Inl e, w)
      | Inr ty \<Rightarrow>
          (case assertApprovePermission actor ty (wdb w) of
             Inl e \<Rightarrow> (Inl e, w)
           | Inr _ \<Rightarrow>
               (case reject_tx c i actor note (wdb w) of
                  Inl e \<Rightarrow> (Inl e, w)
                | Inr (d', updated, event) \<Rightarrow>
                    (Inr updated,
                     case event of None \<Rightarrow> w\<lparr>wdb := d'\<rparr> | Some ev \<Rightarrow> dispatch x c ev (w\<lparr>wdb := d'\<rparr>)))))"

section \<open>Adjustments\<close>

datatype direction = Credit | Debit

definition direction_text :: "direction \<Rightarrow> string" where
  "direction_text dir = (case dir of Credit \<Rightarrow> ''credit'' | Debit \<Rightarrow> ''debit'')"

definition adjust_tx ::
  "call_ctx \<Rightarrow> string \<Rightarrow> direction \<Rightarrow> int \<Rightarrow> string \<Rightarrow> auth_user \<Rightarrow> (db, txn \<times> owner_info) tx" where
  "adjust_tx c i dir amount note actor =
     tx_bind (tx_read (find_wallet i)) (\<lambda>found.
     tx_bind (tx_some found (NotFoundException ''Wallet not found'')) (\<lambda>w.
     let before = w_balance w;
         after = (if dir = Credit then before + amount else before - amount) in
     tx_bind (tx_when (after < 0) (BadRequestException ''Adjustment would make the balance negative'')) (\<lambda>_.
     tx_bind (wallet_set_balance i after) (\<lambda>_.
     tx_bind (txn_create (settled_row c (uuids c 0) i Adjustment amount before after (au_id actor) (Some note))) (\<lambda>created.
     tx_bind (audit_log c (uuids c 1) \<lparr>ae_actorUserId = au_id actor, ae_action = WalletAdjust,
                ae_entityType = EntWallet, ae_entityId = i,
                ae_oldValue = JObj [(''balance'', jint before)],
                ae_newValue = JObj [(''balance'', jint after), (''direction'', JStr (direction_text dir)),
                  (''amount'', jint amount), (''note'', JStr note)]\<rparr>) (\<lambda>_.
     tx_return (created, owner_of w after)))))))"

definition adjust ::
  "call_ctx \<Rightarrow> string \<Rightarrow> direction \<Rightarrow> int \<Rightarrow> string \<Rightarrow> auth_user \<Rightarrow> world \<Rightarrow> (exn + txn) \<times> world" where
  "adjust c i dir amount note actor w =
     (case adjust_tx c i dir amount note actor (wdb w) of
        Inl e \<Rightarrow> (Inl e, w)
      | Inr (d', created, ow) \<Rightarrow> (Inr created, announce ow (w\<lparr>wdb := d'\<rparr>)))"

section \<open>Transfers\<close>

definition transfer_row ::
  "call_ctx \<Rightarrow> string \<Rightarrow> string \<Rightarrow> string \<Rightarrow> txn_type \<Rightarrow> int \<Rightarrow> string \<Rightarrow> int \<Rightarrow> int \<Rightarrow> string
     \<Rightarrow> string option \<Rightarrow> rat option \<Rightarrow> txn" where
  "transfer_row c i transferId walletId ty amount counterparty before after actorId note rate =
     (settled_row c i walletId ty amount before after actorId note)
       \<lparr>t_transferId := Some transferId, t_counterpartyWalletId := Some counterparty,
        t_exchangeRate := rate\<rparr>"

record transfer_result =
  tr_outRow :: txn
  tr_from :: owner_info
  tr_to :: owner_info
  tr_event :: push_event

text \<open>
  The body under both row locks. \<open>credit\<close> and \<open>rate\<close> were determined before the locks;
  \<open>sender\<close> is the sender's handle, \<open>rate_text\<close> the rate's string for the audit row.
\<close>

definition transfer_tx ::
  "call_ctx \<Rightarrow> string \<Rightarrow> auth_user \<Rightarrow> string \<Rightarrow> int \<Rightarrow> string option \<Rightarrow> int \<Rightarrow> rat option
     \<Rightarrow> string option \<Rightarrow> string option \<Rightarrow> string \<Rightarrow> (db, transfer_result) tx" where
  "transfer_tx c fromId actor toId amount note credit rate rate_text sender transferId =
     tx_bind (tx_read (find_wallet fromId)) (\<lambda>found_f.
     tx_bind (tx_some found_f (NotFoundException ''Wallet not found'')) (\<lambda>fw.
     tx_bind (tx_read (find_wallet toId)) (\<lambda>found_t.
     tx_bind (tx_some found_t (NotFoundException ''Destination wallet not found'')) (\<lambda>tw.
     tx_bind (tx_when (w_balance fw < amount) (BadRequestException ''Insufficient funds'')) (\<lambda>_.
     let fromAfter = w_balance fw - amount; toAfter = w_balance tw + credit in
     tx_bind (wallet_set_balance (w_id fw) fromAfter) (\<lambda>_.
     tx_bind (wallet_set_balance (w_id tw) toAfter) (\<lambda>_.
     tx_bind (txn_create (transfer_row c (uuids c 1) transferId (w_id fw) TransferOut amount (w_id tw)
                (w_balance fw) fromAfter (au_id actor) note rate)) (\<lambda>outRow.
     tx_bind (txn_create (transfer_row c (uuids c 2) transferId (w_id tw) TransferIn credit (w_id fw)
                (w_balance tw) toAfter (au_id actor) note rate)) (\<lambda>_.
     tx_bind (audit_log c (uuids c 3) \<lparr>ae_actorUserId = au_id actor, ae_action = WalletTransfer,
                ae_entityType = EntWallet, ae_entityId = w_id fw,
                ae_oldValue = JObj [(''balance'', jint (w_balance fw))],
                ae_newValue = JObj [(''balance'', jint fromAfter), (''toWalletId'', JStr (w_id tw)),
                  (''amount'', jint amount), (''credit'', jint credit), (''exchangeRate'', jopt rate_text)]\<rparr>) (\<lambda>_.
     tx_bind (notify_enqueue c (uuids c 4) (w_userId tw)
                (money_note (''Received '' @ formatMinor credit (w_currency tw))
                   (''from @'' @ opt_default sender ''someone'') transferId ''/'')) (\<lambda>event.
     tx_return \<lparr>tr_outRow = outRow, tr_from = owner_of fw fromAfter, tr_to = owner_of tw toAfter,
        tr_event = event\<rparr>)))))))))))"

text \<open>The locks, in the order they are taken.\<close>

definition transfer_locks :: "string \<Rightarrow> string \<Rightarrow> string list" where
  "transfer_locks fromId toId = sort [fromId, toId]"

definition sender_handle :: "string \<Rightarrow> db \<Rightarrow> string option" where
  "sender_handle i d = (case findById i d of Inl e \<Rightarrow> None | Inr u \<Rightarrow> su_handle u)"

text \<open>
  What a transfer settles before the transaction opens: the rate (only between currencies, and
  fetched outside the locks) and the credit it determines.
\<close>

definition transfer_rate ::
  "outside \<Rightarrow> call_ctx \<Rightarrow> wallet \<Rightarrow> wallet \<Rightarrow> int \<Rightarrow> world \<Rightarrow> (exn + (rat option \<times> int)) \<times> world" where
  "transfer_rate x c source dest amount w =
     (if w_currency source = w_currency dest then (Inr (None, amount), w)
      else case getRate (x_decimal x) (x_fx x) (now c) (w_currency source) (w_currency dest)
                  (wrates w) (wnet w) of
             (Inl e, rc, net) \<Rightarrow> (Inl e, w\<lparr>wrates := rc, wnet := net\<rparr>)
           | (Inr r, rc, net) \<Rightarrow>
               (Inr (Some r, convertMinor (x_decimal x) amount r), w\<lparr>wrates := rc, wnet := net\<rparr>))"

definition transfer ::
  "outside \<Rightarrow> call_ctx \<Rightarrow> string \<Rightarrow> auth_user \<Rightarrow> string \<Rightarrow> int \<Rightarrow> string option \<Rightarrow> world
     \<Rightarrow> (exn + txn) \<times> world" where
  "transfer x c fromId actor toId amount note w =
     (if toId = fromId then (Inl (BadRequestException ''Cannot transfer to the same wallet''), w)
      else case getOwnedWallet (wdb w) fromId actor of
        Inl e \<Rightarrow> (Inl e, w)
      | Inr source \<Rightarrow>
          (case find_wallet toId (wdb w) of
             None \<Rightarrow> (Inl (NotFoundException ''Destination wallet not found''), w)
           | Some dest \<Rightarrow>
               (case transfer_rate x c source dest amount w of
                  (Inl e, w1) \<Rightarrow> (Inl e, w1)
                | (Inr (rate, credit), w1) \<Rightarrow>
                    (case transfer_tx c fromId actor toId amount note credit rate
                            (map_option (d_toString (x_decimal x)) rate)
                            (sender_handle (au_id actor) (wdb w1)) (uuids c 0) (wdb w1) of
                       Inl e \<Rightarrow> (Inl e, w1)
                     | Inr (d', res) \<Rightarrow>
                         (Inr (tr_outRow res),
                          dispatch x c (tr_event res)
                            (announce (tr_to res) (announce (tr_from res) (w1\<lparr>wdb := d'\<rparr>))))))))"

end
