(* ===== verification/Ledger.thy ===== *)
theory Ledger
  imports Wallets
begin

text \<open>
  The correctness of the ledger. \<open>ledger_ok\<close> says that every wallet's balance is the sum of what
  its approved rows record, never negative and within the column's range, and that every row has
  the shape of its state. Every transaction body of \<open>Wallets\<close> keeps it from any database state,
  so it holds after any interleaving of requests. \<open>ledger_extends\<close> is append-only-ness.
\<close>

section \<open>The invariant\<close>

text \<open>What an approved row moved; a row's contribution to the balance of wallet \<open>i\<close>.\<close>

definition settled_delta :: "txn \<Rightarrow> int" where
  "settled_delta t =
     (case (t_balanceBefore t, t_balanceAfter t) of (Some b, Some a) \<Rightarrow> a - b | _ \<Rightarrow> 0)"

definition contribution :: "string \<Rightarrow> txn \<Rightarrow> int" where
  "contribution i t = (if t_walletId t = i \<and> t_status t = Approved then settled_delta t else 0)"

definition ledger_sum :: "txn list \<Rightarrow> string \<Rightarrow> int" where
  "ledger_sum ts i = sum_list (map (contribution i) ts)"

text \<open>The sign of a settled row: the type fixes it, except for adjustments.\<close>

definition signed_ok :: "txn_type \<Rightarrow> int \<Rightarrow> int \<Rightarrow> int \<Rightarrow> bool" where
  "signed_ok ty amount b a =
     (case ty of
        Deposit \<Rightarrow> a = b + amount
      | TransferIn \<Rightarrow> a = b + amount
      | Withdrawal \<Rightarrow> a = b - amount
      | TransferOut \<Rightarrow> a = b - amount
      | Adjustment \<Rightarrow> a = b + amount \<or> a = b - amount)"

definition reviewable :: "txn_type \<Rightarrow> bool" where
  "reviewable ty \<longleftrightarrow> ty = Deposit \<or> ty = Withdrawal"

definition row_ok :: "txn \<Rightarrow> bool" where
  "row_ok t \<longleftrightarrow>
     0 \<le> t_amount t \<and> (t_type t \<noteq> TransferIn \<longrightarrow> 0 < t_amount t) \<and>
     (case t_status t of
        Approved \<Rightarrow>
          (case (t_balanceBefore t, t_balanceAfter t) of
             (Some b, Some a) \<Rightarrow> 0 \<le> b \<and> 0 \<le> a \<and> signed_ok (t_type t) (t_amount t) b a
           | _ \<Rightarrow> False) \<and> t_reviewedBy t \<noteq> None
      | Pending \<Rightarrow> t_balanceBefore t = None \<and> t_balanceAfter t = None \<and> t_reviewedBy t = None \<and>
          reviewable (t_type t)
      | Rejected \<Rightarrow> t_balanceBefore t = None \<and> t_balanceAfter t = None \<and> t_reviewedBy t \<noteq> None \<and>
          reviewable (t_type t))"

definition wallet_ok :: "txn list \<Rightarrow> wallet \<Rightarrow> bool" where
  "wallet_ok ts w \<longleftrightarrow>
     0 \<le> w_balance w \<and> w_balance w \<le> int4_max \<and> w_balance w = ledger_sum ts (w_id w)"

definition ledger_ok :: "wallet list \<Rightarrow> txn list \<Rightarrow> bool" where
  "ledger_ok ws ts \<longleftrightarrow>
     distinct (map w_id ws) \<and> distinct (map t_id ts) \<and>
     (\<forall>w \<in> set ws. wallet_ok ts w) \<and>
     (\<forall>t \<in> set ts. row_ok t \<and> t_walletId t \<in> w_id ` set ws)"

definition ledger_inv :: "db \<Rightarrow> bool" where
  "ledger_inv d \<longleftrightarrow> ledger_ok (wallets d) (txns d)"

section \<open>Sums over the ledger\<close>

lemma ledger_sum_Nil [simp]: "ledger_sum [] i = 0"
  by (simp add: ledger_sum_def)

lemma ledger_sum_append [simp]: "ledger_sum (ts @ us) i = ledger_sum ts i + ledger_sum us i"
  by (simp add: ledger_sum_def)

lemma ledger_sum_single [simp]: "ledger_sum [t] i = contribution i t"
  by (simp add: ledger_sum_def)

lemma ledger_sum_no_rows: "(\<And>t. t \<in> set ts \<Longrightarrow> t_walletId t \<noteq> i) \<Longrightarrow> ledger_sum ts i = 0"
  by (induction ts) (auto simp: ledger_sum_def contribution_def)

lemma sum_upd_one:
  fixes h :: "'r \<Rightarrow> int"
  assumes "distinct (map key ts)" and "t \<in> set ts" and "key t = k"
  shows "sum_list (map h (upd_rows (\<lambda>r. key r = k) f ts)) = sum_list (map h ts) - h t + h (f t)"
  using assms
proof (induction ts)
  case Nil
  then show ?case by simp
next
  case (Cons x xs)
  show ?case
  proof (cases "key x = k")
    case True
    then have "\<And>r. r \<in> set xs \<Longrightarrow> key r \<noteq> k" using Cons.prems(1) by (auto simp: image_iff)
    then have "upd_rows (\<lambda>r. key r = k) f xs = xs" by (intro upd_rows_idle) auto
    moreover have "x = t" using Cons.prems True by (metis distinct_key_unique list.set_intros(1))
    ultimately show ?thesis using True by simp
  next
    case False
    then have "t \<in> set xs" using Cons.prems by auto
    then show ?thesis using Cons False by simp
  qed
qed

lemma ledger_sum_upd_one:
  "distinct (map t_id ts) \<Longrightarrow> t \<in> set ts \<Longrightarrow> t_id t = k \<Longrightarrow>
   ledger_sum (upd_rows (\<lambda>r. t_id r = k) f ts) i = ledger_sum ts i - contribution i t + contribution i (f t)"
  unfolding ledger_sum_def by (rule sum_upd_one)

lemma contribution_other: "t_walletId t \<noteq> i \<Longrightarrow> contribution i t = 0"
  by (simp add: contribution_def)

lemma contribution_unsettled: "t_status t \<noteq> Approved \<Longrightarrow> contribution i t = 0"
  by (simp add: contribution_def)

section \<open>The two ways a balance moves\<close>

abbreviation set_bal :: "string \<Rightarrow> int \<Rightarrow> wallet list \<Rightarrow> wallet list" where
  "set_bal i b ws \<equiv> upd_rows (\<lambda>w. w_id w = i) (w_balance_update (\<lambda>_. b)) ws"

lemma w_ids_set_bal [simp]: "w_id ` set (set_bal i b ws) = w_id ` set ws"
  by (metis list.set_map wallet_balance.keys_kept)

text \<open>
  A wallet's balance is set and the ledger changes so that only that wallet's sum moves, by the
  same difference: the balances still agree with the ledger.
\<close>

lemma wallets_ok_move:
  assumes ok: "\<forall>w \<in> set ws. wallet_ok ts w" and dis: "distinct (map w_id ws)"
    and w: "w \<in> set ws" "w_id w = i" and b: "0 \<le> b" "b \<le> int4_max"
    and sum_i: "ledger_sum ts' i = ledger_sum ts i + (b - w_balance w)"
    and sum_j: "\<And>j. j \<noteq> i \<Longrightarrow> ledger_sum ts' j = ledger_sum ts j"
  shows "\<forall>v \<in> set (set_bal i b ws). wallet_ok ts' v"
proof
  fix v assume "v \<in> set (set_bal i b ws)"
  then consider (other) "v \<in> set ws" "w_id v \<noteq> i"
    | (moved) v0 where "v0 \<in> set ws" "w_id v0 = i" "v = v0\<lparr>w_balance := b\<rparr>"
    using wallet_balance.updated_row [of v i b ws] by auto
  then show "wallet_ok ts' v"
  proof cases
    case other
    then have "wallet_ok ts v" using ok by blast
    then show ?thesis using sum_j [OF other(2)] unfolding wallet_ok_def by simp
  next
    case moved
    have "v0 = w" using distinct_key_unique [OF dis moved(1) w(1)] moved(2) w(2) by simp
    moreover have "w_balance w = ledger_sum ts i" using ok w by (auto simp: wallet_ok_def)
    ultimately show ?thesis using moved b sum_i w by (simp add: wallet_ok_def)
  qed
qed

text \<open>Settling with a new row.\<close>

lemma ledger_ok_new_row:
  assumes ok: "ledger_ok ws ts" and w: "List.find (\<lambda>w. w_id w = i) ws = Some w"
    and fresh: "t_id r \<notin> t_id ` set ts" and row: "row_ok r" "t_walletId r = i" "t_status r = Approved"
    and ba: "t_balanceBefore r = Some (w_balance w)" "t_balanceAfter r = Some b"
    and b: "0 \<le> b" "b \<le> int4_max"
  shows "ledger_ok (set_bal i b ws) (ts @ [r])"
proof -
  have win: "w \<in> set ws" "w_id w = i" using find_Some_in [OF w] by auto
  have c: "contribution i r = b - w_balance w" and cj: "j \<noteq> i \<Longrightarrow> contribution j r = 0" for j
    using row ba by (auto simp: contribution_def settled_delta_def)
  have "\<forall>v \<in> set (set_bal i b ws). wallet_ok (ts @ [r]) v"
    by (rule wallets_ok_move [OF _ _ win b]) (use ok c cj in \<open>auto simp: ledger_ok_def\<close>)
  moreover have "t_walletId r \<in> w_id ` set ws" using win row by blast
  ultimately show ?thesis
    using ok fresh row unfolding ledger_ok_def wallet_balance.keys_kept w_ids_set_bal
    by (auto simp: row(1))
qed

text \<open>Settling a pending row in place.\<close>

lemma ledger_ok_settle_row:
  assumes ok: "ledger_ok ws ts" and w: "List.find (\<lambda>w. w_id w = i) ws = Some w"
    and t: "t \<in> set ts" "t_id t = k" "t_walletId t = i" "t_status t \<noteq> Approved"
    and f: "\<And>r. t_id (f r) = t_id r" "\<And>r. t_walletId (f r) = t_walletId r"
    and row: "row_ok (f t)" "t_status (f t) = Approved"
    and ba: "t_balanceBefore (f t) = Some (w_balance w)" "t_balanceAfter (f t) = Some b"
    and b: "0 \<le> b" "b \<le> int4_max"
  shows "ledger_ok (set_bal i b ws) (upd_rows (\<lambda>r. t_id r = k) f ts)"
proof -
  have win: "w \<in> set ws" "w_id w = i" using find_Some_in [OF w] by auto
  have dis: "distinct (map t_id ts)" using ok by (simp add: ledger_ok_def)
  have c: "contribution i (f t) = b - w_balance w"
    using f(2) [of t] t row ba by (simp add: contribution_def settled_delta_def)
  have c0: "contribution j t = 0" for j using t by (simp add: contribution_unsettled)
  have cj: "j \<noteq> i \<Longrightarrow> contribution j (f t) = 0" for j
    using f(2) [of t] t by (simp add: contribution_other)
  have "\<forall>v \<in> set (set_bal i b ws). wallet_ok (upd_rows (\<lambda>r. t_id r = k) f ts) v"
    by (rule wallets_ok_move [OF _ _ win b])
      (use ok c c0 cj ledger_sum_upd_one [OF dis t(1,2)] in \<open>auto simp: ledger_ok_def\<close>)
  moreover have "row_ok r \<and> t_walletId r \<in> w_id ` set ws"
    if r: "r \<in> set (upd_rows (\<lambda>r. t_id r = k) f ts)" for r
  proof -
    obtain r0 where r0: "r0 \<in> set ts" "r = (if t_id r0 = k then f r0 else r0)"
      using r by (auto simp: set_upd_rows)
    have "t_id r0 = k \<Longrightarrow> r0 = t" using distinct_key_unique [OF dis r0(1) t(1)] t(2) by simp
    then show ?thesis using r0 ok row f(2) by (auto simp: ledger_ok_def)
  qed
  ultimately show ?thesis
    using ok by (auto simp: ledger_ok_def wallet_balance.keys_kept map_upd_rows_key f(1))
qed

text \<open>A row that does not settle anything.\<close>

lemma ledger_ok_neutral_upd:
  assumes ok: "ledger_ok ws ts" and t: "t \<in> set ts" "t_id t = k" "t_status t \<noteq> Approved"
    and f: "\<And>r. t_id (f r) = t_id r" "\<And>r. t_walletId (f r) = t_walletId r"
    and row: "row_ok (f t)" "t_status (f t) \<noteq> Approved"
  shows "ledger_ok ws (upd_rows (\<lambda>r. t_id r = k) f ts)"
proof -
  have dis: "distinct (map t_id ts)" using ok by (simp add: ledger_ok_def)
  have sums: "ledger_sum (upd_rows (\<lambda>r. t_id r = k) f ts) j = ledger_sum ts j" for j
    using ledger_sum_upd_one [OF dis t(1,2), of f j] t row by (simp add: contribution_unsettled)
  have "row_ok r \<and> t_walletId r \<in> w_id ` set ws"
    if r: "r \<in> set (upd_rows (\<lambda>r. t_id r = k) f ts)" for r
  proof -
    obtain r0 where r0: "r0 \<in> set ts" "r = (if t_id r0 = k then f r0 else r0)"
      using r by (auto simp: set_upd_rows)
    have "t_id r0 = k \<Longrightarrow> r0 = t" using distinct_key_unique [OF dis r0(1) t(1)] t(2) by simp
    then show ?thesis using r0 ok row f(2) by (auto simp: ledger_ok_def)
  qed
  then show ?thesis
    using ok by (auto simp: ledger_ok_def wallet_ok_def sums map_upd_rows_key f(1))
qed

lemma ledger_ok_pending_row:
  assumes "ledger_ok ws ts" "t_id r \<notin> t_id ` set ts" "row_ok r" "t_status r = Pending"
    and "t_walletId r \<in> w_id ` set ws"
  shows "ledger_ok ws (ts @ [r])"
  using assms by (auto simp: ledger_ok_def wallet_ok_def contribution_unsettled)

lemma ledger_ok_new_wallet:
  assumes ok: "ledger_ok ws ts" and fresh: "w_id w \<notin> w_id ` set ws" and zero: "w_balance w = 0"
  shows "ledger_ok (ws @ [w]) ts"
proof -
  have "ledger_sum ts (w_id w) = 0"
    using ok fresh by (intro ledger_sum_no_rows) (metis ledger_ok_def)
  then show ?thesis using ok fresh zero by (auto simp: ledger_ok_def wallet_ok_def int4_max_def)
qed

section \<open>Every transaction body keeps the invariant\<close>

lemma int4_nonneg: "0 \<le> n \<Longrightarrow> int4 n \<Longrightarrow> n \<le> int4_max"
  by (simp add: int4_def)

lemmas money_frames = nf.enq_money

lemma deposit_tx_inv:
  assumes "deposit_tx c i actor amount note d = Inr (d', x)" and "ledger_inv d" and "0 < amount"
  shows "ledger_inv d'"
proof -
  obtain w where w: "find_wallet i d = Some w"
    and ws: "wallets d' = set_bal i (w_balance w + amount) (wallets d)"
    and ts: "txns d' = txns d @ [settled_row c (uuids c 0) i Deposit amount (w_balance w)
        (w_balance w + amount) (au_id actor) note]"
    and fresh: "uuids c 0 \<notin> t_id ` set (txns d)" and b: "int4 (w_balance w + amount)"
    using assms(1) by (auto simp: deposit_tx_def tx_simps Let_def settled_row_def)
  have "0 \<le> w_balance w"
    using assms(2) find_wallet_in [OF w] by (auto simp: ledger_inv_def ledger_ok_def wallet_ok_def)
  then show ?thesis
    using assms(2,3) w fresh int4_nonneg [OF _ b] unfolding ledger_inv_def ws ts find_wallet_def
    by (intro ledger_ok_new_row) (auto simp: settled_row_def row_ok_def signed_ok_def)
qed

text \<open>The caller's row is one the invariant speaks of.\<close>

lemma ledger_inv_wallet:
  "ledger_inv d \<Longrightarrow> find_wallet i d = Some w \<Longrightarrow> 0 \<le> w_balance w \<and> w_balance w \<le> int4_max"
  using find_wallet_in [of i d w] by (auto simp: ledger_inv_def ledger_ok_def wallet_ok_def)

lemma ledger_inv_row: "ledger_inv d \<Longrightarrow> find_txn i d = Some t \<Longrightarrow> row_ok t"
  using find_txn_in [of i d t] by (auto simp: ledger_inv_def ledger_ok_def)

lemma find_wallet_id: "find_wallet i d = Some w \<Longrightarrow> w_id w = i"
  using find_wallet_in by blast

lemma approve_tx_result:
  assumes "approve_tx c i actor d = Inr (d', updated, ow, ev)"
  obtains t w b where "find_txn i d = Some t" "t_status t = Pending"
    "find_wallet (t_walletId t) d = Some w"
    "t_type t = Withdrawal \<Longrightarrow> t_amount t \<le> w_balance w"
    "b = (if t_type t = Withdrawal then w_balance w - t_amount t else w_balance w + t_amount t)"
    "int4 b" "wallets d' = set_bal (t_walletId t) b (wallets d)"
    "txns d' = upd_rows (\<lambda>r. t_id r = i) (\<lambda>r. r\<lparr>t_status := Approved,
       t_reviewedBy := Some (au_id actor), t_reviewedAt := Some (now c),
       t_balanceBefore := Some (w_balance w), t_balanceAfter := Some b\<rparr>) (txns d)"
    "updated = t\<lparr>t_status := Approved, t_reviewedBy := Some (au_id actor),
       t_reviewedAt := Some (now c), t_balanceBefore := Some (w_balance w), t_balanceAfter := Some b\<rparr>"
proof -
  obtain t where t: "find_txn i d = Some t" and pend: "t_status t = Pending"
    using assms by (auto simp: approve_tx_def tx_simps Let_def)
  obtain w where w: "find_wallet (t_walletId t) d = Some w"
    using assms t by (auto simp: approve_tx_def tx_simps Let_def)
  have ids: "t_id t = i" "w_id w = t_walletId t"
    using find_txn_in [OF t] find_wallet_in [OF w] by auto
  show ?thesis
    using assms t pend w ids
    by (intro that [OF t pend w _ refl]) (auto simp: approve_tx_def tx_simps Let_def find_txn_def)
qed

lemma approve_tx_inv:
  assumes "approve_tx c i actor d = Inr (d', x)" and inv: "ledger_inv d"
  shows "ledger_inv d'"
proof -
  obtain updated ow ev where "x = (updated, ow, ev)" by (metis prod_cases3)
  with assms(1) have "approve_tx c i actor d = Inr (d', updated, ow, ev)" by simp
  then show ?thesis
  proof (rule approve_tx_result)
  fix t w b
  assume t: "find_txn i d = Some t" "t_status t = Pending"
    and w: "find_wallet (t_walletId t) d = Some w"
    and enough: "t_type t = Withdrawal \<Longrightarrow> t_amount t \<le> w_balance w"
    and b: "b = (if t_type t = Withdrawal then w_balance w - t_amount t else w_balance w + t_amount t)"
    "int4 b" and ws: "wallets d' = set_bal (t_walletId t) b (wallets d)"
    and ts: "txns d' = upd_rows (\<lambda>r. t_id r = i) (\<lambda>r. r\<lparr>t_status := Approved,
       t_reviewedBy := Some (au_id actor), t_reviewedAt := Some (now c),
       t_balanceBefore := Some (w_balance w), t_balanceAfter := Some b\<rparr>) (txns d)"
  have row: "row_ok t" and bal: "0 \<le> w_balance w"
    using ledger_inv_row [OF inv t(1)] ledger_inv_wallet [OF inv w] by auto
  have b0: "0 \<le> b" using b(1) enough row bal by (auto simp: row_ok_def)
  show "ledger_inv d'"
    unfolding ledger_inv_def ws ts
  proof (rule ledger_ok_settle_row)
    show "List.find (\<lambda>v. w_id v = t_walletId t) (wallets d) = Some w"
      using w by (simp add: find_wallet_def)
    show "row_ok (t\<lparr>t_status := Approved, t_reviewedBy := Some (au_id actor),
        t_reviewedAt := Some (now c), t_balanceBefore := Some (w_balance w), t_balanceAfter := Some b\<rparr>)"
      using row t(2) b(1) b0 bal by (auto simp: row_ok_def signed_ok_def reviewable_def)
  qed (use inv find_txn_in [OF t(1)] t(2) b0 int4_nonneg [OF b0 b(2)] in
      \<open>simp_all add: ledger_inv_def\<close>)
  qed
qed

lemma reject_tx_result:
  assumes "reject_tx c i actor note d = Inr (d', x)"
  obtains t note' where "find_txn i d = Some t" "t_status t = Pending"
    "wallets d' = wallets d"
    "txns d' = upd_rows (\<lambda>r. t_id r = i) (\<lambda>r. r\<lparr>t_status := Rejected,
       t_reviewedBy := Some (au_id actor), t_reviewedAt := Some (now c), t_note := note'\<rparr>) (txns d)"
proof -
  obtain t where t: "find_txn i d = Some t" and pend: "t_status t = Pending"
    using assms by (auto simp: reject_tx_def tx_simps Let_def)
  have "t_id t = i" using find_txn_in [OF t] by auto
  then show ?thesis
    using assms t pend that [OF t pend]
    by (auto simp: reject_tx_def tx_simps Let_def find_txn_def split: option.splits)
qed

lemma reject_tx_inv:
  assumes "reject_tx c i actor note d = Inr (d', x)" and inv: "ledger_inv d"
  shows "ledger_inv d'"
proof -
  obtain t note' where t: "find_txn i d = Some t" "t_status t = Pending"
    and ws: "wallets d' = wallets d"
    and ts: "txns d' = upd_rows (\<lambda>r. t_id r = i) (\<lambda>r. r\<lparr>t_status := Rejected,
       t_reviewedBy := Some (au_id actor), t_reviewedAt := Some (now c), t_note := note'\<rparr>) (txns d)"
    using assms(1) by (elim reject_tx_result)
  show ?thesis
    unfolding ledger_inv_def ws ts
    by (rule ledger_ok_neutral_upd [where t = t])
      (use inv find_txn_in [OF t(1)] t(2) ledger_inv_row [OF inv t(1)] in
        \<open>simp_all add: ledger_inv_def row_ok_def\<close>)
qed

lemma adjust_tx_inv:
  assumes "adjust_tx c i dir amount note actor d = Inr (d', x)" and inv: "ledger_inv d"
    and pos: "0 < amount"
  shows "ledger_inv d'"
proof -
  obtain w b where w: "find_wallet i d = Some w"
    and b: "b = (if dir = Credit then w_balance w + amount else w_balance w - amount)" "0 \<le> b" "int4 b"
    and ws: "wallets d' = set_bal i b (wallets d)"
    and ts: "txns d' = txns d @ [settled_row c (uuids c 0) i Adjustment amount (w_balance w) b
        (au_id actor) (Some note)]"
    and fresh: "uuids c 0 \<notin> t_id ` set (txns d)"
    using assms(1) by (auto simp: adjust_tx_def tx_simps Let_def settled_row_def)
  show ?thesis
    unfolding ledger_inv_def ws ts
    by (rule ledger_ok_new_row [where w = w])
      (use w inv fresh b pos int4_nonneg [OF b(2,3)] ledger_inv_wallet [OF inv w] in
        \<open>auto simp: settled_row_def row_ok_def signed_ok_def ledger_inv_def find_wallet_def\<close>)
qed

lemma createWallet_inv:
  "createWallet c actor name cur d = Inr (d', x) \<Longrightarrow> ledger_inv d \<Longrightarrow> ledger_inv d'"
  unfolding createWallet_def ledger_inv_def
  by (auto simp: tx_simps new_wallet_def intro!: ledger_ok_new_wallet)

lemma withdrawal_request_inv:
  assumes "requestWithdrawal c i actor amount note d = Inr (d', x)" and inv: "ledger_inv d"
    and "0 < amount"
  shows "ledger_inv d'"
proof -
  obtain w where w: "find_wallet i d = Some w"
    and ws: "wallets d' = wallets d"
    and ts: "txns d' = txns d @ [pending_txn c (uuids c 0) i Withdrawal amount (au_id actor) note]"
    and fresh: "uuids c 0 \<notin> t_id ` set (txns d)"
    using assms(1) by (auto simp: requestWithdrawal_def getOwnedWallet_def tx_simps pending_txn_def
        split: option.splits if_splits)
  have "i \<in> w_id ` set (wallets d)" using find_wallet_in [OF w] by blast
  then show ?thesis
    unfolding ledger_inv_def ws ts using inv fresh assms(3)
    by (intro ledger_ok_pending_row)
      (auto simp: ledger_inv_def pending_txn_def row_ok_def reviewable_def)
qed

section \<open>Transfers\<close>

lemma transfer_tx_result:
  assumes "transfer_tx c fromId actor toId amount note credit rate rt sender tid d = Inr (d', res)"
    and ne: "toId \<noteq> fromId"
  obtains fw tw where "find_wallet fromId d = Some fw" "find_wallet toId d = Some tw"
    "amount \<le> w_balance fw" "int4 (w_balance fw - amount)" "int4 (w_balance tw + credit)"
    "wallets d' = set_bal toId (w_balance tw + credit)
       (set_bal fromId (w_balance fw - amount) (wallets d))"
    "uuids c 1 \<notin> t_id ` set (txns d)"
    "uuids c 2 \<notin> t_id ` set (txns d @ [transfer_row c (uuids c 1) tid fromId TransferOut amount toId
        (w_balance fw) (w_balance fw - amount) (au_id actor) note rate])"
    "txns d' = (txns d @ [transfer_row c (uuids c 1) tid fromId TransferOut amount toId
        (w_balance fw) (w_balance fw - amount) (au_id actor) note rate]) @
      [transfer_row c (uuids c 2) tid toId TransferIn credit fromId
        (w_balance tw) (w_balance tw + credit) (au_id actor) note rate]"
    "res = \<lparr>tr_outRow = transfer_row c (uuids c 1) tid fromId TransferOut amount toId
        (w_balance fw) (w_balance fw - amount) (au_id actor) note rate,
       tr_from = owner_of fw (w_balance fw - amount), tr_to = owner_of tw (w_balance tw + credit),
       tr_event = notification_event c (uuids c 4) (w_userId tw)
         (money_note (''Received '' @ formatMinor credit (w_currency tw))
            (''from @'' @ opt_default sender ''someone'') tid ''/'')\<rparr>"
proof -
  obtain fw where fw: "find_wallet fromId d = Some fw"
    using assms(1) by (auto simp: transfer_tx_def tx_simps Let_def)
  obtain tw where tw: "find_wallet toId d = Some tw"
    using assms(1) fw by (auto simp: transfer_tx_def tx_simps Let_def)
  have ids: "w_id fw = fromId" "w_id tw = toId" using find_wallet_id fw tw by auto
  show ?thesis
    by (rule that [OF fw tw])
      (use assms(1) fw tw ids in \<open>simp_all add: transfer_tx_def tx_simps Let_def transfer_row_def
        settled_row_def\<close>)
qed

lemma transfer_row_simps [simp]:
  "t_id (transfer_row c i tid w ty amount cp b a u note rate) = i"
  "t_walletId (transfer_row c i tid w ty amount cp b a u note rate) = w"
  "t_type (transfer_row c i tid w ty amount cp b a u note rate) = ty"
  "t_amount (transfer_row c i tid w ty amount cp b a u note rate) = amount"
  "t_status (transfer_row c i tid w ty amount cp b a u note rate) = Approved"
  "t_balanceBefore (transfer_row c i tid w ty amount cp b a u note rate) = Some b"
  "t_balanceAfter (transfer_row c i tid w ty amount cp b a u note rate) = Some a"
  "t_reviewedBy (transfer_row c i tid w ty amount cp b a u note rate) = Some u"
  "t_transferId (transfer_row c i tid w ty amount cp b a u note rate) = Some tid"
  "t_counterpartyWalletId (transfer_row c i tid w ty amount cp b a u note rate) = Some cp"
  "t_exchangeRate (transfer_row c i tid w ty amount cp b a u note rate) = rate"
  by (simp_all add: transfer_row_def settled_row_def)

lemma transfer_tx_inv:
  assumes "transfer_tx c fromId actor toId amount note credit rate rt sender tid d = Inr (d', res)"
    and ne: "toId \<noteq> fromId" and inv: "ledger_inv d" and pos: "0 < amount" "0 \<le> credit"
  shows "ledger_inv d'"
  using assms(1) ne
proof (rule transfer_tx_result)
  fix fw tw :: wallet
  let ?out = "transfer_row c (uuids c 1) tid fromId TransferOut amount toId
        (w_balance fw) (w_balance fw - amount) (au_id actor) note rate"
  let ?in = "transfer_row c (uuids c 2) tid toId TransferIn credit fromId
        (w_balance tw) (w_balance tw + credit) (au_id actor) note rate"
  assume fw: "find_wallet fromId d = Some fw" and tw: "find_wallet toId d = Some tw"
    and enough: "amount \<le> w_balance fw"
    and r: "int4 (w_balance fw - amount)" "int4 (w_balance tw + credit)"
    and ws: "wallets d' = set_bal toId (w_balance tw + credit)
       (set_bal fromId (w_balance fw - amount) (wallets d))"
    and fresh: "uuids c 1 \<notin> t_id ` set (txns d)" "uuids c 2 \<notin> t_id ` set (txns d @ [?out])"
    and ts: "txns d' = (txns d @ [?out]) @ [?in]"
  have bal: "0 \<le> w_balance fw" "0 \<le> w_balance tw"
    using ledger_inv_wallet [OF inv fw] ledger_inv_wallet [OF inv tw] by auto
  have b: "0 \<le> w_balance fw - amount" "0 \<le> w_balance tw + credit" using enough bal pos by auto
  have debit: "ledger_ok (set_bal fromId (w_balance fw - amount) (wallets d)) (txns d @ [?out])"
    by (rule ledger_ok_new_row [where w = fw])
      (use fw inv fresh(1) b bal pos int4_nonneg [OF b(1) r(1)] in
        \<open>simp_all add: row_ok_def signed_ok_def ledger_inv_def find_wallet_def\<close>)
  have still: "List.find (\<lambda>w. w_id w = toId) (set_bal fromId (w_balance fw - amount) (wallets d)) = Some tw"
    using tw ne by (simp add: wallet_balance.find_other find_wallet_def)
  show "ledger_inv d'"
    unfolding ledger_inv_def ws ts
    by (rule ledger_ok_new_row [OF debit still])
      (use fresh(2) b bal pos int4_nonneg [OF b(2) r(2)] in \<open>simp_all add: row_ok_def signed_ok_def\<close>)
qed

section \<open>The ledger as a system\<close>

text \<open>
  Every way the program writes to the wallet and ledger tables, from whatever state the database is
  in when the transaction takes its locks: what a request checked before that may no longer hold.
  The amounts are those the DTOs admit (positive); a credit is what the conversion of a positive
  amount yields, which is not negative. All other steps of the program leave both tables alone.
\<close>

inductive ledger_step :: "db \<Rightarrow> db \<Rightarrow> bool" where
  ls_wallet: "createWallet c actor name cur d = Inr (d', x) \<Longrightarrow> ledger_step d d'"
| ls_onboard: "createWithDefaultWallet c a d = Inr (d', u) \<Longrightarrow> ledger_step d d'"
| ls_deposit: "0 < amount \<Longrightarrow> deposit_tx c i actor amount memo d = Inr (d', x) \<Longrightarrow> ledger_step d d'"
| ls_request: "0 < amount \<Longrightarrow> find_wallet i d = Some w \<Longrightarrow>
     txn_create (pending_txn c (uuids c 0) i Withdrawal amount uid memo) d = Inr (d', y) \<Longrightarrow>
     ledger_step d d'"
| ls_approve: "approve_tx c i actor d = Inr (d', x) \<Longrightarrow> ledger_step d d'"
| ls_reject: "reject_tx c i actor memo d = Inr (d', y) \<Longrightarrow> ledger_step d d'"
| ls_adjust: "0 < amount \<Longrightarrow> adjust_tx c i dir amount why actor d = Inr (d', z) \<Longrightarrow> ledger_step d d'"
| ls_transfer: "0 < amount \<Longrightarrow> 0 \<le> credit \<Longrightarrow> toId \<noteq> fromId \<Longrightarrow>
     transfer_tx c fromId actor toId amount memo credit rate rt sender tid d = Inr (d', res) \<Longrightarrow>
     ledger_step d d'"
| ls_other: "wallets d' = wallets d \<Longrightarrow> txns d' = txns d \<Longrightarrow> ledger_step d d'"

definition ledger_start :: "db \<Rightarrow> bool" where
  "ledger_start d \<longleftrightarrow> wallets d = [] \<and> txns d = []"

lemma ledger_inv_start: "ledger_start d \<Longrightarrow> ledger_inv d"
  by (simp add: ledger_start_def ledger_inv_def ledger_ok_def)

lemma createWithDefaultWallet_result:
  assumes "createWithDefaultWallet c a d = Inr (d', u)"
  shows "wallets d' = wallets d @ [new_wallet c (uuids c 1) (uuids c 0) ''My Wallet'' ''USD'']"
    and "txns d' = txns d" and "uuids c 1 \<notin> w_id ` set (wallets d)"
    and "users d' = users d @ [u]" and "u = new_user c (uuids c 0) a"
  using assms
  by (auto simp: createWithDefaultWallet_def tx_simps user_create_def new_wallet_def new_user_def
      split: if_splits)

lemma onboard_inv: "createWithDefaultWallet c a d = Inr (d', u) \<Longrightarrow> ledger_inv d \<Longrightarrow> ledger_inv d'"
  using createWithDefaultWallet_result [of c a d d' u]
  by (auto simp: ledger_inv_def new_wallet_def intro!: ledger_ok_new_wallet)

lemma request_inv:
  assumes "0 < amount" and w: "find_wallet i d = Some w"
    and "txn_create (pending_txn c (uuids c 0) i Withdrawal amount uid note) d = Inr (d', y)"
    and inv: "ledger_inv d"
  shows "ledger_inv d'"
proof -
  have "i \<in> w_id ` set (wallets d)" using find_wallet_in [OF w] by blast
  then show ?thesis
    using assms unfolding ledger_inv_def
    by (auto simp: tx_simps pending_txn_def row_ok_def reviewable_def intro!: ledger_ok_pending_row)
qed

lemma ledger_inv_step: "ledger_step d d' \<Longrightarrow> ledger_inv d \<Longrightarrow> ledger_inv d'"
proof (induction rule: ledger_step.induct)
  case (ls_other d' d)
  then show ?case by (simp add: ledger_inv_def)
qed (blast intro: createWallet_inv onboard_inv deposit_tx_inv request_inv approve_tx_inv
    reject_tx_inv adjust_tx_inv transfer_tx_inv)+

interpretation ledger: invariant_system ledger_start ledger_step ledger_inv
  by unfold_locales (auto intro: ledger_inv_start ledger_inv_step)

section \<open>Append-only\<close>

text \<open>
  How a row may change: not at all once it is settled, and a pending one only by a review, which
  keeps everything that was requested.
\<close>

definition row_evolves :: "txn \<Rightarrow> txn \<Rightarrow> bool" where
  "row_evolves t t' \<longleftrightarrow>
     t' = t \<or>
     (t_status t = Pending \<and> t_status t' \<noteq> Pending \<and> t_reviewedBy t' \<noteq> None \<and> t_id t' = t_id t \<and>
      t_walletId t' = t_walletId t \<and> t_type t' = t_type t \<and> t_amount t' = t_amount t \<and>
      t_requestedBy t' = t_requestedBy t \<and> t_createdAt t' = t_createdAt t)"

definition ledger_extends :: "db \<Rightarrow> db \<Rightarrow> bool" where
  "ledger_extends d d' \<longleftrightarrow>
     (\<exists>old new. list_all2 row_evolves (txns d) old \<and> txns d' = old @ new)"

lemma row_evolves_refl [simp]: "row_evolves t t"
  by (simp add: row_evolves_def)

lemma row_evolves_trans: "row_evolves a b \<Longrightarrow> row_evolves b c \<Longrightarrow> row_evolves a c"
  by (auto simp: row_evolves_def)

lemma evolves_append:
  "list_all2 row_evolves ts ts1 \<Longrightarrow> txns d = ts \<Longrightarrow> txns d' = ts1 @ new \<Longrightarrow> ledger_extends d d'"
  by (auto simp: ledger_extends_def)

lemma evolves_same: "\<exists>new. txns d' = txns d @ new \<Longrightarrow> ledger_extends d d'"
  using evolves_append [of "txns d" "txns d" d d'] by (auto simp: list_all2_conv_all_nth)

lemma evolves_review:
  assumes "find_txn i d = Some t" "t_status t = Pending" "distinct (map t_id (txns d))"
    and "row_evolves t (f t)" and "txns d' = upd_rows (\<lambda>r. t_id r = i) f (txns d)"
  shows "ledger_extends d d'"
proof (rule evolves_append [OF _ refl])
  have "row_evolves r (if t_id r = i then f r else r)" if "r \<in> set (txns d)" for r
    using distinct_key_unique [OF assms(3) that, of t] find_txn_in [OF assms(1)] assms(4) by auto
  then show "list_all2 row_evolves (txns d) (upd_rows (\<lambda>r. t_id r = i) f (txns d))"
    by (simp add: upd_rows_def list_all2_conv_all_nth)
qed (use assms in simp)

lemma ledger_step_extends:
  assumes "ledger_step d d'" and "ledger_inv d"
  shows "ledger_extends d d'"
  using assms
proof (induction rule: ledger_step.induct)
  case (ls_wallet c actor name cur d d' x)
  then show ?case by (intro evolves_same) (auto simp: createWallet_def tx_simps)
next
  case (ls_onboard c a d d' u)
  then show ?case
    by (intro evolves_same) (simp add: createWithDefaultWallet_result)
next
  case (ls_deposit amount c i actor nt d d' x)
  then show ?case
    by (intro evolves_same) (auto simp: deposit_tx_def tx_simps Let_def)
next
  case (ls_request amount i d w c uid nt d' y)
  then show ?case by (intro evolves_same) (auto simp: tx_simps)
next
  case (ls_approve c i actor d d' x)
  obtain updated ow ev where "x = (updated, ow, ev)" by (metis prod_cases3)
  with ls_approve(1) have "approve_tx c i actor d = Inr (d', updated, ow, ev)" by simp
  then show ?case
    by (rule approve_tx_result, intro evolves_review)
      (use ls_approve(2) in \<open>auto simp: ledger_inv_def ledger_ok_def row_evolves_def\<close>)
next
  case (ls_reject c i actor nt d d' y)
  from ls_reject(1) show ?case
    by (rule reject_tx_result, intro evolves_review)
      (use ls_reject(2) in \<open>auto simp: ledger_inv_def ledger_ok_def row_evolves_def\<close>)
next
  case (ls_adjust amount c i dir why actor d d' z)
  then show ?case by (intro evolves_same) (auto simp: adjust_tx_def tx_simps Let_def)
next
  case (ls_transfer amount credit toId fromId c actor nt rate rt sender tid d d' res)
  from ls_transfer(4,3) show ?case
    by (rule transfer_tx_result) (simp add: evolves_same)
next
  case (ls_other d' d)
  then show ?case by (intro evolves_same) simp
qed

end
