(* ===== verification/Money.thy ===== *)
theory Money
  imports Ledger
begin

text \<open>
  What the money handlers of \<open>Wallets\<close> do, as a caller, the other party and an auditor see it:
  the ledger system refines to them, balances and history in every reachable state, exact
  effects, ownership and permission, all-or-nothing, the audit trail, and the order in which
  row locks are taken.
\<close>

section \<open>Reachable states\<close>

text \<open>In every state the program can reach, whatever the interleaving of requests, each wallet's
  balance is the sum of what its approved ledger rows moved, is never negative, and fits its column.\<close>

theorem balance_is_ledger_sum:
  assumes "reach ledger_start ledger_step d" and "w \<in> set (wallets d)"
  shows "w_balance w = ledger_sum (txns d) (w_id w) \<and> 0 \<le> w_balance w \<and> w_balance w \<le> int4_max"
  using ledger.reach_inv [OF assms(1)] assms(2)
  by (auto simp: ledger_inv_def ledger_ok_def wallet_ok_def)

definition demo_wallet :: "string \<Rightarrow> string \<Rightarrow> int \<Rightarrow> wallet" where
  "demo_wallet i owner b = \<lparr>w_id = i, w_userId = owner, w_name = ''My Wallet'', w_currency = ''USD'',
     w_balance = b, w_createdAt = 0\<rparr>"

definition money_ctx :: "string \<Rightarrow> call_ctx" where
  "money_ctx p = \<lparr>now = 1000, uuids = (\<lambda>n. p @ show_nat n), cx_requestId = ''req'',
     cx_ipAddress = None, cx_userAgent = None\<rparr>"

definition money_actor :: "string \<Rightarrow> auth_user" where
  "money_actor i = \<lparr>au_id = i, au_email = i @ ''@wallet.local'', au_role = ''user'', au_totpEnabled = False\<rparr>"

definition two_wallets :: db where
  "two_wallets = empty_db\<lparr>wallets := [demo_wallet ''w1'' ''u1'' 0, demo_wallet ''w2'' ''u2'' 0]\<rparr>"

text \<open>A database after two wallets were created and 500 was deposited to the first.\<close>

definition funded :: db where
  "funded = two_wallets\<lparr>
     wallets := [demo_wallet ''w1'' ''u1'' 500, demo_wallet ''w2'' ''u2'' 0],
     txns := [settled_row (money_ctx ''a'') ''a0'' ''w1'' Deposit 500 0 500 ''u1'' None],
     audit_logs := [audit_row_of (money_ctx ''a'') ''a1'' \<lparr>ae_actorUserId = ''u1'',
        ae_action = DepositSettle, ae_entityType = EntTransaction, ae_entityId = ''a0'',
        ae_oldValue = JObj [(''balance'', jint 0)],
        ae_newValue = JObj [(''balance'', jint 500), (''amount'', jint 500)]\<rparr>],
     outbox := [event_row (money_ctx ''a'') (notification_event (money_ctx ''a'') ''a2'' ''u1''
        (money_note ''Money added'' (formatMinor 500 ''USD'' @ '' added to your wallet'') ''a0'' ''/''))]\<rparr>"

lemma money_ctx_uuids [simp]:
  "uuids (money_ctx p) n = p @ show_nat n" "now (money_ctx p) = 1000"
  by (simp_all add: money_ctx_def)

lemma show_nat_demo [simp]:
  "show_nat 0 = ''0''" "show_nat (Suc 0) = ''1''" "show_nat 1 = ''1''" "show_nat 2 = ''2''"
  "show_nat 3 = ''3''" "show_nat 4 = ''4''"
  by code_simp+

lemma deposit_tx_demo:
  "deposit_tx (money_ctx ''a'') ''w1'' (money_actor ''u1'') 500 None two_wallets =
     Inr (funded, settled_row (money_ctx ''a'') ''a0'' ''w1'' Deposit 500 0 500 ''u1'' None,
       owner_of (demo_wallet ''w1'' ''u1'' 0) 500,
       notification_event (money_ctx ''a'') ''a2'' ''u1''
        (money_note ''Money added'' (formatMinor 500 ''USD'' @ '' added to your wallet'') ''a0'' ''/''))"
  by (auto simp: deposit_tx_def tx_simps two_wallets_def find_wallet_def demo_wallet_def int4_def int4_max_def
      int4_opt_def settled_row_def money_actor_def funded_def empty_db_def Let_def)

lemma reach_funded: "reach ledger_start ledger_step funded"
proof -
  have "reach ledger_start ledger_step (empty_db\<lparr>users := []\<rparr>)"
    by (rule reach_init) (simp add: ledger_start_def empty_db_def)
  then have "reach ledger_start ledger_step (empty_db\<lparr>wallets := [demo_wallet ''w1'' ''u1'' 0]\<rparr>)"
    by (rule reach_step, intro ls_wallet [where c = "(money_ctx ''w'')\<lparr>now := 0, uuids := \<lambda>_. ''w1''\<rparr>"
          and actor = "money_actor ''u1''" and name = "''My Wallet''" and cur = "''USD''"])
      (simp add: createWallet_def wallet_create_def ins_row_def new_wallet_def money_actor_def
        demo_wallet_def empty_db_def)
  then have "reach ledger_start ledger_step two_wallets"
    by (rule reach_step, intro ls_wallet [where c = "(money_ctx ''w'')\<lparr>now := 0, uuids := \<lambda>_. ''w2''\<rparr>"
          and actor = "money_actor ''u2''" and name = "''My Wallet''" and cur = "''USD''"])
      (simp add: createWallet_def wallet_create_def ins_row_def new_wallet_def money_actor_def
        demo_wallet_def empty_db_def two_wallets_def)
  then show ?thesis
    by (rule reach_step) (rule ls_deposit [OF _ deposit_tx_demo], simp)
qed

lemma balance_is_ledger_sum_witness:
  "ledger_sum (txns funded) ''w1'' = 500"
  using balance_is_ledger_sum [OF reach_funded, of "demo_wallet ''w1'' ''u1'' 500"]
  by (simp add: funded_def demo_wallet_def)

section \<open>Append-only\<close>

lemma extends_refl: "ledger_extends d d"
  by (rule evolves_same) simp

lemma extends_trans:
  assumes "ledger_extends a b" "ledger_extends b c"
  shows "ledger_extends a c"
proof -
  obtain o1 n1 where 1: "list_all2 row_evolves (txns a) o1" "txns b = o1 @ n1"
    using assms(1) by (auto simp: ledger_extends_def)
  obtain o2 n2 where 2: "list_all2 row_evolves (o1 @ n1) o2" "txns c = o2 @ n2"
    using assms(2) 1 by (auto simp: ledger_extends_def)
  obtain p q where pq: "o2 = p @ q" "list_all2 row_evolves o1 p"
    using 2(1) by (auto simp: list_all2_append1)
  have "list_all2 row_evolves (txns a) p"
    by (rule list_all2_trans [OF row_evolves_trans 1(1) pq(2)])
  then show ?thesis using 2(2) pq(1) by (auto simp: ledger_extends_def)
qed

lemma steps_extend: "ledger_step\<^sup>*\<^sup>* d d' \<Longrightarrow> ledger_inv d \<Longrightarrow> ledger_extends d d'"
proof (induction rule: rtranclp_induct)
  case base
  show ?case by (rule extends_refl)
next
  case (step b c)
  then show ?case
    using ledger.steps_inv [OF step.hyps(1)] ledger_step_extends extends_trans by blast
qed

lemma extends_row:
  assumes "ledger_extends d d'" "t \<in> set (txns d)"
  shows "\<exists>t' \<in> set (txns d'). row_evolves t t'"
proof -
  obtain old new where o: "list_all2 row_evolves (txns d) old" "txns d' = old @ new"
    using assms(1) by (auto simp: ledger_extends_def)
  obtain k where "k < length (txns d)" "txns d ! k = t" using assms(2) by (auto simp: in_set_conv_nth)
  then have "k < length old" "row_evolves t (old ! k)"
    using o(1) by (auto simp: list_all2_conv_all_nth)
  then show ?thesis using o(2) by (intro bexI [of _ "old ! k"]) auto
qed

text \<open>C8: the ledger is append-only. However the program goes on from a reachable state, a settled
  or rejected row stays in the table exactly as it is, and a pending row stays with its wallet,
  type, amount and requester until a review settles or rejects it.\<close>

theorem history_is_immutable:
  assumes "reach ledger_start ledger_step d" and "ledger_step\<^sup>*\<^sup>* d d'" and "t \<in> set (txns d)"
  shows "(t_status t \<noteq> Pending \<longrightarrow> t \<in> set (txns d')) \<and>
     (\<exists>t' \<in> set (txns d'). t_id t' = t_id t \<and> t_walletId t' = t_walletId t \<and> t_type t' = t_type t \<and>
        t_amount t' = t_amount t \<and> t_requestedBy t' = t_requestedBy t)"
proof -
  obtain t' where "t' \<in> set (txns d')" "row_evolves t t'"
    using extends_row [OF steps_extend [OF assms(2) ledger.reach_inv [OF assms(1)]] assms(3)] by blast
  then show ?thesis by (auto simp: row_evolves_def)
qed

lemma history_is_immutable_witness:
  "settled_row (money_ctx ''a'') ''a0'' ''w1'' Deposit 500 0 500 ''u1'' None \<in> set (txns funded)"
  using history_is_immutable [OF reach_funded rtranclp.rtrancl_refl,
      of "settled_row (money_ctx ''a'') ''a0'' ''w1'' Deposit 500 0 500 ''u1'' None"]
  by (simp add: funded_def settled_row_def)

section \<open>Settling once\<close>

lemma approve_tx_pending:
  "approve_tx c i actor d = Inr (d', x) \<Longrightarrow> \<exists>t. find_txn i d = Some t \<and> t_status t = Pending"
  by (auto simp: approve_tx_def tx_simps Let_def)

lemma reject_tx_pending:
  "reject_tx c i actor note d = Inr (d', x) \<Longrightarrow> \<exists>t. find_txn i d = Some t \<and> t_status t = Pending"
  by (auto simp: reject_tx_def tx_simps Let_def)

lemma find_txn_unique:
  "ledger_inv d \<Longrightarrow> t \<in> set (txns d) \<Longrightarrow> t_id t = i \<Longrightarrow> find_txn i d = Some t"
proof (cases "find_txn i d")
  case None
  assume "t \<in> set (txns d)" "t_id t = i"
  with None show ?thesis by (auto simp: find_txn_def find_None_iff_all)
next
  case (Some s)
  assume "ledger_inv d" "t \<in> set (txns d)" "t_id t = i"
  then have "s = t"
    using distinct_key_unique [of t_id "txns d" s t] find_txn_in [OF Some]
    by (simp add: ledger_inv_def ledger_ok_def)
  with Some show ?thesis by simp
qed

lemma settled_stays:
  assumes "ledger_inv d" "find_txn i d = Some t" "t_status t \<noteq> Pending" "ledger_step\<^sup>*\<^sup>* d d'"
  shows "find_txn i d' = Some t"
proof -
  have "t \<in> set (txns d)" "t_id t = i" using find_txn_in [OF assms(2)] by auto
  then obtain t' where "t' \<in> set (txns d')" "row_evolves t t'"
    using extends_row [OF steps_extend [OF assms(4,1)]] by blast
  then have "t \<in> set (txns d')" using assms(3) by (auto simp: row_evolves_def)
  then show ?thesis
    using find_txn_unique ledger.steps_inv [OF assms(4,1)] \<open>t_id t = i\<close> by blast
qed

lemma find_txn_upd:
  "find_txn i d = Some t \<Longrightarrow> txns d' = upd_rows (\<lambda>r. t_id r = i) f (txns d) \<Longrightarrow> (\<And>r. t_id (f r) = t_id r) \<Longrightarrow>
   find_txn i d' = Some (f t)"
  unfolding find_txn_def by (auto simp: find_upd_rows dest: find_Some_in)

lemma after_review:
  assumes "approve_tx c i actor d = Inr (d1, x) \<or> reject_tx c i actor note d = Inr (d1, y)"
  shows "\<exists>t. find_txn i d1 = Some t \<and> t_status t \<noteq> Pending"
  using assms
proof
  assume a: "approve_tx c i actor d = Inr (d1, x)"
  obtain u ow ev where "x = (u, ow, ev)" by (metis prod_cases3)
  with a have "approve_tx c i actor d = Inr (d1, u, ow, ev)" by simp
  then show ?thesis
  proof (rule approve_tx_result)
    fix t w b
    assume "find_txn i d = Some t" and "txns d1 = upd_rows (\<lambda>r. t_id r = i) (\<lambda>r. r\<lparr>t_status := Approved,
       t_reviewedBy := Some (au_id actor), t_reviewedAt := Some (now c),
       t_balanceBefore := Some (w_balance w), t_balanceAfter := Some b\<rparr>) (txns d)"
    from find_txn_upd [OF this] show ?thesis by simp
  qed
next
  assume "reject_tx c i actor note d = Inr (d1, y)"
  then show ?thesis
  proof (rule reject_tx_result)
    fix t note'
    assume "find_txn i d = Some t" and "txns d1 = upd_rows (\<lambda>r. t_id r = i) (\<lambda>r. r\<lparr>t_status := Rejected,
       t_reviewedBy := Some (au_id actor), t_reviewedAt := Some (now c), t_note := note'\<rparr>) (txns d)"
    from find_txn_upd [OF this] show ?thesis by simp
  qed
qed

text \<open>C13: a pending transaction is reviewed exactly once. After one approval or rejection has
  committed, every later approval or rejection of it, in whatever state other requests have led
  to, is refused with the conflict error.\<close>

theorem reviewed_once:
  assumes "reach ledger_start ledger_step d"
    and "approve_tx c i actor d = Inr (d1, x) \<or> reject_tx c i actor note d = Inr (d1, y)"
    and "ledger_step\<^sup>*\<^sup>* d1 d2"
  shows "approve_tx c' i actor' d2 = Inl (ConflictException ''Transaction already reviewed'')
     \<and> reject_tx c' i actor' note' d2 = Inl (ConflictException ''Transaction already reviewed'')"
proof -
  obtain t where t: "find_txn i d1 = Some t" "t_status t \<noteq> Pending" using after_review [OF assms(2)] by blast
  have "ledger_step d d1" using assms(2) by (auto intro: ls_approve ls_reject)
  then have "ledger_inv d1" using ledger_inv_step ledger.reach_inv [OF assms(1)] by blast
  then have "find_txn i d2 = Some t" using settled_stays [OF _ t assms(3)] by blast
  then show ?thesis
    using t(2) by (simp add: approve_tx_def reject_tx_def tx_defs)
qed

text \<open>A pending withdrawal of 200 from the funded wallet, approved.\<close>

definition requested :: db where
  "requested = funded\<lparr>txns := txns funded @ [pending_txn (money_ctx ''b'') ''b0'' ''w1'' Withdrawal 200 ''u1'' None]\<rparr>"

lemma reach_requested: "reach ledger_start ledger_step requested"
proof (rule reach_step [OF reach_funded])
  show "ledger_step funded requested"
    by (rule ls_request [where amount = 200 and i = "''w1''" and c = "money_ctx ''b''" and uid = "''u1''"
          and memo = None and w = "demo_wallet ''w1'' ''u1'' 500"])
      (auto simp: tx_simps funded_def two_wallets_def requested_def find_wallet_def demo_wallet_def
        pending_txn_def int4_def int4_max_def int4_opt_def settled_row_def)
qed

lemma reject_demo:
  "\<exists>d1 y. reject_tx (money_ctx ''c'') ''b0'' (money_actor ''f1'') None requested = Inr (d1, y)"
  by (simp add: reject_tx_def tx_defs requested_def funded_def two_wallets_def empty_db_def find_txn_def
      pending_txn_def settled_row_def Let_def txn_update_def int4_opt_def audit_log_def ins_row_def
      audit_row_of_def find_wallet_def demo_wallet_def notify_enqueue_def outbox_enqueue_def event_row_def
      new_outbox_row_def notification_event_def money_ctx_def)

lemma reviewed_once_witness:
  "\<exists>d1. approve_tx (money_ctx ''d'') ''b0'' (money_actor ''f1'') d1 =
     Inl (ConflictException ''Transaction already reviewed'')"
proof -
  obtain d1 y where "reject_tx (money_ctx ''c'') ''b0'' (money_actor ''f1'') None requested = Inr (d1, y)"
    using reject_demo by blast
  from reviewed_once [OF reach_requested disjI2 [OF this] rtranclp.rtrancl_refl]
  show ?thesis by blast
qed

section \<open>The handlers\<close>

lemma dispatch_wallets [simp]:
  "wallets (wdb (dispatch x c e w)) = wallets (wdb w)" "txns (wdb (dispatch x c e w)) = txns (wdb w)"
  "audit_logs (wdb (dispatch x c e w)) = audit_logs (wdb w)"
  using nf.disp_money [of x c e w] by simp_all

lemma announce_wdb [simp]: "wdb (announce ow w) = wdb w"
  by (simp add: announce_def emitBalance_def)

lemma transfer_rate_wdb: "transfer_rate x c s t amount w = (r, w1) \<Longrightarrow> wdb w1 = wdb w"
  by (auto simp: transfer_rate_def split: if_splits prod.splits sum.splits)

text \<open>A transfer that returns a row: what it read, and the body it ran.\<close>

lemma transfer_success:
  assumes "transfer x c fromId actor toId amount note w = (Inr row, w')"
  obtains src dst rate credit w1 d' res where "toId \<noteq> fromId"
    "find_wallet fromId (wdb w) = Some src" "w_userId src = au_id actor"
    "find_wallet toId (wdb w) = Some dst"
    "transfer_rate x c src dst amount w = (Inr (rate, credit), w1)" "wdb w1 = wdb w"
    "transfer_tx c fromId actor toId amount note credit rate
       (map_option (d_toString (x_decimal x)) rate) (sender_handle (au_id actor) (wdb w1)) (uuids c 0)
       (wdb w) = Inr (d', res)" "row = tr_outRow res"
    "wallets (wdb w') = wallets d'" "txns (wdb w') = txns d'" "audit_logs (wdb w') = audit_logs d'"
proof -
  have ne: "toId \<noteq> fromId" using assms by (auto simp: transfer_def)
  obtain src where src: "find_wallet fromId (wdb w) = Some src" "w_userId src = au_id actor"
    using assms ne by (auto simp: transfer_def getOwnedWallet_def split: option.splits if_splits)
  obtain dst where dst: "find_wallet toId (wdb w) = Some dst"
    using assms ne src by (auto simp: transfer_def getOwnedWallet_def split: option.splits)
  obtain rate credit w1 where r: "transfer_rate x c src dst amount w = (Inr (rate, credit), w1)"
    using assms ne src dst
    by (auto simp: transfer_def getOwnedWallet_def split: sum.splits prod.splits)
  have w1: "wdb w1 = wdb w" using transfer_rate_wdb [OF r] .
  obtain d' res where t: "transfer_tx c fromId actor toId amount note credit rate
       (map_option (d_toString (x_decimal x)) rate) (sender_handle (au_id actor) (wdb w1)) (uuids c 0)
       (wdb w) = Inr (d', res)"
    using assms ne src dst r w1
    by (auto simp: transfer_def getOwnedWallet_def split: sum.splits prod.splits)
  have "row = tr_outRow res" "w' = dispatch x c (tr_event res)
       (announce (tr_to res) (announce (tr_from res) (w1\<lparr>wdb := d'\<rparr>)))"
    using assms ne src dst r w1 t by (auto simp: transfer_def getOwnedWallet_def)
  then show ?thesis using that [OF ne src dst r w1 t] by simp
qed

text \<open>C4: a transfer moves exactly what it says. The caller owns the source wallet; it is debited the
  amount and never overdrawn, the destination is credited the converted amount (the amount itself in one
  currency), every other wallet keeps its balance, and two ledger rows that share one
  transfer id record the two sides.\<close>

theorem transfer_moves_exactly:
  assumes t: "transfer x c fromId actor toId amount note w = (Inr row, w')"
  shows "\<exists>src dst rate credit out inn. find_wallet fromId (wdb w) = Some src \<and> w_userId src = au_id actor \<and>
     find_wallet toId (wdb w) = Some dst \<and> toId \<noteq> fromId \<and> amount \<le> w_balance src \<and>
     fst (transfer_rate x c src dst amount w) = Inr (rate, credit) \<and>
     (w_currency src = w_currency dst \<longrightarrow> credit = amount) \<and>
     find_wallet fromId (wdb w') = Some (src\<lparr>w_balance := w_balance src - amount\<rparr>) \<and>
     find_wallet toId (wdb w') = Some (dst\<lparr>w_balance := w_balance dst + credit\<rparr>) \<and>
     (\<forall>i. i \<noteq> fromId \<longrightarrow> i \<noteq> toId \<longrightarrow> find_wallet i (wdb w') = find_wallet i (wdb w)) \<and>
     txns (wdb w') = txns (wdb w) @ [out, inn] \<and> row = out \<and>
     t_type out = TransferOut \<and> t_amount out = amount \<and> t_walletId out = fromId \<and>
     t_type inn = TransferIn \<and> t_amount inn = credit \<and> t_walletId inn = toId \<and>
     t_transferId out = Some (uuids c 0) \<and> t_transferId inn = Some (uuids c 0)"
  using t
proof (rule transfer_success)
  fix src dst rate credit w1 d' res
  assume ne: "toId \<noteq> fromId" and src: "find_wallet fromId (wdb w) = Some src" "w_userId src = au_id actor"
    and dst: "find_wallet toId (wdb w) = Some dst"
    and r: "transfer_rate x c src dst amount w = (Inr (rate, credit), w1)"
    and tx: "transfer_tx c fromId actor toId amount note credit rate
       (map_option (d_toString (x_decimal x)) rate) (sender_handle (au_id actor) (wdb w1)) (uuids c 0)
       (wdb w) = Inr (d', res)" and row: "row = tr_outRow res"
    and w': "wallets (wdb w') = wallets d'" "txns (wdb w') = txns d'"
  have same: "w_currency src = w_currency dst \<longrightarrow> credit = amount"
    using r by (auto simp: transfer_rate_def)
  show ?thesis
    using tx ne
  proof (rule transfer_tx_result)
    fix fw tw
    assume fw: "find_wallet fromId (wdb w) = Some fw" and tw: "find_wallet toId (wdb w) = Some tw"
      and enough: "amount \<le> w_balance fw"
      and ws: "wallets d' = set_bal toId (w_balance tw + credit)
         (set_bal fromId (w_balance fw - amount) (wallets (wdb w)))"
      and ts: "txns d' = (txns (wdb w) @ [transfer_row c (uuids c 1) (uuids c 0) fromId TransferOut amount toId
          (w_balance fw) (w_balance fw - amount) (au_id actor) note rate]) @
        [transfer_row c (uuids c 2) (uuids c 0) toId TransferIn credit fromId
          (w_balance tw) (w_balance tw + credit) (au_id actor) note rate]"
      and res: "res = \<lparr>tr_outRow = transfer_row c (uuids c 1) (uuids c 0) fromId TransferOut amount toId
          (w_balance fw) (w_balance fw - amount) (au_id actor) note rate,
         tr_from = owner_of fw (w_balance fw - amount), tr_to = owner_of tw (w_balance tw + credit),
         tr_event = notification_event c (uuids c 4) (w_userId tw)
           (money_note (''Received '' @ formatMinor credit (w_currency tw))
              (''from @'' @ opt_default (sender_handle (au_id actor) (wdb w1)) ''someone'') (uuids c 0) ''/'')\<rparr>"
    have eq: "fw = src" "tw = dst" using fw tw src dst by auto
    have get: "find_wallet i (wdb w') = List.find (\<lambda>v. w_id v = i) (set_bal toId (w_balance dst + credit)
         (set_bal fromId (w_balance src - amount) (wallets (wdb w))))" for i
      using w' ws eq by (simp add: find_wallet_def)
    have f: "find_wallet fromId (wdb w') = Some (src\<lparr>w_balance := w_balance src - amount\<rparr>)"
      using src(1) [unfolded find_wallet_def] ne unfolding get
      by (simp add: wallet_balance.find_other wallet_balance.find_same)
    have g: "find_wallet toId (wdb w') = Some (dst\<lparr>w_balance := w_balance dst + credit\<rparr>)"
      using dst [unfolded find_wallet_def] ne unfolding get
      by (simp add: wallet_balance.find_other wallet_balance.find_same)
    have h: "\<forall>i. i \<noteq> fromId \<longrightarrow> i \<noteq> toId \<longrightarrow> find_wallet i (wdb w') = find_wallet i (wdb w)"
      unfolding get by (simp add: wallet_balance.find_other find_wallet_def)
    show ?thesis
      by (rule exI [of _ src], rule exI [of _ dst], rule exI [of _ rate], rule exI [of _ credit],
          rule exI [of _ row], rule exI [of _ "last (txns d')"], intro conjI)
        (use src dst ne enough eq r same f g h w' ts res row in simp_all)
  qed
qed

definition demo_outside :: outside where
  "demo_outside = \<lparr>x_decimal = exact_decimal, x_fx = (\<lambda>_. FxNotOk), x_chan = (\<lambda>_. ChanAccepts), x_mark_ok = True\<rparr>"

definition demo_world :: "db \<Rightarrow> world" where
  "demo_world d = \<lparr>wdb = d, wq = fresh_queue\<lparr>q_channel := True\<rparr>, wemits = [], wrates = empty_cache, wnet = []\<rparr>"

lemma transfer_demo:
  "\<exists>row w'. transfer demo_outside (money_ctx ''e'') ''w1'' (money_actor ''u1'') ''w2'' 120 None (demo_world funded) = (Inr row, w')"
  by (simp add: transfer_def demo_world_def funded_def two_wallets_def empty_db_def getOwnedWallet_def find_wallet_def
      demo_wallet_def money_actor_def transfer_rate_def transfer_tx_def tx_defs Let_def wallet_set_balance_def
      int4_def int4_max_def txn_create_def int4_opt_def transfer_row_def settled_row_def ins_row_def audit_log_def
      audit_row_of_def notify_enqueue_def outbox_enqueue_def event_row_def new_outbox_row_def notification_event_def)

lemma transfer_moves_exactly_witness:
  "\<exists>d' v. find_wallet ''w1'' d' = Some v \<and> w_balance v = 380"
proof -
  obtain row w' where "transfer demo_outside (money_ctx ''e'') ''w1'' (money_actor ''u1'') ''w2'' 120 None
      (demo_world funded) = (Inr row, w')" using transfer_demo by blast
  from transfer_moves_exactly [OF this]
  obtain src where "find_wallet ''w1'' (wdb (demo_world funded)) = Some src"
    "find_wallet ''w1'' (wdb w') = Some (src\<lparr>w_balance := w_balance src - 120\<rparr>)" by blast
  then show ?thesis
    by (intro exI [of _ "wdb w'"]) (auto simp: demo_world_def funded_def find_wallet_def demo_wallet_def)
qed

definition untouched :: "world \<Rightarrow> world \<Rightarrow> bool" where
  "untouched w w' \<longleftrightarrow> wdb w' = wdb w \<and> wq w' = wq w \<and> wemits w' = wemits w"

lemma untouched_refl: "untouched w w"
  by (simp add: untouched_def)

lemma deposit_refused: "deposit x c i actor amount note w = (Inl e, w') \<Longrightarrow> untouched w w'"
  by (auto simp: deposit_def untouched_def split: sum.splits prod.splits)

lemma approve_refused: "approve x c i actor w = (Inl e, w') \<Longrightarrow> untouched w w'"
  by (auto simp: approve_def untouched_def split: sum.splits prod.splits)

lemma reject_refused: "reject x c i actor note w = (Inl e, w') \<Longrightarrow> untouched w w'"
  by (auto simp: reject_def untouched_def split: sum.splits prod.splits option.splits)

lemma adjust_refused: "adjust c i dir amount why actor w = (Inl e, w') \<Longrightarrow> untouched w w'"
  by (auto simp: adjust_def untouched_def split: sum.splits prod.splits)

lemma transfer_refused: "transfer x c i actor toId amount note w = (Inl e, w') \<Longrightarrow> untouched w w'"
  by (auto simp: transfer_def transfer_rate_def untouched_def split: if_splits sum.splits prod.splits option.splits)

text \<open>A refused request leaves no trace. Whatever step refuses a deposit, an approval, a
  rejection, an adjustment or a transfer, the database, the queue and the sockets are as before.\<close>

theorem refused_money_request_leaves_no_trace:
  "(\<forall>e w'. deposit x c i actor amount note w = (Inl e, w') \<longrightarrow> untouched w w') \<and>
   (\<forall>e w'. approve x c i actor w = (Inl e, w') \<longrightarrow> untouched w w') \<and>
   (\<forall>e w'. reject x c i actor note w = (Inl e, w') \<longrightarrow> untouched w w') \<and>
   (\<forall>e w'. adjust c i dir amount why actor w = (Inl e, w') \<longrightarrow> untouched w w') \<and>
   (\<forall>e w'. transfer x c i actor toId amount note w = (Inl e, w') \<longrightarrow> untouched w w')"
  by (intro conjI allI impI)
    (erule deposit_refused approve_refused reject_refused adjust_refused transfer_refused)+

text \<open>Each handler follows the ledger system: its database effect is a path of ledger steps.\<close>

lemma ledger_via:
  "ledger_step d d1 \<Longrightarrow> wallets e = wallets d1 \<Longrightarrow> txns e = txns d1 \<Longrightarrow> ledger_step\<^sup>*\<^sup>* d e"
  by (meson converse_rtranclp_into_rtranclp ls_other r_into_rtranclp)

lemma deposit_steps: "0 < amount \<Longrightarrow> ledger_step\<^sup>*\<^sup>* (wdb w) (wdb (snd (deposit x c i actor amount note w)))"
  by (auto simp: deposit_def split: sum.splits prod.splits intro!: ledger_via [OF ls_deposit])

lemma approve_steps: "ledger_step\<^sup>*\<^sup>* (wdb w) (wdb (snd (approve x c i actor w)))"
  by (auto simp: approve_def split: sum.splits prod.splits intro!: ledger_via [OF ls_approve])

lemma reject_steps: "ledger_step\<^sup>*\<^sup>* (wdb w) (wdb (snd (reject x c i actor note w)))"
  by (auto simp: reject_def split: sum.splits prod.splits option.splits intro!: ledger_via [OF ls_reject])

lemma adjust_steps: "0 < amount \<Longrightarrow> ledger_step\<^sup>*\<^sup>* (wdb w) (wdb (snd (adjust c i dir amount why actor w)))"
  by (auto simp: adjust_def split: sum.splits prod.splits intro!: ledger_via [OF ls_adjust])

lemma transfer_steps:
  assumes pos: "0 < amount"
    and rates: "\<And>src dst rate credit w1. transfer_rate x c src dst amount w = (Inr (rate, credit), w1) \<Longrightarrow> 0 \<le> credit"
  shows "ledger_step\<^sup>*\<^sup>* (wdb w) (wdb (snd (transfer x c i actor toId amount note w)))"
proof (cases "fst (transfer x c i actor toId amount note w)")
  case (Inl e)
  then have "transfer x c i actor toId amount note w = (Inl e, snd (transfer x c i actor toId amount note w))"
    by (simp add: prod_eq_iff)
  then show ?thesis using transfer_refused by (metis rtranclp.rtrancl_refl untouched_def)
next
  case (Inr row)
  then have "transfer x c i actor toId amount note w = (Inr row, snd (transfer x c i actor toId amount note w))"
    by (simp add: prod_eq_iff)
  then show ?thesis
  proof (rule transfer_success)
    fix src dst rate credit w1 d' res
    assume facts: "toId \<noteq> i" "transfer_rate x c src dst amount w = (Inr (rate, credit), w1)"
      "transfer_tx c i actor toId amount note credit rate
         (map_option (d_toString (x_decimal x)) rate) (sender_handle (au_id actor) (wdb w1)) (uuids c 0)
         (wdb w) = Inr (d', res)"
      "wallets (wdb (snd (transfer x c i actor toId amount note w))) = wallets d'"
      "txns (wdb (snd (transfer x c i actor toId amount note w))) = txns d'"
    show ?thesis
      by (rule ledger_via [OF ls_transfer [OF pos rates [OF facts(2)] facts(1,3)] facts(4,5)])
  qed
qed

lemma withdrawal_steps:
  assumes "0 < amount" and req: "requestWithdrawal c i actor amount note d = Inr (d', r)"
  shows "ledger_step\<^sup>*\<^sup>* d d'"
proof -
  obtain v where "find_wallet i d = Some v"
    "txn_create (pending_txn c (uuids c 0) i Withdrawal amount (au_id actor) note) d = Inr (d', r)"
    using req by (auto simp: requestWithdrawal_def getOwnedWallet_def split: option.splits if_splits)
  then show ?thesis using ls_request assms(1) by blast
qed



section \<open>Who may\<close>

text \<open>Money leaves or enters a customer's wallet only at its owner's request.\<close>

theorem only_owner_moves_money:
  "(\<exists>r w'. deposit x c i actor amount note w = (Inr r, w')) \<or>
   (\<exists>r w'. transfer x c i actor toId amount note w = (Inr r, w')) \<or>
   (\<exists>r d'. requestWithdrawal c i actor amount note (wdb w) = Inr (d', r)) \<Longrightarrow>
   \<exists>v. find_wallet i (wdb w) = Some v \<and> w_userId v = au_id actor"
  by (auto simp: deposit_def transfer_def requestWithdrawal_def getOwnedWallet_def
      split: option.splits if_splits sum.splits)

lemma only_owner_moves_money_witness:
  "\<exists>v. find_wallet ''w1'' (wdb (demo_world funded)) = Some v \<and> w_userId v = au_id (money_actor ''u1'')"
  using only_owner_moves_money [where x = demo_outside and w = "demo_world funded", OF disjI2, OF disjI1, OF transfer_demo] .

text \<open>C14: a pending transaction is approved only by a caller whose role, in the database at that
  moment, holds the permission for its type. A withdrawal debits the wallet and is refused when the
  balance does not cover it; a deposit credits it.\<close>

theorem approve_exact:
  assumes "approve x c i actor w = (Inr row, w')"
  shows "\<exists>t v b. find_txn i (wdb w) = Some t \<and> t_status t = Pending \<and>
     approve_code (t_type t) \<in> set (held_permissions (au_id actor) (wdb w)) \<and>
     find_wallet (t_walletId t) (wdb w) = Some v \<and>
     b = (if t_type t = Withdrawal then w_balance v - t_amount t else w_balance v + t_amount t) \<and>
     (t_type t = Withdrawal \<longrightarrow> t_amount t \<le> w_balance v) \<and>
     find_wallet (t_walletId t) (wdb w') = Some (v\<lparr>w_balance := b\<rparr>) \<and>
     row = t\<lparr>t_status := Approved, t_reviewedBy := Some (au_id actor), t_reviewedAt := Some (now c),
        t_balanceBefore := Some (w_balance v), t_balanceAfter := Some b\<rparr>"
proof -
  obtain ty where ty: "getSettleableType i (wdb w) = Inr ty" "assertApprovePermission actor ty (wdb w) = Inr ()"
    using assms by (auto simp: approve_def split: sum.splits)
  obtain d' ow ev where a: "approve_tx c i actor (wdb w) = Inr (d', row, ow, ev)"
    and w': "wallets (wdb w') = wallets d'"
    using assms ty by (auto simp: approve_def split: sum.splits prod.splits)
  show ?thesis
    using a
  proof (rule approve_tx_result)
    fix t v b
    assume t: "find_txn i (wdb w) = Some t" "t_status t = Pending"
      and v: "find_wallet (t_walletId t) (wdb w) = Some v"
      and rest: "t_type t = Withdrawal \<Longrightarrow> t_amount t \<le> w_balance v"
        "b = (if t_type t = Withdrawal then w_balance v - t_amount t else w_balance v + t_amount t)"
        "row = t\<lparr>t_status := Approved, t_reviewedBy := Some (au_id actor), t_reviewedAt := Some (now c),
          t_balanceBefore := Some (w_balance v), t_balanceAfter := Some b\<rparr>"
      and ws: "wallets d' = set_bal (t_walletId t) b (wallets (wdb w))"
    have "approve_code (t_type t) \<in> set (held_permissions (au_id actor) (wdb w))"
      using ty t by (auto simp: getSettleableType_def assertApprovePermission_def split: if_splits)
    moreover have "find_wallet (t_walletId t) (wdb w') = Some (v\<lparr>w_balance := b\<rparr>)"
      using v w' ws by (simp add: find_wallet_def wallet_balance.find_same)
    ultimately show ?thesis using t v rest by blast
  qed
qed

text \<open>The same database with a finance officer.\<close>

definition staffed :: db where
  "staffed = requested\<lparr>users := [\<lparr>u_id = ''f1'', u_email = ''f@wallet.local'', u_handle = None, u_passwordHash = [],
       u_firstName = ''F'', u_lastName = ''O'', u_status = Active, u_totpSecret = None, u_totpEnabled = False,
       u_totpRecoveryHashes = [], u_roleId = ''r3'', u_createdAt = 0\<rparr>],
     roles := [\<lparr>r_id = ''r3'', r_name = ''finance'', r_description = None, r_permissions = [''withdrawal.approve'']\<rparr>]\<rparr>"

lemma approve_demo:
  "\<exists>row w'. approve demo_outside (money_ctx ''g'') ''b0'' (money_actor ''f1'') (demo_world staffed) = (Inr row, w')"
  by (simp add: approve_def demo_world_def staffed_def requested_def funded_def two_wallets_def empty_db_def
      getSettleableType_def find_txn_def pending_txn_def settled_row_def assertApprovePermission_def held_permissions_def
      findByIdWithPermissions_def find_user_def money_actor_def role_of_def find_role_def approve_code_def approve_tx_def
      tx_defs find_wallet_def demo_wallet_def Let_def wallet_set_balance_def int4_def int4_max_def txn_update_def
      int4_opt_def audit_log_def ins_row_def audit_row_of_def notify_enqueue_def outbox_enqueue_def event_row_def
      new_outbox_row_def notification_event_def)

lemma approve_exact_witness:
  "\<exists>t. find_txn ''b0'' staffed = Some t \<and> approve_code (t_type t) \<in> set (held_permissions ''f1'' staffed)"
proof -
  obtain row w' where "approve demo_outside (money_ctx ''g'') ''b0'' (money_actor ''f1'') (demo_world staffed) = (Inr row, w')"
    using approve_demo by blast
  from approve_exact [OF this] show ?thesis by (auto simp: demo_world_def money_actor_def)
qed

section \<open>Trail and notification\<close>

definition audited :: "call_ctx \<Rightarrow> auth_user \<Rightarrow> audit_action list \<Rightarrow> db \<Rightarrow> db \<Rightarrow> bool" where
  "audited c actor actions d d' \<longleftrightarrow>
     (\<exists>i entry. audit_logs d' = audit_logs d @ [audit_row_of c i entry] \<and>
        ae_actorUserId entry = au_id actor \<and> ae_action entry \<in> set actions)"

lemma audit_row_of_inject [simp]: "audit_row_of c i e = audit_row_of c j f \<longleftrightarrow> i = j \<and> e = f"
  by (auto simp: audit_row_of_def)

lemma deposit_tx_audited:
  "deposit_tx c i actor amount note d = Inr (d', z) \<Longrightarrow> audited c actor [DepositSettle] d d'"
  by (auto simp: deposit_tx_def tx_simps Let_def audited_def)

lemma approve_tx_audited:
  "approve_tx c i actor d = Inr (d', z) \<Longrightarrow> audited c actor [WithdrawalApprove, DepositApprove] d d'"
  by (auto simp: approve_tx_def tx_simps Let_def audited_def)

lemma reject_tx_audited:
  "reject_tx c i actor note d = Inr (d', z) \<Longrightarrow> audited c actor [WithdrawalReject, DepositReject] d d'"
  by (auto simp: reject_tx_def tx_simps Let_def audited_def split: option.splits)

lemma adjust_tx_audited:
  "adjust_tx c i dir amount why actor d = Inr (d', z) \<Longrightarrow> audited c actor [WalletAdjust] d d'"
  by (auto simp: adjust_tx_def tx_simps Let_def audited_def)

lemma transfer_tx_audited:
  "transfer_tx c i actor toId amount note credit rate rt sender tid d = Inr (d', z) \<Longrightarrow>
   audited c actor [WalletTransfer] d d'"
  by (auto simp: transfer_tx_def tx_simps Let_def audited_def)

lemma audited_dispatch [simp]:
  "audited c actor as d (wdb (dispatch x c' ev w)) = audited c actor as d (wdb w)"
  by (simp add: audited_def)

lemma audited_cong: "audit_logs e = audit_logs d' \<Longrightarrow> audited c actor as d d' \<Longrightarrow> audited c actor as d e"
  by (simp add: audited_def)

text \<open>C15: every operation that touches money leaves one audit row, written with it, that names the
  caller; nothing else is added to or removed from the audit log.\<close>

theorem money_operations_are_audited:
  "(\<forall>r w'. deposit x c i actor amount note w = (Inr r, w') \<longrightarrow> audited c actor [DepositSettle] (wdb w) (wdb w')) \<and>
   (\<forall>r w'. approve x c i actor w = (Inr r, w') \<longrightarrow> audited c actor [WithdrawalApprove, DepositApprove] (wdb w) (wdb w')) \<and>
   (\<forall>r w'. reject x c i actor note w = (Inr r, w') \<longrightarrow> audited c actor [WithdrawalReject, DepositReject] (wdb w) (wdb w')) \<and>
   (\<forall>r w'. adjust c i dir amount why actor w = (Inr r, w') \<longrightarrow> audited c actor [WalletAdjust] (wdb w) (wdb w')) \<and>
   (\<forall>r w'. transfer x c i actor toId amount note w = (Inr r, w') \<longrightarrow> audited c actor [WalletTransfer] (wdb w) (wdb w'))"
proof (intro conjI allI impI)
  fix r w'
  show "audited c actor [DepositSettle] (wdb w) (wdb w')" if "deposit x c i actor amount note w = (Inr r, w')"
    using that by (auto simp: deposit_def split: sum.splits intro: audited_cong [OF _ deposit_tx_audited])
  show "audited c actor [WithdrawalApprove, DepositApprove] (wdb w) (wdb w')"
    if "approve x c i actor w = (Inr r, w')"
    using that by (auto simp: approve_def split: sum.splits intro: audited_cong [OF _ approve_tx_audited])
  show "audited c actor [WithdrawalReject, DepositReject] (wdb w) (wdb w')"
    if "reject x c i actor note w = (Inr r, w')"
    using that by (auto simp: reject_def split: sum.splits option.splits
        dest!: reject_tx_audited)
  show "audited c actor [WalletAdjust] (wdb w) (wdb w')" if "adjust c i dir amount why actor w = (Inr r, w')"
    using that by (auto simp: adjust_def split: sum.splits intro: audited_cong [OF _ adjust_tx_audited])
  show "audited c actor [WalletTransfer] (wdb w) (wdb w')" if "transfer x c i actor toId amount note w = (Inr r, w')"
    using that by (rule transfer_success) (blast intro: audited_cong transfer_tx_audited)
qed

lemma money_operations_are_audited_witness:
  "\<exists>d'. audited (money_ctx ''e'') (money_actor ''u1'') [WalletTransfer] funded d'"
proof -
  obtain row w' where "transfer demo_outside (money_ctx ''e'') ''w1'' (money_actor ''u1'') ''w2'' 120 None
      (demo_world funded) = (Inr row, w')" using transfer_demo by blast
  with money_operations_are_audited show ?thesis by (fastforce simp: demo_world_def)
qed

lemma refused_money_request_witness:
  "untouched (demo_world funded) (snd (transfer demo_outside (money_ctx ''e'') ''w1'' (money_actor ''u1'') ''w1'' 120 None (demo_world funded)))"
proof -
  have "transfer demo_outside (money_ctx ''e'') ''w1'' (money_actor ''u1'') ''w1'' 120 None (demo_world funded) =
      (Inl (BadRequestException ''Cannot transfer to the same wallet''), demo_world funded)"
    by (simp add: transfer_def)
  with refused_money_request_leaves_no_trace show ?thesis by (metis snd_conv)
qed

definition announces :: "db \<Rightarrow> db \<Rightarrow> push_event \<Rightarrow> string \<Rightarrow> bool" where
  "announces d d' ev userId \<longleftrightarrow> ev_userId ev = userId \<and>
     (\<exists>r. outbox d' = outbox d @ [r] \<and> ob_id r = ev_id ev \<and> ob_status r = OutPending \<and>
        parseNotificationPushEvent (Some (ob_payload r)) = Inr (event_json ev))"

lemma announces_frame [simp]:
  "announces (d\<lparr>wallets := ws\<rparr>) = announces d" "announces (d\<lparr>txns := ts\<rparr>) = announces d"
  "announces (d\<lparr>audit_logs := al\<rparr>) = announces d"
  by (simp_all add: announces_def fun_eq_iff)

lemma enq_announces: "notify_enqueue c i u p d = Inr (d', ev) \<Longrightarrow> announces d d' ev u"
  using nf.enq_row [of c i u p d d' ev] nf.enq_event [of c i u p d d' ev]
  by (auto simp: announces_def parse_event_json)

lemmas event_tx_simps = tx_bind_Inr tx_read_Inr tx_some_Inr tx_return_Inr tx_when_Inr
  wallet_set_balance_Inr txn_create_Inr txn_update_Inr audit_log_Inr

text \<open>C16: the notification commits with the money. A settled deposit, an approval and a transfer
  each add, in the transaction that moves the money, one pending outbox row for the wallet's owner
  (the receiver, for a transfer), whose payload the consumer's parser accepts.\<close>

theorem event_commits_with_money:
  "(\<forall>d' r ow ev. deposit_tx c i actor amount note d = Inr (d', r, ow, ev) \<longrightarrow>
      (\<exists>v. find_wallet i d = Some v \<and> announces d d' ev (w_userId v))) \<and>
   (\<forall>d' r ow ev. approve_tx c i actor d = Inr (d', r, ow, ev) \<longrightarrow>
      (\<exists>t v. find_txn i d = Some t \<and> find_wallet (t_walletId t) d = Some v \<and> announces d d' ev (w_userId v))) \<and>
   (\<forall>d' res. transfer_tx c i actor toId amount note credit rate rt sender tid d = Inr (d', res) \<longrightarrow>
      (\<exists>v. find_wallet toId d = Some v \<and> announces d d' (tr_event res) (w_userId v)))"
  by (intro conjI allI impI)
    (auto simp: deposit_tx_def approve_tx_def transfer_tx_def event_tx_simps Let_def dest!: enq_announces)

lemma event_commits_with_money_witness:
  "\<exists>ev. announces two_wallets funded ev ''u1''"
  using event_commits_with_money [of "money_ctx ''a''" "''w1''" "money_actor ''u1''" 500 None two_wallets] deposit_tx_demo
  by (fastforce simp: two_wallets_def find_wallet_def demo_wallet_def)

section \<open>Locks\<close>

text \<open>
  The rows each transaction locks, in order: the ledger row before the wallet row, wallet rows in
  the order of their ids. Ledger rows come before wallet rows.
\<close>

datatype row_lock = LockTxn string | LockWallet string

datatype money_op = OpDeposit string | OpAdjust string | OpReject string | OpApprove string string
  | OpTransfer string string

definition op_locks :: "money_op \<Rightarrow> row_lock list" where
  "op_locks op =
     (case op of
        OpDeposit i \<Rightarrow> [LockWallet i]
      | OpAdjust i \<Rightarrow> [LockWallet i]
      | OpReject t \<Rightarrow> [LockTxn t]
      | OpApprove t i \<Rightarrow> [LockTxn t, LockWallet i]
      | OpTransfer a b \<Rightarrow> map LockWallet (transfer_locks a b))"

fun lock_less :: "row_lock \<Rightarrow> row_lock \<Rightarrow> bool" where
  "lock_less (LockTxn a) (LockTxn b) = (a < b)"
| "lock_less (LockTxn a) (LockWallet b) = True"
| "lock_less (LockWallet a) (LockTxn b) = False"
| "lock_less (LockWallet a) (LockWallet b) = (a < b)"

text \<open>
  A running transaction has taken the first \<open>k\<close> of its locks. It waits when there is a next one and
  some other transaction holds it.
\<close>

definition held :: "money_op \<times> nat \<Rightarrow> row_lock list" where
  "held p = take (snd p) (op_locks (fst p))"

definition waits_for :: "money_op \<times> nat \<Rightarrow> money_op \<times> nat \<Rightarrow> bool" where
  "waits_for p q \<longleftrightarrow> snd p < length (op_locks (fst p)) \<and> List.member (held q) (op_locks (fst p) ! snd p)"

definition proper_op :: "money_op \<Rightarrow> bool" where
  "proper_op op = (case op of OpTransfer a b \<Rightarrow> a \<noteq> b | _ \<Rightarrow> True)"

lemma lock_less_trans: "lock_less a b \<Longrightarrow> lock_less b c \<Longrightarrow> lock_less a c"
  by (cases a; cases b; cases c) auto

lemma lock_less_irrefl: "\<not> lock_less a a"
  by (cases a) auto

lemma op_locks_sorted: "proper_op op \<Longrightarrow> sorted_wrt lock_less (op_locks op)"
  by (cases op) (auto simp: op_locks_def transfer_locks_def proper_op_def)

text \<open>What it waits for next is greater than everything it holds.\<close>

lemma wait_chain_increases:
  assumes "proper_op (fst q)" "waits_for p q" "waits_for q r"
  shows "lock_less (op_locks (fst p) ! snd p) (op_locks (fst q) ! snd q)"
proof -
  obtain k where k: "k < length (op_locks (fst q))" "k < snd q" "op_locks (fst q) ! k = op_locks (fst p) ! snd p"
    using assms(2) by (auto simp: waits_for_def held_def in_set_conv_nth)
  have "snd q < length (op_locks (fst q))" using assms(3) by (simp add: waits_for_def)
  then show ?thesis
    using op_locks_sorted [OF assms(1)] k by (metis sorted_wrt_nth_less)
qed

lemma waiting_path_increases:
  assumes "(\<lambda>p q. waits_for p q \<and> p \<in> P \<and> q \<in> P)\<^sup>+\<^sup>+ p q" "\<forall>p \<in> P. proper_op (fst p)" "waits_for q r"
  shows "lock_less (op_locks (fst p) ! snd p) (op_locks (fst q) ! snd q)"
  using assms(1,3)
proof (induction arbitrary: r rule: tranclp_induct)
  case (base y)
  then show ?case using wait_chain_increases assms(2) by blast
next
  case (step y z)
  then show ?case using wait_chain_increases assms(2) lock_less_trans by blast
qed

text \<open>The money transactions cannot deadlock. In no set of running transactions, each holding a
  prefix of its locks, is there a cycle of transactions that wait for each other.\<close>

theorem no_deadlock:
  assumes "\<forall>p \<in> P. proper_op (fst p)"
  shows "\<not> (\<lambda>p q. waits_for p q \<and> p \<in> P \<and> q \<in> P)\<^sup>+\<^sup>+ p p"
proof
  assume cyc: "(\<lambda>p q. waits_for p q \<and> p \<in> P \<and> q \<in> P)\<^sup>+\<^sup>+ p p"
  from tranclpD [OF cyc] obtain r where "waits_for p r" by auto
  then show False using waiting_path_increases [OF cyc assms] lock_less_irrefl by blast
qed

lemma no_deadlock_witness:
  "\<not> (\<lambda>p q. waits_for p q \<and> p \<in> {(OpTransfer ''w1'' ''w2'', 1), (OpTransfer ''w2'' ''w1'', 1)}
        \<and> q \<in> {(OpTransfer ''w1'' ''w2'', 1), (OpTransfer ''w2'' ''w1'', 1)})\<^sup>+\<^sup>+
      (OpTransfer ''w1'' ''w2'', 1) (OpTransfer ''w1'' ''w2'', 1)"
  by (rule no_deadlock) (simp add: proper_op_def)

end
