(* ===== verification/Locking.thy ===== *)
theory Locking
  imports Money
begin

text \<open>
  The money transactions of \<open>WalletsService\<close> statement by statement, as they overlap in the
  database: each locks its rows with \<open>SELECT ... FOR UPDATE\<close>, reads them, and only then writes and
  commits. \<open>money_prog\<close> lists the statements of a call, \<open>advance\<close> executes the next one of one
  session, and \<open>locking_step\<close> interleaves any number of sessions with each other, with lost
  connections and with the rest of the program. The theorems justify what the other theories take
  for granted, that a transaction is one step (every commit is what the whole call does to the
  database as it stands at the commit), and that no set of overlapping requests is ever stuck.

  A session's writes are private to it until it commits (the isolation level is Postgres' default,
  read committed) and go to rows it has locked or that are new, so they are one step with the
  commit. So is what \<open>reject\<close> reads of the wallet after its writes: its owner and its currency, which
  never change. An id without a row is locked like any other; ids are fresh UUIDs, so no request can
  have named a row that does not exist yet.
\<close>

section \<open>The statements of a transaction\<close>

datatype 'a prog =
    Lock row_lock "'a prog"
  | ReadWallet string exn "wallet \<Rightarrow> 'a prog"
  | ReadTxn string exn "txn \<Rightarrow> 'a prog"
  | Writes "(db, 'a) tx"

text \<open>A program run by itself, nothing else happening in between.\<close>

primrec run_prog :: "'a prog \<Rightarrow> (db, 'a) tx" where
  "run_prog (Lock l p) = run_prog p"
| "run_prog (ReadWallet i e k) =
     (\<lambda>d. case find_wallet i d of None \<Rightarrow> Inl e | Some w \<Rightarrow> run_prog (k w) d)"
| "run_prog (ReadTxn i e k) =
     (\<lambda>d. case find_txn i d of None \<Rightarrow> Inl e | Some t \<Rightarrow> run_prog (k t) d)"
| "run_prog (Writes b) = b"

text \<open>What a call answers.\<close>

datatype money_result =
    RDeposit "txn \<times> owner_info \<times> push_event"
  | RApprove "txn \<times> owner_info \<times> push_event"
  | RReject "txn \<times> push_event option"
  | RAdjust "txn \<times> owner_info"
  | RTransfer transfer_result

definition tx_map :: "('a \<Rightarrow> 'b) \<Rightarrow> (db, 'a) tx \<Rightarrow> (db, 'b) tx" where
  "tx_map f m d = map_sum id (map_prod id f) (m d)"

datatype tx_call =
    CallDeposit call_ctx string auth_user int "string option"
  | CallApprove call_ctx string auth_user
  | CallReject call_ctx string auth_user "string option"
  | CallAdjust call_ctx string direction int string auth_user
  | CallTransfer call_ctx string auth_user string int "string option" int "rat option"
      "string option" "string option" string

fun money_tx :: "tx_call \<Rightarrow> (db, money_result) tx" where
  "money_tx (CallDeposit c i actor amount memo) = tx_map RDeposit (deposit_tx c i actor amount memo)"
| "money_tx (CallApprove c i actor) = tx_map RApprove (approve_tx c i actor)"
| "money_tx (CallReject c i actor memo) = tx_map RReject (reject_tx c i actor memo)"
| "money_tx (CallAdjust c i dir amount why actor) = tx_map RAdjust (adjust_tx c i dir amount why actor)"
| "money_tx (CallTransfer c fromId actor toId amount memo credit rate rt sender tid) =
     tx_map RTransfer (transfer_tx c fromId actor toId amount memo credit rate rt sender tid)"

text \<open>What each callback does once it has read its rows: checks, then writes.\<close>

definition deposit_writes ::
  "call_ctx \<Rightarrow> string \<Rightarrow> auth_user \<Rightarrow> int \<Rightarrow> string option \<Rightarrow> wallet
     \<Rightarrow> (db, txn \<times> owner_info \<times> push_event) tx" where
  "deposit_writes c i actor amount memo w =
     (let before = w_balance w; after = before + amount in
     tx_bind (wallet_set_balance i after) (\<lambda>_.
     tx_bind (txn_create (settled_row c (uuids c 0) i Deposit amount before after (au_id actor) memo)) (\<lambda>created.
     tx_bind (audit_log c (uuids c 1) \<lparr>ae_actorUserId = au_id actor, ae_action = DepositSettle,
                ae_entityType = EntTransaction, ae_entityId = t_id created,
                ae_oldValue = JObj [(''balance'', jint before)],
                ae_newValue = JObj [(''balance'', jint after), (''amount'', jint amount)]\<rparr>) (\<lambda>_.
     tx_bind (notify_enqueue c (uuids c 2) (w_userId w)
                (money_note ''Money added'' (formatMinor amount (w_currency w) @ '' added to your wallet'')
                   (t_id created) ''/'')) (\<lambda>event.
     tx_return (created, owner_of w after, event))))))"

definition approve_writes ::
  "call_ctx \<Rightarrow> auth_user \<Rightarrow> txn \<Rightarrow> wallet \<Rightarrow> (db, txn \<times> owner_info \<times> push_event) tx" where
  "approve_writes c actor t w =
     (let before = w_balance w in
     tx_bind (tx_when (t_type t = Withdrawal \<and> before < t_amount t)
                (BadRequestException ''Insufficient funds'')) (\<lambda>_.
     let after = (if t_type t = Withdrawal then before - t_amount t else before + t_amount t) in
     tx_bind (wallet_set_balance (w_id w) after) (\<lambda>_.
     tx_bind (txn_update (t_id t) (\<lambda>r. r\<lparr>t_status := Approved, t_reviewedBy := Some (au_id actor),
                t_reviewedAt := Some (now c), t_balanceBefore := Some before,
                t_balanceAfter := Some after\<rparr>)) (\<lambda>updated.
     tx_bind (audit_log c (uuids c 0) \<lparr>ae_actorUserId = au_id actor,
                ae_action = (if t_type t = Withdrawal then WithdrawalApprove else DepositApprove),
                ae_entityType = EntTransaction, ae_entityId = t_id t,
                ae_oldValue = settle_json ''pending'',
                ae_newValue = JObj [(''status'', JStr ''approved''), (''balanceAfter'', jint after)]\<rparr>) (\<lambda>_.
     let money = formatMinor (t_amount t) (w_currency w) in
     tx_bind (notify_enqueue c (uuids c 1) (w_userId w)
                (if t_type t = Withdrawal
                 then money_note ''Withdrawal sent'' (money @ '' withdrawn'') (t_id updated) ''/''
                 else money_note ''Deposit approved'' (money @ '' added to your wallet'') (t_id updated) ''/'')) (\<lambda>event.
     tx_return (updated, owner_of w after, event)))))))"

definition reject_writes ::
  "call_ctx \<Rightarrow> auth_user \<Rightarrow> string option \<Rightarrow> txn \<Rightarrow> (db, txn \<times> push_event option) tx" where
  "reject_writes c actor memo t =
     tx_bind (tx_when (t_status t \<noteq> Pending) (ConflictException ''Transaction already reviewed'')) (\<lambda>_.
     let memo' = (case memo of Some s \<Rightarrow> Some s | None \<Rightarrow> t_note t) in
     tx_bind (txn_update (t_id t) (\<lambda>r. r\<lparr>t_status := Rejected, t_reviewedBy := Some (au_id actor),
                t_reviewedAt := Some (now c), t_note := memo'\<rparr>)) (\<lambda>updated.
     tx_bind (audit_log c (uuids c 0) \<lparr>ae_actorUserId = au_id actor,
                ae_action = (if t_type t = Withdrawal then WithdrawalReject else DepositReject),
                ae_entityType = EntTransaction, ae_entityId = t_id t,
                ae_oldValue = settle_json ''pending'',
                ae_newValue = JObj [(''status'', JStr ''rejected''), (''note'', jopt memo')]\<rparr>) (\<lambda>_.
     tx_bind (tx_read (find_wallet (t_walletId t))) (\<lambda>owner.
     case owner of
       None \<Rightarrow> tx_return (updated, None)
     | Some w \<Rightarrow>
         tx_bind (notify_enqueue c (uuids c 1) (w_userId w)
           (money_note (reject_kind (t_type t) @ '' declined'')
              (''Your '' @ formatMinor (t_amount t) (w_currency w) @ '' '' @ to_lower (reject_kind (t_type t)) @ '' was declined'')
              (t_id updated) ''/'')) (\<lambda>event.
         tx_return (updated, Some event))))))"

definition adjust_writes ::
  "call_ctx \<Rightarrow> string \<Rightarrow> direction \<Rightarrow> int \<Rightarrow> string \<Rightarrow> auth_user \<Rightarrow> wallet \<Rightarrow> (db, txn \<times> owner_info) tx" where
  "adjust_writes c i dir amount why actor w =
     (let before = w_balance w;
         after = (if dir = Credit then before + amount else before - amount) in
     tx_bind (tx_when (after < 0) (BadRequestException ''Adjustment would make the balance negative'')) (\<lambda>_.
     tx_bind (wallet_set_balance i after) (\<lambda>_.
     tx_bind (txn_create (settled_row c (uuids c 0) i Adjustment amount before after (au_id actor) (Some why))) (\<lambda>created.
     tx_bind (audit_log c (uuids c 1) \<lparr>ae_actorUserId = au_id actor, ae_action = WalletAdjust,
                ae_entityType = EntWallet, ae_entityId = i,
                ae_oldValue = JObj [(''balance'', jint before)],
                ae_newValue = JObj [(''balance'', jint after), (''direction'', JStr (direction_text dir)),
                  (''amount'', jint amount), (''note'', JStr why)]\<rparr>) (\<lambda>_.
     tx_return (created, owner_of w after))))))"

definition transfer_writes ::
  "call_ctx \<Rightarrow> auth_user \<Rightarrow> int \<Rightarrow> string option \<Rightarrow> int \<Rightarrow> rat option
     \<Rightarrow> string option \<Rightarrow> string option \<Rightarrow> string \<Rightarrow> wallet \<Rightarrow> wallet \<Rightarrow> (db, transfer_result) tx" where
  "transfer_writes c actor amount memo credit rate rate_text sender transferId fw tw =
     tx_bind (tx_when (w_balance fw < amount) (BadRequestException ''Insufficient funds'')) (\<lambda>_.
     let fromAfter = w_balance fw - amount; toAfter = w_balance tw + credit in
     tx_bind (wallet_set_balance (w_id fw) fromAfter) (\<lambda>_.
     tx_bind (wallet_set_balance (w_id tw) toAfter) (\<lambda>_.
     tx_bind (txn_create (transfer_row c (uuids c 1) transferId (w_id fw) TransferOut amount (w_id tw)
                (w_balance fw) fromAfter (au_id actor) memo rate)) (\<lambda>outRow.
     tx_bind (txn_create (transfer_row c (uuids c 2) transferId (w_id tw) TransferIn credit (w_id fw)
                (w_balance tw) toAfter (au_id actor) memo rate)) (\<lambda>_.
     tx_bind (audit_log c (uuids c 3) \<lparr>ae_actorUserId = au_id actor, ae_action = WalletTransfer,
                ae_entityType = EntWallet, ae_entityId = w_id fw,
                ae_oldValue = JObj [(''balance'', jint (w_balance fw))],
                ae_newValue = JObj [(''balance'', jint fromAfter), (''toWalletId'', JStr (w_id tw)),
                  (''amount'', jint amount), (''credit'', jint credit), (''exchangeRate'', jopt rate_text)]\<rparr>) (\<lambda>_.
     tx_bind (notify_enqueue c (uuids c 4) (w_userId tw)
                (money_note (''Received '' @ formatMinor credit (w_currency tw))
                   (''from @'' @ opt_default sender ''someone'') transferId ''/'')) (\<lambda>event.
     tx_return \<lparr>tr_outRow = outRow, tr_from = owner_of fw fromAfter, tr_to = owner_of tw toAfter,
        tr_event = event\<rparr>)))))))"

text \<open>The callbacks as statements: the locks, the reads under them, the rest.\<close>

definition lock_all :: "row_lock list \<Rightarrow> 'a prog \<Rightarrow> 'a prog" where
  "lock_all ls p = foldr Lock ls p"

definition deposit_prog ::
  "call_ctx \<Rightarrow> string \<Rightarrow> auth_user \<Rightarrow> int \<Rightarrow> string option \<Rightarrow> money_result prog" where
  "deposit_prog c i actor amount memo =
     Lock (LockWallet i) (ReadWallet i (NotFoundException ''Wallet not found'') (\<lambda>w.
     Writes (tx_map RDeposit (deposit_writes c i actor amount memo w))))"

definition approve_prog :: "call_ctx \<Rightarrow> string \<Rightarrow> auth_user \<Rightarrow> money_result prog" where
  "approve_prog c i actor =
     Lock (LockTxn i) (ReadTxn i (NotFoundException ''Transaction not found'') (\<lambda>t.
     if t_status t \<noteq> Pending then Writes (tx_throw (ConflictException ''Transaction already reviewed''))
     else Lock (LockWallet (t_walletId t))
       (ReadWallet (t_walletId t) (NotFoundException ''Wallet not found'') (\<lambda>w.
        Writes (tx_map RApprove (approve_writes c actor t w))))))"

definition reject_prog :: "call_ctx \<Rightarrow> string \<Rightarrow> auth_user \<Rightarrow> string option \<Rightarrow> money_result prog" where
  "reject_prog c i actor memo =
     Lock (LockTxn i) (ReadTxn i (NotFoundException ''Transaction not found'') (\<lambda>t.
     Writes (tx_map RReject (reject_writes c actor memo t))))"

definition adjust_prog ::
  "call_ctx \<Rightarrow> string \<Rightarrow> direction \<Rightarrow> int \<Rightarrow> string \<Rightarrow> auth_user \<Rightarrow> money_result prog" where
  "adjust_prog c i dir amount why actor =
     Lock (LockWallet i) (ReadWallet i (NotFoundException ''Wallet not found'') (\<lambda>w.
     Writes (tx_map RAdjust (adjust_writes c i dir amount why actor w))))"

definition transfer_prog ::
  "call_ctx \<Rightarrow> string \<Rightarrow> auth_user \<Rightarrow> string \<Rightarrow> int \<Rightarrow> string option \<Rightarrow> int \<Rightarrow> rat option
     \<Rightarrow> string option \<Rightarrow> string option \<Rightarrow> string \<Rightarrow> money_result prog" where
  "transfer_prog c fromId actor toId amount memo credit rate rt sender tid =
     lock_all (map LockWallet (transfer_locks fromId toId))
       (ReadWallet fromId (NotFoundException ''Wallet not found'') (\<lambda>fw.
        ReadWallet toId (NotFoundException ''Destination wallet not found'') (\<lambda>tw.
        Writes (tx_map RTransfer
          (transfer_writes c actor amount memo credit rate rt sender tid fw tw)))))"

fun money_prog :: "tx_call \<Rightarrow> money_result prog" where
  "money_prog (CallDeposit c i actor amount memo) = deposit_prog c i actor amount memo"
| "money_prog (CallApprove c i actor) = approve_prog c i actor"
| "money_prog (CallReject c i actor memo) = reject_prog c i actor memo"
| "money_prog (CallAdjust c i dir amount why actor) = adjust_prog c i dir amount why actor"
| "money_prog (CallTransfer c fromId actor toId amount memo credit rate rt sender tid) =
     transfer_prog c fromId actor toId amount memo credit rate rt sender tid"

lemmas prog_defs [simp] = deposit_prog_def approve_prog_def reject_prog_def adjust_prog_def transfer_prog_def

lemma run_lock_all [simp]: "run_prog (lock_all ls p) = run_prog p"
  by (induction ls) (auto simp: lock_all_def)

lemmas tx_defs_all = tx_bind_def tx_read_def tx_some_def tx_when_def tx_throw_def tx_return_def tx_map_def

text \<open>Statement by statement and undisturbed, a call does what its transaction does in one step.\<close>

lemma run_money_prog: "run_prog (money_prog call) = money_tx call"
proof (cases call)
  case (CallDeposit c i actor amount memo)
  then show ?thesis
    by (simp add: fun_eq_iff deposit_tx_def deposit_writes_def tx_defs_all Let_def split: option.split)
next
  case (CallApprove c i actor)
  then show ?thesis
    by (simp add: fun_eq_iff approve_tx_def approve_writes_def tx_defs_all split: option.split)
next
  case (CallReject c i actor memo)
  then show ?thesis
    by (simp add: fun_eq_iff reject_tx_def reject_writes_def tx_defs_all split: option.split)
next
  case (CallAdjust c i dir amount why actor)
  then show ?thesis
    by (simp add: fun_eq_iff adjust_tx_def adjust_writes_def tx_defs_all Let_def split: option.split)
next
  case (CallTransfer c fromId actor toId amount memo credit rate rt sender tid)
  then show ?thesis
    by (simp add: fun_eq_iff transfer_tx_def transfer_writes_def tx_defs_all split: option.split)
qed

section \<open>The discipline: rows are read and written under their locks\<close>

text \<open>The row a lock names, if it was there, is what it was.\<close>

fun kept_row :: "db \<Rightarrow> db \<Rightarrow> row_lock \<Rightarrow> bool" where
  "kept_row d d' (LockWallet i) = (\<forall>w. find_wallet i d = Some w \<longrightarrow> find_wallet i d' = Some w)"
| "kept_row d d' (LockTxn i) = (\<forall>t. find_txn i d = Some t \<longrightarrow> find_txn i d' = Some t)"

text \<open>
  A program that holds the locks \<open>H\<close> reads rows only after locking them, and changes no row that was
  there but those it holds.
\<close>

primrec disciplined :: "'a prog \<Rightarrow> row_lock set \<Rightarrow> bool" where
  "disciplined (Lock l p) = (\<lambda>H. disciplined p (insert l H))"
| "disciplined (ReadWallet i e k) = (\<lambda>H. LockWallet i \<in> H \<and> (\<forall>w. w_id w = i \<longrightarrow> disciplined (k w) H))"
| "disciplined (ReadTxn i e k) = (\<lambda>H. LockTxn i \<in> H \<and> (\<forall>t. t_id t = i \<longrightarrow> disciplined (k t) H))"
| "disciplined (Writes b) =
     (\<lambda>H. \<forall>d d' r l. b d = Inr (d', r) \<longrightarrow> l \<notin> H \<longrightarrow> kept_row d d' l)"

lemma disciplined_lock_all [simp]: "disciplined (lock_all ls p) H = disciplined p (H \<union> set ls)"
  by (induction ls arbitrary: H) (auto simp: lock_all_def)

lemma kept_refl [simp]: "kept_row d d l"
  by (cases l) auto

lemma kept_trans: "kept_row a b l \<Longrightarrow> kept_row b c l \<Longrightarrow> kept_row a c l"
  by (cases l) auto

lemma kept_other [simp]: "wallets d' = wallets d \<Longrightarrow> txns d' = txns d \<Longrightarrow> kept_row d d' l"
  by (cases l) (auto simp: find_wallet_def find_txn_def)

text \<open>The writes, one by one, each on the rows it names.\<close>

lemma find_upd_other:
  "i \<noteq> j \<Longrightarrow> (\<And>x. key (f x) = key x) \<Longrightarrow> List.find (\<lambda>x. key x = j) (upd_rows (\<lambda>x. key x = i) f xs) = List.find (\<lambda>x. key x = j) xs"
  by (induction xs) auto

lemma kept_set_balance: "wallet_set_balance i b d = Inr (d', u) \<Longrightarrow> l \<noteq> LockWallet i \<Longrightarrow> kept_row d d' l"
  by (cases l) (auto simp: tx_simps find_wallet_set_balance find_txn_def)

lemma kept_create: "txn_create r d = Inr (d', x) \<Longrightarrow> kept_row d d' l"
  by (cases l) (auto simp: tx_simps find_txn_def find_wallet_def find_append)

lemma kept_update:
  assumes "txn_update i f d = Inr (d', x)" "l \<noteq> LockTxn i" "\<And>t. t_id (f t) = t_id t"
  shows "kept_row d d' l"
  using assms by (cases l) (auto simp: tx_simps find_txn_def find_wallet_def find_upd_other)

lemma kept_audit: "audit_log c i e d = Inr (d', u) \<Longrightarrow> kept_row d d' l"
  by (auto simp: tx_simps)

lemma kept_enqueue: "notify_enqueue c i u p d = Inr (d', e) \<Longrightarrow> kept_row d d' l"
  by (auto simp: tx_simps)

text \<open>A transaction body that keeps a row, whatever it throws.\<close>

definition keeps :: "row_lock \<Rightarrow> (db, 'a) tx \<Rightarrow> bool" where
  "keeps l m \<longleftrightarrow> (\<forall>d d' r. m d = Inr (d', r) \<longrightarrow> kept_row d d' l)"

lemma keeps_bind: "keeps l m \<Longrightarrow> (\<And>a. keeps l (k a)) \<Longrightarrow> keeps l (tx_bind m k)"
  unfolding keeps_def tx_bind_Inr by (meson kept_trans)

lemma keeps_steps:
  "keeps l (tx_return a)" "keeps l (tx_throw e)" "keeps l (tx_when b e)" "keeps l (tx_read f)"
  "keeps l (txn_create r)" "keeps l (audit_log c i en)" "keeps l (notify_enqueue c i u p)"
  by (auto simp: keeps_def tx_return_def tx_throw_def tx_when_def tx_read_def
      intro: kept_create kept_audit kept_enqueue split: if_splits)

lemma keeps_set_balance: "l \<noteq> LockWallet i \<Longrightarrow> keeps l (wallet_set_balance i b)"
  by (auto simp: keeps_def intro: kept_set_balance)

lemma keeps_update: "l \<noteq> LockTxn i \<Longrightarrow> (\<And>t. t_id (f t) = t_id t) \<Longrightarrow> keeps l (txn_update i f)"
  using kept_update by (auto simp: keeps_def)

lemma keeps_map: "keeps l m \<Longrightarrow> keeps l (tx_map f m)"
  by (auto simp: keeps_def tx_map_def map_sum_def map_prod_def split: sum.splits prod.splits)

lemma disciplined_Writes: "disciplined (Writes b) H \<longleftrightarrow> (\<forall>l. l \<notin> H \<longrightarrow> keeps l b)"
  by (auto simp: keeps_def)

lemmas keeps_rules = keeps_bind keeps_steps keeps_set_balance keeps_update keeps_map

lemma keeps_deposit: "l \<noteq> LockWallet i \<Longrightarrow> keeps l (deposit_writes c i actor amount memo w)"
  by (simp add: deposit_writes_def Let_def keeps_rules)

lemma keeps_approve:
  "l \<noteq> LockTxn (t_id t) \<Longrightarrow> l \<noteq> LockWallet (w_id w) \<Longrightarrow> keeps l (approve_writes c actor t w)"
  by (simp add: approve_writes_def Let_def keeps_rules)

lemma keeps_reject: "l \<noteq> LockTxn (t_id t) \<Longrightarrow> keeps l (reject_writes c actor memo t)"
  by (auto simp: reject_writes_def Let_def intro!: keeps_rules split: option.split)

lemma keeps_adjust: "l \<noteq> LockWallet i \<Longrightarrow> keeps l (adjust_writes c i dir amount why actor w)"
  by (simp add: adjust_writes_def Let_def keeps_rules)

lemma keeps_transfer:
  "l \<noteq> LockWallet (w_id fw) \<Longrightarrow> l \<noteq> LockWallet (w_id tw) \<Longrightarrow>
     keeps l (transfer_writes c actor amount memo credit rate rt sender tid fw tw)"
  by (simp add: transfer_writes_def Let_def keeps_rules)

lemma money_disciplined: "disciplined (money_prog call) {}"
  by (cases call)
    (auto simp: disciplined_Writes transfer_locks_def simp del: disciplined.simps(4)
      intro!: keeps_map keeps_deposit keeps_approve keeps_reject keeps_adjust keeps_transfer keeps_steps)

section \<open>Overlapping requests\<close>

text \<open>
  A session runs the statements of one call: active with what is left to do and the locks it holds,
  then committed with the balances still to announce, then answered.
\<close>

datatype phase = InTx "money_result prog" "row_lock list" | Announcing money_result | Answered "exn + money_result"

record db_session =
  se_call :: tx_call
  se_phase :: phase

record lock_sys =
  cs_db :: db
  cs_sessions :: "db_session list"
  cs_feed :: "owner_info list"

definition locks_of :: "db_session \<Rightarrow> row_lock list" where
  "locks_of se = (case se_phase se of InTx p H \<Rightarrow> H | _ \<Rightarrow> [])"

definition taken :: "lock_sys \<Rightarrow> nat \<Rightarrow> row_lock \<Rightarrow> bool" where
  "taken s i l =
     list_ex (\<lambda>j. j \<noteq> i \<and> List.member (locks_of (cs_sessions s ! j)) l) [0..<length (cs_sessions s)]"

definition blocked :: "lock_sys \<Rightarrow> nat \<Rightarrow> bool" where
  "blocked s i = (case se_phase (cs_sessions s ! i) of InTx (Lock l p) H \<Rightarrow> taken s i l | _ \<Rightarrow> False)"

text \<open>The balances a call announces after its commit, in this order.\<close>

fun owners_of :: "money_result \<Rightarrow> owner_info list" where
  "owners_of (RDeposit (t, ow, ev)) = [ow]"
| "owners_of (RApprove (t, ow, ev)) = [ow]"
| "owners_of (RReject r) = []"
| "owners_of (RAdjust (t, ow)) = [ow]"
| "owners_of (RTransfer res) = [tr_from res, tr_to res]"

text \<open>The next statement of a session, on the committed rows. A throw rolls back and lets go of all locks.\<close>

fun next_phase :: "db \<Rightarrow> phase \<Rightarrow> (db \<times> phase \<times> owner_info list) option" where
  "next_phase d (InTx (Lock l p) H) = Some (d, InTx p (l # H), [])"
| "next_phase d (InTx (ReadWallet i e k) H) =
     (case find_wallet i d of
        None \<Rightarrow> Some (d, Answered (Inl e), []) | Some w \<Rightarrow> Some (d, InTx (k w) H, []))"
| "next_phase d (InTx (ReadTxn i e k) H) =
     (case find_txn i d of
        None \<Rightarrow> Some (d, Answered (Inl e), []) | Some t \<Rightarrow> Some (d, InTx (k t) H, []))"
| "next_phase d (InTx (Writes b) H) =
     (case b d of Inl e \<Rightarrow> Some (d, Answered (Inl e), []) | Inr (d', r) \<Rightarrow> Some (d', Announcing r, []))"
| "next_phase d (Announcing r) = Some (d, Answered (Inr r), owners_of r)"
| "next_phase d (Answered res) = None"

definition set_phase :: "nat \<Rightarrow> phase \<Rightarrow> lock_sys \<Rightarrow> lock_sys" where
  "set_phase i ph s = s\<lparr>cs_sessions := (cs_sessions s)[i := (cs_sessions s ! i)\<lparr>se_phase := ph\<rparr>]\<rparr>"

definition advance :: "nat \<Rightarrow> lock_sys \<Rightarrow> lock_sys option" where
  "advance i s =
     (if i < length (cs_sessions s) \<and> \<not> blocked s i
      then case next_phase (cs_db s) (se_phase (cs_sessions s ! i)) of
             None \<Rightarrow> None
           | Some (d, ph, out) \<Rightarrow> Some ((set_phase i ph s)\<lparr>cs_db := d, cs_feed := cs_feed s @ out\<rparr>)
      else None)"

definition begin_call :: "tx_call \<Rightarrow> db_session" where
  "begin_call call = \<lparr>se_call = call, se_phase = InTx (money_prog call) []\<rparr>"

text \<open>What the DTOs and the checks before the transaction let through.\<close>

fun admitted :: "tx_call \<Rightarrow> bool" where
  "admitted (CallDeposit c i actor amount memo) = (0 < amount)"
| "admitted (CallAdjust c i dir amount why actor) = (0 < amount)"
| "admitted (CallTransfer c fromId actor toId amount memo credit rate rt sender tid) =
     (0 < amount \<and> 0 \<le> credit \<and> toId \<noteq> fromId)"
| "admitted _ = True"

text \<open>The writes of the rest of the program to the two tables: all of them insert.\<close>

inductive other_write :: "db \<Rightarrow> db \<Rightarrow> bool" where
  ow_wallet: "createWallet c actor name cur d = Inr (d', x) \<Longrightarrow> other_write d d'"
| ow_onboard: "createWithDefaultWallet c a d = Inr (d', u) \<Longrightarrow> other_write d d'"
| ow_request: "0 < amount \<Longrightarrow> find_wallet i d = Some w \<Longrightarrow>
     txn_create (pending_txn c (uuids c 0) i Withdrawal amount uid memo) d = Inr (d', y) \<Longrightarrow> other_write d d'"
| ow_elsewhere: "wallets d' = wallets d \<Longrightarrow> txns d' = txns d \<Longrightarrow> other_write d d'"

inductive locking_step :: "lock_sys \<Rightarrow> lock_sys \<Rightarrow> bool" where
  lk_begin: "admitted call \<Longrightarrow>
     locking_step s (s\<lparr>cs_sessions := cs_sessions s @ [begin_call call]\<rparr>)"
| lk_advance: "advance i s = Some s' \<Longrightarrow> locking_step s s'"
| lk_abort: "i < length (cs_sessions s) \<Longrightarrow> se_phase (cs_sessions s ! i) = InTx p H \<Longrightarrow>
     locking_step s (set_phase i (Answered (Inl e)) s)"
| lk_other: "other_write (cs_db s) d' \<Longrightarrow> locking_step s (s\<lparr>cs_db := d'\<rparr>)"

definition locking_start :: "lock_sys \<Rightarrow> bool" where
  "locking_start s \<longleftrightarrow> ledger_start (cs_db s) \<and> cs_sessions s = [] \<and> cs_feed s = []"

section \<open>Locks are taken in order\<close>

instantiation row_lock :: linorder
begin

definition less_row_lock :: "row_lock \<Rightarrow> row_lock \<Rightarrow> bool" where
  "less_row_lock a b = lock_less a b"

definition less_eq_row_lock :: "row_lock \<Rightarrow> row_lock \<Rightarrow> bool" where
  "less_eq_row_lock a b = (a = b \<or> lock_less a b)"

instance
proof
  fix a b c :: row_lock
  show "a < b \<longleftrightarrow> a \<le> b \<and> \<not> b \<le> a"
    by (cases a; cases b) (auto simp: less_row_lock_def less_eq_row_lock_def)
  show "a \<le> a" by (simp add: less_eq_row_lock_def)
  show "a \<le> b \<Longrightarrow> b \<le> c \<Longrightarrow> a \<le> c"
    using lock_less_trans by (auto simp: less_eq_row_lock_def)
  show "a \<le> b \<Longrightarrow> b \<le> a \<Longrightarrow> a = b"
    using lock_less_trans lock_less_irrefl by (auto simp: less_eq_row_lock_def)
  show "a \<le> b \<or> b \<le> a"
    by (cases a; cases b) (auto simp: less_eq_row_lock_def)
qed

end

primrec ascending :: "'a prog \<Rightarrow> row_lock set \<Rightarrow> bool" where
  "ascending (Lock l p) = (\<lambda>H. (\<forall>h \<in> H. h < l) \<and> ascending p (insert l H))"
| "ascending (ReadWallet i e k) = (\<lambda>H. \<forall>w. ascending (k w) H)"
| "ascending (ReadTxn i e k) = (\<lambda>H. \<forall>t. ascending (k t) H)"
| "ascending (Writes b) = (\<lambda>H. True)"

text \<open>At most \<open>n\<close> statements are left.\<close>

primrec ends_in :: "'a prog \<Rightarrow> nat \<Rightarrow> bool" where
  "ends_in (Lock l p) = (\<lambda>n. 0 < n \<and> ends_in p (n - 1))"
| "ends_in (ReadWallet i e k) = (\<lambda>n. 0 < n \<and> (\<forall>w. ends_in (k w) (n - 1)))"
| "ends_in (ReadTxn i e k) = (\<lambda>n. 0 < n \<and> (\<forall>t. ends_in (k t) (n - 1)))"
| "ends_in (Writes b) = (\<lambda>n. 0 < n)"

lemma transfer_locks_cases:
  "transfer_locks a b = (if a \<le> b then [a, b] else [b, a])"
  by (simp add: transfer_locks_def)

lemma money_ascending: "admitted call \<Longrightarrow> ascending (money_prog call) {}"
  by (cases call) (auto simp: transfer_locks_cases lock_all_def less_row_lock_def)

lemma money_ends: "ends_in (money_prog call) 5"
  by (cases call) (auto simp: transfer_locks_cases lock_all_def)

section \<open>The invariant\<close>

text \<open>
  What is left of a session's program does, on every database that keeps the rows it has locked, what
  its whole call does there.
\<close>

definition session_ok :: "db \<Rightarrow> db_session \<Rightarrow> bool" where
  "session_ok d se =
     (case se_phase se of
        InTx p H \<Rightarrow>
          admitted (se_call se) \<and> disciplined p (set H) \<and> ascending p (set H) \<and> (\<exists>n. ends_in p n) \<and>
          (\<forall>d'. (\<forall>l \<in> set H. kept_row d d' l) \<longrightarrow> run_prog p d' = money_tx (se_call se) d')
      | _ \<Rightarrow> True)"

definition exclusive :: "db_session list \<Rightarrow> bool" where
  "exclusive ss \<longleftrightarrow>
     (\<forall>i < length ss. \<forall>j < length ss. i \<noteq> j \<longrightarrow> set (locks_of (ss ! i)) \<inter> set (locks_of (ss ! j)) = {})"

definition locking_inv :: "lock_sys \<Rightarrow> bool" where
  "locking_inv s \<longleftrightarrow>
     (\<forall>se \<in> set (cs_sessions s). session_ok (cs_db s) se) \<and> exclusive (cs_sessions s)"

lemma session_ok_begin: "admitted call \<Longrightarrow> session_ok d (begin_call call)"
  using money_disciplined money_ascending money_ends
  by (auto simp: session_ok_def begin_call_def run_money_prog)

lemma session_ok_kept:
  "session_ok d se \<Longrightarrow> \<forall>l \<in> set (locks_of se). kept_row d d' l \<Longrightarrow> session_ok d' se"
  by (auto simp: session_ok_def locks_of_def split: phase.splits) (meson kept_trans)

text \<open>What the phase a session enters says of its call and of the database it ran on.\<close>

definition phase_tells :: "tx_call \<Rightarrow> db \<Rightarrow> db \<Rightarrow> phase \<Rightarrow> bool" where
  "phase_tells call d d' ph =
     (case ph of
        InTx p H \<Rightarrow> d' = d
      | Announcing r \<Rightarrow> money_tx call d = Inr (d', r)
      | Answered (Inl e) \<Rightarrow> money_tx call d = Inl e \<and> d' = d
      | Answered (Inr r) \<Rightarrow> d' = d)"

lemma session_ok_reads:
  assumes "session_ok d se" "se_phase se = InTx p H" "disciplined q (set H)" "ascending q (set H)" "ends_in q n"
    and "\<And>d'. \<forall>l \<in> set H. kept_row d d' l \<Longrightarrow> run_prog q d' = run_prog p d'"
  shows "session_ok d (se\<lparr>se_phase := InTx q H\<rparr>)"
  using assms by (auto simp: session_ok_def)

lemma session_reads_wallet:
  assumes ok: "session_ok d se" "se_phase se = InTx (ReadWallet i e k) H" and w: "find_wallet i d = Some w"
  shows "session_ok d (se\<lparr>se_phase := InTx (k w) H\<rparr>)"
proof -
  have "w_id w = i" using find_wallet_in [OF w] by simp
  moreover have "find_wallet i d' = Some w" if "\<forall>l \<in> set H. kept_row d d' l" for d'
    using that ok w by (auto simp: session_ok_def)
  moreover have "\<exists>n. ends_in (k w) n" using ok by (auto simp: session_ok_def)
  then obtain n where "ends_in (k w) n" ..
  ultimately show ?thesis
    using ok by (intro session_ok_reads [OF ok, of "k w" n]) (auto simp: session_ok_def)
qed

lemma session_reads_txn:
  assumes ok: "session_ok d se" "se_phase se = InTx (ReadTxn i e k) H" and t: "find_txn i d = Some t"
  shows "session_ok d (se\<lparr>se_phase := InTx (k t) H\<rparr>)"
proof -
  have "t_id t = i" using find_txn_in [OF t] by simp
  moreover have "find_txn i d' = Some t" if "\<forall>l \<in> set H. kept_row d d' l" for d'
    using that ok t by (auto simp: session_ok_def)
  moreover have "\<exists>n. ends_in (k t) n" using ok by (auto simp: session_ok_def)
  then obtain n where "ends_in (k t) n" ..
  ultimately show ?thesis
    using ok by (intro session_ok_reads [OF ok, of "k t" n]) (auto simp: session_ok_def)
qed

lemma session_answered [simp]: "session_ok d (se\<lparr>se_phase := Answered res\<rparr>)" "session_ok d (se\<lparr>se_phase := Announcing r\<rparr>)"
  by (simp_all add: session_ok_def)

lemma session_now:
  assumes "session_ok d se" "se_phase se = InTx p H"
  shows "run_prog p d = money_tx (se_call se) d"
  using assms by (simp add: session_ok_def)

lemma next_phase_ok:
  assumes "session_ok d se" "next_phase d (se_phase se) = Some (d', ph, out)"
  shows "session_ok d' (se\<lparr>se_phase := ph\<rparr>) \<and> (\<forall>l. l \<notin> set (locks_of se) \<longrightarrow> kept_row d d' l) \<and>
    phase_tells (se_call se) d d' ph"
proof (cases "se_phase se")
  case (InTx p H)
  note now = session_now [OF assms(1) InTx]
  show ?thesis
  proof (cases p)
    case (Lock l q)
    then obtain n where "ends_in q (n - 1)" using assms(1) InTx by (auto simp: session_ok_def)
    then show ?thesis using assms InTx Lock by (auto simp: session_ok_def phase_tells_def)
  next
    case (ReadWallet i e k)
    then show ?thesis
      using assms InTx now session_reads_wallet [OF assms(1), of i e k H]
      by (cases "find_wallet i d") (auto simp: phase_tells_def)
  next
    case (ReadTxn i e k)
    then show ?thesis
      using assms InTx now session_reads_txn [OF assms(1), of i e k H]
      by (cases "find_txn i d") (auto simp: phase_tells_def)
  next
    case (Writes b)
    then have "\<forall>l r. b d = Inr (d', r) \<longrightarrow> l \<notin> set H \<longrightarrow> kept_row d d' l"
      using assms(1) InTx by (auto simp: session_ok_def)
    then show ?thesis using assms(2) InTx Writes now
      by (auto simp: phase_tells_def locks_of_def split: sum.splits)
  qed
qed (use assms in \<open>auto simp: phase_tells_def\<close>)

text \<open>It holds no new lock but the one it asked for, which nobody else has.\<close>

lemma next_phase_locks:
  assumes "next_phase d (se_phase se) = Some (d', ph, out)" "l \<in> set (locks_of (se\<lparr>se_phase := ph\<rparr>))"
  shows "l \<in> set (locks_of se) \<or> (\<exists>p H. se_phase se = InTx (Lock l p) H)"
  using assms
  by (cases "(d, se_phase se)" rule: next_phase.cases)
    (auto simp: locks_of_def split: option.splits sum.splits)

lemma exclusive_update:
  assumes "exclusive ss" "i < length ss"
    and "\<And>l j. l \<in> set (locks_of se) \<Longrightarrow> j < length ss \<Longrightarrow> j \<noteq> i \<Longrightarrow> l \<notin> set (locks_of (ss ! j))"
  shows "exclusive (ss[i := se])"
  using assms by (fastforce simp: exclusive_def nth_list_update)

lemma taken_iff:
  "taken s i l \<longleftrightarrow> (\<exists>j < length (cs_sessions s). j \<noteq> i \<and> l \<in> set (locks_of (cs_sessions s ! j)))"
  by (auto simp: taken_def list_ex_iff)

lemma advance_cases:
  assumes "advance i s = Some s'"
  obtains d ph out where "i < length (cs_sessions s)" "\<not> blocked s i"
    "next_phase (cs_db s) (se_phase (cs_sessions s ! i)) = Some (d, ph, out)"
    "cs_db s' = d" "cs_feed s' = cs_feed s @ out"
    "cs_sessions s' = (cs_sessions s)[i := (cs_sessions s ! i)\<lparr>se_phase := ph\<rparr>]"
  using assms by (auto simp: advance_def set_phase_def split: if_splits option.splits)

lemma locking_inv_advance:
  assumes inv: "locking_inv s" and "advance i s = Some s'"
  shows "locking_inv s'"
proof -
  obtain d ph out where i: "i < length (cs_sessions s)" "\<not> blocked s i"
    and np: "next_phase (cs_db s) (se_phase (cs_sessions s ! i)) = Some (d, ph, out)"
    and s': "cs_db s' = d" "cs_sessions s' = (cs_sessions s)[i := (cs_sessions s ! i)\<lparr>se_phase := ph\<rparr>]"
    using advance_cases [OF assms(2)] by metis
  have all: "session_ok (cs_db s) (cs_sessions s ! j)" if "j < length (cs_sessions s)" for j
    using inv that by (auto simp: locking_inv_def)
  have ex: "exclusive (cs_sessions s)" using inv by (simp add: locking_inv_def)
  have "session_ok d (cs_sessions s' ! j)" if j: "j < length (cs_sessions s)" for j
  proof (cases "j = i")
    case True
    then show ?thesis using next_phase_ok [OF all [OF i(1)] np] i(1) s'(2) by simp
  next
    case False
    have "\<forall>l \<in> set (locks_of (cs_sessions s ! j)). kept_row (cs_db s) d l"
      using next_phase_ok [OF all [OF i(1)] np] ex i(1) j False by (auto simp: exclusive_def)
    then show ?thesis using session_ok_kept [OF all [OF j]] False s'(2) by simp
  qed
  moreover have "exclusive (cs_sessions s')"
    unfolding s'(2)
  proof (rule exclusive_update [OF ex i(1)])
    fix l j
    assume l: "l \<in> set (locks_of ((cs_sessions s ! i)\<lparr>se_phase := ph\<rparr>))" and j: "j < length (cs_sessions s)" "j \<noteq> i"
    show "l \<notin> set (locks_of (cs_sessions s ! j))"
      using next_phase_locks [OF np l] i(2) j ex i(1)
      by (auto simp: blocked_def taken_iff exclusive_def)
  qed
  ultimately show ?thesis using s' by (auto simp: locking_inv_def in_set_conv_nth)
qed

lemma other_write_kept: "other_write d d' \<Longrightarrow> kept_row d d' l"
  by (cases l; erule other_write.cases)
    (auto simp: createWallet_def createWithDefaultWallet_def user_create_def tx_simps find_wallet_def
      find_txn_def find_append split: if_splits)

lemma exclusive_snoc: "exclusive ss \<Longrightarrow> exclusive (ss @ [begin_call call])"
  by (auto simp: exclusive_def nth_append less_Suc_eq locks_of_def begin_call_def)

lemma locking_inv_step: "locking_inv s \<Longrightarrow> locking_step s s' \<Longrightarrow> locking_inv s'"
proof (erule locking_step.cases)
  fix call t
  assume "locking_inv s" "admitted call" "s = t" "s' = t\<lparr>cs_sessions := cs_sessions t @ [begin_call call]\<rparr>"
  then show ?thesis
    using session_ok_begin [of call "cs_db t"] by (simp add: locking_inv_def exclusive_snoc)
next
  fix i t t'
  assume "locking_inv s" "s = t" "s' = t'" "advance i t = Some t'"
  then show ?thesis using locking_inv_advance by blast
next
  fix i t p H e
  assume *: "locking_inv s" "s = t" "s' = set_phase i (Answered (Inl e)) t" "i < length (cs_sessions t)"
  have "session_ok (cs_db t) (se\<lparr>se_phase := Answered (Inl e)\<rparr>)" for se by (simp add: session_ok_def)
  then have "session_ok (cs_db s) se" if "se \<in> set (cs_sessions s')" for se
    using that * set_update_subset_insert [of "cs_sessions t" i "(cs_sessions t ! i)\<lparr>se_phase := Answered (Inl e)\<rparr>"]
    by (auto simp: locking_inv_def set_phase_def)
  moreover have "exclusive (cs_sessions s')"
    using * by (auto simp: locking_inv_def set_phase_def locks_of_def intro!: exclusive_update)
  ultimately show ?thesis using * by (simp add: locking_inv_def set_phase_def)
next
  fix t d'
  assume "locking_inv s" "s = t" "s' = t\<lparr>cs_db := d'\<rparr>" "other_write (cs_db t) d'"
  then show ?thesis
    by (auto simp: locking_inv_def intro: session_ok_kept other_write_kept)
qed

interpretation locking: invariant_system locking_start locking_step locking_inv
proof unfold_locales
  show "locking_start s \<Longrightarrow> locking_inv s" for s
    by (simp add: locking_start_def locking_inv_def exclusive_def)
qed (rule locking_inv_step)

section \<open>Every commit is the whole call, in one step\<close>

lemma money_commit_steps:
  assumes "admitted call" "money_tx call d = Inr (d', r)"
  shows "ledger_step d d'"
proof (cases call)
  case (CallDeposit c i actor amount memo)
  then show ?thesis using assms
    by (auto simp: tx_map_def map_sum_def map_prod_def split: sum.splits prod.splits intro: ls_deposit)
next
  case (CallApprove c i actor)
  then show ?thesis using assms
    by (auto simp: tx_map_def map_sum_def map_prod_def split: sum.splits prod.splits intro: ls_approve)
next
  case (CallReject c i actor memo)
  then show ?thesis using assms
    by (auto simp: tx_map_def map_sum_def map_prod_def split: sum.splits prod.splits intro: ls_reject)
next
  case (CallAdjust c i dir amount why actor)
  then show ?thesis using assms
    by (auto simp: tx_map_def map_sum_def map_prod_def split: sum.splits prod.splits intro: ls_adjust)
next
  case (CallTransfer c fromId actor toId amount memo credit rate rt sender tid)
  then show ?thesis using assms
    by (auto simp: tx_map_def map_sum_def map_prod_def split: sum.splits prod.splits intro: ls_transfer)
qed

lemma ledger_step_refl: "ledger_step d d"
  by (rule ls_other) simp_all

lemma advance_tells:
  assumes "locking_inv s" "advance i s = Some s'"
  shows "phase_tells (se_call (cs_sessions s ! i)) (cs_db s) (cs_db s') (se_phase (cs_sessions s' ! i))"
    and "i < length (cs_sessions s)"
proof -
  obtain d ph out where i: "i < length (cs_sessions s)"
    and np: "next_phase (cs_db s) (se_phase (cs_sessions s ! i)) = Some (d, ph, out)"
    and s': "cs_db s' = d" "cs_sessions s' = (cs_sessions s)[i := (cs_sessions s ! i)\<lparr>se_phase := ph\<rparr>]"
    using advance_cases [OF assms(2)] by metis
  have ok: "session_ok (cs_db s) (cs_sessions s ! i)" using assms(1) i by (auto simp: locking_inv_def)
  show "phase_tells (se_call (cs_sessions s ! i)) (cs_db s) (cs_db s') (se_phase (cs_sessions s' ! i))"
    using next_phase_ok [OF ok np] s' i by simp
  show "i < length (cs_sessions s)" by (rule i)
qed

lemma active_admitted:
  "locking_inv s \<Longrightarrow> advance i s = Some s' \<Longrightarrow> se_phase (cs_sessions s' ! i) = Announcing r \<Longrightarrow>
     admitted (se_call (cs_sessions s ! i))"
  by (erule advance_cases, cases "(cs_db s, se_phase (cs_sessions s ! i))" rule: next_phase.cases)
    (auto simp: locking_inv_def session_ok_def split: option.splits phase.splits dest!: bspec [OF _ nth_mem])

lemma locking_step_ledger:
  assumes "locking_inv s" "locking_step s s'"
  shows "ledger_step (cs_db s) (cs_db s')"
  using assms(2)
proof cases
  case (lk_advance i)
  note tells = advance_tells [OF assms(1) lk_advance]
  show ?thesis
  proof (cases "se_phase (cs_sessions s' ! i)")
    case (Announcing r)
    then show ?thesis
      using tells(1) money_commit_steps active_admitted [OF assms(1) lk_advance]
      by (auto simp: phase_tells_def)
  qed (use tells in \<open>auto simp: phase_tells_def ledger_step_refl split: sum.splits\<close>)
next
  case (lk_other d')
  from lk_other(2) have "ledger_step (cs_db s) d'"
    by cases (auto intro: ledger_step.intros)
  then show ?thesis using lk_other by simp
qed (auto simp: set_phase_def ledger_step_refl)

lemma locking_reaches_ledger: "reach locking_start locking_step s \<Longrightarrow> reach ledger_start ledger_step (cs_db s)"
proof (induction rule: reach.induct)
  case (reach_init s)
  then show ?case by (auto simp: locking_start_def intro: reach.reach_init)
next
  case (reach_step s s')
  then show ?case using locking_step_ledger [OF locking.reach_inv] by (blast intro: reach.reach_step)
qed

text \<open>One session executes its next statement.\<close>

definition own_step :: "lock_sys \<Rightarrow> lock_sys \<Rightarrow> bool" where
  "own_step s s' \<longleftrightarrow> (\<exists>i. advance i s = Some s')"

text \<open>A deposit's session when nobody has its wallet: lock, read, write and commit.\<close>

definition deposit_ready ::
  "call_ctx \<Rightarrow> string \<Rightarrow> auth_user \<Rightarrow> int \<Rightarrow> string option \<Rightarrow> wallet \<Rightarrow> phase" where
  "deposit_ready c i actor amount memo w =
     InTx (Writes (tx_map RDeposit (deposit_writes c i actor amount memo w))) [LockWallet i]"

lemma deposit_session_reads:
  assumes "k < length (cs_sessions s)" "find_wallet i (cs_db s) = Some w"
    and "cs_sessions s ! k = begin_call (CallDeposit c i actor amount memo)"
    and "\<not> taken s k (LockWallet i)"
  shows "own_step\<^sup>*\<^sup>* s (set_phase k (deposit_ready c i actor amount memo w) s)"
proof -
  define p where "p = ReadWallet i (NotFoundException ''Wallet not found'')
     (\<lambda>w. Writes (tx_map RDeposit (deposit_writes c i actor amount memo w)))"
  have "advance k s = Some (set_phase k (InTx p [LockWallet i]) s)"
    using assms by (simp add: advance_def blocked_def begin_call_def p_def set_phase_def)
  moreover have "advance k (set_phase k (InTx p [LockWallet i]) s) =
      Some (set_phase k (deposit_ready c i actor amount memo w) s)"
    using assms by (simp add: advance_def blocked_def p_def set_phase_def deposit_ready_def)
  ultimately show ?thesis
    by (meson own_step_def rtranclp.rtrancl_refl rtranclp.rtrancl_into_rtrancl)
qed

lemma deposit_session_commits:
  assumes "k < length (cs_sessions s)" "find_wallet i (cs_db s) = Some w"
    and "se_phase (cs_sessions s ! k) = deposit_ready c i actor amount memo w"
    and "money_tx (CallDeposit c i actor amount memo) (cs_db s) = Inr (d', r)"
  shows "advance k s = Some ((set_phase k (Announcing r) s)\<lparr>cs_db := d'\<rparr>)"
proof -
  have "tx_map RDeposit (deposit_writes c i actor amount memo w) (cs_db s) = Inr (d', r)"
    using assms(2,4) fun_cong [OF run_money_prog [of "CallDeposit c i actor amount memo"], of "cs_db s"] by simp
  then show ?thesis
    using assms(1,3) by (simp add: advance_def blocked_def deposit_ready_def set_phase_def)
qed

text \<open>C6: overlapping money requests behave as if one ran after the other. However their statements
  interleave with each other and with the rest of the program, a session commits exactly what its
  whole call would do, and answers what it would answer, on the database as it stands at the commit;
  a session that fails leaves the database alone, with the error the call would give there; no
  other statement changes anything. So the database is always one that the calls, each in one step,
  can reach.\<close>

theorem overlapping_calls_are_serial:
  assumes "reach locking_start locking_step s" and "advance i s = Some s'"
  shows "(case se_phase (cs_sessions s' ! i) of
      InTx p H \<Rightarrow> cs_db s' = cs_db s
    | Announcing r \<Rightarrow> money_tx (se_call (cs_sessions s ! i)) (cs_db s) = Inr (cs_db s', r)
    | Answered (Inl e) \<Rightarrow> money_tx (se_call (cs_sessions s ! i)) (cs_db s) = Inl e \<and> cs_db s' = cs_db s
    | Answered (Inr r) \<Rightarrow> cs_db s' = cs_db s) \<and>
    reach ledger_start ledger_step (cs_db s')"
  using advance_tells(1) [OF locking.reach_inv [OF assms(1)] assms(2)]
    locking_reaches_ledger [OF reach_step [OF assms(1) lk_advance [OF assms(2)]]]
  by (simp_all add: phase_tells_def)

section \<open>Overlapping requests are never stuck\<close>

lemma next_phase_None: "next_phase d ph = None \<longleftrightarrow> (\<exists>res. ph = Answered res)"
  by (cases "(d, ph)" rule: next_phase.cases) (auto split: option.splits sum.splits)

lemma advance_None:
  assumes "advance i s = None" "i < length (cs_sessions s)" "\<not> blocked s i"
  shows "\<exists>res. se_phase (cs_sessions s ! i) = Answered res"
  using assms next_phase_None by (auto simp: advance_def split: option.splits)

lemma unblocked_exists:
  assumes inv: "locking_inv s" and i: "i < length (cs_sessions s)" "\<nexists>res. se_phase (cs_sessions s ! i) = Answered res"
  shows "\<exists>j s'. advance j s = Some s'"
proof (cases "blocked s i")
  case False
  then show ?thesis using advance_None i by (metis option.exhaust)
next
  case True
  define L where "L = (\<Union>se \<in> set (cs_sessions s). set (locks_of se))"
  obtain l where "taken s i l" using True by (auto simp: blocked_def split: phase.splits prog.splits)
  then obtain k where k: "k < length (cs_sessions s)" "l \<in> set (locks_of (cs_sessions s ! k))"
    by (auto simp: taken_iff)
  then have "l \<in> L" using nth_mem [OF k(1)] unfolding L_def by blast
  then have "L \<noteq> {}" by blast
  moreover have "finite L" by (simp add: L_def)
  ultimately have L: "finite L" "L \<noteq> {}" by simp_all
  from Max_in [OF this] obtain se where "se \<in> set (cs_sessions s)" "Max L \<in> set (locks_of se)"
    unfolding L_def by blast
  then obtain j where j: "j < length (cs_sessions s)" "Max L \<in> set (locks_of (cs_sessions s ! j))"
    by (metis in_set_conv_nth)
  then obtain p H where ph: "se_phase (cs_sessions s ! j) = InTx p H" "Max L \<in> set H"
    by (cases "se_phase (cs_sessions s ! j)") (auto simp: locks_of_def)
  have asc: "ascending p (set H)"
    using inv j(1) ph(1) by (auto simp: locking_inv_def session_ok_def dest!: bspec [OF _ nth_mem])
  have "\<not> blocked s j"
  proof
    assume "blocked s j"
    then obtain l q where l: "p = Lock l q" "taken s j l"
      using ph(1) by (auto simp: blocked_def split: prog.splits)
    then have "l \<in> L" by (auto simp: L_def taken_iff)
    moreover have "Max L < l" using asc l(1) ph(2) by simp
    ultimately show False using Max_ge [OF L(1)] by (meson not_le)
  qed
  then show ?thesis using advance_None [of j s] j(1) ph(1) by (metis option.exhaust phase.distinct(3))
qed

text \<open>Statements left to a session, its answer included.\<close>

definition work :: "phase \<Rightarrow> nat" where
  "work ph = (case ph of InTx p H \<Rightarrow> (LEAST n. ends_in p n) + 2 | Announcing r \<Rightarrow> 1 | Answered res \<Rightarrow> 0)"

lemma work_le: "ends_in p n \<Longrightarrow> work (InTx p H) \<le> n + 2"
  by (simp add: work_def Least_le)

lemma work_decreases:
  assumes "session_ok d se" "next_phase d (se_phase se) = Some (d', ph, out)"
  shows "work ph < work (se_phase se)"
proof (cases "se_phase se")
  case (InTx p H)
  then have "\<exists>n. ends_in p n" using assms(1) by (auto simp: session_ok_def)
  then obtain n where n: "ends_in p n" "work (se_phase se) = n + 2"
    using LeastI_ex [of "ends_in p"] InTx by (auto simp: work_def)
  have fewer: "work (InTx q H') < Suc (Suc n)" if "0 < n" "ends_in q (n - Suc 0)" for q H'
    using work_le [OF that(2), of H'] that(1) by simp
  have last: "work (Answered res) < Suc (Suc n)" "work (Announcing r) < Suc (Suc n)" for res r
    by (simp_all add: work_def)
  show ?thesis unfolding n(2)
    using assms(2) InTx n(1)
    by (cases p) (auto intro!: fewer last split: option.splits sum.splits)
qed (use assms(2) in \<open>auto simp: work_def\<close>)

definition total_work :: "lock_sys \<Rightarrow> nat" where
  "total_work s = sum_list (map (work \<circ> se_phase) (cs_sessions s))"

lemma advance_work:
  assumes "locking_inv s" "advance i s = Some s'"
  shows "total_work s' < total_work s"
    and "map se_call (cs_sessions s') = map se_call (cs_sessions s)"
proof -
  obtain d ph out where i: "i < length (cs_sessions s)"
    and np: "next_phase (cs_db s) (se_phase (cs_sessions s ! i)) = Some (d, ph, out)"
    and s': "cs_sessions s' = (cs_sessions s)[i := (cs_sessions s ! i)\<lparr>se_phase := ph\<rparr>]"
    using advance_cases [OF assms(2)] by metis
  have "session_ok (cs_db s) (cs_sessions s ! i)" using assms(1) i by (simp add: locking_inv_def)
  from work_decreases [OF this np] have less: "work ph < work (se_phase (cs_sessions s ! i))" .
  have "work (se_phase (cs_sessions s ! i)) \<le> total_work s"
    using i by (auto simp: total_work_def intro!: member_le_sum_list)
  then show "total_work s' < total_work s"
    using less i by (simp add: total_work_def s' map_update sum_list_update)
  show "map se_call (cs_sessions s') = map se_call (cs_sessions s)"
    using i by (simp add: s' map_update list_update_same_conv)
qed

lemma sessions_finish:
  assumes "locking_inv s"
  shows "\<exists>s'. own_step\<^sup>*\<^sup>* s s' \<and> map se_call (cs_sessions s') = map se_call (cs_sessions s) \<and>
     (\<forall>se \<in> set (cs_sessions s'). \<exists>res. se_phase se = Answered res)"
  using assms
proof (induction "total_work s" arbitrary: s rule: less_induct)
  case less
  show ?case
  proof (cases "\<forall>se \<in> set (cs_sessions s). \<exists>res. se_phase se = Answered res")
    case True
    then show ?thesis by blast
  next
    case False
    then obtain i s1 where s1: "advance i s = Some s1"
      using unblocked_exists [OF less.prems] by (metis in_set_conv_nth)
    obtain s' where s': "own_step\<^sup>*\<^sup>* s1 s'" "map se_call (cs_sessions s') = map se_call (cs_sessions s1)"
      "\<forall>se \<in> set (cs_sessions s'). \<exists>res. se_phase se = Answered res"
      using less.hyps [OF advance_work(1) [OF less.prems s1] locking_inv_advance [OF less.prems s1]] by blast
    have "own_step s s1" using s1 by (auto simp: own_step_def)
    then have "own_step\<^sup>*\<^sup>* s s'" using s'(1) by (rule converse_rtranclp_into_rtranclp)
    then show ?thesis using s'(2,3) advance_work(2) [OF less.prems s1] by auto
  qed
qed

text \<open>C7: overlapping money requests are never stuck. Whatever requests are in progress, in whatever
  order their statements came so far, there is a way to run all of them to their answers, each by
  its own statements and with nobody aborted.\<close>

theorem overlapping_calls_finish:
  assumes "reach locking_start locking_step s"
  shows "\<exists>s'. own_step\<^sup>*\<^sup>* s s' \<and> map se_call (cs_sessions s') = map se_call (cs_sessions s) \<and>
     (\<forall>se \<in> set (cs_sessions s'). \<exists>res. se_phase se = Answered res)"
  by (rule sessions_finish [OF locking.reach_inv [OF assms]])

lemma own_step_locking: "own_step s s' \<Longrightarrow> locking_step s s'"
  by (auto simp: own_step_def intro: lk_advance)

lemma reach_own_steps:
  "own_step\<^sup>*\<^sup>* s s' \<Longrightarrow> reach locking_start locking_step s \<Longrightarrow> reach locking_start locking_step s'"
  by (induction rule: rtranclp_induct) (auto intro: reach_step own_step_locking)

section \<open>Two deposits and two opposite transfers at once\<close>

definition demo_deposit :: tx_call where
  "demo_deposit = CallDeposit (money_ctx ''a'') ''w1'' (money_actor ''u1'') 500 None"

definition demo_transfer :: "string \<Rightarrow> string \<Rightarrow> string \<Rightarrow> string \<Rightarrow> tx_call" where
  "demo_transfer p a u b = CallTransfer (money_ctx p) a (money_actor u) b 100 None 100 None None None p"

definition demo_begun :: lock_sys where
  "demo_begun = \<lparr>cs_db = two_wallets, cs_sessions = map begin_call
     [demo_deposit, demo_transfer ''b'' ''w1'' ''u1'' ''w2'', demo_transfer ''c'' ''w2'' ''u2'' ''w1''],
     cs_feed = []\<rparr>"

lemma reach_two_wallets:
  "reach locking_start locking_step \<lparr>cs_db = two_wallets, cs_sessions = [], cs_feed = []\<rparr>"
proof -
  let ?s = "\<lambda>d. \<lparr>cs_db = d, cs_sessions = [], cs_feed = []\<rparr>"
  have create: "reach locking_start locking_step (?s d) \<Longrightarrow> other_write d d' \<Longrightarrow> reach locking_start locking_step (?s d')"
    for d d' using lk_other [of "?s d" d'] by (auto intro: reach_step)
  have "reach locking_start locking_step (?s empty_db)"
    by (rule reach_init) (simp add: locking_start_def ledger_start_def empty_db_def)
  then have "reach locking_start locking_step (?s (empty_db\<lparr>wallets := [demo_wallet ''w1'' ''u1'' 0]\<rparr>))"
    by (rule create, intro ow_wallet [where c = "(money_ctx ''w'')\<lparr>now := 0, uuids := \<lambda>_. ''w1''\<rparr>"
          and actor = "money_actor ''u1''" and name = "''My Wallet''" and cur = "''USD''"])
      (simp add: createWallet_def wallet_create_def ins_row_def new_wallet_def money_actor_def
        demo_wallet_def empty_db_def)
  then show ?thesis
    by (rule create, intro ow_wallet [where c = "(money_ctx ''w'')\<lparr>now := 0, uuids := \<lambda>_. ''w2''\<rparr>"
          and actor = "money_actor ''u2''" and name = "''My Wallet''" and cur = "''USD''"])
      (simp add: createWallet_def wallet_create_def ins_row_def new_wallet_def money_actor_def
        demo_wallet_def empty_db_def two_wallets_def)
qed

lemma reach_begin:
  "reach locking_start locking_step s \<Longrightarrow> list_all admitted calls \<Longrightarrow>
     reach locking_start locking_step (s\<lparr>cs_sessions := cs_sessions s @ map begin_call calls\<rparr>)"
proof (induction calls rule: rev_induct)
  case (snoc call calls)
  then show ?case using reach_step [OF snoc.IH [OF snoc.prems(1)] lk_begin [of call]] by simp
qed simp

lemma reach_demo_begun: "reach locking_start locking_step demo_begun"
  using reach_begin [OF reach_two_wallets, of "[demo_deposit, demo_transfer ''b'' ''w1'' ''u1'' ''w2'', demo_transfer ''c'' ''w2'' ''u2'' ''w1'']"]
  by (simp add: demo_begun_def demo_deposit_def demo_transfer_def)

lemma demo_deposit_runs:
  "\<exists>r. money_tx demo_deposit two_wallets = Inr (funded, r)"
  by (simp add: demo_deposit_def tx_map_def deposit_tx_demo)

lemma find_demo_wallet: "find_wallet ''w1'' two_wallets = Some (demo_wallet ''w1'' ''u1'' 0)"
  by (simp add: find_wallet_def two_wallets_def demo_wallet_def)

definition demo_ready :: lock_sys where
  "demo_ready = set_phase 0
     (deposit_ready (money_ctx ''a'') ''w1'' (money_actor ''u1'') 500 None (demo_wallet ''w1'' ''u1'' 0)) demo_begun"

lemma reach_demo_ready: "reach locking_start locking_step demo_ready"
proof (rule reach_own_steps [OF _ reach_demo_begun])
  show "own_step\<^sup>*\<^sup>* demo_begun demo_ready"
    unfolding demo_ready_def
    by (rule deposit_session_reads)
      (simp_all add: demo_begun_def demo_deposit_def find_demo_wallet taken_def begin_call_def locks_of_def)
qed

lemma overlapping_calls_are_serial_witness:
  "\<exists>s' r. advance 0 demo_ready = Some s' \<and> money_tx demo_deposit two_wallets = Inr (cs_db s', r) \<and>
     reach ledger_start ledger_step (cs_db s')"
proof -
  obtain r where r: "money_tx demo_deposit two_wallets = Inr (funded, r)" using demo_deposit_runs by blast
  have db: "cs_db demo_ready = two_wallets" "0 < length (cs_sessions demo_ready)"
    "se_call (cs_sessions demo_ready ! 0) = demo_deposit"
    "se_phase (cs_sessions demo_ready ! 0) =
       deposit_ready (money_ctx ''a'') ''w1'' (money_actor ''u1'') 500 None (demo_wallet ''w1'' ''u1'' 0)"
    by (simp_all add: demo_ready_def demo_begun_def set_phase_def begin_call_def)
  have adv: "advance 0 demo_ready = Some ((set_phase 0 (Announcing r) demo_ready)\<lparr>cs_db := funded\<rparr>)"
    by (rule deposit_session_commits [OF db(2) _ db(4)])
      (use r db in \<open>simp_all add: demo_deposit_def find_demo_wallet\<close>)
  show ?thesis
    using overlapping_calls_are_serial [OF reach_demo_ready adv] adv db by (auto simp: set_phase_def)
qed

lemma overlapping_calls_finish_witness:
  "\<exists>s'. own_step\<^sup>*\<^sup>* demo_ready s' \<and> length (cs_sessions s') = 3 \<and>
     (\<forall>se \<in> set (cs_sessions s'). \<exists>res. se_phase se = Answered res)"
proof -
  have "length (map se_call (cs_sessions demo_ready)) = 3" by (simp add: demo_ready_def demo_begun_def set_phase_def)
  then show ?thesis using overlapping_calls_finish [OF reach_demo_ready] by (metis length_map)
qed

end
