(* ===== verification/Tokens.thy ===== *)
theory Tokens
  imports Users
begin

text \<open>
  \<open>auth/tokens.service.ts\<close>: access tokens, rotating refresh tokens and single-purpose tokens.
  Signing belongs to \<open>@nestjs/jwt\<close> and is the parameter \<open>jwt_lib\<close>, over any type of signed
  tokens; the behaviour it documents is the locale \<open>jwt_laws\<close>. SHA-256 is a parameter too.
  An operation of this service that can fail after a committed write returns the database it
  leaves next to its result.
\<close>

section \<open>Signed tokens\<close>

record claims =
  cl_sub :: "string option"
  cl_email :: "string option"
  cl_role :: "string option"
  cl_purpose :: "string option"
  cl_challenge :: "string option"

definition no_claims :: claims where
  "no_claims = \<lparr>cl_sub = None, cl_email = None, cl_role = None, cl_purpose = None,
     cl_challenge = None\<rparr>"

text \<open>
  \<open>j_sign\<close> takes the clock, the claims and the life time in seconds; \<open>j_verify\<close> the clock and a
  token, and yields nothing where the library throws.
\<close>

record 'tok jwt_lib =
  j_sign :: "int \<Rightarrow> claims \<Rightarrow> int \<Rightarrow> 'tok"
  j_verify :: "int \<Rightarrow> 'tok \<Rightarrow> claims option"

definition secs :: "int \<Rightarrow> int" where
  "secs ms = ms div 1000"

text \<open>
  What the library documents: \<open>iat\<close> and \<open>exp\<close> are whole seconds; a signed token verifies to its
  claims until \<open>exp\<close> and not from then on; and only what was signed with the secret verifies.
\<close>

locale jwt_laws =
  fixes J :: "'tok jwt_lib"
  assumes verify_live: "secs t' < secs t + ttl \<Longrightarrow> j_verify J t' (j_sign J t c ttl) = Some c"
    and verify_expired: "secs t + ttl \<le> secs t' \<Longrightarrow> j_verify J t' (j_sign J t c ttl) = None"
    and verify_signed: "j_verify J t' tok = Some c \<Longrightarrow>
        \<exists>t ttl. tok = j_sign J t c ttl \<and> secs t' < secs t + ttl"
begin

lemma verify_sign_iff:
  "j_verify J t' (j_sign J t c ttl) = Some c' \<longleftrightarrow> secs t' < secs t + ttl \<and> c' = c"
  by (cases "secs t' < secs t + ttl") (auto simp: verify_live verify_expired not_less)

end

text \<open>A library that obeys the laws: a token is its claims with the second it expires at.\<close>

definition plain_jwt :: "(claims \<times> int) jwt_lib" where
  "plain_jwt = \<lparr>j_sign = (\<lambda>t c ttl. (c, secs t + ttl)),
     j_verify = (\<lambda>t tok. if secs t < snd tok then Some (fst tok) else None)\<rparr>"

interpretation plain: jwt_laws plain_jwt
proof unfold_locales
  fix t' :: int and tok :: "claims \<times> int" and c :: claims
  assume "j_verify plain_jwt t' tok = Some c"
  then have "tok = j_sign plain_jwt 0 c (snd tok) \<and> secs t' < secs 0 + snd tok"
    by (cases tok) (simp add: plain_jwt_def secs_def split: if_splits)
  then show "\<exists>t ttl. tok = j_sign plain_jwt t c ttl \<and> secs t' < secs t + ttl" by blast
qed (simp_all add: plain_jwt_def)

section \<open>Single-purpose tokens\<close>

definition purpose_claims :: "string \<Rightarrow> string \<Rightarrow> claims" where
  "purpose_claims userId purpose = no_claims\<lparr>cl_sub := Some userId, cl_purpose := Some purpose\<rparr>"

definition issuePurpose :: "'tok jwt_lib \<Rightarrow> int \<Rightarrow> string \<Rightarrow> string \<Rightarrow> int \<Rightarrow> 'tok" where
  "issuePurpose J t userId purpose expiresIn = j_sign J t (purpose_claims userId purpose) expiresIn"

definition verifyPurpose :: "'tok jwt_lib \<Rightarrow> int \<Rightarrow> 'tok \<Rightarrow> string \<Rightarrow> exn + string option" where
  "verifyPurpose J t tok purpose =
     (case j_verify J t tok of
        None \<Rightarrow> Inl (UnauthorizedException (''Invalid or expired '' @ purpose @ '' token''))
      | Some p \<Rightarrow>
          if cl_purpose p \<noteq> Some purpose
          then Inl (UnauthorizedException (''Invalid or expired '' @ purpose @ '' token''))
          else Inr (cl_sub p))"

definition issueWsTicket :: "'tok jwt_lib \<Rightarrow> int \<Rightarrow> string \<Rightarrow> 'tok" where
  "issueWsTicket J t userId = issuePurpose J t userId ''ws'' 60"

definition issueStepUpGrant :: "'tok jwt_lib \<Rightarrow> int \<Rightarrow> string \<Rightarrow> 'tok" where
  "issueStepUpGrant J t userId = issuePurpose J t userId ''step-up'' 300"

definition verifyStepUpGrant :: "'tok jwt_lib \<Rightarrow> int \<Rightarrow> 'tok \<Rightarrow> exn + string option" where
  "verifyStepUpGrant J t tok = verifyPurpose J t tok ''step-up''"

definition issue2faChallenge :: "'tok jwt_lib \<Rightarrow> int \<Rightarrow> string \<Rightarrow> 'tok" where
  "issue2faChallenge J t userId = issuePurpose J t userId ''2fa'' 300"

definition verify2faChallenge :: "'tok jwt_lib \<Rightarrow> int \<Rightarrow> 'tok \<Rightarrow> exn + string option" where
  "verify2faChallenge J t tok = verifyPurpose J t tok ''2fa''"

text \<open>WebAuthn challenges: bound to a user only when one is given.\<close>

definition issueWebAuthnChallenge ::
  "'tok jwt_lib \<Rightarrow> int \<Rightarrow> string \<Rightarrow> string option \<Rightarrow> 'tok" where
  "issueWebAuthnChallenge J t challenge userId =
     j_sign J t (no_claims\<lparr>cl_sub := (if given userId then userId else None),
       cl_purpose := Some ''webauthn'', cl_challenge := Some challenge\<rparr>) 300"

definition verifyWebAuthnChallenge ::
  "'tok jwt_lib \<Rightarrow> int \<Rightarrow> 'tok \<Rightarrow> exn + string \<times> string option" where
  "verifyWebAuthnChallenge J t tok =
     (case j_verify J t tok of
        None \<Rightarrow> Inl (UnauthorizedException ''Invalid or expired WebAuthn challenge'')
      | Some p \<Rightarrow>
          if cl_purpose p \<noteq> Some ''webauthn'' \<or> \<not> given (cl_challenge p)
          then Inl (UnauthorizedException ''Invalid or expired WebAuthn challenge'')
          else Inr (the (cl_challenge p), cl_sub p))"

section \<open>Access and refresh tokens\<close>

definition REFRESH_TTL_MS :: int where "REFRESH_TTL_MS = 7 * 24 * 60 * 60 * 1000"
definition REUSE_GRACE_MS :: int where "REUSE_GRACE_MS = 30000"
definition ACCESS_TTL_S :: int where "ACCESS_TTL_S = 900"

record 'tok tokens =
  tk_access :: 'tok
  tk_refresh :: string

text \<open>The user whose tokens are issued: the row's id and email with its role's name.\<close>

record token_user =
  tu_id :: string
  tu_email :: string
  tu_role :: string

definition access_claims :: "token_user \<Rightarrow> claims" where
  "access_claims u = no_claims\<lparr>cl_sub := Some (tu_id u), cl_email := Some (tu_email u),
     cl_role := Some (tu_role u)\<rparr>"

definition refresh_create :: "refresh_token \<Rightarrow> (db, unit) tx" where
  "refresh_create r d =
     (if \<exists>s \<in> set (refresh_tokens d). rt_id r = rt_id s \<or> rt_tokenHash r = rt_tokenHash s
      then Inl (PrismaKnown ''P2002'')
      else Inr (d\<lparr>refresh_tokens := refresh_tokens d @ [r]\<rparr>, ()))"

text \<open>
  \<open>raw\<close> is the value of \<open>randomBytes(48)\<close> as hex, \<open>row_id\<close> the row's generated id; the database
  keeps \<open>hash raw\<close> only.
\<close>

definition issueTokens ::
  "'tok jwt_lib \<Rightarrow> (string \<Rightarrow> string) \<Rightarrow> int \<Rightarrow> string \<Rightarrow> string \<Rightarrow> token_user \<Rightarrow> string
     \<Rightarrow> (db, 'tok tokens) tx" where
  "issueTokens J hash t row_id raw u familyId =
     tx_bind (refresh_create \<lparr>rt_id = row_id, rt_tokenHash = hash raw, rt_familyId = familyId,
                rt_usedAt = None, rt_userId = tu_id u, rt_expiresAt = t + REFRESH_TTL_MS\<rparr>) (\<lambda>_.
     tx_return \<lparr>tk_access = j_sign J t (access_claims u) ACCESS_TTL_S, tk_refresh = raw\<rparr>)"

section \<open>Rotation\<close>

definition find_refresh :: "string \<Rightarrow> db \<Rightarrow> refresh_token option" where
  "find_refresh h d = List.find (\<lambda>r. rt_tokenHash r = h) (refresh_tokens d)"

definition token_user_of :: "user \<Rightarrow> db \<Rightarrow> token_user" where
  "token_user_of u d = \<lparr>tu_id = u_id u, tu_email = u_email u,
     tu_role = (case role_of u d of None \<Rightarrow> [] | Some r \<Rightarrow> r_name r)\<rparr>"

text \<open>The first read: the row under the token's hash, with its user and the user's role.\<close>

record refresh_existing =
  re_row :: refresh_token
  re_status :: user_status
  re_user :: token_user

definition rotate_read :: "(string \<Rightarrow> string) \<Rightarrow> string \<Rightarrow> db \<Rightarrow> exn + refresh_existing" where
  "rotate_read hash raw d =
     (case find_refresh (hash raw) d of
        None \<Rightarrow> Inl (UnauthorizedException ''Invalid refresh token'')
      | Some r \<Rightarrow>
          (case find_user (rt_userId r) d of
             None \<Rightarrow> Inl (OtherError ''Inconsistent query result'')
           | Some u \<Rightarrow> Inr \<lparr>re_row = r, re_status = u_status u, re_user = token_user_of u d\<rparr>))"

definition SUSPENDED :: exn where
  "SUSPENDED = ForbiddenException ''This account has been suspended. Please contact support.''"

text \<open>What the checks on that row decide.\<close>

datatype rotation = RotReject exn | RotSibling | RotRevokeFamily | RotExpired | RotClaim

definition rotate_decide :: "int \<Rightarrow> refresh_existing \<Rightarrow> rotation" where
  "rotate_decide t e =
     (if re_status e \<noteq> Active then RotReject SUSPENDED
      else case rt_usedAt (re_row e) of
        Some used \<Rightarrow> if t - used < REUSE_GRACE_MS then RotSibling else RotRevokeFamily
      | None \<Rightarrow> if rt_expiresAt (re_row e) < t then RotExpired else RotClaim)"

text \<open>The claim: a conditional update and, for the winner, the new row, in one transaction.\<close>

definition claimable :: "string \<Rightarrow> refresh_token \<Rightarrow> bool" where
  "claimable i r \<longleftrightarrow> rt_id r = i \<and> rt_usedAt r = None"

definition rotate_claim ::
  "'tok jwt_lib \<Rightarrow> (string \<Rightarrow> string) \<Rightarrow> int \<Rightarrow> string \<Rightarrow> string \<Rightarrow> refresh_existing
     \<Rightarrow> (db, 'tok tokens option) tx" where
  "rotate_claim J hash t row_id new_raw e d =
     (if count_rows (claimable (rt_id (re_row e))) (refresh_tokens d) = 0 then Inr (d, None)
      else tx_bind (issueTokens J hash t row_id new_raw (re_user e) (rt_familyId (re_row e)))
             (\<lambda>tk. tx_return (Some tk))
             (d\<lparr>refresh_tokens := upd_rows (claimable (rt_id (re_row e)))
                  (rt_usedAt_update (\<lambda>_. Some t)) (refresh_tokens d)\<rparr>))"

definition commit :: "db \<Rightarrow> exn + (db \<times> 'a) \<Rightarrow> (exn + 'a) \<times> db" where
  "commit d r = (case r of Inl e \<Rightarrow> (Inl e, d) | Inr (d', a) \<Rightarrow> (Inr a, d'))"

text \<open>
  The rest of \<open>rotate\<close>, in the database state \<open>d\<close> it meets after its first read. A loser of the
  claim gets a pair of its own in the same family.
\<close>

definition rotate_finish ::
  "'tok jwt_lib \<Rightarrow> (string \<Rightarrow> string) \<Rightarrow> int \<Rightarrow> string \<Rightarrow> string \<Rightarrow> refresh_existing \<Rightarrow> db
     \<Rightarrow> (exn + 'tok tokens) \<times> db" where
  "rotate_finish J hash t row_id new_raw e d =
     (let sibling = issueTokens J hash t row_id new_raw (re_user e) (rt_familyId (re_row e))
      in case rotate_decide t e of
           RotReject x \<Rightarrow> (Inl x, d)
         | RotSibling \<Rightarrow> commit d (sibling d)
         | RotRevokeFamily \<Rightarrow>
             (Inl (UnauthorizedException ''Refresh token reuse detected''),
              d\<lparr>refresh_tokens :=
                  del_rows (\<lambda>r. rt_familyId r = rt_familyId (re_row e)) (refresh_tokens d)\<rparr>)
         | RotExpired \<Rightarrow>
             (if \<exists>r \<in> set (refresh_tokens d). rt_id r = rt_id (re_row e)
              then (Inl (UnauthorizedException ''Refresh token expired''),
                    d\<lparr>refresh_tokens := del_rows (\<lambda>r. rt_id r = rt_id (re_row e)) (refresh_tokens d)\<rparr>)
              else (Inl (PrismaKnown ''P2025''), d))
         | RotClaim \<Rightarrow>
             (case rotate_claim J hash t row_id new_raw e d of
                Inl x \<Rightarrow> (Inl x, d)
              | Inr (d', Some tk) \<Rightarrow> (Inr tk, d')
              | Inr (d', None) \<Rightarrow> commit d' (sibling d')))"

definition rotate ::
  "'tok jwt_lib \<Rightarrow> (string \<Rightarrow> string) \<Rightarrow> int \<Rightarrow> string \<Rightarrow> string \<Rightarrow> string \<Rightarrow> db
     \<Rightarrow> (exn + 'tok tokens) \<times> db" where
  "rotate J hash t row_id new_raw raw d =
     (case rotate_read hash raw d of
        Inl e \<Rightarrow> (Inl e, d)
      | Inr e \<Rightarrow> rotate_finish J hash t row_id new_raw e d)"

definition revoke :: "(string \<Rightarrow> string) \<Rightarrow> string \<Rightarrow> db \<Rightarrow> db" where
  "revoke hash raw d =
     d\<lparr>refresh_tokens := del_rows (\<lambda>r. rt_tokenHash r = hash raw) (refresh_tokens d)\<rparr>"

section \<open>Rotation as the client sees it\<close>

lemma find_refresh_in: "find_refresh h d = Some r \<Longrightarrow> r \<in> set (refresh_tokens d) \<and> rt_tokenHash r = h"
  unfolding find_refresh_def by (rule find_Some_in)

lemma find_refresh_None: "find_refresh h d = None \<longleftrightarrow> (\<forall>r \<in> set (refresh_tokens d). rt_tokenHash r \<noteq> h)"
  by (simp add: find_refresh_def find_None_iff_all)

lemma refresh_create_Inr [tx_simps]:
  "refresh_create r d = Inr (d', u) \<longleftrightarrow>
     rt_id r \<notin> rt_id ` set (refresh_tokens d) \<and> rt_tokenHash r \<notin> rt_tokenHash ` set (refresh_tokens d) \<and>
     d' = d\<lparr>refresh_tokens := refresh_tokens d @ [r]\<rparr>"
  unfolding refresh_create_def image_iff by auto

definition fresh_refresh :: "(string \<Rightarrow> string) \<Rightarrow> string \<Rightarrow> string \<Rightarrow> db \<Rightarrow> bool" where
  "fresh_refresh hash row_id raw d \<longleftrightarrow>
     (\<forall>r \<in> set (refresh_tokens d). rt_id r \<noteq> row_id \<and> rt_tokenHash r \<noteq> hash raw)"

definition new_refresh :: "(string \<Rightarrow> string) \<Rightarrow> int \<Rightarrow> string \<Rightarrow> string \<Rightarrow> string \<Rightarrow> string \<Rightarrow> refresh_token" where
  "new_refresh hash t row_id raw userId familyId = \<lparr>rt_id = row_id, rt_tokenHash = hash raw,
     rt_familyId = familyId, rt_usedAt = None, rt_userId = userId, rt_expiresAt = t + REFRESH_TTL_MS\<rparr>"

lemma issueTokens_fresh:
  "fresh_refresh hash row_id raw d \<Longrightarrow>
   issueTokens J hash t row_id raw u fam d =
     Inr (d\<lparr>refresh_tokens := refresh_tokens d @ [new_refresh hash t row_id raw (tu_id u) fam]\<rparr>,
       \<lparr>tk_access = j_sign J t (access_claims u) ACCESS_TTL_S, tk_refresh = raw\<rparr>)"
  by (auto simp: issueTokens_def refresh_create_def fresh_refresh_def new_refresh_def tx_defs)

lemma fresh_refresh_upd:
  "fresh_refresh hash row_id raw (d\<lparr>refresh_tokens :=
      upd_rows P (rt_usedAt_update f) (refresh_tokens d)\<rparr>) \<longleftrightarrow> fresh_refresh hash row_id raw d"
  by (auto simp: fresh_refresh_def set_upd_rows simp del: if_image_distrib)

lemma rotate_claim_wins:
  assumes "re_row e \<in> set (refresh_tokens d)" "rt_usedAt (re_row e) = None"
    and "fresh_refresh hash row_id new_raw d"
  shows "rotate_claim J hash t row_id new_raw e d =
     Inr (d\<lparr>refresh_tokens := upd_rows (claimable (rt_id (re_row e))) (rt_usedAt_update (\<lambda>_. Some t))
            (refresh_tokens d) @ [new_refresh hash t row_id new_raw (tu_id (re_user e)) (rt_familyId (re_row e))]\<rparr>,
       Some \<lparr>tk_access = j_sign J t (access_claims (re_user e)) ACCESS_TTL_S, tk_refresh = new_raw\<rparr>)"
proof -
  have "count_rows (claimable (rt_id (re_row e))) (refresh_tokens d) \<noteq> 0"
    using assms by (auto simp: count_rows_def claimable_def filter_empty_conv)
  then show ?thesis
    using assms by (simp add: rotate_claim_def tx_bind_def tx_return_def fresh_refresh_upd
        issueTokens_fresh [of hash row_id new_raw])
qed

lemma rotate_live_pair:
  assumes r: "find_refresh (hash raw) d = Some r" and live: "rt_usedAt r = None" "t \<le> rt_expiresAt r"
    and u: "find_user (rt_userId r) d = Some u" "u_status u = Active"
    and ids: "distinct (map rt_id (refresh_tokens d))" and fresh: "fresh_refresh hash row_id new_raw d"
  shows "rotate J hash t row_id new_raw raw d =
     (Inr \<lparr>tk_access = j_sign J t (access_claims (token_user_of u d)) ACCESS_TTL_S, tk_refresh = new_raw\<rparr>,
      d\<lparr>refresh_tokens := upd_rows (\<lambda>s. rt_id s = rt_id r) (rt_usedAt_update (\<lambda>_. Some t)) (refresh_tokens d)
          @ [new_refresh hash t row_id new_raw (u_id u) (rt_familyId r)]\<rparr>)"
proof -
  let ?e = "\<lparr>re_row = r, re_status = u_status u, re_user = token_user_of u d\<rparr>"
  have rin: "r \<in> set (refresh_tokens d)" using find_refresh_in [OF r] by simp
  have one: "claimable (rt_id r) s = (rt_id s = rt_id r)" if "s \<in> set (refresh_tokens d)" for s
    using distinct_key_unique [OF ids that rin] live(1) by (auto simp: claimable_def)
  then have upd: "upd_rows (claimable (rt_id r)) f (refresh_tokens d) =
      upd_rows (\<lambda>s. rt_id s = rt_id r) f (refresh_tokens d)" for f
    by (simp add: upd_rows_def)
  have "rotate_decide t ?e = RotClaim"
    using live u by (simp add: rotate_decide_def)
  moreover have "tu_id (token_user_of u d) = u_id u" by (simp add: token_user_of_def)
  ultimately show ?thesis
    using rotate_claim_wins [of ?e d hash row_id new_raw J t] rin live(1) fresh r u(1)
    by (simp add: rotate_def rotate_read_def rotate_finish_def Let_def upd)
qed

text \<open>A refresh token is single use. Rotating a live, unused token of an active user yields a
  pair, marks exactly that row as used and adds one unused row for the new token to the same
  family; every other row stays as it is.\<close>

theorem rotate_live_token:
  assumes r: "find_refresh (hash raw) d = Some r" and live: "rt_usedAt r = None" "t \<le> rt_expiresAt r"
    and u: "find_user (rt_userId r) d = Some u" "u_status u = Active"
    and ids: "distinct (map rt_id (refresh_tokens d))" and fresh: "fresh_refresh hash row_id new_raw d"
  shows "rotate J hash t row_id new_raw raw d =
     (Inr \<lparr>tk_access = j_sign J t (access_claims (token_user_of u d)) ACCESS_TTL_S, tk_refresh = new_raw\<rparr>,
      d\<lparr>refresh_tokens := upd_rows (\<lambda>s. rt_id s = rt_id r) (rt_usedAt_update (\<lambda>_. Some t)) (refresh_tokens d)
          @ [new_refresh hash t row_id new_raw (u_id u) (rt_familyId r)]\<rparr>)"
  using assms by (rule rotate_live_pair)

text \<open>A concrete session: one user, one live token.\<close>

definition demo_user :: user where
  "demo_user = \<lparr>u_id = ''u1'', u_email = ''ada@wallet.local'', u_handle = Some ''ada'',
     u_passwordHash = ''pw'', u_firstName = ''Ada'', u_lastName = ''L'', u_status = Active,
     u_totpSecret = Some ''secret'', u_totpEnabled = True, u_totpRecoveryHashes = [''h1'', ''h2''],
     u_roleId = ''r1'', u_createdAt = 0\<rparr>"

definition demo_role :: role where
  "demo_role = \<lparr>r_id = ''r1'', r_name = ''user'', r_description = None, r_permissions = []\<rparr>"

definition demo_refresh :: refresh_token where
  "demo_refresh = \<lparr>rt_id = ''t1'', rt_tokenHash = ''raw1'', rt_familyId = ''f1'', rt_usedAt = None,
     rt_userId = ''u1'', rt_expiresAt = 100000\<rparr>"

definition demo_session :: db where
  "demo_session = empty_db\<lparr>users := [demo_user], roles := [demo_role],
     refresh_tokens := [demo_refresh]\<rparr>"

definition plain_hash :: "string \<Rightarrow> string" where
  "plain_hash s = s"

lemmas demo_session_simps = demo_session_def demo_user_def demo_role_def demo_refresh_def
  empty_db_def plain_hash_def find_refresh_def find_user_def fresh_refresh_def

lemma rotate_live_token_witness:
  "fst (rotate plain_jwt plain_hash 5000 ''t2'' ''raw2'' ''raw1'' demo_session) \<noteq>
     Inl (UnauthorizedException ''Invalid refresh token'')
   \<and> length (refresh_tokens (snd (rotate plain_jwt plain_hash 5000 ''t2'' ''raw2'' ''raw1'' demo_session))) = 2"
proof -
  have "rotate plain_jwt plain_hash 5000 ''t2'' ''raw2'' ''raw1'' demo_session =
     (Inr \<lparr>tk_access = j_sign plain_jwt 5000 (access_claims (token_user_of demo_user demo_session)) ACCESS_TTL_S,
           tk_refresh = ''raw2''\<rparr>,
      demo_session\<lparr>refresh_tokens := upd_rows (\<lambda>s. rt_id s = rt_id demo_refresh)
          (rt_usedAt_update (\<lambda>_. Some 5000)) (refresh_tokens demo_session)
          @ [new_refresh plain_hash 5000 ''t2'' ''raw2'' (u_id demo_user) (rt_familyId demo_refresh)]\<rparr>)"
    by (rule rotate_live_token) (simp_all add: demo_session_simps)
  then show ?thesis by (simp add: demo_session_simps)
qed

text \<open>C19: a replay logs the whole family out. Presenting a used token after the grace window is
  refused, and afterwards no token of that family can be rotated any more, whichever is presented.\<close>

theorem replay_revokes_family:
  assumes r: "find_refresh (hash raw) d = Some r" and used: "rt_usedAt r = Some t0" "t0 + REUSE_GRACE_MS \<le> t"
    and u: "find_user (rt_userId r) d = Some u" "u_status u = Active"
    and s: "s \<in> set (refresh_tokens d)" "rt_familyId s = rt_familyId r" "rt_tokenHash s = hash raw'"
    and uniq: "distinct (map rt_tokenHash (refresh_tokens d))"
    and res: "rotate J hash t row_id new_raw raw d = (res1, d1)"
  shows "res1 = Inl (UnauthorizedException ''Refresh token reuse detected'')
     \<and> (\<forall>x \<in> set (refresh_tokens d1). rt_familyId x \<noteq> rt_familyId r)
     \<and> rotate J hash t' row_id' new_raw' raw' d1 = (Inl (UnauthorizedException ''Invalid refresh token''), d1)"
proof -
  have d1: "res1 = Inl (UnauthorizedException ''Refresh token reuse detected'')"
    "d1 = d\<lparr>refresh_tokens := del_rows (\<lambda>x. rt_familyId x = rt_familyId r) (refresh_tokens d)\<rparr>"
    using res r used u by (auto simp: rotate_def rotate_read_def rotate_finish_def rotate_decide_def Let_def)
  have "rt_tokenHash x \<noteq> hash raw'" if x: "x \<in> set (refresh_tokens d1)" for x
  proof
    assume "rt_tokenHash x = hash raw'"
    moreover have "x \<in> set (refresh_tokens d)" "rt_familyId x \<noteq> rt_familyId r"
      using x d1(2) by (auto simp: set_del_rows)
    ultimately show False using distinct_key_unique [OF uniq, of x s] s by auto
  qed
  then have "find_refresh (hash raw') d1 = None" by (simp add: find_refresh_None)
  then show ?thesis using d1 by (simp add: rotate_def rotate_read_def set_del_rows)
qed

definition demo_replay :: db where
  "demo_replay = demo_session\<lparr>refresh_tokens := [demo_refresh\<lparr>rt_usedAt := Some 1000\<rparr>,
     demo_refresh\<lparr>rt_id := ''t2'', rt_tokenHash := ''raw2''\<rparr>]\<rparr>"

lemma replay_revokes_family_witness:
  "fst (rotate plain_jwt plain_hash 40000 ''t3'' ''raw3'' ''raw2''
      (snd (rotate plain_jwt plain_hash 31000 ''t3'' ''raw3'' ''raw1'' demo_replay))) =
   Inl (UnauthorizedException ''Invalid refresh token'')"
proof -
  have "rotate plain_jwt plain_hash 31000 ''t3'' ''raw3'' ''raw1'' demo_replay =
     (fst (rotate plain_jwt plain_hash 31000 ''t3'' ''raw3'' ''raw1'' demo_replay),
      snd (rotate plain_jwt plain_hash 31000 ''t3'' ''raw3'' ''raw1'' demo_replay))" by simp
  then have "fst (rotate plain_jwt plain_hash 31000 ''t3'' ''raw3'' ''raw1'' demo_replay) =
        Inl (UnauthorizedException ''Refresh token reuse detected'')
     \<and> (\<forall>x \<in> set (refresh_tokens (snd (rotate plain_jwt plain_hash 31000 ''t3'' ''raw3'' ''raw1'' demo_replay))).
          rt_familyId x \<noteq> rt_familyId (demo_refresh\<lparr>rt_usedAt := Some 1000\<rparr>))
     \<and> rotate plain_jwt plain_hash 40000 ''t3'' ''raw3'' ''raw2''
        (snd (rotate plain_jwt plain_hash 31000 ''t3'' ''raw3'' ''raw1'' demo_replay)) =
      (Inl (UnauthorizedException ''Invalid refresh token''),
       snd (rotate plain_jwt plain_hash 31000 ''t3'' ''raw3'' ''raw1'' demo_replay))"
    by (rule replay_revokes_family [where ?t0.0 = 1000 and u = demo_user
            and s = "demo_refresh\<lparr>rt_id := ''t2'', rt_tokenHash := ''raw2''\<rparr>", rotated -1])
      (simp_all add: demo_replay_def demo_session_simps REUSE_GRACE_MS_def)
  then show ?thesis by simp
qed

text \<open>A token is claimed at most once. After one claim has committed, a concurrent claim of the
  same row does nothing, whatever the claimants read before.\<close>

theorem claim_at_most_once:
  assumes "rotate_claim J hash t row_id new_raw e d = Inr (d1, Some tk)"
    and "rt_id (re_row e') = rt_id (re_row e)" and "row_id \<noteq> rt_id (re_row e)"
  shows "rotate_claim J hash t' row_id' new_raw' e' d1 = Inr (d1, None)"
proof -
  have "refresh_tokens d1 = upd_rows (claimable (rt_id (re_row e))) (rt_usedAt_update (\<lambda>_. Some t))
       (refresh_tokens d) @ [new_refresh hash t row_id new_raw (tu_id (re_user e)) (rt_familyId (re_row e))]"
    using assms(1) by (auto simp: rotate_claim_def issueTokens_def tx_simps new_refresh_def split: if_splits)
  then have "count_rows (claimable (rt_id (re_row e'))) (refresh_tokens d1) = 0"
    using assms(2,3) by (auto simp: count_rows_def claimable_def filter_empty_conv set_upd_rows new_refresh_def)
  then show ?thesis by (simp add: rotate_claim_def)
qed

lemma claim_at_most_once_witness:
  "rotate_claim plain_jwt plain_hash 7000 ''t3'' ''raw3''
     \<lparr>re_row = demo_refresh, re_status = Active, re_user = token_user_of demo_user demo_session\<rparr>
     (demo_session\<lparr>refresh_tokens := [demo_refresh\<lparr>rt_usedAt := Some 5000\<rparr>,
        new_refresh plain_hash 5000 ''t2'' ''raw2'' ''u1'' ''f1'']\<rparr>)
   = Inr (demo_session\<lparr>refresh_tokens := [demo_refresh\<lparr>rt_usedAt := Some 5000\<rparr>,
        new_refresh plain_hash 5000 ''t2'' ''raw2'' ''u1'' ''f1'']\<rparr>, None)"
proof (rule claim_at_most_once)
  let ?e = "\<lparr>re_row = demo_refresh, re_status = Active, re_user = token_user_of demo_user demo_session\<rparr>"
  show "rotate_claim plain_jwt plain_hash 5000 ''t2'' ''raw2'' ?e demo_session =
     Inr (demo_session\<lparr>refresh_tokens := [demo_refresh\<lparr>rt_usedAt := Some 5000\<rparr>,
        new_refresh plain_hash 5000 ''t2'' ''raw2'' ''u1'' ''f1'']\<rparr>,
       Some \<lparr>tk_access = j_sign plain_jwt 5000 (access_claims (token_user_of demo_user demo_session)) ACCESS_TTL_S,
         tk_refresh = ''raw2''\<rparr>)"
    by (subst rotate_claim_wins) (simp_all add: demo_session_simps claimable_def token_user_of_def)
qed (simp_all add: demo_session_simps)

text \<open>Logging out does not stop a refresh that has already read its row. The claim
  then matches no row, which \<open>rotate\<close> takes for a concurrent refresh and answers with a fresh,
  unused token of the revoked session.\<close>

theorem logout_loses_to_refresh:
  assumes e: "rotate_read hash raw d = Inr e" and live: "rotate_decide t e = RotClaim"
    and fresh: "fresh_refresh hash row_id new_raw d" and ids: "distinct (map rt_id (refresh_tokens d))"
    and res: "rotate_finish J hash t row_id new_raw e (revoke hash raw d) = (res1, d1)"
  shows "\<exists>tk. res1 = Inr tk \<and> tk_refresh tk = new_raw \<and>
     find_refresh (hash new_raw) d1 =
       Some (new_refresh hash t row_id new_raw (tu_id (re_user e)) (rt_familyId (re_row e)))"
proof -
  have row: "find_refresh (hash raw) d = Some (re_row e)"
    using e by (auto simp: rotate_read_def split: option.splits)
  have gone: "count_rows (claimable (rt_id (re_row e))) (refresh_tokens (revoke hash raw d)) = 0"
    using find_refresh_in [OF row] distinct_key_unique [OF ids]
    by (fastforce simp: count_rows_def claimable_def filter_empty_conv revoke_def set_del_rows)
  have fresh': "fresh_refresh hash row_id new_raw (revoke hash raw d)"
    using fresh by (auto simp: fresh_refresh_def revoke_def set_del_rows)
  have "d1 = (revoke hash raw d)\<lparr>refresh_tokens := refresh_tokens (revoke hash raw d) @
        [new_refresh hash t row_id new_raw (tu_id (re_user e)) (rt_familyId (re_row e))]\<rparr> \<and>
      (\<exists>tk. res1 = Inr tk \<and> tk_refresh tk = new_raw)"
    using res live gone
    by (auto simp: rotate_finish_def rotate_claim_def Let_def commit_def issueTokens_fresh [OF fresh'])
  moreover have "List.find (\<lambda>r. rt_tokenHash r = hash new_raw) (refresh_tokens (revoke hash raw d)) = None"
    using fresh' by (simp add: find_None_iff_all fresh_refresh_def)
  ultimately show ?thesis
    by (auto simp: find_refresh_def find_append new_refresh_def)
qed

lemma logout_loses_to_refresh_witness:
  "\<exists>tk. fst (rotate_finish plain_jwt plain_hash 5000 ''t2'' ''raw2''
       \<lparr>re_row = demo_refresh, re_status = Active, re_user = token_user_of demo_user demo_session\<rparr>
       (revoke plain_hash ''raw1'' demo_session)) = Inr tk \<and> tk_refresh tk = ''raw2''"
  using logout_loses_to_refresh [where hash = plain_hash and raw = "''raw1''" and d = demo_session and t = 5000
      and row_id = "''t2''" and new_raw = "''raw2''" and J = plain_jwt
      and e = "\<lparr>re_row = demo_refresh, re_status = Active, re_user = token_user_of demo_user demo_session\<rparr>",
      OF _ _ _ _ prod.collapse [symmetric]]
  by (auto simp: rotate_read_def rotate_decide_def demo_session_simps)

text \<open>A single-purpose token verifies for the purpose and the user it was issued for, until it
  expires, and for nothing else: no challenge passes as a ticket or as a step-up grant.\<close>

theorem purpose_separation:
  assumes "jwt_laws J"
  shows "verifyPurpose J t (issuePurpose J t0 userId q ttl) p =
     (if q = p \<and> secs t < secs t0 + ttl then Inr (Some userId)
      else Inl (UnauthorizedException (''Invalid or expired '' @ p @ '' token'')))"
  using jwt_laws.verify_live [OF assms] jwt_laws.verify_expired [OF assms]
  by (cases "secs t < secs t0 + ttl")
    (simp_all add: verifyPurpose_def issuePurpose_def purpose_claims_def no_claims_def not_less)

lemma purpose_separation_witness:
  "verifyStepUpGrant plain_jwt 1000 (issue2faChallenge plain_jwt 0 ''u1'') =
     Inl (UnauthorizedException ''Invalid or expired step-up token'')"
  unfolding verifyStepUpGrant_def issue2faChallenge_def
  by (subst purpose_separation [OF plain.jwt_laws_axioms]) simp

end
