(* ===== verification/Auth.thy ===== *)
theory Auth
  imports Tokens
begin

text \<open>
  Signing in and being let in: \<open>auth/two-factor.service.ts\<close>, \<open>auth/passkeys.service.ts\<close>,
  \<open>auth/auth.service.ts\<close>, \<open>auth/jwt.strategy.ts\<close>, the two guards, the step-up and passkey
  handlers of \<open>auth/auth.controller.ts\<close> and the socket gateway. Password hashing, one-time
  codes, WebAuthn verification and signing are parameters (\<open>auth_lib\<close>, \<open>webauthn\<close>).
\<close>

record 'tok auth_lib =
  lib_jwt :: "'tok jwt_lib"
  lib_sha256 :: "string \<Rightarrow> string"
  lib_bcrypt :: "string \<Rightarrow> string \<Rightarrow> bool"
  lib_bcryptHash :: "string \<Rightarrow> string"
  lib_dummyHash :: string
  lib_totp :: "int \<Rightarrow> string \<Rightarrow> string \<Rightarrow> bool"
  lib_keyuri :: "string \<Rightarrow> string \<Rightarrow> string \<Rightarrow> string"

section \<open>The second factor\<close>

definition RECOVERY_COUNT :: nat where "RECOVERY_COUNT = 8"

definition is_space :: "char \<Rightarrow> bool" where
  "is_space c \<longleftrightarrow> c = CHR '' '' \<or> (CHR 0x09 \<le> c \<and> c \<le> CHR 0x0D)"

definition trim :: "string \<Rightarrow> string" where
  "trim s = rev (dropWhile is_space (rev (dropWhile is_space s)))"

definition normalize_code :: "string \<Rightarrow> string" where
  "normalize_code code = filter (\<lambda>c. \<not> is_space c) (to_lower (trim code))"

text \<open>\<open>setup\<close>: \<open>secret\<close> is the generated secret; the reply is the otpauth URI (and its QR picture).\<close>

definition twofa_setup :: "'tok auth_lib \<Rightarrow> string \<Rightarrow> string \<Rightarrow> string \<Rightarrow> (db, string) tx" where
  "twofa_setup L secret userId email =
     tx_bind (tx_read (find_user userId)) (\<lambda>existing.
     tx_bind (tx_when (case existing of None \<Rightarrow> False | Some u \<Rightarrow> u_totpEnabled u)
       (ConflictException ''2FA is already enabled -- turn it off first'')) (\<lambda>_.
     tx_bind (setTotpPending userId secret) (\<lambda>_.
     tx_return (lib_keyuri L email ''MaxOne'' secret))))"

text \<open>\<open>rnd n\<close> is the \<open>n\<close>-th recovery code drawn.\<close>

definition verifyAndEnable ::
  "'tok auth_lib \<Rightarrow> int \<Rightarrow> (nat \<Rightarrow> string) \<Rightarrow> string \<Rightarrow> string \<Rightarrow> (db, string list) tx" where
  "verifyAndEnable L t rnd userId code =
     tx_bind (tx_read (find_user userId)) (\<lambda>found.
     let secret = Option.bind found u_totpSecret in
     tx_bind (tx_when (\<not> given secret \<or> \<not> lib_totp L t (normalize_code code) (the secret))
       (UnauthorizedException ''Invalid code'')) (\<lambda>_.
     let recoveryCodes = map rnd [0..<RECOVERY_COUNT] in
     tx_bind (enableTotp userId (map (lib_sha256 L) recoveryCodes)) (\<lambda>_.
     tx_return recoveryCodes)))"

text \<open>\<open>proveFactor\<close> works on the user row its caller read, which may be stale by now.\<close>

definition proveFactor :: "'tok auth_lib \<Rightarrow> int \<Rightarrow> user \<Rightarrow> string \<Rightarrow> (db, bool) tx" where
  "proveFactor L t u code =
     (let c = normalize_code code; h = lib_sha256 L c
      in if given (u_totpSecret u) \<and> lib_totp L t c (the (u_totpSecret u)) then tx_return True
         else if List.member (u_totpRecoveryHashes u) h
           then tx_bind (consumeRecoveryHash (u_id u) h) (\<lambda>_. tx_return True)
         else tx_return False)"

text \<open>
  \<open>disable\<close>. Its writes are separate statements; the second can only fail where the first has
  failed (the user is gone), so treating them as one loses nothing.
\<close>

definition twofa_disable :: "'tok auth_lib \<Rightarrow> int \<Rightarrow> string \<Rightarrow> string \<Rightarrow> (db, unit) tx" where
  "twofa_disable L t userId code =
     tx_bind (tx_read (find_user userId)) (\<lambda>found.
     case found of
       None \<Rightarrow> tx_throw (UnauthorizedException ''Invalid code'')
     | Some u \<Rightarrow>
         if \<not> u_totpEnabled u then tx_throw (UnauthorizedException ''Invalid code'')
         else tx_bind (proveFactor L t u code) (\<lambda>ok.
              tx_bind (tx_when (\<not> ok) (UnauthorizedException ''Invalid code'')) (\<lambda>_.
              tx_bind (disableTotp userId) (\<lambda>_. tx_return ()))))"

definition twofa_status :: "string \<Rightarrow> db \<Rightarrow> bool" where
  "twofa_status userId d = (case find_user userId d of None \<Rightarrow> False | Some u \<Rightarrow> u_totpEnabled u)"

definition verifyForLogin :: "'tok auth_lib \<Rightarrow> int \<Rightarrow> string \<Rightarrow> string \<Rightarrow> (db, bool) tx" where
  "verifyForLogin L t userId code =
     tx_bind (tx_read (find_user userId)) (\<lambda>found.
     case found of
       None \<Rightarrow> tx_return False
     | Some u \<Rightarrow> if \<not> u_totpEnabled u then tx_return False else proveFactor L t u code)"

section \<open>Passkeys\<close>

record credential_info =
  ci_id :: string
  ci_publicKey :: string
  ci_counter :: int
  ci_transports :: "string list option"
  ci_deviceType :: string
  ci_backedUp :: bool

record stored_credential =
  sc_id :: string
  sc_publicKey :: string
  sc_counter :: int
  sc_transports :: "string list"

text \<open>
  The WebAuthn library: the credential id of a response, and the two verifications, given the
  expected challenge, origin and RP id. Both may throw.
\<close>

record 'resp webauthn =
  wa_id :: "'resp \<Rightarrow> string"
  wa_registration :: "'resp \<Rightarrow> string \<Rightarrow> string \<Rightarrow> string \<Rightarrow> exn + (bool \<times> credential_info option)"
  wa_authentication :: "'resp \<Rightarrow> string \<Rightarrow> string \<Rightarrow> string \<Rightarrow> stored_credential \<Rightarrow> exn + (bool \<times> int)"

record passkey_config =
  pc_rpID :: string
  pc_rpName :: string
  pc_origin :: string

definition passkey_config_of :: "(string \<Rightarrow> string option) \<Rightarrow> exn + passkey_config" where
  "passkey_config_of env =
     (case (env ''WEBAUTHN_RP_ID'', env ''WEBAUTHN_ORIGIN'') of
        (Some rp, Some origin) \<Rightarrow> Inr \<lparr>pc_rpID = rp,
          pc_rpName = opt_default (env ''WEBAUTHN_RP_NAME'') ''MaxOne'', pc_origin = origin\<rparr>
      | _ \<Rightarrow> Inl (OtherError ''Configuration key does not exist''))"

record registration_options =
  ro_rpName :: string
  ro_rpID :: string
  ro_userID :: string
  ro_userName :: string
  ro_exclude :: "(string \<times> string list) list"
  ro_challenge :: string

definition registrationOptions ::
  "'tok jwt_lib \<Rightarrow> passkey_config \<Rightarrow> int \<Rightarrow> string \<Rightarrow> string \<Rightarrow> string \<Rightarrow> db
     \<Rightarrow> registration_options \<times> 'tok" where
  "registrationOptions J cfg t challenge userId email d =
     (\<lparr>ro_rpName = pc_rpName cfg, ro_rpID = pc_rpID cfg, ro_userID = userId, ro_userName = email,
       ro_exclude = map (\<lambda>k. (pk_credentialId k, pk_transports k))
         (filter (\<lambda>k. pk_userId k = userId) (passkeys d)),
       ro_challenge = challenge\<rparr>,
      issueWebAuthnChallenge J t challenge (Some userId))"

definition passkey_create :: "passkey \<Rightarrow> (db, passkey) tx" where
  "passkey_create k d =
     (if \<exists>j \<in> set (passkeys d). pk_id k = pk_id j \<or> pk_credentialId k = pk_credentialId j
      then Inl (PrismaKnown ''P2002'')
      else Inr (d\<lparr>passkeys := passkeys d @ [k]\<rparr>, k))"

definition verifyRegistration ::
  "'tok jwt_lib \<Rightarrow> 'resp webauthn \<Rightarrow> passkey_config \<Rightarrow> int \<Rightarrow> string \<Rightarrow> string \<Rightarrow> 'resp \<Rightarrow> 'tok
     \<Rightarrow> string option \<Rightarrow> (db, passkey) tx" where
  "verifyRegistration J W cfg t row_id userId response challengeToken label =
     tx_bind (tx_lift (verifyWebAuthnChallenge J t challengeToken)) (\<lambda>(challenge, bound).
     tx_bind (tx_when (bound \<noteq> Some userId)
       (UnauthorizedException ''Challenge does not belong to this user'')) (\<lambda>_.
     tx_bind (tx_lift (wa_registration W response challenge (pc_origin cfg) (pc_rpID cfg))) (\<lambda>(verified, info).
     case info of
       None \<Rightarrow> tx_throw (UnauthorizedException ''Passkey registration failed'')
     | Some i \<Rightarrow>
         if \<not> verified then tx_throw (UnauthorizedException ''Passkey registration failed'')
         else passkey_create \<lparr>pk_id = row_id, pk_userId = userId, pk_credentialId = ci_id i,
                pk_publicKey = ci_publicKey i, pk_counter = ci_counter i,
                pk_transports = opt_default (ci_transports i) [], pk_deviceType = ci_deviceType i,
                pk_backedUp = ci_backedUp i, pk_label = label, pk_createdAt = t,
                pk_lastUsedAt = None\<rparr>)))"

text \<open>\<open>authenticationOptions\<close>: no user, so the challenge is bound to nobody.\<close>

definition authenticationOptions :: "'tok jwt_lib \<Rightarrow> int \<Rightarrow> string \<Rightarrow> string \<times> 'tok" where
  "authenticationOptions J t challenge = (challenge, issueWebAuthnChallenge J t challenge None)"

definition find_passkey :: "string \<Rightarrow> db \<Rightarrow> passkey option" where
  "find_passkey cid d = List.find (\<lambda>k. pk_credentialId k = cid) (passkeys d)"

definition passkey_update :: "string \<Rightarrow> (passkey \<Rightarrow> passkey) \<Rightarrow> (db, unit) tx" where
  "passkey_update i f d =
     (if \<exists>k \<in> set (passkeys d). pk_id k = i
      then Inr (d\<lparr>passkeys := upd_rows (\<lambda>k. pk_id k = i) f (passkeys d)\<rparr>, ())
      else Inl (PrismaKnown ''P2025''))"

definition verifyAuthentication ::
  "'tok jwt_lib \<Rightarrow> 'resp webauthn \<Rightarrow> passkey_config \<Rightarrow> int \<Rightarrow> 'resp \<Rightarrow> 'tok \<Rightarrow> string option
     \<Rightarrow> (db, string) tx" where
  "verifyAuthentication J W cfg t response challengeToken expectUserId =
     tx_bind (tx_lift (verifyWebAuthnChallenge J t challengeToken)) (\<lambda>(challenge, _).
     tx_bind (tx_read (find_passkey (wa_id W response))) (\<lambda>found.
     tx_bind (tx_some found (UnauthorizedException ''Unknown passkey'')) (\<lambda>k.
     tx_bind (tx_when (given expectUserId \<and> Some (pk_userId k) \<noteq> expectUserId)
       (UnauthorizedException ''Passkey belongs to another user'')) (\<lambda>_.
     tx_bind (tx_lift (wa_authentication W response challenge (pc_origin cfg) (pc_rpID cfg)
       \<lparr>sc_id = pk_credentialId k, sc_publicKey = pk_publicKey k, sc_counter = pk_counter k,
        sc_transports = pk_transports k\<rparr>)) (\<lambda>(verified, newCounter).
     tx_bind (tx_when (\<not> verified) (UnauthorizedException ''Passkey verification failed'')) (\<lambda>_.
     tx_bind (passkey_update (pk_id k) (\<lambda>k. k\<lparr>pk_counter := newCounter, pk_lastUsedAt := Some t\<rparr>)) (\<lambda>_.
     tx_return (pk_userId k))))))))"

definition passkeys_list :: "string \<Rightarrow> db \<Rightarrow> passkey list" where
  "passkeys_list userId d = order_asc pk_createdAt (filter (\<lambda>k. pk_userId k = userId) (passkeys d))"

definition passkey_remove :: "string \<Rightarrow> string \<Rightarrow> (db, unit) tx" where
  "passkey_remove userId i d =
     (let P = (\<lambda>k. pk_id k = i \<and> pk_userId k = userId)
      in if count_rows P (passkeys d) = 0 then Inl (NotFoundException ''Passkey not found'')
         else Inr (d\<lparr>passkeys := del_rows P (passkeys d)\<rparr>, ()))"

section \<open>Signing in\<close>

record public_user =
  pu_id :: string
  pu_email :: string
  pu_role :: string
  pu_firstName :: string
  pu_lastName :: string
  pu_handle :: "string option"

definition toPublic :: "user \<Rightarrow> db \<Rightarrow> public_user" where
  "toPublic u d = \<lparr>pu_id = u_id u, pu_email = u_email u, pu_role = tu_role (token_user_of u d),
     pu_firstName = u_firstName u, pu_lastName = u_lastName u, pu_handle = u_handle u\<rparr>"

datatype 'tok login_reply = LoggedIn public_user "'tok tokens" | Requires2fa 'tok

text \<open>\<open>assertActive\<close> is the same exception as the one \<open>rotate\<close> throws.\<close>

definition assertActive :: "user \<Rightarrow> exn option" where
  "assertActive u = (if u_status u \<noteq> Active then Some SUSPENDED else None)"

record register_dto =
  rg_email :: string
  rg_handle :: string
  rg_password :: string
  rg_firstName :: string
  rg_lastName :: string

text \<open>The draws of a sign-in: the token row's id, the token's family and the raw refresh token.\<close>

record draws =
  dr_row :: string
  dr_family :: string
  dr_raw :: string

definition start_session ::
  "'tok auth_lib \<Rightarrow> int \<Rightarrow> draws \<Rightarrow> user \<Rightarrow> db \<Rightarrow> (exn + 'tok login_reply) \<times> db" where
  "start_session L t r u d =
     (case issueTokens (lib_jwt L) (lib_sha256 L) t (dr_row r) (dr_raw r) (token_user_of u d) (dr_family r) d of
        Inl e \<Rightarrow> (Inl e, d)
      | Inr (d', tk) \<Rightarrow> (Inr (LoggedIn (toPublic u d) tk), d'))"

definition register ::
  "'tok auth_lib \<Rightarrow> call_ctx \<Rightarrow> draws \<Rightarrow> register_dto \<Rightarrow> db \<Rightarrow> (exn + 'tok login_reply) \<times> db" where
  "register L c r dto d =
     (if findByEmail (rg_email dto) d \<noteq> None
      then (Inl (ConflictException ''Email already registered''), d)
      else let handle = to_lower (rg_handle dto) in
        if findByHandle handle d \<noteq> None then (Inl (ConflictException ''Handle already taken''), d)
        else case roles_findByNameOrThrow ''user'' d of
          Inl e \<Rightarrow> (Inl e, d)
        | Inr role \<Rightarrow>
            (case createWithDefaultWallet c \<lparr>cu_email = rg_email dto, cu_handle = handle,
                    cu_passwordHash = lib_bcryptHash L (rg_password dto),
                    cu_firstName = rg_firstName dto, cu_lastName = rg_lastName dto,
                    cu_roleId = r_id role\<rparr> d of
               Inl e \<Rightarrow> (Inl e, d)
             | Inr (d', u) \<Rightarrow> start_session L (now c) r u d'))"

definition login ::
  "'tok auth_lib \<Rightarrow> int \<Rightarrow> draws \<Rightarrow> string \<Rightarrow> string \<Rightarrow> db \<Rightarrow> (exn + 'tok login_reply) \<times> db" where
  "login L t r email password d =
     (let found = findByEmail email d;
          matches = lib_bcrypt L password (case found of None \<Rightarrow> lib_dummyHash L | Some u \<Rightarrow> u_passwordHash u)
      in case found of
           None \<Rightarrow> (Inl (UnauthorizedException ''Invalid credentials''), d)
         | Some u \<Rightarrow>
             if \<not> matches then (Inl (UnauthorizedException ''Invalid credentials''), d)
             else case assertActive u of
               Some e \<Rightarrow> (Inl e, d)
             | None \<Rightarrow>
                 if u_totpEnabled u
                 then (Inr (Requires2fa (issue2faChallenge (lib_jwt L) t (u_id u))), d)
                 else start_session L t r u d)"

definition login2fa ::
  "'tok auth_lib \<Rightarrow> int \<Rightarrow> draws \<Rightarrow> 'tok \<Rightarrow> string \<Rightarrow> db \<Rightarrow> (exn + 'tok login_reply) \<times> db" where
  "login2fa L t r challengeToken code d =
     (case verify2faChallenge (lib_jwt L) t challengeToken of
        Inl e \<Rightarrow> (Inl e, d)
      | Inr None \<Rightarrow> (Inl (OtherError ''PrismaClientValidationError''), d)
      | Inr (Some userId) \<Rightarrow>
          (case find_user userId d of
             None \<Rightarrow> (Inl (UnauthorizedException ''Invalid code''), d)
           | Some u \<Rightarrow>
               (case verifyForLogin L t userId code d of
                  Inl e \<Rightarrow> (Inl e, d)
                | Inr (d', False) \<Rightarrow> (Inl (UnauthorizedException ''Invalid code''), d')
                | Inr (d', True) \<Rightarrow>
                    (case assertActive u of
                       Some e \<Rightarrow> (Inl e, d') | None \<Rightarrow> start_session L t r u d'))))"

definition loginWithPasskey ::
  "'tok auth_lib \<Rightarrow> int \<Rightarrow> draws \<Rightarrow> string \<Rightarrow> db \<Rightarrow> (exn + 'tok login_reply) \<times> db" where
  "loginWithPasskey L t r userId d =
     (case find_user userId d of
        None \<Rightarrow> (Inl (UnauthorizedException ''Invalid credentials''), d)
      | Some u \<Rightarrow>
          (case assertActive u of Some e \<Rightarrow> (Inl e, d) | None \<Rightarrow> start_session L t r u d))"

section \<open>Being let in\<close>

text \<open>
  \<open>JwtStrategy.validate\<close> on the verified claims. A claim that is absent reads as the empty
  string; without a subject the look-up throws, which is answered with 401 as well.
\<close>

definition UNAUTHORIZED :: exn where
  "UNAUTHORIZED = UnauthorizedException ''Unauthorized''"

definition jwt_validate :: "claims \<Rightarrow> db \<Rightarrow> exn + auth_user" where
  "jwt_validate p d =
     (case cl_sub p of
        None \<Rightarrow> Inl UNAUTHORIZED
      | Some i \<Rightarrow>
          (case findById i d of
             Inl _ \<Rightarrow> Inl UNAUTHORIZED
           | Inr u \<Rightarrow>
               if su_status u \<noteq> Active then Inl UNAUTHORIZED
               else Inr \<lparr>au_id = i, au_email = opt_default (cl_email p) [],
                 au_role = opt_default (cl_role p) [], au_totpEnabled = su_totpEnabled u\<rparr>))"

text \<open>\<open>JwtAuthGuard\<close>: the bearer token's signature and expiry, then \<open>validate\<close>.\<close>

definition authenticate :: "'tok jwt_lib \<Rightarrow> int \<Rightarrow> 'tok option \<Rightarrow> db \<Rightarrow> exn + auth_user" where
  "authenticate J t bearer d =
     (case bearer of
        None \<Rightarrow> Inl UNAUTHORIZED
      | Some tok \<Rightarrow> (case j_verify J t tok of None \<Rightarrow> Inl UNAUTHORIZED | Some p \<Rightarrow> jwt_validate p d))"

definition permissions_guard :: "string list option \<Rightarrow> auth_user option \<Rightarrow> db \<Rightarrow> exn + bool" where
  "permissions_guard required identity d =
     (if opt_default required [] = [] then Inr True
      else case identity of
        None \<Rightarrow> Inl (ForbiddenException ''Access denied'')
      | Some a \<Rightarrow>
          (case findByIdWithPermissions (au_id a) d of
             None \<Rightarrow> Inl (ForbiddenException ''Access denied'')
           | Some (u, codes) \<Rightarrow>
               if u_status u \<noteq> Active then Inl (ForbiddenException ''Account suspended'')
               else if \<not> list_all (List.member codes) (the required)
                 then Inl (ForbiddenException ''Access denied'')
               else Inr True))"

definition STEP_UP_REQUIRED :: exn where
  "STEP_UP_REQUIRED = HttpException 403
     (RespObj (Some ''STEP_UP_REQUIRED'') (Some (MsgOne ''Re-verify your authenticator to continue'')))
     ''Re-verify your authenticator to continue''"

definition step_up_guard ::
  "'tok jwt_lib \<Rightarrow> int \<Rightarrow> auth_user option \<Rightarrow> 'tok option \<Rightarrow> exn + bool" where
  "step_up_guard J t user header =
     (case user of
        None \<Rightarrow> Inl (ForbiddenException ''Forbidden'')
      | Some a \<Rightarrow>
          if \<not> au_totpEnabled a then Inr True
          else case header of
            None \<Rightarrow> Inl STEP_UP_REQUIRED
          | Some tok \<Rightarrow>
              (case verifyStepUpGrant J t tok of
                 Inl _ \<Rightarrow> Inl STEP_UP_REQUIRED
               | Inr sub \<Rightarrow> if sub \<noteq> Some (au_id a) then Inl STEP_UP_REQUIRED else Inr True))"

section \<open>Handlers\<close>

definition stepUp ::
  "'tok auth_lib \<Rightarrow> int \<Rightarrow> auth_user \<Rightarrow> string \<Rightarrow> (db, 'tok) tx" where
  "stepUp L t user code =
     tx_bind (tx_when (\<not> au_totpEnabled user) (BadRequestException ''2FA is not enabled'')) (\<lambda>_.
     tx_bind (verifyForLogin L t (au_id user) code) (\<lambda>ok.
     tx_bind (tx_when (\<not> ok) (UnauthorizedException ''Invalid code'')) (\<lambda>_.
     tx_return (issueStepUpGrant (lib_jwt L) t (au_id user)))))"

definition passkeyLoginVerify ::
  "'tok auth_lib \<Rightarrow> 'resp webauthn \<Rightarrow> passkey_config \<Rightarrow> int \<Rightarrow> draws \<Rightarrow> 'resp \<Rightarrow> 'tok \<Rightarrow> db
     \<Rightarrow> (exn + 'tok login_reply) \<times> db" where
  "passkeyLoginVerify L W cfg t r response challengeToken d =
     (case verifyAuthentication (lib_jwt L) W cfg t response challengeToken None d of
        Inl e \<Rightarrow> (Inl e, d)
      | Inr (d', userId) \<Rightarrow> loginWithPasskey L t r userId d')"

definition stepUpPasskeyVerify ::
  "'tok auth_lib \<Rightarrow> 'resp webauthn \<Rightarrow> passkey_config \<Rightarrow> int \<Rightarrow> auth_user \<Rightarrow> 'resp \<Rightarrow> 'tok
     \<Rightarrow> (db, 'tok) tx" where
  "stepUpPasskeyVerify L W cfg t user response challengeToken =
     tx_bind (verifyAuthentication (lib_jwt L) W cfg t response challengeToken (Some (au_id user))) (\<lambda>_.
     tx_return (issueStepUpGrant (lib_jwt L) t (au_id user)))"

text \<open>The socket gateway: joins the room of the ticket's user or disconnects.\<close>

datatype socket_outcome = JoinedRoom string | Disconnected

definition handleConnection :: "'tok jwt_lib \<Rightarrow> int \<Rightarrow> 'tok option \<Rightarrow> socket_outcome" where
  "handleConnection J t ticket =
     (case Option.bind ticket (j_verify J t) of
        None \<Rightarrow> Disconnected
      | Some p \<Rightarrow> if cl_purpose p \<noteq> Some ''ws'' then Disconnected
                 else JoinedRoom (''user:'' @ opt_default (cl_sub p) ''undefined''))"

section \<open>Step-up, permissions and the second factor\<close>


definition demo_actor :: auth_user where
  "demo_actor = \<lparr>au_id = ''u1'', au_email = ''ada@wallet.local'', au_role = ''user'', au_totpEnabled = True\<rparr>"


text \<open>Authority is read from the database. A permission-guarded route opens exactly when the
  caller's row exists, is active, and its role holds every required code; the role in the access
  token plays no part.\<close>

theorem permissions_guard_iff:
  "permissions_guard (Some (p # ps)) identity d = Inr True \<longleftrightarrow>
     (\<exists>a u. identity = Some a \<and> find_user (au_id a) d = Some u \<and> u_status u = Active \<and>
        (\<exists>r. role_of u d = Some r \<and> set (p # ps) \<subseteq> set (r_permissions r)))"
proof -
  have "(\<forall>c \<in> set (p # ps). c \<in> set (case role_of u d of None \<Rightarrow> [] | Some r \<Rightarrow> r_permissions r)) \<longleftrightarrow>
      (\<exists>r. role_of u d = Some r \<and> set (p # ps) \<subseteq> set (r_permissions r))" for u
    by (cases "role_of u d") auto
  then show ?thesis
    by (cases identity)
      (auto simp: permissions_guard_def opt_default_def findByIdWithPermissions_def list_all_iff
        split: option.splits)
qed

definition factor_proved :: "'tok auth_lib \<Rightarrow> int \<Rightarrow> user \<Rightarrow> string \<Rightarrow> bool" where
  "factor_proved L t u code \<longleftrightarrow>
     (given (u_totpSecret u) \<and> lib_totp L t (normalize_code code) (the (u_totpSecret u))) \<or>
     lib_sha256 L (normalize_code code) \<in> set (u_totpRecoveryHashes u)"

lemma proveFactor_true: "proveFactor L t u code d = Inr (d', True) \<Longrightarrow> factor_proved L t u code"
  by (auto simp: proveFactor_def factor_proved_def Let_def tx_simps split: if_splits)

lemma verifyForLogin_true:
  "verifyForLogin L t userId code d = Inr (d', True) \<Longrightarrow>
     \<exists>u. find_user userId d = Some u \<and> u_totpEnabled u \<and> factor_proved L t u code"
  by (auto simp: verifyForLogin_def tx_simps split: option.splits if_splits dest: proveFactor_true)

lemma start_session_not_2fa: "fst (start_session L t r u d) \<noteq> Inr (Requires2fa tok)"
  by (auto simp: start_session_def split: sum.splits prod.splits)

text \<open>A password alone never opens a session for an account with a second factor. It yields a
  challenge and changes nothing; only the challenge together with a proved factor (a current code
  or an unused recovery code), for an account that is still active, yields tokens.\<close>

theorem second_factor_required:
  assumes "findByEmail email d = Some u" and "u_totpEnabled u"
    and "login2fa L t' r' tok code d2 = (Inr reply, d3)"
  shows "(\<forall>pu tk. fst (login L t r email password d) \<noteq> Inr (LoggedIn pu tk)) \<and>
     snd (login L t r email password d) = d \<and>
     (\<exists>userId v. verify2faChallenge (lib_jwt L) t' tok = Inr (Some userId) \<and>
        find_user userId d2 = Some v \<and> u_totpEnabled v \<and> u_status v = Active \<and> factor_proved L t' v code)"
proof -
  obtain userId v where i: "verify2faChallenge (lib_jwt L) t' tok = Inr (Some userId)"
    and v: "find_user userId d2 = Some v"
    using assms(3) by (auto simp: login2fa_def split: sum.splits option.splits)
  obtain d' where ok: "verifyForLogin L t' userId code d2 = Inr (d', True)" and act: "assertActive v = None"
    using assms(3) i v by (auto simp: login2fa_def split: sum.splits option.splits bool.splits)
  have "u_totpEnabled v \<and> factor_proved L t' v code"
    using verifyForLogin_true [OF ok] v by simp
  moreover have "u_status v = Active" using act by (simp add: assertActive_def split: if_splits)
  ultimately show ?thesis
    using assms(1,2) i v by (auto simp: login_def Let_def split: option.splits)
qed

definition demo_lib :: "(claims \<times> int) auth_lib" where
  "demo_lib = \<lparr>lib_jwt = plain_jwt, lib_sha256 = plain_hash, lib_bcrypt = (\<lambda>pw h. pw = h),
     lib_bcryptHash = plain_hash, lib_dummyHash = ''dummy'', lib_totp = (\<lambda>t code secret. code = ''123456''),
     lib_keyuri = (\<lambda>email issuer secret. secret)\<rparr>"

definition demo_draws :: draws where
  "demo_draws = \<lparr>dr_row = ''t9'', dr_family = ''f9'', dr_raw = ''raw9''\<rparr>"

definition demo_challenge :: "claims \<times> int" where
  "demo_challenge = issue2faChallenge plain_jwt 0 ''u1''"

lemma login2fa_demo:
  "login2fa demo_lib 1000 demo_draws demo_challenge ''123456'' demo_session =
     (Inr (LoggedIn (toPublic demo_user demo_session)
        \<lparr>tk_access = j_sign plain_jwt 1000 (access_claims (token_user_of demo_user demo_session)) ACCESS_TTL_S,
         tk_refresh = ''raw9''\<rparr>),
      demo_session\<lparr>refresh_tokens := [demo_refresh, new_refresh plain_hash 1000 ''t9'' ''raw9'' ''u1'' ''f9'']\<rparr>)"
  by (simp add: login2fa_def demo_lib_def demo_draws_def demo_challenge_def issue2faChallenge_def
      issuePurpose_def verify2faChallenge_def verifyPurpose_def purpose_claims_def no_claims_def
      plain_jwt_def secs_def verifyForLogin_def tx_defs proveFactor_def normalize_code_def trim_def is_space_def
      to_lower_def lower_char_def given_def Let_def assertActive_def start_session_def issueTokens_def refresh_create_def
      new_refresh_def token_user_of_def demo_session_simps)

lemma second_factor_required_witness:
  "\<forall>pu tk. fst (login demo_lib 0 demo_draws ''ada@wallet.local'' ''pw'' demo_session) \<noteq> Inr (LoggedIn pu tk)"
  using second_factor_required [where d = demo_session and u = demo_user, OF _ _ login2fa_demo]
  by (simp add: findByEmail_def demo_session_simps)

text \<open>The challenge that a correct password yields is itself accepted as an access
  token. It is signed with the same secret and \<open>JwtStrategy.validate\<close> never looks at its purpose,
  so the second factor can be skipped for as long as the challenge lives.\<close>

theorem challenge_opens_session:
  assumes "jwt_laws (lib_jwt L)" and u: "findByEmail email d = Some u"
    and login: "login L t r email password d = (Inr (Requires2fa tok), d')"
    and "distinct (map u_id (users d))" and "secs t' < secs t + 300"
  shows "authenticate (lib_jwt L) t' (Some tok) d' =
     Inr \<lparr>au_id = u_id u, au_email = [], au_role = [], au_totpEnabled = True\<rparr>"
proof -
  have tok: "tok = issue2faChallenge (lib_jwt L) t (u_id u)" "d' = d" "u_status u = Active" "u_totpEnabled u"
    using login u start_session_not_2fa [of L t r u d tok]
    by (auto simp: login_def Let_def assertActive_def split: if_splits)
  have "u \<in> set (users d)" using u unfolding findByEmail_def by (metis find_Some_in)
  then have "find_user (u_id u) d = Some u"
    using assms(4) find_Some_in distinct_key_unique find_None_iff_all unfolding find_user_def
    by (metis (mono_tags, lifting) option.exhaust)
  then show ?thesis
    using tok jwt_laws.verify_live [OF assms(1), of t' t 300] assms(5)
    by (simp add: authenticate_def issue2faChallenge_def issuePurpose_def purpose_claims_def
        no_claims_def jwt_validate_def findById_def toSafeUser_def opt_default_def)
qed

lemma challenge_opens_session_witness:
  "authenticate plain_jwt 60000 (Some demo_challenge) demo_session =
     Inr \<lparr>au_id = ''u1'', au_email = [], au_role = [], au_totpEnabled = True\<rparr>"
proof -
  have "login demo_lib 0 demo_draws ''ada@wallet.local'' ''pw'' demo_session =
      (Inr (Requires2fa demo_challenge), demo_session)"
    by (simp add: login_def demo_lib_def findByEmail_def demo_session_simps assertActive_def demo_challenge_def)
  from challenge_opens_session [where L = demo_lib and d = demo_session and u = demo_user, OF _ _ this, of 60000]
  show ?thesis
    by (simp add: demo_lib_def plain.jwt_laws_axioms findByEmail_def demo_session_simps secs_def)
qed

section \<open>Suspension and recovery codes\<close>

lemma updateStatus_result:
  assumes "updateStatus c i status actor d = Inr (d', x)"
  obtains u where "find_user i d = Some u" "i \<noteq> au_id actor"
    "users d' = upd_rows (\<lambda>u. u_id u = i) (u_status_update (\<lambda>_. status)) (users d)"
    "refresh_tokens d' = (if status = Suspended then del_rows (\<lambda>r. rt_userId r = i) (refresh_tokens d)
       else refresh_tokens d)"
    "roles d' = roles d" "wallets d' = wallets d" "txns d' = txns d"
    "audit_logs d' = audit_logs d @ [audit_row_of c (uuids c 0) \<lparr>ae_actorUserId = au_id actor,
       ae_action = UserStatusChange, ae_entityType = EntUser, ae_entityId = i,
       ae_oldValue = status_json (u_status u), ae_newValue = status_json status\<rparr>]"
proof -
  obtain u where "find_user i d = Some u"
    using assms by (auto simp: updateStatus_def findById_def split: if_splits option.splits)
  then show ?thesis
    using assms that by (auto simp: updateStatus_def findById_def updateStatus_tx_def tx_simps
        toSafeUser_def split: if_splits)
qed

text \<open>Suspension takes effect at once. After it commits, the user has no refresh token, so none
  of theirs can be rotated; every access token naming them is refused, every permission-guarded
  route is closed to them, and no password opens a session for them.\<close>

theorem suspension_is_immediate:
  assumes "updateStatus c i Suspended actor d = Inr (d', x)"
    and r: "find_refresh (hash raw) d = Some r" "rt_userId r = i"
    and uniq: "distinct (map rt_tokenHash (refresh_tokens d))"
    and tok: "j_verify J t tok = Some p" "cl_sub p = Some i"
    and a: "au_id a = i" and mail: "find_user i d = Some u" "findByEmail (u_email u) d = Some u"
  shows "rotate J hash t row_id new_raw raw d' = (Inl (UnauthorizedException ''Invalid refresh token''), d')
     \<and> authenticate J t (Some tok) d' = Inl UNAUTHORIZED
     \<and> permissions_guard (Some (q # qs)) (Some a) d' = Inl (ForbiddenException ''Account suspended'')
     \<and> (\<exists>e. fst (login L t dr (u_email u) password d') = Inl e)"
  using assms(1)
proof (rule updateStatus_result)
  assume us: "users d' = upd_rows (\<lambda>u. u_id u = i) (u_status_update (\<lambda>_. Suspended)) (users d)"
    and rt: "refresh_tokens d' = (if Suspended = Suspended then del_rows (\<lambda>r. rt_userId r = i) (refresh_tokens d)
       else refresh_tokens d)" and ro: "roles d' = roles d"
  have "rt_tokenHash s \<noteq> hash raw" if "s \<in> set (refresh_tokens d')" for s
    using that rt distinct_key_unique [OF uniq, of s r] find_refresh_in [OF r(1)] r(2)
    by (auto simp: set_del_rows)
  then have "find_refresh (hash raw) d' = None" by (simp add: find_refresh_None)
  then have rot: "rotate J hash t row_id new_raw raw d' = (Inl (UnauthorizedException ''Invalid refresh token''), d')"
    by (simp add: rotate_def rotate_read_def)
  have u': "find_user i d' = Some (u\<lparr>u_status := Suspended\<rparr>)"
    using mail(1) find_user_in [OF mail(1)] unfolding find_user_def us by (subst find_upd_rows) simp_all
  have auth: "authenticate J t (Some tok) d' = Inl UNAUTHORIZED"
    using tok u' by (simp add: authenticate_def jwt_validate_def findById_def toSafeUser_def)
  have perm: "permissions_guard (Some (q # qs)) (Some a) d' = Inl (ForbiddenException ''Account suspended'')"
    using a u' by (simp add: permissions_guard_def opt_default_def findByIdWithPermissions_def)
  have "findByEmail (u_email u) d' = Some (u\<lparr>u_status := Suspended\<rparr>)"
    using mail(2) find_user_in [OF mail(1)] unfolding findByEmail_def us by (subst find_upd_rows) simp_all
  then have "\<exists>e. fst (login L t dr (u_email u) password d') = Inl e"
    by (simp add: login_def Let_def assertActive_def)
  then show ?thesis using rot auth perm by blast
qed

definition demo_admin :: auth_user where
  "demo_admin = \<lparr>au_id = ''u9'', au_email = ''root@wallet.local'', au_role = ''super_admin'',
     au_totpEnabled = False\<rparr>"

definition demo_ctx :: call_ctx where
  "demo_ctx = \<lparr>now = 1000, uuids = (\<lambda>n. ''id'' @ show_nat n), cx_requestId = ''req'',
     cx_ipAddress = None, cx_userAgent = None\<rparr>"

lemma suspension_is_immediate_witness:
  "\<exists>d'. updateStatus demo_ctx ''u1'' Suspended demo_admin demo_session =
       Inr (d', (toSafeUser demo_user (Some demo_role))\<lparr>su_status := Suspended\<rparr>)
     \<and> rotate plain_jwt plain_hash 1000 ''t2'' ''raw2'' ''raw1'' d' =
         (Inl (UnauthorizedException ''Invalid refresh token''), d')"
proof -
  have "\<exists>d'. updateStatus demo_ctx ''u1'' Suspended demo_admin demo_session =
       Inr (d', (toSafeUser demo_user (Some demo_role))\<lparr>su_status := Suspended\<rparr>)"
    by (auto simp: updateStatus_def demo_admin_def findById_def updateStatus_tx_def tx_bind_def tx_read_def
        tx_return_def user_update_def audit_log_def ins_row_def role_of_def find_role_def toSafeUser_def
        demo_session_simps)
  then obtain d' where d': "updateStatus demo_ctx ''u1'' Suspended demo_admin demo_session =
       Inr (d', (toSafeUser demo_user (Some demo_role))\<lparr>su_status := Suspended\<rparr>)" by blast
  have "rotate plain_jwt plain_hash 1000 ''t2'' ''raw2'' ''raw1'' d' =
         (Inl (UnauthorizedException ''Invalid refresh token''), d')"
    by (rule suspension_is_immediate [where r = demo_refresh and u = demo_user
          and J = plain_jwt and t = 1000 and tok = "j_sign plain_jwt 0 (purpose_claims ''u1'' ''x'') 60"
          and p = "purpose_claims ''u1'' ''x''" and a = demo_actor, OF d', THEN conjunct1])
      (simp_all add: demo_session_simps plain_jwt_def secs_def purpose_claims_def no_claims_def
        findByEmail_def demo_actor_def)
  then show ?thesis using d' by blast
qed

text \<open>
  Recovery codes. \<open>only_recovery\<close>: the code is no current one-time password of the user.
\<close>

definition only_recovery :: "'tok auth_lib \<Rightarrow> user \<Rightarrow> string \<Rightarrow> bool" where
  "only_recovery L u code \<longleftrightarrow> (case u_totpSecret u of None \<Rightarrow> True
     | Some s \<Rightarrow> \<forall>t. \<not> lib_totp L t (normalize_code code) s)"

lemma proveFactor_recovery:
  assumes "only_recovery L u code" and "find_user (u_id u) d = Some v"
  shows "proveFactor L t u code d =
     (if lib_sha256 L (normalize_code code) \<in> set (u_totpRecoveryHashes u)
      then Inr (d\<lparr>users := upd_rows (\<lambda>w. u_id w = u_id u)
             (u_totpRecoveryHashes_update (\<lambda>_. filter (\<lambda>h. h \<noteq> lib_sha256 L (normalize_code code)) (u_totpRecoveryHashes v)))
             (users d)\<rparr>, True)
      else Inr (d, False))"
  using assms
  by (auto simp: proveFactor_def only_recovery_def Let_def given_def consumeRecoveryHash_def tx_defs
      write_recovery_def user_update_def recovery_remaining_def split: option.splits)

text \<open>Used one after the other, a recovery code works once: the login that presents it removes
  it, and presenting it again fails.\<close>

theorem recovery_code_once:
  assumes u: "find_user i d = Some u" "u_totpEnabled u" and code: "only_recovery L u code"
    and ok: "verifyForLogin L t i code d = Inr (d1, True)"
  shows "verifyForLogin L t' i code d1 = Inr (d1, False)"
proof -
  let ?h = "lib_sha256 L (normalize_code code)"
  let ?f = "u_totpRecoveryHashes_update (\<lambda>_. filter (\<lambda>h. h \<noteq> ?h) (u_totpRecoveryHashes u))"
  have id: "u_id u = i" using find_user_in [OF u(1)] by simp
  have "proveFactor L t u code d = Inr (d1, True)"
    using ok u by (simp add: verifyForLogin_def tx_simps)
  then have d1: "d1 = d\<lparr>users := upd_rows (\<lambda>w. u_id w = i) ?f (users d)\<rparr>"
    using proveFactor_recovery [OF code, of d u t] u(1) id by (auto split: if_splits)
  have u1: "find_user i d1 = Some (?f u)"
    using u(1) id unfolding find_user_def d1 by (simp add: find_upd_rows)
  have "proveFactor L t' (?f u) code d1 = Inr (d1, False)"
    using proveFactor_recovery [of L "?f u" code d1 "?f u" t'] code u1 id by (simp add: only_recovery_def)
  then show ?thesis using u1 u(2) by (simp add: verifyForLogin_def tx_defs)
qed

lemma normalize_demo: "normalize_code ''H1 '' = ''h1''" "normalize_code ''h1'' = ''h1''"
  by code_simp+

lemma recovery_code_once_witness:
  "verifyForLogin demo_lib 2000 ''u1'' ''H1 '' (demo_session\<lparr>users := [demo_user\<lparr>u_totpRecoveryHashes := [''h2'']\<rparr>]\<rparr>)
   = Inr (demo_session\<lparr>users := [demo_user\<lparr>u_totpRecoveryHashes := [''h2'']\<rparr>]\<rparr>, False)"
proof (rule recovery_code_once [where d = demo_session and u = demo_user and t = 1000])
  show "verifyForLogin demo_lib 1000 ''u1'' ''H1 '' demo_session =
      Inr (demo_session\<lparr>users := [demo_user\<lparr>u_totpRecoveryHashes := [''h2'']\<rparr>]\<rparr>, True)"
    by (simp add: verifyForLogin_def tx_defs proveFactor_def demo_lib_def normalize_demo given_def Let_def
        consumeRecoveryHash_def write_recovery_def user_update_def recovery_remaining_def demo_session_simps)
qed (simp_all add: demo_session_simps only_recovery_def demo_lib_def normalize_demo)

text \<open>Used at the same time, one recovery code is accepted any number of times. Each
  request checks the hashes it read; none checks that the removal removed anything.\<close>

theorem recovery_code_raced:
  assumes u: "find_user i d = Some u" and code: "only_recovery L u code"
    and listed: "lib_sha256 L (normalize_code code) \<in> set (u_totpRecoveryHashes u)"
  shows "\<exists>d1 d2. proveFactor L t u code d = Inr (d1, True) \<and> proveFactor L t' u code d1 = Inr (d2, True)"
proof -
  have id: "u_id u = i" using find_user_in [OF u] by simp
  let ?f = "u_totpRecoveryHashes_update (\<lambda>_. filter (\<lambda>h. h \<noteq> lib_sha256 L (normalize_code code)) (u_totpRecoveryHashes u))"
  have 1: "proveFactor L t u code d = Inr (d\<lparr>users := upd_rows (\<lambda>w. u_id w = i) ?f (users d)\<rparr>, True)"
    using proveFactor_recovery [OF code, of d u t] u id listed by simp
  have "find_user i (d\<lparr>users := upd_rows (\<lambda>w. u_id w = i) ?f (users d)\<rparr>) = Some (?f u)"
    using u id unfolding find_user_def by (simp add: find_upd_rows)
  then show ?thesis
    using 1 proveFactor_recovery [OF code, of "d\<lparr>users := upd_rows (\<lambda>w. u_id w = i) ?f (users d)\<rparr>" "?f u" t']
      id listed by simp
qed

lemma recovery_code_raced_witness:
  "\<exists>d1 d2. proveFactor demo_lib 1 demo_user ''h1'' demo_session = Inr (d1, True)
     \<and> proveFactor demo_lib 2 demo_user ''h1'' d1 = Inr (d2, True)"
  by (rule recovery_code_raced [where i = "''u1''"])
    (simp_all add: demo_session_simps only_recovery_def demo_lib_def normalize_demo)

text \<open>A passkey step-up grant is only for the passkey's owner. When it is granted, the
  challenge was a live WebAuthn challenge of this service and the response verified against a passkey of the caller; that
  passkey's counter is the one the authenticator reported.\<close>

theorem passkey_step_up_bound:
  assumes "stepUpPasskeyVerify L W cfg t user response tok d = Inr (d', grant)" and "au_id user \<noteq> []"
  shows "\<exists>challenge sub k n. verifyWebAuthnChallenge (lib_jwt L) t tok = Inr (challenge, sub) \<and>
     k \<in> set (passkeys d) \<and> pk_credentialId k = wa_id W response \<and> pk_userId k = au_id user \<and>
     wa_authentication W response challenge (pc_origin cfg) (pc_rpID cfg)
       \<lparr>sc_id = pk_credentialId k, sc_publicKey = pk_publicKey k, sc_counter = pk_counter k,
        sc_transports = pk_transports k\<rparr> = Inr (True, n) \<and>
     d' = d\<lparr>passkeys := upd_rows (\<lambda>j. pk_id j = pk_id k)
            (\<lambda>j. j\<lparr>pk_counter := n, pk_lastUsedAt := Some t\<rparr>) (passkeys d)\<rparr> \<and>
     grant = issueStepUpGrant (lib_jwt L) t (au_id user)"
proof -
  obtain k where k: "find_passkey (wa_id W response) d = Some k" and own: "pk_userId k = au_id user"
    using assms by (auto simp: stepUpPasskeyVerify_def verifyAuthentication_def tx_simps given_def
        split: prod.splits)
  have "k \<in> set (passkeys d)" "pk_credentialId k = wa_id W response"
    using k unfolding find_passkey_def by (auto dest: find_Some_in)
  then show ?thesis
    using assms k own
    by (fastforce simp: stepUpPasskeyVerify_def verifyAuthentication_def tx_simps passkey_update_def
        split: prod.splits if_splits)
qed

definition demo_webauthn :: "string webauthn" where
  "demo_webauthn = \<lparr>wa_id = (\<lambda>r. r), wa_registration = (\<lambda>r ch o' rp. Inr (False, None)),
     wa_authentication = (\<lambda>r ch o' rp k. Inr (ch = ''ch'', sc_counter k + 1))\<rparr>"

definition demo_config :: passkey_config where
  "demo_config = \<lparr>pc_rpID = ''rp'', pc_rpName = ''MaxOne'', pc_origin = ''https://rp''\<rparr>"

definition demo_passkey :: passkey where
  "demo_passkey = \<lparr>pk_id = ''k1'', pk_userId = ''u1'', pk_credentialId = ''cred'', pk_publicKey = ''pub'',
     pk_counter = 4, pk_transports = [], pk_deviceType = ''singleDevice'', pk_backedUp = False,
     pk_label = None, pk_createdAt = 0, pk_lastUsedAt = None\<rparr>"

lemma passkey_step_up_bound_witness:
  "\<exists>k n. k \<in> set (passkeys (demo_session\<lparr>passkeys := [demo_passkey]\<rparr>)) \<and> pk_userId k = ''u1'' \<and>
     wa_authentication demo_webauthn ''cred'' ''ch'' (pc_origin demo_config) (pc_rpID demo_config)
       \<lparr>sc_id = pk_credentialId k, sc_publicKey = pk_publicKey k, sc_counter = pk_counter k,
        sc_transports = pk_transports k\<rparr> = Inr (True, n)"
proof -
  let ?d = "demo_session\<lparr>passkeys := [demo_passkey]\<rparr>"
  let ?tok = "issueWebAuthnChallenge plain_jwt 0 ''ch'' None"
  have "stepUpPasskeyVerify demo_lib demo_webauthn demo_config 1000 demo_actor ''cred'' ?tok ?d =
      Inr (?d\<lparr>passkeys := [demo_passkey\<lparr>pk_counter := 5, pk_lastUsedAt := Some 1000\<rparr>]\<rparr>,
        issueStepUpGrant plain_jwt 1000 ''u1'')"
    by (simp add: stepUpPasskeyVerify_def verifyAuthentication_def verifyWebAuthnChallenge_def
        issueWebAuthnChallenge_def no_claims_def given_def plain_jwt_def secs_def tx_defs find_passkey_def
        passkey_update_def demo_lib_def demo_webauthn_def demo_passkey_def demo_actor_def)
  moreover have "au_id demo_actor \<noteq> []" by (simp add: demo_actor_def)
  ultimately show ?thesis
  proof (elim passkey_step_up_bound [THEN exE] exE conjE)
    fix challenge sub k n
    assume "verifyWebAuthnChallenge (lib_jwt demo_lib) 1000 ?tok = Inr (challenge, sub)"
      and k: "k \<in> set (passkeys ?d)" "pk_userId k = au_id demo_actor"
      "wa_authentication demo_webauthn ''cred'' challenge (pc_origin demo_config) (pc_rpID demo_config)
       \<lparr>sc_id = pk_credentialId k, sc_publicKey = pk_publicKey k, sc_counter = pk_counter k,
        sc_transports = pk_transports k\<rparr> = Inr (True, n)"
    then have "challenge = ''ch''"
      by (simp add: demo_lib_def verifyWebAuthnChallenge_def issueWebAuthnChallenge_def
        no_claims_def given_def plain_jwt_def secs_def)
    then show ?thesis using k by (intro exI conjI) (simp_all add: demo_actor_def)
  qed
qed

end
