(* ===== verification/Inputs.thy ===== *)
theory Inputs
  imports Auth "HOL-Library.Word"
begin

text \<open>
  What a customer types and scans before a request exists: the keystroke filters of
  \<open>customer/lib/format/sanitize-number.ts\<close>, \<open>parseAmountToMinor\<close>, the form schemas of
  \<open>customer/lib/schemas/\<close>, the QR payload, and the idempotency key of \<open>lib/idempotency/key.ts\<close>.
  Amounts are exact naturals: the source computes them in doubles, which are exact below 2^53, far
  above the nine whole digits that the filter lets through.
\<close>

section \<open>Keystroke filters\<close>

record decimal_limits =
  maxWhole :: nat
  maxDecimals :: nat

definition whole_part :: "string \<Rightarrow> string" where
  "whole_part s = takeWhile (\<lambda>c. c \<noteq> CHR ''.'') s"

definition frac_part :: "string \<Rightarrow> string" where
  "frac_part s = takeWhile (\<lambda>c. c \<noteq> CHR ''.'') (tl (dropWhile (\<lambda>c. c \<noteq> CHR ''.'') s))"

definition sanitize_char :: "decimal_limits \<Rightarrow> string \<Rightarrow> char \<Rightarrow> string" where
  "sanitize_char lims out ch =
     (if ch = CHR ''.''
      then (if maxDecimals lims = 0 \<or> List.member out CHR ''.'' then out
            else if out = [] then ''0.'' else out @ ''.'')
      else if \<not> is_digit ch then out
      else if List.member out CHR ''.''
        then (if maxDecimals lims \<le> length (frac_part out) then out else out @ [ch])
      else if whole_part out = ''0'' then (if ch = CHR ''0'' then ''0'' else [ch])
      else if length (whole_part out) < maxWhole lims then out @ [ch]
      else out)"

definition sanitizeDecimal :: "decimal_limits \<Rightarrow> string \<Rightarrow> string" where
  "sanitizeDecimal lims raw = foldl (sanitize_char lims) [] raw"

definition sanitizeAmount :: "string \<Rightarrow> string" where
  "sanitizeAmount raw = sanitizeDecimal \<lparr>maxWhole = 9, maxDecimals = 2\<rparr> raw"

definition sanitizePrice :: "string \<Rightarrow> string" where
  "sanitizePrice raw = sanitizeDecimal \<lparr>maxWhole = 9, maxDecimals = 4\<rparr> raw"

definition sanitizeQuantity :: "string \<Rightarrow> string" where
  "sanitizeQuantity raw = sanitizeDecimal \<lparr>maxWhole = 9, maxDecimals = 8\<rparr> raw"

definition sanitizeDigits :: "string \<Rightarrow> nat \<Rightarrow> string" where
  "sanitizeDigits raw m = take m (filter is_digit raw)"

section \<open>Parsing an amount\<close>

definition digits_val :: "string \<Rightarrow> nat" where
  "digits_val s = foldl (\<lambda>n c. 10 * n + digit_val c) 0 s"

definition all_digits :: "string \<Rightarrow> bool" where
  "all_digits s = list_all is_digit s"

text \<open>\<open>/^\d+(\.\d{1,2})?$/\<close>\<close>

definition amount_regex :: "string \<Rightarrow> bool" where
  "amount_regex s =
     (let w = whole_part s; r = dropWhile (\<lambda>c. c \<noteq> CHR ''.'') s
      in w \<noteq> [] \<and> all_digits w \<and>
         (r = [] \<or> (all_digits (tl r) \<and> 1 \<le> length (tl r) \<and> length (tl r) \<le> 2)))"

definition pad_end :: "nat \<Rightarrow> char \<Rightarrow> string \<Rightarrow> string" where
  "pad_end n c s = s @ replicate (n - length s) c"

text \<open>\<open>None\<close> is \<open>NaN\<close>.\<close>

definition parseAmountToMinor :: "string \<Rightarrow> nat option" where
  "parseAmountToMinor input =
     (let trimmed = trim input
      in if \<not> amount_regex trimmed then None
         else let minor = digits_val (whole_part trimmed) * 100 +
                    digits_val (pad_end 2 CHR ''0'' (frac_part trimmed))
              in if 0 < minor then Some minor else None)"

section \<open>Form schemas\<close>

text \<open>\<open>/^\d*\.?\d+$/\<close>: digits, perhaps a point, then at least one digit.\<close>

definition number_regex :: "string \<Rightarrow> bool" where
  "number_regex s =
     (let w = whole_part s; r = dropWhile (\<lambda>c. c \<noteq> CHR ''.'') s
      in all_digits w \<and> (if r = [] then w \<noteq> [] else tl r \<noteq> [] \<and> all_digits (tl r)))"

text \<open>
  \<open>Number(v) > 0\<close> for a string of that shape: some digit is not zero (short of the 324 leading
  zeros at which a double underflows).
\<close>

definition positive_number :: "string \<Rightarrow> bool" where
  "positive_number s = list_ex (\<lambda>c. is_digit c \<and> c \<noteq> CHR ''0'') s"

definition is_handle_char :: "char \<Rightarrow> bool" where
  "is_handle_char c \<longleftrightarrow> is_lower c \<or> is_digit c \<or> c = CHR ''_''"

text \<open>\<open>/^[a-z][a-z0-9_]{2,19}$/\<close>, in \<open>RegisterDto\<close>, \<open>LookupQueryDto\<close>, the schemas and the QR code.\<close>

definition handle_regex :: "string \<Rightarrow> bool" where
  "handle_regex s =
     (case s of [] \<Rightarrow> False
      | c # cs \<Rightarrow> is_lower c \<and> list_all is_handle_char cs \<and> 2 \<le> length cs \<and> length cs \<le> 19)"

record amount_form =
  af_amount :: string
  af_note :: "string option"

definition amountSchema :: "amount_form \<Rightarrow> bool" where
  "amountSchema f \<longleftrightarrow> amount_regex (af_amount f) \<and> positive_number (af_amount f)"

record transfer_form =
  tf_handle :: string
  tf_amount :: string
  tf_note :: "string option"

definition transferSchema :: "transfer_form \<Rightarrow> bool" where
  "transferSchema f \<longleftrightarrow> handle_regex (tf_handle f) \<and> amount_regex (tf_amount f) \<and> positive_number (tf_amount f)"

record alert_form =
  lf_symbol :: string
  lf_direction :: string
  lf_targetPrice :: string

definition alertSchema :: "alert_form \<Rightarrow> bool" where
  "alertSchema f \<longleftrightarrow> lf_symbol f \<noteq> [] \<and> List.member [''above'', ''below''] (lf_direction f) \<and>
     number_regex (lf_targetPrice f) \<and> positive_number (lf_targetPrice f)"

record holding_form =
  hf_symbol :: string
  hf_quantity :: string
  hf_avgCost :: string

definition holdingSchema :: "holding_form \<Rightarrow> bool" where
  "holdingSchema f \<longleftrightarrow> hf_symbol f \<noteq> [] \<and> number_regex (hf_quantity f) \<and> positive_number (hf_quantity f) \<and>
     number_regex (hf_avgCost f) \<and> positive_number (hf_avgCost f)"

text \<open>\<open>signupSchema\<close>; what counts as an email address is the library's matter.\<close>

definition signupSchema :: "(string \<Rightarrow> bool) \<Rightarrow> register_dto \<Rightarrow> bool" where
  "signupSchema is_email f \<longleftrightarrow> is_email (rg_email f) \<and> handle_regex (rg_handle f) \<and>
     8 \<le> length (rg_password f) \<and> 1 \<le> length (rg_firstName f) \<and> 1 \<le> length (rg_lastName f)"

record currency_info =
  ci_code :: string
  ci_name :: string
  ci_country :: string

definition SUPPORTED_CURRENCIES :: "currency_info list" where
  "SUPPORTED_CURRENCIES =
     [\<lparr>ci_code = ''USD'', ci_name = ''US Dollar'', ci_country = ''US''\<rparr>,
      \<lparr>ci_code = ''EUR'', ci_name = ''Euro'', ci_country = ''EU''\<rparr>,
      \<lparr>ci_code = ''GBP'', ci_name = ''British Pound'', ci_country = ''GB''\<rparr>,
      \<lparr>ci_code = ''SGD'', ci_name = ''Singapore Dollar'', ci_country = ''SG''\<rparr>,
      \<lparr>ci_code = ''AUD'', ci_name = ''Australian Dollar'', ci_country = ''AU''\<rparr>,
      \<lparr>ci_code = ''CAD'', ci_name = ''Canadian Dollar'', ci_country = ''CA''\<rparr>,
      \<lparr>ci_code = ''CHF'', ci_name = ''Swiss Franc'', ci_country = ''CH''\<rparr>,
      \<lparr>ci_code = ''NZD'', ci_name = ''New Zealand Dollar'', ci_country = ''NZ''\<rparr>,
      \<lparr>ci_code = ''HKD'', ci_name = ''Hong Kong Dollar'', ci_country = ''HK''\<rparr>]"

definition CURRENCY_CODES :: "string list" where
  "CURRENCY_CODES = map ci_code SUPPORTED_CURRENCIES"

definition find_currency :: "string \<Rightarrow> currency_info option" where
  "find_currency code = List.find (\<lambda>c. ci_code c = code) SUPPORTED_CURRENCIES"

definition currencyName :: "string \<Rightarrow> string" where
  "currencyName code = (case find_currency code of Some c \<Rightarrow> ci_name c | None \<Rightarrow> code)"

text \<open>The flag, as its code points.\<close>

definition currencyFlag :: "string \<Rightarrow> int list" where
  "currencyFlag code =
     (let country = (case find_currency code of Some c \<Rightarrow> ci_country c | None \<Rightarrow> to_upper (take 2 code))
      in map (\<lambda>ch. 0x1f1e6 + of_char ch - 65) country)"

definition walletSchema :: "string \<Rightarrow> bool" where
  "walletSchema currency = List.member CURRENCY_CODES currency"

section \<open>QR codes\<close>

definition QR_PREFIX :: string where "QR_PREFIX = ''maxone:''"

definition encodeQr :: "string \<Rightarrow> string" where
  "encodeQr handle = QR_PREFIX @ to_lower handle"

definition parseQr :: "string \<Rightarrow> string option" where
  "parseQr scanned =
     (if \<not> starts_with scanned QR_PREFIX then None
      else let handle = to_lower (drop (length QR_PREFIX) scanned)
           in if handle_regex handle then Some handle else None)"

section \<open>The idempotency key of a form\<close>

text \<open>
  The fallback of \<open>uuid\<close>: sixteen random bytes with the version and variant bits set, in hex with
  dashes.
\<close>

definition hex_digit :: "nat \<Rightarrow> char" where
  "hex_digit n = ''0123456789abcdef'' ! n"

definition hex_byte :: "8 word \<Rightarrow> string" where
  "hex_byte b = [hex_digit (unat b div 16), hex_digit (unat b mod 16)]"

definition uuid_bytes :: "8 word list \<Rightarrow> 8 word list" where
  "uuid_bytes b =
     (let b1 = b[6 := or (and (b ! 6) 0x0f) 0x40] in b1[8 := or (and (b1 ! 8) 0x3f) 0x80])"

definition uuid_text :: "8 word list \<Rightarrow> string" where
  "uuid_text b =
     (let h = concat (map hex_byte (uuid_bytes b))
      in take 8 h @ ''-'' @ take 4 (drop 8 h) @ ''-'' @ take 4 (drop 12 h) @ ''-'' @ take 4 (drop 16 h)
         @ ''-'' @ drop 20 h)"

text \<open>\<open>useIdempotencyKey\<close>: the ref, \<open>key\<close> (given the uuid to draw if one is needed) and \<open>reset\<close>.\<close>

type_synonym key_ref = "string option"

definition key_get :: "string \<Rightarrow> key_ref \<Rightarrow> string \<times> key_ref" where
  "key_get fresh r = (case r of Some k \<Rightarrow> (k, Some k) | None \<Rightarrow> (fresh, Some fresh))"

definition key_reset :: "key_ref \<Rightarrow> key_ref" where
  "key_reset r = None"


section \<open>Facts about digits\<close>

lemma of_digit_char: "n < 10 \<Longrightarrow> of_char (char_of (48 + n)) = (48 + n :: nat)" for n :: nat
  by (simp add: take_bit_nat_eq_self)

lemma is_digit_char [simp]: "n < 10 \<Longrightarrow> is_digit (char_of (48 + n))" for n :: nat
  using of_digit_char [of n] by (simp add: is_digit_def less_eq_char_def)

lemma digit_val_char [simp]: "n < 10 \<Longrightarrow> digit_val (char_of (48 + n)) = n" for n :: nat
  using of_digit_char [of n] by (simp add: digit_val_def)

lemma foldl_digits: "foldl (\<lambda>n c. 10 * n + digit_val c) a s = a * 10 ^ length s + digits_val s"
proof (induction s arbitrary: a)
  case (Cons c s)
  show ?case using Cons [of "10 * a + digit_val c"] Cons [of "digit_val c"]
    by (simp add: digits_val_def algebra_simps)
qed (simp add: digits_val_def)

lemma digits_val_append: "digits_val (s @ r) = digits_val s * 10 ^ length r + digits_val r"
  using foldl_digits [of "digits_val s" r] by (simp add: digits_val_def)

lemma digits_val_Nil [simp]: "digits_val [] = 0"
  by (simp add: digits_val_def)

lemma digits_val_single [simp]: "digits_val [c] = digit_val c"
  by (simp add: digits_val_def)

lemma digits_val_Cons: "digits_val (c # s) = digit_val c * 10 ^ length s + digits_val s"
  using digits_val_append [of "[c]" s] by simp

lemma show_nat_aux_digits:
  "n < fuel \<Longrightarrow> \<exists>s. show_nat_aux fuel n acc = s @ acc \<and> s \<noteq> [] \<and> all_digits s \<and> digits_val s = n
     \<and> (n < 10 \<longrightarrow> length s = 1) \<and> (n < 100 \<longrightarrow> length s \<le> 2)"
proof (induction fuel arbitrary: n acc)
  case (Suc fuel)
  let ?c = "char_of (48 + n mod 10)"
  show ?case
  proof (cases "n < 10")
    case True
    then show ?thesis by (intro exI [of _ "[?c]"]) (simp add: all_digits_def)
  next
    case False
    then have "n div 10 < fuel" using Suc.prems by linarith
    then obtain s where s: "show_nat_aux fuel (n div 10) (?c # acc) = s @ ?c # acc" "s \<noteq> []" "all_digits s"
      "digits_val s = n div 10" "n div 10 < 10 \<longrightarrow> length s = 1"
      using Suc.IH [of "n div 10" "?c # acc"] by blast
    have "digits_val (s @ [?c]) = n" using s(4) by (simp add: digits_val_append)
    moreover have "n < 100 \<longrightarrow> length (s @ [?c]) \<le> 2" using s(5) by auto
    ultimately show ?thesis using False s(1-3)
      by (intro exI [of _ "s @ [?c]"]) (simp add: all_digits_def)
  qed
qed simp

lemma show_nat_digits:
  "show_nat n \<noteq> [] \<and> all_digits (show_nat n) \<and> digits_val (show_nat n) = n
     \<and> (n < 10 \<longrightarrow> length (show_nat n) = 1) \<and> (n < 100 \<longrightarrow> length (show_nat n) \<le> 2)"
  using show_nat_aux_digits [of n "Suc n" "[]"] by (auto simp: show_nat_def)

lemma digit_not_point: "is_digit c \<Longrightarrow> c \<noteq> CHR ''.''"
  by (auto simp: is_digit_def less_eq_char_def)

lemma digits_no_point: "all_digits s \<Longrightarrow> CHR ''.'' \<notin> set s"
  by (auto simp: all_digits_def list_all_iff dest: digit_not_point)

lemma digit_val_less: "is_digit c \<Longrightarrow> digit_val c < 10"
  by (auto simp: is_digit_def digit_val_def less_eq_char_def)

lemma digits_val_less: "all_digits s \<Longrightarrow> digits_val s < 10 ^ length s"
proof (induction s)
  case (Cons c s)
  then have "digit_val c \<le> 9" "digits_val s < 10 ^ length s" using digit_val_less [of c] by (auto simp: all_digits_def)
  then have "digit_val c * 10 ^ length s + digits_val s < 9 * 10 ^ length s + 10 ^ length s"
    by (intro add_le_less_mono mult_right_mono) auto
  then show ?case by (simp add: digits_val_Cons)
qed simp

text \<open>A number as typed: digits, or digits, a point and digits.\<close>

lemma parts_plain: "all_digits w \<Longrightarrow> whole_part w = w \<and> frac_part w = [] \<and> dropWhile (\<lambda>c. c \<noteq> CHR ''.'') w = []"
proof -
  assume "all_digits w"
  then have all: "\<forall>c \<in> set w. c \<noteq> CHR ''.''" using digits_no_point by auto
  then have "takeWhile (\<lambda>c. c \<noteq> CHR ''.'') w = w" "dropWhile (\<lambda>c. c \<noteq> CHR ''.'') w = []"
    by (simp_all add: takeWhile_eq_all_conv)
  then show ?thesis unfolding whole_part_def frac_part_def by (metis list.sel(2) takeWhile.simps(1))
qed

lemma parts_point:
  assumes "all_digits w" "all_digits f"
  shows "whole_part (w @ CHR ''.'' # f) = w \<and> frac_part (w @ CHR ''.'' # f) = f
     \<and> dropWhile (\<lambda>c. c \<noteq> CHR ''.'') (w @ CHR ''.'' # f) = CHR ''.'' # f"
proof -
  have "\<forall>c \<in> set w. c \<noteq> CHR ''.''" "\<forall>c \<in> set f. c \<noteq> CHR ''.''"
    using digits_no_point [OF assms(1)] digits_no_point [OF assms(2)] by auto
  then have "takeWhile (\<lambda>c. c \<noteq> CHR ''.'') (w @ CHR ''.'' # f) = w"
    "dropWhile (\<lambda>c. c \<noteq> CHR ''.'') (w @ CHR ''.'' # f) = CHR ''.'' # f"
    "takeWhile (\<lambda>c. c \<noteq> CHR ''.'') f = f"
    by (auto simp: takeWhile_append dropWhile_append takeWhile_eq_all_conv)
  then show ?thesis by (simp add: whole_part_def frac_part_def)
qed


section \<open>What the filter lets through\<close>

definition whole_ok :: "decimal_limits \<Rightarrow> string \<Rightarrow> bool" where
  "whole_ok lims w \<longleftrightarrow> all_digits w \<and> w \<noteq> [] \<and> length w \<le> maxWhole lims \<and> (w = ''0'' \<or> hd w \<noteq> CHR ''0'')"

definition typed_ok :: "decimal_limits \<Rightarrow> string \<Rightarrow> bool" where
  "typed_ok lims s \<longleftrightarrow> s = [] \<or> whole_ok lims s \<or>
     (\<exists>w f. s = w @ CHR ''.'' # f \<and> whole_ok lims w \<and> all_digits f \<and> length f \<le> maxDecimals lims)"

lemma typed_cases:
  assumes "typed_ok lims s"
  obtains (empty) "s = []"
  | (whole) "whole_ok lims s" "CHR ''.'' \<notin> set s" "whole_part s = s"
  | (point) w f where "s = w @ CHR ''.'' # f" "whole_ok lims w" "all_digits f" "length f \<le> maxDecimals lims"
      "whole_part s = w" "frac_part s = f"
  using assms parts_plain [of s] digits_no_point [of s] parts_point unfolding typed_ok_def whole_ok_def by blast

lemma sanitize_char_point:
  "List.member out CHR ''.'' \<Longrightarrow> sanitize_char lims out ch =
     (if is_digit ch \<and> length (frac_part out) < maxDecimals lims then out @ [ch] else out)"
  using digit_not_point [of ch] by (auto simp: sanitize_char_def)

lemma sanitize_char_whole:
  "CHR ''.'' \<notin> set out \<Longrightarrow> whole_part out = out \<Longrightarrow> sanitize_char lims out ch =
     (if ch = CHR ''.'' then (if maxDecimals lims = 0 then out else if out = [] then ''0.'' else out @ ''.'')
      else if \<not> is_digit ch then out
      else if out = ''0'' then (if ch = CHR ''0'' then ''0'' else [ch])
      else if length out < maxWhole lims then out @ [ch] else out)"
  by (simp add: sanitize_char_def)

lemma zero_is_digit: "is_digit CHR ''0''"
  by (simp add: is_digit_def)

lemma typed_ok_char:
  assumes ok: "typed_ok lims out" and pos: "0 < maxWhole lims"
  shows "typed_ok lims (sanitize_char lims out ch)"
  using ok
proof (cases rule: typed_cases)
  case empty
  have "sanitize_char lims out ch = (if ch = CHR ''.'' then (if maxDecimals lims = 0 then [] else ''0.'')
      else if is_digit ch then [ch] else [])"
    using pos sanitize_char_whole [of out lims ch] empty by (simp add: whole_part_def)
  moreover have "whole_ok lims ''0''" using pos zero_is_digit by (simp add: whole_ok_def all_digits_def)
  moreover have "is_digit ch \<Longrightarrow> whole_ok lims [ch]" using pos by (auto simp: whole_ok_def all_digits_def)
  ultimately show ?thesis
    by (auto simp: typed_ok_def all_digits_def intro: exI [of _ "''0''"])
next
  case whole
  note step = sanitize_char_whole [OF whole(2,3), of lims ch]
  have one: "is_digit ch \<Longrightarrow> whole_ok lims [ch]" using pos by (auto simp: whole_ok_def all_digits_def)
  have more: "is_digit ch \<Longrightarrow> out \<noteq> ''0'' \<Longrightarrow> length out < maxWhole lims \<Longrightarrow> whole_ok lims (out @ [ch])"
    using whole(1) by (auto simp: whole_ok_def all_digits_def)
  have point: "typed_ok lims (out @ ''.'')"
    using whole(1) unfolding typed_ok_def all_digits_def
    by (intro disjI2 exI [of _ out] exI [of _ "[]"]) simp
  have "out \<noteq> []" using whole(1) by (simp add: whole_ok_def)
  then show ?thesis using step one more point ok by (auto simp: typed_ok_def)
next
  case (point w f)
  have "List.member out CHR ''.''" using point(1) by simp
  note step = sanitize_char_point [OF this, of lims ch]
  have "typed_ok lims (w @ CHR ''.'' # f @ [ch])" if "is_digit ch" "length f < maxDecimals lims"
    using that point(2,3) unfolding typed_ok_def all_digits_def
    by (intro disjI2 exI [of _ w] exI [of _ "f @ [ch]"]) simp
  then show ?thesis using step ok point(1,6) by auto
qed

lemma foldl_keeps: "P a \<Longrightarrow> (\<And>a x. P a \<Longrightarrow> P (f a x)) \<Longrightarrow> P (foldl f a xs)"
  by (induction xs arbitrary: a) auto

lemma sanitize_typed_ok: "0 < maxWhole lims \<Longrightarrow> typed_ok lims (sanitizeDecimal lims raw)"
  unfolding sanitizeDecimal_def
proof (rule foldl_keeps [where P = "typed_ok lims"])
  show "typed_ok lims []" by (simp add: typed_ok_def)
  show "typed_ok lims (sanitize_char lims out ch)" if "0 < maxWhole lims" "typed_ok lims out" for out ch
    using that by (intro typed_ok_char)
qed


text \<open>Text that is already in shape passes unchanged.\<close>

lemma sanitize_snoc: "sanitizeDecimal lims (s @ [ch]) = sanitize_char lims (sanitizeDecimal lims s) ch"
  by (simp add: sanitizeDecimal_def)

lemma sanitize_whole: "whole_ok lims w \<Longrightarrow> sanitizeDecimal lims w = w"
proof (induction w rule: rev_induct)
  case (snoc ch w)
  have ch: "is_digit ch" "ch \<noteq> CHR ''.''" using snoc.prems digit_not_point [of ch] by (auto simp: whole_ok_def all_digits_def)
  show ?case
  proof (cases "w = []")
    case True
    then show ?thesis using ch snoc.prems by (simp add: sanitizeDecimal_def sanitize_char_def whole_part_def whole_ok_def)
  next
    case False
    have w: "whole_ok lims w" "w \<noteq> ''0''" "length w < maxWhole lims"
      using snoc.prems False by (auto simp: whole_ok_def all_digits_def)
    then show ?thesis using ch snoc.IH sanitize_char_whole [of w lims ch] digits_no_point [of w] parts_plain [of w]
      by (simp add: sanitize_snoc whole_ok_def)
  qed
qed (simp add: whole_ok_def)

lemma sanitize_point:
  "whole_ok lims w \<Longrightarrow> all_digits f \<Longrightarrow> length f \<le> maxDecimals lims \<Longrightarrow> 0 < maxDecimals lims \<Longrightarrow>
   sanitizeDecimal lims (w @ CHR ''.'' # f) = w @ CHR ''.'' # f"
proof (induction f rule: rev_induct)
  case Nil
  then show ?case using sanitize_char_whole [of w lims "CHR ''.''"] digits_no_point [of w] parts_plain [of w]
    by (simp add: sanitize_snoc sanitize_whole whole_ok_def)
next
  case (snoc ch f)
  have f: "all_digits f" "is_digit ch" "length f < maxDecimals lims"
    using snoc.prems by (auto simp: all_digits_def)
  have "sanitizeDecimal lims (w @ CHR ''.'' # f) = w @ CHR ''.'' # f" using snoc f by simp
  then show ?case
    using sanitize_char_point [of "w @ CHR ''.'' # f" lims ch] f parts_point [of w f] snoc.prems(1)
      sanitize_snoc [of lims "w @ CHR ''.'' # f" ch]
    by (simp add: whole_ok_def)
qed

lemma sanitize_idem:
  assumes "0 < maxWhole lims" "0 < maxDecimals lims"
  shows "sanitizeDecimal lims (sanitizeDecimal lims raw) = sanitizeDecimal lims raw"
  using sanitize_typed_ok [OF assms(1), of raw]
  by (cases rule: typed_cases) (simp_all add: sanitize_whole sanitize_point assms(2), simp add: sanitizeDecimal_def)

section \<open>What the parser makes of it\<close>

lemma dropWhile_none: "list_all (\<lambda>c. \<not> P c) s \<Longrightarrow> dropWhile P s = s"
  by (cases s) auto

lemma trim_no_space: "list_all (\<lambda>c. \<not> is_space c) s \<Longrightarrow> trim s = s"
  using dropWhile_none [of is_space s] dropWhile_none [of is_space "rev s"] by (simp add: trim_def list_all_iff)

lemma digit_no_space: "is_digit c \<Longrightarrow> \<not> is_space c"
  by (auto simp: is_digit_def is_space_def less_eq_char_def)

lemma digits_no_space: "all_digits s \<Longrightarrow> list_all (\<lambda>c. \<not> is_space c) s"
  by (auto simp: all_digits_def list_all_iff digit_no_space)

lemma point_no_space: "\<not> is_space CHR ''.''"
  by (simp add: is_space_def less_eq_char_def)

lemma regex_whole: "all_digits w \<Longrightarrow> w \<noteq> [] \<Longrightarrow> amount_regex w"
  using parts_plain [of w] by (simp add: amount_regex_def)

lemma regex_point:
  "all_digits w \<Longrightarrow> all_digits f \<Longrightarrow> w \<noteq> [] \<Longrightarrow>
   amount_regex (w @ CHR ''.'' # f) \<longleftrightarrow> 1 \<le> length f \<and> length f \<le> 2"
  using parts_point [of w f] by (simp add: amount_regex_def)

definition minor_of :: "string \<Rightarrow> string \<Rightarrow> nat" where
  "minor_of w f = digits_val w * 100 + digits_val (pad_end 2 CHR ''0'' f)"

lemma parse_whole:
  assumes "all_digits w" "w \<noteq> []"
  shows "parseAmountToMinor w = (if 0 < minor_of w [] then Some (minor_of w []) else None)"
  using trim_no_space [OF digits_no_space, of w] regex_whole [of w] parts_plain [of w] assms
  by (simp add: parseAmountToMinor_def minor_of_def Let_def)

lemma parse_point:
  assumes "all_digits w" "all_digits f" "w \<noteq> []" "1 \<le> length f" "length f \<le> 2"
  shows "parseAmountToMinor (w @ CHR ''.'' # f) = (if 0 < minor_of w f then Some (minor_of w f) else None)"
proof -
  have "trim (w @ CHR ''.'' # f) = w @ CHR ''.'' # f"
    using digits_no_space [OF assms(1)] digits_no_space [OF assms(2)] point_no_space by (intro trim_no_space) simp
  then show ?thesis using regex_point [OF assms(1,2,3)] parts_point [OF assms(1,2)] assms(4,5)
    by (simp add: parseAmountToMinor_def minor_of_def Let_def)
qed

lemma char_zero: "of_char c = (48 :: nat) \<Longrightarrow> c = CHR ''0''"
proof -
  assume c: "of_char c = (48 :: nat)"
  have "c = char_of (of_char c :: nat)" by simp
  also have "\<dots> = CHR ''0''" by (simp only: c) code_simp
  finally show ?thesis .
qed

lemma digit_val_zero: "is_digit c \<Longrightarrow> digit_val c = 0 \<longleftrightarrow> c = CHR ''0''"
proof -
  assume "is_digit c"
  then have "48 \<le> (of_char c :: nat)" by (simp add: is_digit_def less_eq_char_def)
  then show ?thesis using char_zero [of c] by (auto simp: digit_val_def)
qed

lemma digits_val_pos: "all_digits s \<Longrightarrow> 0 < digits_val s \<longleftrightarrow> positive_number s"
proof (induction s)
  case (Cons c s)
  then show ?case using digit_val_zero [of c] by (auto simp: digits_val_Cons positive_number_def all_digits_def)
qed (simp add: positive_number_def)

lemma pad_end_facts:
  assumes "all_digits f" "length f \<le> 2"
  shows "all_digits (pad_end 2 CHR ''0'' f) \<and> length (pad_end 2 CHR ''0'' f) = 2
     \<and> (positive_number (pad_end 2 CHR ''0'' f) \<longleftrightarrow> positive_number f)"
proof -
  have "list_all is_digit (replicate n CHR ''0'')" for n
    using zero_is_digit by (induction n) auto
  moreover have "\<not> list_ex (\<lambda>c. is_digit c \<and> c \<noteq> CHR ''0'') (replicate n CHR ''0'')" for n
    by (induction n) auto
  ultimately show ?thesis using assms by (simp add: pad_end_def all_digits_def positive_number_def)
qed

lemma minor_of_facts:
  assumes "all_digits w" "all_digits f" "length f \<le> 2"
  shows "minor_of w f < 10 ^ length w * 100 \<and> (0 < minor_of w f \<longleftrightarrow> positive_number (w @ CHR ''.'' # f))"
proof -
  note pad = pad_end_facts [OF assms(2,3)]
  have "digits_val (pad_end 2 CHR ''0'' f) < 100" using digits_val_less [of "pad_end 2 CHR ''0'' f"] pad by simp
  moreover have "digits_val w + 1 \<le> 10 ^ length w" using digits_val_less [OF assms(1)] by simp
  ultimately have "minor_of w f < 10 ^ length w * 100" unfolding minor_of_def by linarith
  moreover have "0 < minor_of w f \<longleftrightarrow> positive_number w \<or> positive_number f"
    using digits_val_pos [OF assms(1)] digits_val_pos [of "pad_end 2 CHR ''0'' f"] pad by (auto simp: minor_of_def)
  ultimately show ?thesis by (auto simp: positive_number_def list_ex_iff is_digit_def)
qed


text \<open>Whatever a person types, what stays in an amount field is an amount. The filter is
  idempotent, and its result is empty, ends in the point that is being typed, or is a number the
  parser and the form schema agree on: accepted exactly when it is not zero, and then less than
  1,000,000,000 in major units.\<close>

theorem typed_amount_is_valid:
  assumes "s = sanitizeAmount raw"
  shows "sanitizeAmount s = s \<and>
    (s = [] \<or> last s = CHR ''.'' \<or>
      (amount_regex s \<and> (parseAmountToMinor s \<noteq> None \<longleftrightarrow> amountSchema \<lparr>af_amount = s, af_note = None\<rparr>) \<and>
       (\<forall>n. parseAmountToMinor s = Some n \<longrightarrow> 0 < n \<and> n < 100000000000)))"
proof -
  let ?lims = "\<lparr>maxWhole = 9, maxDecimals = 2\<rparr>"
  have shape: "typed_ok ?lims s" using assms sanitize_typed_ok [of ?lims raw] by (simp add: sanitizeAmount_def)
  have idem: "sanitizeAmount s = s" using assms sanitize_idem [of ?lims raw] by (simp add: sanitizeAmount_def)
  have bound: "minor_of w f < 100000000000" if "all_digits w" "all_digits f" "length f \<le> 2" "length w \<le> 9" for w f
  proof -
    have "minor_of w f < 10 ^ length w * 100" using minor_of_facts [OF that(1-3)] by blast
    also have "\<dots> \<le> 10 ^ 9 * 100" using that(4) by (intro mult_right_mono power_increasing) auto
    finally show ?thesis by simp
  qed
  show ?thesis
    using shape
  proof (cases rule: typed_cases)
    case empty
    then show ?thesis using idem by simp
  next
    case whole
    have w: "all_digits s" "s \<noteq> []" "length s \<le> 9" using whole(1) by (auto simp: whole_ok_def)
    have "0 < minor_of s [] \<longleftrightarrow> positive_number s"
      using minor_of_facts [OF w(1), of "[]"] by (auto simp: all_digits_def positive_number_def is_digit_def)
    then show ?thesis
      using idem parse_whole [OF w(1,2)] regex_whole [OF w(1,2)] bound [OF w(1), of "[]"] w(3)
      by (auto simp: amountSchema_def all_digits_def)
  next
    case (point w f)
    have w: "all_digits w" "w \<noteq> []" "length w \<le> 9" "length f \<le> 2"
      using point(2,4) by (auto simp: whole_ok_def)
    show ?thesis
    proof (cases "f = []")
      case True
      then show ?thesis using idem point(1) by simp
    next
      case False
      then have len: "1 \<le> length f" by (cases f) auto
      have "0 < minor_of w f \<longleftrightarrow> positive_number s"
        using minor_of_facts [OF w(1) point(3) w(4)] point(1) by blast
      then show ?thesis
        using idem parse_point [OF w(1) point(3) w(2) len w(4)] regex_point [OF w(1) point(3) w(2)] len
          bound [OF w(1) point(3) w(4) w(3)] w(4) unfolding point(1)
        by (auto simp: amountSchema_def)
    qed
  qed
qed

lemma typed_amount_is_valid_witness:
  "sanitizeAmount ''$1,250.755'' = ''1250.75'' \<and> sanitizeAmount ''1250.75'' = ''1250.75''"
proof -
  have eq: "sanitizeAmount ''$1,250.755'' = ''1250.75''" by code_simp
  then show ?thesis using typed_amount_is_valid [of "''1250.75''" "''$1,250.755''"] by simp
qed

text \<open>C34: an amount survives printing and parsing. The two-decimal text of a positive amount parses
  back to that amount, to the cent.\<close>

theorem amount_roundtrip:
  assumes "0 < n"
  shows "parseAmountToMinor (to_fixed2 n) = Some (nat n)"
proof -
  define k where "k = nat n"
  define f where "f = (if k mod 100 < 10 then ''0'' else []) @ show_nat (k mod 100)"
  note w = show_nat_digits [of "k div 100"]
  note c = show_nat_digits [of "k mod 100"]
  have f: "all_digits f" "length f = 2" "digits_val f = k mod 100"
    using c zero_is_digit digits_val_less [of "show_nat (k mod 100)"]
    by (auto simp: f_def all_digits_def digits_val_Cons digit_val_def length_Suc_conv numeral_2_eq_2 le_Suc_eq)
  have "minor_of (show_nat (k div 100)) f = k" using w f(2,3) by (simp add: minor_of_def pad_end_def)
  moreover have "to_fixed2 n = show_nat (k div 100) @ CHR ''.'' # f"
    using assms by (simp add: to_fixed2_def k_def f_def Let_def)
  moreover have "0 < k" using assms by (simp add: k_def)
  ultimately show ?thesis using parse_point [OF _ f(1)] w f(2) by (simp add: k_def)
qed

lemma amount_roundtrip_witness: "parseAmountToMinor (to_fixed2 125007) = Some 125007"
  using amount_roundtrip [of 125007] by simp


section \<open>Codes and keys\<close>

lemma handle_char_lower: "is_handle_char c \<Longrightarrow> lower_char c = c"
  by (auto simp: is_handle_char_def is_lower_def is_digit_def lower_char_def less_eq_char_def)

lemma handle_lower: "handle_regex h \<Longrightarrow> to_lower h = h"
  by (cases h) (auto simp: handle_regex_def to_lower_def list_all_iff map_idI handle_char_lower is_handle_char_def)

text \<open>A QR code carries exactly one handle. The code of a handle scans back to it, and whatever
  is scanned yields nothing or a well-formed handle, whose code would scan to the same.\<close>

theorem qr_roundtrip:
  "(\<forall>h. handle_regex h \<longrightarrow> parseQr (encodeQr h) = Some h) \<and>
   (\<forall>scanned h. parseQr scanned = Some h \<longrightarrow> handle_regex h \<and> parseQr (encodeQr h) = Some h)"
proof -
  have enc: "parseQr (encodeQr h) = Some h" if "handle_regex h" for h
    using that handle_lower [OF that] by (simp add: parseQr_def encodeQr_def starts_with_def)
  moreover have "handle_regex h" if "parseQr scanned = Some h" for scanned h
    using that by (auto simp: parseQr_def Let_def split: if_splits)
  ultimately show ?thesis by blast
qed

lemma qr_roundtrip_witness: "parseQr (encodeQr ''alice_01'') = Some ''alice_01''"
proof -
  have "handle_regex ''alice_01''" by code_simp
  then show ?thesis using qr_roundtrip by blast
qed

lemma or_tables:
  "list_all (\<lambda>k. or k 64 = k + 64) [0..<16::nat]" "list_all (\<lambda>k. or k 128 = k + 128) [0..<64::nat]"
  by code_simp+

lemma or_high_bit: "or (n mod 16) 64 = n mod 16 + 64" "or (n mod 64) 128 = n mod 64 + 128" for n :: nat
  using or_tables by (auto simp: list_all_iff)

lemma and_low_bits: "and n 15 = n mod 16" "and n 63 = n mod 64" for n :: nat
proof -
  have "and n (mask 4) = n mod 16" "and n (mask 6) = n mod 64"
    by (simp_all flip: take_bit_eq_mask add: take_bit_eq_mod)
  then show "and n 15 = n mod 16" "and n 63 = n mod 64" by (simp_all add: mask_eq_exp_minus_1)
qed

lemma version_byte: "unat (or (and x 0x0f) 0x40) = unat x mod 16 + 64"
  and variant_byte: "unat (or (and x 0x3f) 0x80) = unat x mod 64 + 128" for x :: "8 word"
  by (simp_all add: unsigned_or_eq unsigned_and_eq and_low_bits or_high_bit)

lemma length_hex: "length (concat (map hex_byte bs)) = 2 * length bs"
  by (induction bs) (simp_all add: hex_byte_def)

lemma nth_hex: "i < length bs \<Longrightarrow> concat (map hex_byte bs) ! (2 * i) = hex_digit (unat (bs ! i) div 16)"
proof (induction bs arbitrary: i)
  case (Cons b bs)
  then show ?case by (cases i) (simp_all add: hex_byte_def)
qed simp

text \<open>The generated key is a version-4 UUID: 36 characters, version 4, variant 8 to b.\<close>

lemma uuid_v4:
  assumes "length b = 16"
  shows "length (uuid_text b) = 36 \<and> uuid_text b ! 14 = CHR ''4'' \<and> uuid_text b ! 19 \<in> set ''89ab''
     \<and> (\<forall>i \<in> {8, 13, 18, 23}. uuid_text b ! i = CHR ''-'')"
proof -
  define h where "h = concat (map hex_byte (uuid_bytes b))"
  have len: "length (uuid_bytes b) = 16" "length h = 32"
    using assms by (simp_all add: h_def uuid_bytes_def Let_def length_hex)
  have layout: "uuid_text b = take 8 h @ ''-'' @ take 4 (drop 8 h) @ ''-'' @ take 4 (drop 12 h) @ ''-'' @
      take 4 (drop 16 h) @ ''-'' @ drop 20 h"
    by (simp add: uuid_text_def h_def Let_def)
  have "h ! 12 = hex_digit (unat (uuid_bytes b ! 6) div 16)" "h ! 16 = hex_digit (unat (uuid_bytes b ! 8) div 16)"
    using nth_hex [of 6 "uuid_bytes b"] nth_hex [of 8 "uuid_bytes b"] len(1) by (simp_all add: h_def)
  moreover have "unat (uuid_bytes b ! 6) = unat (b ! 6) mod 16 + 64" "unat (uuid_bytes b ! 8) = unat (b ! 8) mod 64 + 128"
    using assms by (simp_all add: uuid_bytes_def Let_def version_byte variant_byte)
  moreover have "(n mod 16 + 64) div 16 = 4" "(n mod 64 + 128) div 16 = 8 + n mod 64 div 16" for n :: nat
    using div_mult_self1 [of 16 "n mod 16" 4] div_mult_self1 [of 16 "n mod 64" 8] by simp_all
  ultimately have "h ! 12 = hex_digit 4" "h ! 16 = hex_digit (8 + unat (b ! 8) mod 64 div 16)"
    by simp_all
  moreover have "unat (b ! 8) mod 64 div 16 \<in> {0, 1, 2, 3}" by auto
  ultimately have "h ! 12 = CHR ''4''" "h ! 16 \<in> set ''89ab''"
    by (auto simp: hex_digit_def)
  then show ?thesis using len(2) by (simp add: layout nth_append)
qed

text \<open>Between two resets every submit of a form sends the same key.\<close>

lemma key_is_stable:
  "key_get fresh r = (k, r') \<Longrightarrow> key_get fresh' r' = (k, r') \<and> key_get fresh' (key_reset r') = (fresh', Some fresh')"
  by (auto simp: key_get_def key_reset_def split: option.splits)

end
