(* ===== verification/HttpErrors.thy ===== *)
theory HttpErrors
  imports Queue
begin

text \<open>
  How an error leaves the API and reaches a person: \<open>common/http-error.ts\<close> maps a thrown value to
  the one error body, \<open>common/http-exception.filter.ts\<close> writes it (and reports what is a fault of
  the server), the BFF's \<open>lib/api/proxy.ts\<close> forwards it, and \<open>lib/api/client.ts\<close> of both web
  apps reads it back in the browser. The text of a JSON body is abstracted to its value; \<open>BadJson\<close>
  is a text that does not parse.
\<close>

section \<open>The error body\<close>

record error_body =
  eb_statusCode :: nat
  eb_code :: string
  eb_message :: string
  eb_details :: "string list option"
  eb_path :: string
  eb_timestamp :: string

definition CODE_BY_STATUS :: "(nat \<times> string) list" where
  "CODE_BY_STATUS = [(400, ''BAD_REQUEST''), (401, ''UNAUTHORIZED''), (403, ''FORBIDDEN''),
     (404, ''NOT_FOUND''), (409, ''CONFLICT''), (429, ''TOO_MANY_REQUESTS''), (500, ''INTERNAL_ERROR'')]"

definition codeFor :: "nat \<Rightarrow> string" where
  "codeFor status =
     (case map_of CODE_BY_STATUS status of Some c \<Rightarrow> c | None \<Rightarrow> ''HTTP_'' @ show_nat status)"

text \<open>\<open>details.join('; ')\<close>\<close>

fun join_with :: "string \<Rightarrow> string list \<Rightarrow> string" where
  "join_with sep [] = []"
| "join_with sep [s] = s"
| "join_with sep (s # t # ts) = s @ sep @ join_with sep (t # ts)"

definition toErrorBody :: "exn \<Rightarrow> string \<Rightarrow> int \<Rightarrow> error_body" where
  "toErrorBody e path t =
     (let body = (\<lambda>st c m det. \<lparr>eb_statusCode = st, eb_code = c, eb_message = m, eb_details = det,
                    eb_path = path, eb_timestamp = iso_string t\<rparr>)
      in case e of
        HttpException st res msg \<Rightarrow>
          (let raw = (case res of RespText s \<Rightarrow> Some (MsgOne s) | RespObj c m \<Rightarrow> m);
               code = (case res of RespText s \<Rightarrow> None | RespObj c m \<Rightarrow> c)
           in case raw of
                Some (MsgMany details) \<Rightarrow>
                  body st (case code of Some c \<Rightarrow> c | None \<Rightarrow> ''VALIDATION_FAILED'')
                    (join_with ''; '' details) (Some details)
              | Some (MsgOne m) \<Rightarrow>
                  body st (case code of Some c \<Rightarrow> c | None \<Rightarrow> codeFor st) (if m = [] then msg else m) None
              | None \<Rightarrow> body st (case code of Some c \<Rightarrow> c | None \<Rightarrow> codeFor st) msg None)
      | PrismaKnown k \<Rightarrow>
          if k = ''P2025'' then body 404 ''NOT_FOUND'' ''Record not found'' None
          else if k = ''P2002'' then body 409 ''CONFLICT'' ''Already exists'' None
          else body 500 ''INTERNAL_ERROR'' ''Internal server error'' None
      | OtherError m \<Rightarrow> body 500 ''INTERNAL_ERROR'' ''Internal server error'' None)"

section \<open>The filter\<close>

datatype wire_body = NoBody | BadJson | JsonBody jval

record http_reply_msg =
  hm_status :: nat
  hm_contentType :: "string option"
  hm_body :: wire_body

definition details_json :: "string list option \<Rightarrow> (string \<times> jval) list" where
  "details_json det = (case det of None \<Rightarrow> [] | Some ds \<Rightarrow> [(''details'', JArr (map JStr ds))])"

definition error_json :: "error_body \<Rightarrow> jval" where
  "error_json b = JObj ([(''statusCode'', JNum (of_nat (eb_statusCode b))), (''code'', JStr (eb_code b)),
     (''message'', JStr (eb_message b))] @ details_json (eb_details b) @
     [(''path'', JStr (eb_path b)), (''timestamp'', JStr (eb_timestamp b))])"

text \<open>What the filter tells the operators: a log line with the error's own text, and a Sentry event.\<close>

record ops_report =
  or_errors :: "(string \<times> exn) list"
  or_captured :: "(exn \<times> string \<times> string) list"

datatype host = HttpHost "string option" string | WsHost

datatype caught = HttpReply http_reply_msg | WsHandled exn

definition filter_catch :: "exn \<Rightarrow> host \<Rightarrow> int \<Rightarrow> ops_report \<Rightarrow> caught \<times> ops_report" where
  "filter_catch e h t ops =
     (case h of
        WsHost \<Rightarrow> (WsHandled e, ops)
      | HttpHost originalUrl url \<Rightarrow>
          (let b = toErrorBody e (case originalUrl of Some u \<Rightarrow> u | None \<Rightarrow> url) t;
               ops' = (if 500 \<le> eb_statusCode b
                       then ops\<lparr>or_errors := or_errors ops @ [(eb_code b @ '' '' @ eb_path b, e)],
                                or_captured := or_captured ops @ [(e, eb_path b, eb_code b)]\<rparr>
                       else ops)
           in (HttpReply \<lparr>hm_status = eb_statusCode b, hm_contentType = Some ''application/json'',
                          hm_body = JsonBody (error_json b)\<rparr>, ops')))"

section \<open>The web apps\<close>

text \<open>\<open>proxy\<close>: the API's status, body and content type, forwarded as they are.\<close>

definition bff_proxy :: "http_reply_msg \<Rightarrow> http_reply_msg" where
  "bff_proxy r = \<lparr>hm_status = hm_status r,
     hm_contentType = (if hm_body r = NoBody then None
        else Some (case hm_contentType r of Some ct \<Rightarrow> ct | None \<Rightarrow> ''application/json'')),
     hm_body = hm_body r\<rparr>"

record api_error =
  ap_status :: nat
  ap_code :: string
  ap_message :: string
  ap_details :: "jval list option"

datatype api_result = ApiOk nat jval | ApiFailed api_error

definition GENERIC :: string where "GENERIC = ''Something went wrong. Please try again.''"

definition res_ok :: "nat \<Rightarrow> bool" where
  "res_ok status \<longleftrightarrow> 200 \<le> status \<and> status \<le> 299"

definition env_string :: "string \<Rightarrow> jval \<Rightarrow> string option" where
  "env_string k v = (case jget k v of Some (JStr s) \<Rightarrow> Some s | _ \<Rightarrow> None)"

text \<open>\<open>apiRequest\<close>; \<open>None\<close> is a \<open>fetch\<close> that throws. It is the same file in both apps.\<close>

definition apiRequest :: "http_reply_msg option \<Rightarrow> api_result" where
  "apiRequest reply =
     (case reply of
        None \<Rightarrow> ApiFailed \<lparr>ap_status = 0, ap_code = ''NETWORK'',
                  ap_message = ''Check your connection and try again.'', ap_details = None\<rparr>
      | Some r \<Rightarrow>
          (let body = (case hm_body r of JsonBody v \<Rightarrow> v | NoBody \<Rightarrow> JNull | BadJson \<Rightarrow> JNull)
           in if res_ok (hm_status r) then ApiOk (hm_status r) body
              else ApiFailed \<lparr>ap_status = hm_status r,
                ap_code = (case env_string ''code'' body of Some c \<Rightarrow> c
                           | None \<Rightarrow> ''HTTP_'' @ show_nat (hm_status r)),
                ap_message = (case env_string ''message'' body of Some m \<Rightarrow> m | None \<Rightarrow> GENERIC),
                ap_details = (case jget ''details'' body of Some (JArr ds) \<Rightarrow> Some ds | _ \<Rightarrow> None)\<rparr>))"

record toast_msg =
  tm_text :: string
  tm_description :: "string option"

definition toastApiError :: "api_error \<Rightarrow> (string \<times> string) list \<Rightarrow> toast_msg" where
  "toastApiError e overrides =
     \<lparr>tm_text = (case map_of overrides (ap_code e) of Some s \<Rightarrow> s
                 | None \<Rightarrow> (case map_of overrides (''HTTP_'' @ show_nat (ap_status e)) of
                              Some s \<Rightarrow> s | None \<Rightarrow> ap_message e)),
      tm_description = (case ap_details e of None \<Rightarrow> None
         | Some ds \<Rightarrow> if ds = [] then None
                      else Some (join_with '' '' (map (\<lambda>d. case d of JStr s \<Rightarrow> s | _ \<Rightarrow> []) ds)))\<rparr>"

section \<open>Properties\<close>

definition internal_body :: "string \<Rightarrow> int \<Rightarrow> error_body" where
  "internal_body path t = \<lparr>eb_statusCode = 500, eb_code = ''INTERNAL_ERROR'',
     eb_message = ''Internal server error'', eb_details = None, eb_path = path, eb_timestamp = iso_string t\<rparr>"

lemma toErrorBody_other: "toErrorBody (OtherError m) path t = internal_body path t"
  by (simp only: toErrorBody_def internal_body_def Let_def exn.case)

lemma toErrorBody_prisma:
  "k \<notin> {''P2025'', ''P2002''} \<Longrightarrow> toErrorBody (PrismaKnown k) path t = internal_body path t"
  by (simp only: toErrorBody_def internal_body_def Let_def exn.case insert_iff empty_iff simp_thms if_False de_Morgan_disj)

lemma filter_http:
  "fst (filter_catch e (HttpHost None url) t ops) = HttpReply \<lparr>hm_status = eb_statusCode (toErrorBody e url t),
     hm_contentType = Some ''application/json'', hm_body = JsonBody (error_json (toErrorBody e url t))\<rparr>"
  by (simp only: filter_catch_def Let_def host.case option.case fst_conv)

lemma filter_quiet: "eb_statusCode (toErrorBody e url t) < 500 \<Longrightarrow> snd (filter_catch e (HttpHost None url) t ops) = ops"
  by (simp add: filter_catch_def Let_def)

lemma filter_loud:
  "500 \<le> eb_statusCode (toErrorBody e url t) \<Longrightarrow> or_errors (snd (filter_catch e (HttpHost None url) t ops)) =
     or_errors ops @ [(eb_code (toErrorBody e url t) @ '' '' @ eb_path (toErrorBody e url t), e)]"
  by (simp add: filter_catch_def Let_def)

definition opaque_reply :: "string \<Rightarrow> int \<Rightarrow> caught" where
  "opaque_reply url t = HttpReply \<lparr>hm_status = 500, hm_contentType = Some ''application/json'',
     hm_body = JsonBody (error_json (internal_body url t))\<rparr>"

lemma internal_body_status: "eb_statusCode (internal_body url t) = 500" "eb_code (internal_body url t) = ''INTERNAL_ERROR''"
  "eb_path (internal_body url t) = url"
  by (simp_all add: internal_body_def)

text \<open>A fault of the server tells the client nothing. An error that is not one of Nest's
  exceptions and not one of the two expected database errors leaves the API as the same fixed 500
  body whatever its text was, and its text goes to the operators instead; errors below 500 are not
  reported to them.\<close>

theorem internal_errors_are_opaque:
  "\<exists>body. (\<forall>m. fst (filter_catch (OtherError m) (HttpHost None url) t ops) = body)
     \<and> (\<forall>k. k \<notin> {''P2025'', ''P2002''} \<longrightarrow> fst (filter_catch (PrismaKnown k) (HttpHost None url) t ops) = body)
     \<and> (\<forall>m. or_errors (snd (filter_catch (OtherError m) (HttpHost None url) t ops)) =
            or_errors ops @ [(''INTERNAL_ERROR '' @ url, OtherError m)])
     \<and> (\<forall>e. eb_statusCode (toErrorBody e url t) < 500 \<longrightarrow> snd (filter_catch e (HttpHost None url) t ops) = ops)"
proof (intro exI conjI allI impI)
  show "fst (filter_catch (OtherError m) (HttpHost None url) t ops) = opaque_reply url t" for m
    by (simp only: filter_http toErrorBody_other opaque_reply_def internal_body_status)
  show "fst (filter_catch (PrismaKnown k) (HttpHost None url) t ops) = opaque_reply url t"
    if "k \<notin> {''P2025'', ''P2002''}" for k
    by (simp only: filter_http toErrorBody_prisma [OF that] opaque_reply_def internal_body_status)
  show "or_errors (snd (filter_catch (OtherError m) (HttpHost None url) t ops)) =
      or_errors ops @ [(''INTERNAL_ERROR '' @ url, OtherError m)]" for m
    using filter_loud [of "OtherError m" url t ops] by (simp add: toErrorBody_other internal_body_status)
  show "snd (filter_catch e (HttpHost None url) t ops) = ops" if "eb_statusCode (toErrorBody e url t) < 500" for e
    using that by (rule filter_quiet)
qed

lemma demo_codes: "''P1001'' \<notin> {''P2025'', ''P2002''}"
  by simp

lemma internal_errors_are_opaque_witness:
  "fst (filter_catch (OtherError ''password=hunter2'') (HttpHost None ''/wallets'') 0 \<lparr>or_errors = [], or_captured = []\<rparr>) =
   fst (filter_catch (PrismaKnown ''P1001'') (HttpHost None ''/wallets'') 0 \<lparr>or_errors = [], or_captured = []\<rparr>)"
proof -
  obtain body where "\<forall>m. fst (filter_catch (OtherError m) (HttpHost None ''/wallets'') 0 \<lparr>or_errors = [], or_captured = []\<rparr>) = body"
    "\<forall>k. k \<notin> {''P2025'', ''P2002''} \<longrightarrow>
       fst (filter_catch (PrismaKnown k) (HttpHost None ''/wallets'') 0 \<lparr>or_errors = [], or_captured = []\<rparr>) = body"
    using internal_errors_are_opaque by blast
  then show ?thesis by (metis demo_codes)
qed

definition wire :: "exn \<Rightarrow> string \<Rightarrow> int \<Rightarrow> ops_report \<Rightarrow> http_reply_msg option" where
  "wire e url t ops = (case fst (filter_catch e (HttpHost None url) t ops) of
     HttpReply r \<Rightarrow> Some (bff_proxy r) | WsHandled x \<Rightarrow> None)"

text \<open>C35: what the API says is what the browser reads. An error thrown in a handler, written by the
  filter, forwarded by the BFF and parsed by \<open>apiRequest\<close> arrives with its status, code, message
  and validation details.\<close>

theorem client_reads_what_api_sent:
  assumes "b = toErrorBody e url t" and "\<not> res_ok (eb_statusCode b)"
  shows "apiRequest (wire e url t ops) =
    ApiFailed \<lparr>ap_status = eb_statusCode b, ap_code = eb_code b, ap_message = eb_message b,
      ap_details = map_option (map JStr) (eb_details b)\<rparr>"
proof -
  have wire: "wire e url t ops = Some \<lparr>hm_status = eb_statusCode b, hm_contentType = Some ''application/json'',
      hm_body = JsonBody (error_json b)\<rparr>"
    by (simp add: wire_def filter_http bff_proxy_def assms(1))
  have "env_string ''code'' (error_json b) = Some (eb_code b)" "env_string ''message'' (error_json b) = Some (eb_message b)"
    "jget ''details'' (error_json b) = map_option (\<lambda>ds. JArr (map JStr ds)) (eb_details b)"
    by (simp_all add: env_string_def error_json_def jget_def details_json_def split: option.splits)
  then show ?thesis using assms(2) by (simp add: wire apiRequest_def split: option.splits)
qed

lemma client_reads_what_api_sent_witness:
  "apiRequest (wire (HttpException 400 (RespObj None (Some (MsgMany [''amount must not be less than 1'']))) []) ''/w'' 0
      \<lparr>or_errors = [], or_captured = []\<rparr>) =
   ApiFailed \<lparr>ap_status = 400, ap_code = ''VALIDATION_FAILED'', ap_message = ''amount must not be less than 1'',
     ap_details = Some [JStr ''amount must not be less than 1'']\<rparr>"
  by (subst client_reads_what_api_sent [OF refl]) (simp_all add: toErrorBody_def res_ok_def)

end
