(* ===== verification/Bff.thy ===== *)
theory Bff
  imports HttpErrors Auth Inputs
begin

text \<open>
  The two Next.js servers between the browser and the API (their backends for frontends): the
  session cookies (\<open>lib/auth\<close>), the proxy that runs before every page (\<open>proxy.ts\<close>), the calls to
  the API with their silent refresh (\<open>lib/api/server.ts\<close>) and the route handlers under
  \<open>app/api\<close>. \<open>customer_\<close> and \<open>console_\<close> name the app where the two differ. The API is any
  state transformer that answers a call or cannot be reached.
\<close>

section \<open>Calls\<close>

record api_call =
  cq_method :: string
  cq_path :: string
  cq_headers :: "(string \<times> string) list"
  cq_body :: "jval option"

type_synonym 's fetch = "api_call \<Rightarrow> 's \<Rightarrow> http_reply_msg option \<times> 's"

text \<open>What \<open>fetch\<close> throws when the API cannot be reached, and what reading a bad body throws.\<close>

abbreviation FetchFailed :: exn where "FetchFailed \<equiv> OtherError ''fetch failed''"
abbreviation NotJson :: exn where "NotJson \<equiv> OtherError ''Unexpected token in JSON''"
abbreviation NoProperty :: exn where "NoProperty \<equiv> OtherError ''Cannot read properties of undefined''"

definition ok_bind :: "exn + 'a \<Rightarrow> ('a \<Rightarrow> exn + 'b) \<Rightarrow> exn + 'b" where
  "ok_bind m k = (case m of Inl e \<Rightarrow> Inl e | Inr a \<Rightarrow> k a)"

definition res_json :: "http_reply_msg \<Rightarrow> exn + jval" where
  "res_json r = (case hm_body r of JsonBody v \<Rightarrow> Inr v | NoBody \<Rightarrow> Inl NotJson | BadJson \<Rightarrow> Inl NotJson)"

text \<open>\<open>v.k\<close>: reading a property of \<open>undefined\<close> or \<open>null\<close> throws; other values just lack it.\<close>

definition prop_of :: "jval option \<Rightarrow> string \<Rightarrow> exn + jval option" where
  "prop_of v k =
     (case v of None \<Rightarrow> Inl NoProperty | Some JNull \<Rightarrow> Inl NoProperty | Some j \<Rightarrow> Inr (jget k j))"

text \<open>\<open>JSON.stringify\<close> of an object literal: properties that are \<open>undefined\<close> disappear.\<close>

definition json_obj :: "(string \<times> jval option) list \<Rightarrow> jval" where
  "json_obj kvs = JObj (List.map_filter (\<lambda>(k, v). map_option (Pair k) v) kvs)"

definition json_reply :: "nat \<Rightarrow> jval \<Rightarrow> http_reply_msg" where
  "json_reply status v = \<lparr>hm_status = status, hm_contentType = Some ''application/json'', hm_body = JsonBody v\<rparr>"

definition empty_reply :: "nat \<Rightarrow> http_reply_msg" where
  "empty_reply status = \<lparr>hm_status = status, hm_contentType = None, hm_body = NoBody\<rparr>"

definition JSON_HEADER :: "string \<times> string" where
  "JSON_HEADER = (''content-type'', ''application/json'')"

section \<open>Cookies\<close>

definition ACCESS_COOKIE :: string where "ACCESS_COOKIE = ''access_token''"
definition REFRESH_COOKIE :: string where "REFRESH_COOKIE = ''refresh_token''"
definition SESSION_USER_COOKIE :: string where "SESSION_USER_COOKIE = ''session_user''"

definition ACCESS_MAX_AGE :: int where "ACCESS_MAX_AGE = 60 * 15"
definition REFRESH_MAX_AGE :: int where "REFRESH_MAX_AGE = 60 * 60 * 24 * 7"

record cookie_opts =
  co_httpOnly :: bool
  co_secure :: bool
  co_sameSite :: string
  co_path :: string
  co_maxAge :: int

definition cookieOptions :: "bool \<Rightarrow> int \<Rightarrow> cookie_opts" where
  "cookieOptions production maxAgeSeconds =
     \<lparr>co_httpOnly = True, co_secure = production, co_sameSite = ''lax'', co_path = ''/'',
      co_maxAge = maxAgeSeconds\<rparr>"

text \<open>
  A cookie's text is either the JSON text of a value or one that is not JSON. Tokens are of the
  second kind; read as a token, a JSON text is just some text that no API call accepts.
\<close>

datatype cookie_text = CkText string | CkJson jval

record cookie =
  ck_text :: cookie_text
  ck_opts :: cookie_opts
  ck_expires :: int

type_synonym jar = "string \<rightharpoonup> cookie"

definition cookie_set :: "int \<Rightarrow> string \<Rightarrow> cookie_text \<Rightarrow> cookie_opts \<Rightarrow> jar \<Rightarrow> jar" where
  "cookie_set t name v opts jar =
     jar(name \<mapsto> \<lparr>ck_text = v, ck_opts = opts, ck_expires = t + 1000 * co_maxAge opts\<rparr>)"

definition cookie_get :: "int \<Rightarrow> string \<Rightarrow> jar \<Rightarrow> cookie_text option" where
  "cookie_get t name jar =
     (case jar name of None \<Rightarrow> None | Some c \<Rightarrow> if t < ck_expires c then Some (ck_text c) else None)"

definition cookie_has :: "int \<Rightarrow> string \<Rightarrow> jar \<Rightarrow> bool" where
  "cookie_has t name jar \<longleftrightarrow> cookie_get t name jar \<noteq> None"

definition raw_text :: "cookie_text \<Rightarrow> string" where
  "raw_text c = (case c of CkText s \<Rightarrow> s | CkJson v \<Rightarrow> ''{}'')"

definition token_cookie :: "int \<Rightarrow> string \<Rightarrow> jar \<Rightarrow> string option" where
  "token_cookie t name jar = map_option raw_text (cookie_get t name jar)"

text \<open>A token pair as the API sends it; a missing field would be stored as \<open>undefined\<close>.\<close>

definition field_text :: "jval option \<Rightarrow> string" where
  "field_text v = (case v of Some (JStr s) \<Rightarrow> s | _ \<Rightarrow> ''undefined'')"

definition token_pair :: "jval option \<Rightarrow> exn + string \<times> string" where
  "token_pair v =
     (case (prop_of v ''accessToken'', prop_of v ''refreshToken'') of
        (Inr a, Inr r) \<Rightarrow> Inr (field_text a, field_text r)
      | _ \<Rightarrow> Inl NoProperty)"

definition read_tokens :: "http_reply_msg \<Rightarrow> exn + string \<times> string" where
  "read_tokens r = ok_bind (res_json r) (\<lambda>v. token_pair (Some v))"

definition setTokens :: "bool \<Rightarrow> int \<Rightarrow> string \<times> string \<Rightarrow> jar \<Rightarrow> jar" where
  "setTokens secure t tk jar =
     cookie_set t REFRESH_COOKIE (CkText (snd tk)) (cookieOptions secure REFRESH_MAX_AGE)
       (cookie_set t ACCESS_COOKIE (CkText (fst tk)) (cookieOptions secure ACCESS_MAX_AGE) jar)"

definition setAuthCookies :: "bool \<Rightarrow> int \<Rightarrow> jval option \<Rightarrow> string \<times> string \<Rightarrow> jar \<Rightarrow> jar" where
  "setAuthCookies secure t user tk jar =
     cookie_set t SESSION_USER_COOKIE
       (case user of None \<Rightarrow> CkText ''undefined'' | Some v \<Rightarrow> CkJson v) (cookieOptions secure REFRESH_MAX_AGE)
       (setTokens secure t tk jar)"

definition refreshAuthCookies :: "bool \<Rightarrow> int \<Rightarrow> string \<times> string \<Rightarrow> jar \<Rightarrow> jar" where
  "refreshAuthCookies secure t tk jar = setTokens secure t tk jar"

definition clearAuthCookies :: "jar \<Rightarrow> jar" where
  "clearAuthCookies jar = jar(ACCESS_COOKIE := None, REFRESH_COOKIE := None, SESSION_USER_COOKIE := None)"

definition getSessionUser :: "int \<Rightarrow> jar \<Rightarrow> jval option" where
  "getSessionUser t jar =
     (case cookie_get t SESSION_USER_COOKIE jar of
        None \<Rightarrow> None | Some (CkText s) \<Rightarrow> None | Some (CkJson v) \<Rightarrow> Some v)"

section \<open>Before every page\<close>

datatype edge_reply = EdgeNext | EdgeRedirect string

definition refresh_call :: "string \<Rightarrow> api_call" where
  "refresh_call refreshToken =
     \<lparr>cq_method = ''POST'', cq_path = ''/auth/refresh'', cq_headers = [JSON_HEADER],
      cq_body = Some (JObj [(''refreshToken'', JStr refreshToken)])\<rparr>"

definition is_public :: "string list \<Rightarrow> string \<Rightarrow> bool" where
  "is_public paths pathname \<longleftrightarrow> list_ex (\<lambda>p. pathname = p \<or> starts_with pathname (p @ ''/'')) paths"

text \<open>The pages \<open>config.matcher\<close> leaves to the proxy: every path but those with these beginnings.\<close>

definition edge_runs :: "string list \<Rightarrow> string \<Rightarrow> bool" where
  "edge_runs excluded pathname \<longleftrightarrow>
     starts_with pathname ''/'' \<and> \<not> list_ex (starts_with (drop 1 pathname)) excluded"

definition customer_excluded :: "string list" where
  "customer_excluded = [''api'', ''_next/static'', ''_next/image'', ''favicon.ico'', ''manifest.webmanifest'',
     ''icon.svg'', ''apple-icon.png'', ''icons/'', ''sw.js'']"

definition console_excluded :: "string list" where
  "console_excluded = [''api'', ''_next/static'', ''_next/image'', ''favicon.ico'']"

definition customer_public :: "string list" where "customer_public = [''/login'', ''/signup'']"
definition console_public :: "string list" where "console_public = [''/login'']"

text \<open>The two refreshes: the customer app ends a session on 401 and 403 only.\<close>

definition customer_refreshAtEdge ::
  "'s fetch \<Rightarrow> bool \<Rightarrow> int \<Rightarrow> string \<Rightarrow> jar \<Rightarrow> 's \<Rightarrow> (exn + edge_reply) \<times> jar \<times> 's" where
  "customer_refreshAtEdge api secure t refreshToken jar s =
     (case api (refresh_call refreshToken) s of
        (None, s') \<Rightarrow> (Inr EdgeNext, jar, s')
      | (Some r, s') \<Rightarrow>
          if hm_status r = 401 \<or> hm_status r = 403
          then (Inr (EdgeRedirect ''/login''), clearAuthCookies jar, s')
          else if \<not> res_ok (hm_status r) then (Inr EdgeNext, jar, s')
          else case read_tokens r of
                 Inl e \<Rightarrow> (Inl e, jar, s')
               | Inr tk \<Rightarrow> (Inr EdgeNext, setTokens secure t tk jar, s'))"

text \<open>The console ends it on every refused refresh, and a failed call is an error page.\<close>

definition console_refreshAtEdge ::
  "'s fetch \<Rightarrow> bool \<Rightarrow> int \<Rightarrow> string \<Rightarrow> jar \<Rightarrow> 's \<Rightarrow> (exn + edge_reply) \<times> jar \<times> 's" where
  "console_refreshAtEdge api secure t refreshToken jar s =
     (case api (refresh_call refreshToken) s of
        (None, s') \<Rightarrow> (Inl FetchFailed, jar, s')
      | (Some r, s') \<Rightarrow>
          if \<not> res_ok (hm_status r) then (Inr (EdgeRedirect ''/login''), clearAuthCookies jar, s')
          else case read_tokens r of
                 Inl e \<Rightarrow> (Inl e, jar, s')
               | Inr tk \<Rightarrow> (Inr EdgeNext, setTokens secure t tk jar, s'))"

text \<open>\<open>proxy\<close>, on the requests the matcher selects: it looks at which cookies are there, never into them.\<close>

definition edge_proxy ::
  "string list \<Rightarrow> (string \<Rightarrow> jar \<Rightarrow> 's \<Rightarrow> (exn + edge_reply) \<times> jar \<times> 's)
     \<Rightarrow> int \<Rightarrow> string \<Rightarrow> jar \<Rightarrow> 's \<Rightarrow> (exn + edge_reply) \<times> jar \<times> 's" where
  "edge_proxy public refreshAtEdge t pathname jar s =
     (let isPublic = is_public public pathname;
          hasSession = cookie_has t SESSION_USER_COOKIE jar;
          hasAccess = cookie_has t ACCESS_COOKIE jar;
          refreshToken = token_cookie t REFRESH_COOKIE jar
      in if hasSession \<and> isPublic then (Inr (EdgeRedirect ''/''), jar, s)
         else if \<not> hasSession \<and> \<not> isPublic then (Inr (EdgeRedirect ''/login''), jar, s)
         else if hasSession \<and> \<not> isPublic \<and> \<not> hasAccess \<and> given refreshToken
         then refreshAtEdge (the refreshToken) jar s
         else (Inr EdgeNext, jar, s))"

definition customer_proxy ::
  "'s fetch \<Rightarrow> bool \<Rightarrow> int \<Rightarrow> string \<Rightarrow> jar \<Rightarrow> 's \<Rightarrow> (exn + edge_reply) \<times> jar \<times> 's" where
  "customer_proxy api secure t = edge_proxy customer_public (customer_refreshAtEdge api secure t) t"

definition console_proxy ::
  "'s fetch \<Rightarrow> bool \<Rightarrow> int \<Rightarrow> string \<Rightarrow> jar \<Rightarrow> 's \<Rightarrow> (exn + edge_reply) \<times> jar \<times> 's" where
  "console_proxy api secure t = edge_proxy console_public (console_refreshAtEdge api secure t) t"

section \<open>Calling the API\<close>

definition callWithToken :: "string option \<Rightarrow> api_call \<Rightarrow> api_call" where
  "callWithToken token c =
     (if given token then c\<lparr>cq_headers := cq_headers c @ [(''authorization'', ''Bearer '' @ the token)]\<rparr> else c)"

definition serverApi :: "'s fetch \<Rightarrow> int \<Rightarrow> api_call \<Rightarrow> jar \<Rightarrow> 's \<Rightarrow> (exn + http_reply_msg) \<times> 's" where
  "serverApi api t c jar s =
     (case api (callWithToken (token_cookie t ACCESS_COOKIE jar) c) s of
        (None, s') \<Rightarrow> (Inl FetchFailed, s') | (Some r, s') \<Rightarrow> (Inr r, s'))"

definition GET_call :: "string \<Rightarrow> api_call" where
  "GET_call path = \<lparr>cq_method = ''GET'', cq_path = path, cq_headers = [], cq_body = None\<rparr>"

definition serverApiJson :: "'s fetch \<Rightarrow> int \<Rightarrow> string \<Rightarrow> jval \<Rightarrow> jar \<Rightarrow> 's \<Rightarrow> jval \<times> 's" where
  "serverApiJson api t path fallback jar s =
     (case serverApi api t (GET_call path) jar s of
        (Inl e, s') \<Rightarrow> (fallback, s')
      | (Inr r, s') \<Rightarrow>
          if res_ok (hm_status r)
          then (case res_json r of Inl e \<Rightarrow> (fallback, s') | Inr v \<Rightarrow> (v, s'))
          else (fallback, s'))"

text \<open>
  \<open>serverApiWithRefresh\<close>: a 401 is answered by one refresh and one retry with the fresh token. The
  two apps differ in what a failed refresh does to the cookies.
\<close>

type_synonym 's served = "(exn + http_reply_msg) \<times> jar \<times> 's"

definition retry_with ::
  "'s fetch \<Rightarrow> bool \<Rightarrow> int \<Rightarrow> api_call \<Rightarrow> http_reply_msg \<Rightarrow> jar \<Rightarrow> 's \<Rightarrow> 's served" where
  "retry_with api secure t c refreshed jar s =
     (case read_tokens refreshed of
        Inl e \<Rightarrow> (Inl e, jar, s)
      | Inr tk \<Rightarrow>
          (case api (callWithToken (Some (fst tk)) c) s of
             (None, s') \<Rightarrow> (Inl FetchFailed, refreshAuthCookies secure t tk jar, s')
           | (Some r, s') \<Rightarrow> (Inr r, refreshAuthCookies secure t tk jar, s')))"

definition customer_serverApiWithRefresh ::
  "'s fetch \<Rightarrow> bool \<Rightarrow> int \<Rightarrow> api_call \<Rightarrow> jar \<Rightarrow> 's \<Rightarrow> 's served" where
  "customer_serverApiWithRefresh api secure t c jar s =
     (case serverApi api t c jar s of
        (Inl e, s1) \<Rightarrow> (Inl e, jar, s1)
      | (Inr first, s1) \<Rightarrow>
          if hm_status first \<noteq> 401 then (Inr first, jar, s1)
          else if \<not> given (token_cookie t REFRESH_COOKIE jar) then (Inr first, jar, s1)
          else (case api (refresh_call (the (token_cookie t REFRESH_COOKIE jar))) s1 of
                  (None, s2) \<Rightarrow> (Inr first, jar, s2)
                | (Some refreshed, s2) \<Rightarrow>
                    if hm_status refreshed = 401 \<or> hm_status refreshed = 403
                    then (Inr first, clearAuthCookies jar, s2)
                    else if \<not> res_ok (hm_status refreshed) then (Inr first, jar, s2)
                    else retry_with api secure t c refreshed jar s2))"

definition console_serverApiWithRefresh ::
  "'s fetch \<Rightarrow> bool \<Rightarrow> int \<Rightarrow> api_call \<Rightarrow> jar \<Rightarrow> 's \<Rightarrow> 's served" where
  "console_serverApiWithRefresh api secure t c jar s =
     (case serverApi api t c jar s of
        (Inl e, s1) \<Rightarrow> (Inl e, jar, s1)
      | (Inr first, s1) \<Rightarrow>
          if hm_status first \<noteq> 401 then (Inr first, jar, s1)
          else if \<not> given (token_cookie t REFRESH_COOKIE jar) then (Inr first, jar, s1)
          else (case api (refresh_call (the (token_cookie t REFRESH_COOKIE jar))) s1 of
                  (None, s2) \<Rightarrow> (Inl FetchFailed, jar, s2)
                | (Some refreshed, s2) \<Rightarrow>
                    if \<not> res_ok (hm_status refreshed) then (Inr first, clearAuthCookies jar, s2)
                    else retry_with api secure t c refreshed jar s2))"

section \<open>Signing in and out\<close>

text \<open>
  What a route handler is given: its JSON body (\<open>None\<close> when it does not parse), headers, query and
  the path parameter. A handler that throws is answered with 500 by the framework; here it is the
  thrown value.
\<close>

record route_in =
  ri_body :: "jval option"
  ri_header :: "string \<Rightarrow> string option"
  ri_query :: "string \<Rightarrow> string option"
  ri_param :: string

definition error_reply :: "nat \<Rightarrow> string \<Rightarrow> http_reply_msg" where
  "error_reply status m = json_reply status (JObj [(''error'', JStr m)])"

text \<open>\<open>JSON.stringify({ f: b.f, \<dots> })\<close> for the named fields.\<close>

fun pick :: "string list \<Rightarrow> jval option \<Rightarrow> exn + (string \<times> jval option) list" where
  "pick [] b = Inr []"
| "pick (f # fs) b = ok_bind (prop_of b f) (\<lambda>v. ok_bind (pick fs b) (\<lambda>kvs. Inr ((f, v) # kvs)))"

definition post_json :: "string \<Rightarrow> jval \<Rightarrow> api_call" where
  "post_json path v =
     \<lparr>cq_method = ''POST'', cq_path = path, cq_headers = [JSON_HEADER], cq_body = Some v\<rparr>"

text \<open>The end of every sign-in: \<open>{ user, tokens }\<close> become cookies, the user goes to the browser.\<close>

definition open_session :: "bool \<Rightarrow> int \<Rightarrow> nat \<Rightarrow> jval \<Rightarrow> jar \<Rightarrow> (exn + http_reply_msg) \<times> jar" where
  "open_session secure t status v jar =
     (case (prop_of (Some v) ''user'', prop_of (Some v) ''tokens'') of
        (Inr user, Inr tokens) \<Rightarrow>
          (case token_pair tokens of
             Inl e \<Rightarrow> (Inl e, jar)
           | Inr tk \<Rightarrow> (Inr (json_reply status (json_obj [(''user'', user)])), setAuthCookies secure t user tk jar))
      | _ \<Rightarrow> (Inl NoProperty, jar))"

definition finish_sign_in :: "bool \<Rightarrow> int \<Rightarrow> nat \<Rightarrow> http_reply_msg \<Rightarrow> jar \<Rightarrow> (exn + http_reply_msg) \<times> jar" where
  "finish_sign_in secure t status r jar =
     (case res_json r of Inl e \<Rightarrow> (Inl e, jar) | Inr v \<Rightarrow> open_session secure t status v jar)"

definition with_state :: "'s \<Rightarrow> 'a \<times> jar \<Rightarrow> 'a \<times> jar \<times> 's" where
  "with_state s x = (fst x, snd x, s)"

definition call_api :: "'s fetch \<Rightarrow> api_call \<Rightarrow> (http_reply_msg \<Rightarrow> jar \<Rightarrow> (exn + http_reply_msg) \<times> jar)
     \<Rightarrow> jar \<Rightarrow> 's \<Rightarrow> 's served" where
  "call_api api c k jar s =
     (case api c s of
        (None, s') \<Rightarrow> (Inl FetchFailed, jar, s')
      | (Some r, s') \<Rightarrow> with_state s' (k r jar))"

definition customer_login :: "'s fetch \<Rightarrow> bool \<Rightarrow> int \<Rightarrow> route_in \<Rightarrow> jar \<Rightarrow> 's \<Rightarrow> 's served" where
  "customer_login api secure t i jar s =
     (case ri_body i of
        None \<Rightarrow> (Inl NotJson, jar, s)
      | Some b \<Rightarrow>
          (case pick [''email'', ''password''] (Some b) of
             Inl e \<Rightarrow> (Inl e, jar, s)
           | Inr kvs \<Rightarrow> call_api api (post_json ''/auth/login'' (json_obj kvs)) (\<lambda>r jar.
               if \<not> res_ok (hm_status r) then
                 (if hm_status r = 403
                  then (case prop_of (Some (case res_json r of Inl e \<Rightarrow> JObj [] | Inr v \<Rightarrow> v)) ''message'' of
                          Inl e \<Rightarrow> (Inl e, jar)
                        | Inr m \<Rightarrow> (Inr (json_reply 403 (JObj [(''error'',
                            (case m of None \<Rightarrow> JStr ''This account cannot sign in.''
                             | Some JNull \<Rightarrow> JStr ''This account cannot sign in.'' | Some x \<Rightarrow> x))])), jar))
                  else (Inr (error_reply (hm_status r) ''Invalid email or password.''), jar))
               else case res_json r of
                 Inl e \<Rightarrow> (Inl e, jar)
               | Inr v \<Rightarrow>
                   (case prop_of (Some v) ''requires2fa'' of
                      Inl e \<Rightarrow> (Inl e, jar)
                    | Inr q \<Rightarrow>
                        if jtruthy q
                        then (Inr (json_reply 200 (json_obj [(''requires2fa'', Some (JBool True)),
                                (''challengeToken'', jget ''challengeToken'' v)])), jar)
                        else open_session secure t 200 v jar)) jar s))"

text \<open>The console's login knows no second step.\<close>

definition console_login :: "'s fetch \<Rightarrow> bool \<Rightarrow> int \<Rightarrow> route_in \<Rightarrow> jar \<Rightarrow> 's \<Rightarrow> 's served" where
  "console_login api secure t i jar s =
     (case ri_body i of
        None \<Rightarrow> (Inl NotJson, jar, s)
      | Some b \<Rightarrow>
          (case pick [''email'', ''password''] (Some b) of
             Inl e \<Rightarrow> (Inl e, jar, s)
           | Inr kvs \<Rightarrow> call_api api (post_json ''/auth/login'' (json_obj kvs)) (\<lambda>r jar.
               if \<not> res_ok (hm_status r)
               then (Inr (error_reply (hm_status r) ''Invalid email or password.''), jar)
               else finish_sign_in secure t 200 r jar) jar s))"

text \<open>\<open>request.json().catch(() => ({}))\<close>\<close>

definition body_or_empty :: "route_in \<Rightarrow> jval option" where
  "body_or_empty i = Some (case ri_body i of None \<Rightarrow> JObj [] | Some b \<Rightarrow> b)"

definition sign_in_step ::
  "'s fetch \<Rightarrow> bool \<Rightarrow> int \<Rightarrow> string \<Rightarrow> string list \<Rightarrow> string \<Rightarrow> route_in \<Rightarrow> jar \<Rightarrow> 's \<Rightarrow> 's served" where
  "sign_in_step api secure t path names refusal i jar s =
     (case pick names (body_or_empty i) of
        Inl e \<Rightarrow> (Inl e, jar, s)
      | Inr kvs \<Rightarrow> call_api api (post_json path (json_obj kvs)) (\<lambda>r jar.
          if \<not> res_ok (hm_status r) then (Inr (error_reply (hm_status r) refusal), jar)
          else finish_sign_in secure t 200 r jar) jar s)"

definition customer_login2fa :: "'s fetch \<Rightarrow> bool \<Rightarrow> int \<Rightarrow> route_in \<Rightarrow> jar \<Rightarrow> 's \<Rightarrow> 's served" where
  "customer_login2fa api secure t =
     sign_in_step api secure t ''/auth/login/2fa'' [''challengeToken'', ''code''] ''Invalid or expired code.''"

definition customer_passkeyLoginVerify :: "'s fetch \<Rightarrow> bool \<Rightarrow> int \<Rightarrow> route_in \<Rightarrow> jar \<Rightarrow> 's \<Rightarrow> 's served" where
  "customer_passkeyLoginVerify api secure t =
     sign_in_step api secure t ''/auth/passkeys/login/verify'' [''response'', ''challengeToken'']
       ''Passkey sign-in failed.''"

text \<open>
  Sign-up: \<open>signupSchema.safeParse\<close> must pass, and what it parsed is forwarded. A body of another
  shape fails it; the text of the first issue is the library's.
\<close>

definition signup_fields :: "jval option \<Rightarrow> register_dto option" where
  "signup_fields b =
     (case b of
        Some (JObj fs) \<Rightarrow>
          (case (jstring (jget ''email'' (JObj fs)), jstring (jget ''handle'' (JObj fs)),
                 jstring (jget ''password'' (JObj fs)), jstring (jget ''firstName'' (JObj fs)),
                 jstring (jget ''lastName'' (JObj fs))) of
             (Some e, Some h, Some p, Some f, Some l) \<Rightarrow>
               Some \<lparr>rg_email = e, rg_handle = h, rg_password = p, rg_firstName = f, rg_lastName = l\<rparr>
           | _ \<Rightarrow> None)
      | _ \<Rightarrow> None)"

definition signup_json :: "register_dto \<Rightarrow> jval" where
  "signup_json f = JObj [(''email'', JStr (rg_email f)), (''handle'', JStr (rg_handle f)),
     (''password'', JStr (rg_password f)), (''firstName'', JStr (rg_firstName f)),
     (''lastName'', JStr (rg_lastName f))]"

definition parse_signup :: "(string \<Rightarrow> bool) \<Rightarrow> jval option \<Rightarrow> register_dto option" where
  "parse_signup is_email b =
     (case signup_fields b of None \<Rightarrow> None | Some f \<Rightarrow> if signupSchema is_email f then Some f else None)"

definition customer_register ::
  "(string \<Rightarrow> bool) \<Rightarrow> (jval option \<Rightarrow> string) \<Rightarrow> 's fetch \<Rightarrow> bool \<Rightarrow> int \<Rightarrow> route_in \<Rightarrow> jar \<Rightarrow> 's \<Rightarrow> 's served" where
  "customer_register is_email issue api secure t i jar s =
     (case parse_signup is_email (ri_body i) of
        None \<Rightarrow> (Inr (json_reply 400 (JObj [(''code'', JStr ''VALIDATION_FAILED''),
                   (''message'', JStr (issue (ri_body i)))])), jar, s)
      | Some f \<Rightarrow> call_api api (post_json ''/auth/register'' (signup_json f)) (\<lambda>r jar.
          if \<not> res_ok (hm_status r) then (Inr (bff_proxy r), jar)
          else finish_sign_in secure t 201 r jar) jar s)"

text \<open>Logout: the API is told if there is a token and it can be reached; the cookies go in any case.\<close>

definition bff_logout :: "'s fetch \<Rightarrow> int \<Rightarrow> jar \<Rightarrow> 's \<Rightarrow> 's served" where
  "bff_logout api t jar s =
     (let s' = (if given (token_cookie t REFRESH_COOKIE jar)
                then snd (api (post_json ''/auth/logout''
                       (JObj [(''refreshToken'', JStr (the (token_cookie t REFRESH_COOKIE jar)))])) s)
                else s)
      in (Inr (empty_reply 204), clearAuthCookies jar, s'))"

definition console_me :: "'s fetch \<Rightarrow> int \<Rightarrow> jar \<Rightarrow> 's \<Rightarrow> 's served" where
  "console_me api t jar s =
     (if \<not> given (token_cookie t ACCESS_COOKIE jar) then (Inr (empty_reply 401), jar, s)
      else case api ((GET_call ''/auth/me'')\<lparr>cq_headers :=
             [(''Authorization'', ''Bearer '' @ the (token_cookie t ACCESS_COOKIE jar))]\<rparr>) s of
        (None, s') \<Rightarrow> (Inl FetchFailed, jar, s')
      | (Some r, s') \<Rightarrow>
          if \<not> res_ok (hm_status r) then (Inr (empty_reply (hm_status r)), jar, s')
          else (case res_json r of Inl e \<Rightarrow> (Inl e, jar, s') | Inr v \<Rightarrow> (Inr (json_reply 200 v), jar, s')))"

definition customer_passkeyLoginOptions :: "'s fetch \<Rightarrow> jar \<Rightarrow> 's \<Rightarrow> 's served" where
  "customer_passkeyLoginOptions api jar s =
     call_api api \<lparr>cq_method = ''POST'', cq_path = ''/auth/passkeys/login/options'', cq_headers = [],
       cq_body = None\<rparr> (\<lambda>r jar. (Inr (bff_proxy r), jar)) jar s"

section \<open>Routes that forward\<close>

text \<open>
  The other handlers call the API through \<open>serverApiWithRefresh\<close> of their app (\<open>srv\<close>) and
  answer with its reply or with its status alone.
\<close>

type_synonym 's server = "api_call \<Rightarrow> jar \<Rightarrow> 's \<Rightarrow> 's served"

text \<open>\<open>encodeURIComponent\<close>, on 8-bit characters.\<close>

definition unreserved :: "char \<Rightarrow> bool" where
  "unreserved c \<longleftrightarrow> is_digit c \<or> is_lower c \<or> is_lower (lower_char c) \<or> List.member ''-_.!~*'' c
     \<or> c = CHR 0x27 \<or> c = CHR ''('' \<or> c = CHR '')''"

definition encodeURIComponent :: "string \<Rightarrow> string" where
  "encodeURIComponent s =
     concat (map (\<lambda>c. if unreserved c then [c]
                      else [CHR 0x25, ''0123456789ABCDEF'' ! (of_char c div 16), ''0123456789ABCDEF'' ! (of_char c mod 16)]) s)"

definition map_reply :: "(http_reply_msg \<Rightarrow> http_reply_msg) \<Rightarrow> 's served \<Rightarrow> 's served" where
  "map_reply f x = (case x of (Inl e, jar, s) \<Rightarrow> (Inl e, jar, s) | (Inr r, jar, s) \<Rightarrow> (Inr (f r), jar, s))"

definition status_only :: "http_reply_msg \<Rightarrow> http_reply_msg" where
  "status_only r = empty_reply (hm_status r)"

definition no_content :: "http_reply_msg \<Rightarrow> http_reply_msg" where
  "no_content r = empty_reply (if res_ok (hm_status r) then 204 else hm_status r)"

definition bare :: "string \<Rightarrow> string \<Rightarrow> api_call" where
  "bare meth path = \<lparr>cq_method = meth, cq_path = path, cq_headers = [], cq_body = None\<rparr>"

definition forward_body ::
  "'s server \<Rightarrow> string \<Rightarrow> string \<Rightarrow> (string \<times> string) list \<Rightarrow> string list
     \<Rightarrow> (http_reply_msg \<Rightarrow> http_reply_msg) \<Rightarrow> route_in \<Rightarrow> jar \<Rightarrow> 's \<Rightarrow> 's served" where
  "forward_body srv meth path hdrs names rep i jar s =
     (case pick names (body_or_empty i) of
        Inl e \<Rightarrow> (Inl e, jar, s)
      | Inr kvs \<Rightarrow> map_reply rep (srv \<lparr>cq_method = meth, cq_path = path, cq_headers = JSON_HEADER # hdrs,
                                  cq_body = Some (json_obj kvs)\<rparr> jar s))"

text \<open>Header forwarding: only when the browser sent a non-empty one.\<close>

definition pass_header :: "string \<Rightarrow> route_in \<Rightarrow> (string \<times> string) list" where
  "pass_header h i = (if given (ri_header i h) then [(h, the (ri_header i h))] else [])"

definition twofa_disable_route :: "'s server \<Rightarrow> route_in \<Rightarrow> jar \<Rightarrow> 's \<Rightarrow> 's served" where
  "twofa_disable_route srv = forward_body srv ''POST'' ''/auth/2fa/disable'' [] [''code''] no_content"

definition twofa_setup_route :: "'s server \<Rightarrow> jar \<Rightarrow> 's \<Rightarrow> 's served" where
  "twofa_setup_route srv jar s = map_reply bff_proxy (srv (bare ''POST'' ''/auth/2fa/setup'') jar s)"

definition twofa_status_route :: "'s server \<Rightarrow> jar \<Rightarrow> 's \<Rightarrow> 's served" where
  "twofa_status_route srv jar s = map_reply bff_proxy (srv (bare ''GET'' ''/auth/2fa/status'') jar s)"

definition twofa_verify_route :: "'s server \<Rightarrow> route_in \<Rightarrow> jar \<Rightarrow> 's \<Rightarrow> 's served" where
  "twofa_verify_route srv = forward_body srv ''POST'' ''/auth/2fa/verify'' [] [''code''] bff_proxy"

definition alerts_post_route :: "'s server \<Rightarrow> route_in \<Rightarrow> jar \<Rightarrow> 's \<Rightarrow> 's served" where
  "alerts_post_route srv =
     forward_body srv ''POST'' ''/alerts'' [] [''symbol'', ''type'', ''targetPrice'', ''direction''] bff_proxy"

definition alerts_delete_route :: "'s server \<Rightarrow> route_in \<Rightarrow> jar \<Rightarrow> 's \<Rightarrow> 's served" where
  "alerts_delete_route srv i jar s =
     map_reply status_only (srv (bare ''DELETE'' (''/alerts/'' @ encodeURIComponent (ri_param i))) jar s)"

definition stepup_options_route :: "'s server \<Rightarrow> jar \<Rightarrow> 's \<Rightarrow> 's served" where
  "stepup_options_route srv jar s =
     map_reply bff_proxy (srv (bare ''POST'' ''/auth/step-up/passkey/options'') jar s)"

definition stepup_verify_route :: "'s server \<Rightarrow> route_in \<Rightarrow> jar \<Rightarrow> 's \<Rightarrow> 's served" where
  "stepup_verify_route srv =
     forward_body srv ''POST'' ''/auth/step-up/passkey/verify'' [] [''response'', ''challengeToken''] bff_proxy"

definition stepup_route :: "'s server \<Rightarrow> route_in \<Rightarrow> jar \<Rightarrow> 's \<Rightarrow> 's served" where
  "stepup_route srv = forward_body srv ''POST'' ''/auth/step-up'' [] [''code''] bff_proxy"

definition CHART_RANGES :: "string list" where
  "CHART_RANGES = [''1m'', ''5m'', ''15m'', ''1h'', ''4h'', ''1D'']"

definition chart_route :: "'s server \<Rightarrow> route_in \<Rightarrow> jar \<Rightarrow> 's \<Rightarrow> 's served" where
  "chart_route srv i jar s =
     (let asked = (case ri_query i ''range'' of None \<Rightarrow> ''1h'' | Some r \<Rightarrow> r);
          range = (if List.member CHART_RANGES asked then asked else ''1h'')
      in map_reply bff_proxy (srv (bare ''GET''
           (''/markets/'' @ encodeURIComponent (ri_param i) @ ''/chart?range='' @ range)) jar s))"

definition passkeys_list_route :: "'s server \<Rightarrow> jar \<Rightarrow> 's \<Rightarrow> 's served" where
  "passkeys_list_route srv jar s = map_reply bff_proxy (srv (bare ''GET'' ''/auth/passkeys'') jar s)"

definition passkeys_delete_route :: "'s server \<Rightarrow> route_in \<Rightarrow> jar \<Rightarrow> 's \<Rightarrow> 's served" where
  "passkeys_delete_route srv i jar s =
     map_reply no_content (srv (bare ''DELETE'' (''/auth/passkeys/'' @ ri_param i)) jar s)"

definition passkeys_options_route :: "'s server \<Rightarrow> jar \<Rightarrow> 's \<Rightarrow> 's served" where
  "passkeys_options_route srv jar s =
     map_reply bff_proxy (srv (bare ''POST'' ''/auth/passkeys/register/options'') jar s)"

definition passkeys_verify_route :: "'s server \<Rightarrow> route_in \<Rightarrow> jar \<Rightarrow> 's \<Rightarrow> 's served" where
  "passkeys_verify_route srv = forward_body srv ''POST'' ''/auth/passkeys/register/verify'' []
     [''response'', ''challengeToken'', ''label''] bff_proxy"

definition portfolio_post_route :: "'s server \<Rightarrow> route_in \<Rightarrow> jar \<Rightarrow> 's \<Rightarrow> 's served" where
  "portfolio_post_route srv = forward_body srv ''POST'' ''/portfolio'' []
     [''symbol'', ''type'', ''quantity'', ''avgCost''] bff_proxy"

definition portfolio_delete_route :: "'s server \<Rightarrow> route_in \<Rightarrow> jar \<Rightarrow> 's \<Rightarrow> 's served" where
  "portfolio_delete_route srv i jar s =
     map_reply status_only (srv (bare ''DELETE'' (''/portfolio/'' @ encodeURIComponent (ri_param i))) jar s)"

definition push_subscribe_route :: "'s server \<Rightarrow> route_in \<Rightarrow> jar \<Rightarrow> 's \<Rightarrow> 's served" where
  "push_subscribe_route srv = forward_body srv ''POST'' ''/push/subscribe'' [] [''endpoint'', ''keys''] no_content"

definition push_unsubscribe_route :: "'s server \<Rightarrow> route_in \<Rightarrow> jar \<Rightarrow> 's \<Rightarrow> 's served" where
  "push_unsubscribe_route srv = forward_body srv ''POST'' ''/push/unsubscribe'' [] [''endpoint''] no_content"

definition quote_route :: "'s server \<Rightarrow> route_in \<Rightarrow> jar \<Rightarrow> 's \<Rightarrow> 's served" where
  "quote_route srv i jar s =
     (let q = (\<lambda>k. encodeURIComponent (case ri_query i k of None \<Rightarrow> [] | Some v \<Rightarrow> v))
      in map_reply bff_proxy (srv (bare ''GET'' (''/rates/quote?from='' @ q ''from'' @ ''&to='' @ q ''to''
           @ ''&amount='' @ q ''amount'')) jar s))"

definition deposits_route :: "'s server \<Rightarrow> route_in \<Rightarrow> jar \<Rightarrow> 's \<Rightarrow> 's served" where
  "deposits_route srv i = forward_body srv ''POST'' (''/wallets/'' @ ri_param i @ ''/deposits'')
     (pass_header ''idempotency-key'' i) [''amount'', ''note''] bff_proxy i"

definition withdrawals_route :: "'s server \<Rightarrow> route_in \<Rightarrow> jar \<Rightarrow> 's \<Rightarrow> 's served" where
  "withdrawals_route srv i = forward_body srv ''POST'' (''/wallets/'' @ ri_param i @ ''/withdrawals'')
     (pass_header ''idempotency-key'' i) [''amount'', ''note''] bff_proxy i"

text \<open>Transfers pass the step-up grant and the key on; a success is answered with 200, whatever the API's 2xx was.\<close>

definition transfer_call :: "route_in \<Rightarrow> (string \<times> jval option) list \<Rightarrow> api_call" where
  "transfer_call i kvs = \<lparr>cq_method = ''POST'', cq_path = ''/wallets/'' @ ri_param i @ ''/transfers'',
     cq_headers = JSON_HEADER # pass_header ''x-step-up-token'' i @ pass_header ''idempotency-key'' i,
     cq_body = Some (json_obj kvs)\<rparr>"

definition transfers_route :: "'s server \<Rightarrow> route_in \<Rightarrow> jar \<Rightarrow> 's \<Rightarrow> 's served" where
  "transfers_route srv i jar s =
     (case pick [''toWalletId'', ''amount'', ''note''] (body_or_empty i) of
        Inl e \<Rightarrow> (Inl e, jar, s)
      | Inr kvs \<Rightarrow>
          (case srv (transfer_call i kvs) jar s of
             (Inl e, jar', s') \<Rightarrow> (Inl e, jar', s')
           | (Inr r, jar', s') \<Rightarrow>
               if \<not> res_ok (hm_status r)
               then (Inr (json_reply (hm_status r) (case res_json r of Inl e \<Rightarrow> JObj [] | Inr v \<Rightarrow> v)), jar', s')
               else (case res_json r of Inl e \<Rightarrow> (Inl e, jar', s') | Inr v \<Rightarrow> (Inr (json_reply 200 v), jar', s'))))"

definition lookup_route :: "'s server \<Rightarrow> route_in \<Rightarrow> jar \<Rightarrow> 's \<Rightarrow> 's served" where
  "lookup_route srv i jar s =
     map_reply bff_proxy (srv (bare ''GET'' (''/wallets/lookup?handle=''
       @ encodeURIComponent (case ri_query i ''handle'' of None \<Rightarrow> [] | Some h \<Rightarrow> h))) jar s)"

text \<open>A new wallet is named after its currency; a currency that is missing reads as the empty string.\<close>

definition wallets_post_route :: "'s server \<Rightarrow> (jval \<Rightarrow> string) \<Rightarrow> route_in \<Rightarrow> jar \<Rightarrow> 's \<Rightarrow> 's served" where
  "wallets_post_route srv as_text i jar s =
     (case prop_of (body_or_empty i) ''currency'' of
        Inl e \<Rightarrow> (Inl e, jar, s)
      | Inr cur \<Rightarrow>
          (let c = (case cur of None \<Rightarrow> JStr [] | Some JNull \<Rightarrow> JStr [] | Some v \<Rightarrow> v);
               shown = (case c of JStr x \<Rightarrow> x | _ \<Rightarrow> as_text c)
           in map_reply bff_proxy (srv (post_json ''/wallets''
                (JObj [(''name'', JStr (shown @ '' wallet'')), (''currency'', c)])) jar s)))"

definition watchlist_post_route :: "'s server \<Rightarrow> route_in \<Rightarrow> jar \<Rightarrow> 's \<Rightarrow> 's served" where
  "watchlist_post_route srv = forward_body srv ''POST'' ''/watchlist'' [] [''symbol'', ''type''] bff_proxy"

definition watchlist_delete_route :: "'s server \<Rightarrow> route_in \<Rightarrow> jar \<Rightarrow> 's \<Rightarrow> 's served" where
  "watchlist_delete_route srv i jar s =
     map_reply status_only (srv (bare ''DELETE'' (''/watchlist/'' @ encodeURIComponent (ri_param i))) jar s)"

definition ws_ticket_route :: "'s server \<Rightarrow> jar \<Rightarrow> 's \<Rightarrow> 's served" where
  "ws_ticket_route srv jar s = map_reply bff_proxy (srv (bare ''POST'' ''/auth/ws-ticket'') jar s)"

text \<open>The console's routes.\<close>

definition approve_route :: "'s server \<Rightarrow> route_in \<Rightarrow> jar \<Rightarrow> 's \<Rightarrow> 's served" where
  "approve_route srv i jar s =
     map_reply bff_proxy (srv (bare ''POST'' (''/transactions/'' @ ri_param i @ ''/approve'')) jar s)"

definition reject_route :: "'s server \<Rightarrow> route_in \<Rightarrow> jar \<Rightarrow> 's \<Rightarrow> 's served" where
  "reject_route srv i = forward_body srv ''POST'' (''/transactions/'' @ ri_param i @ ''/reject'') []
     [''note''] bff_proxy i"

definition user_role_route :: "'s server \<Rightarrow> route_in \<Rightarrow> jar \<Rightarrow> 's \<Rightarrow> 's served" where
  "user_role_route srv i = forward_body srv ''PATCH'' (''/users/'' @ ri_param i @ ''/role'') [] [''role''] bff_proxy i"

definition user_status_route :: "'s server \<Rightarrow> route_in \<Rightarrow> jar \<Rightarrow> 's \<Rightarrow> 's served" where
  "user_status_route srv i = forward_body srv ''PATCH'' (''/users/'' @ ri_param i @ ''/status'') [] [''status''] bff_proxy i"

definition adjustments_route :: "'s server \<Rightarrow> route_in \<Rightarrow> jar \<Rightarrow> 's \<Rightarrow> 's served" where
  "adjustments_route srv i = forward_body srv ''POST'' (''/wallets/'' @ ri_param i @ ''/adjustments'') []
     [''direction'', ''amount'', ''note''] bff_proxy i"

section \<open>Sessions through an outage\<close>

text \<open>A browser at work: it opens pages and calls routes, each at its own time.\<close>

datatype visit = OpenPage int string | CallRoute int api_call

fun customer_visit :: "'s fetch \<Rightarrow> bool \<Rightarrow> visit \<Rightarrow> jar \<times> 's \<Rightarrow> jar \<times> 's" where
  "customer_visit api secure (OpenPage t path) (jar, s) = snd (customer_proxy api secure t path jar s)"
| "customer_visit api secure (CallRoute t c) (jar, s) = snd (customer_serverApiWithRefresh api secure t c jar s)"

text \<open>The refresh endpoint does not decide: it cannot be reached, or fails without a 401 or 403.\<close>

definition undecided :: "http_reply_msg option \<Rightarrow> bool" where
  "undecided r = (case r of None \<Rightarrow> True
     | Some m \<Rightarrow> \<not> res_ok (hm_status m) \<and> hm_status m \<noteq> 401 \<and> hm_status m \<noteq> 403)"

lemma customer_refresh_undecided:
  assumes "undecided (fst (api (refresh_call r) s))"
  shows "fst (customer_refreshAtEdge api secure t r jar s) = Inr EdgeNext"
    and "fst (snd (customer_refreshAtEdge api secure t r jar s)) = jar"
  using assms by (cases "api (refresh_call r) s"; auto simp: customer_refreshAtEdge_def undecided_def
      split: option.splits)+

lemma customer_visit_undecided:
  assumes "\<And>r s. undecided (fst (api (refresh_call r) s))"
  shows "fst (customer_visit api secure v (jar, s)) = jar"
proof (cases v)
  case (OpenPage t path)
  then show ?thesis
    using customer_refresh_undecided(2) [where api = api, OF assms]
    by (simp add: customer_proxy_def edge_proxy_def Let_def)
next
  case (CallRoute t c)
  obtain res s1 where first: "serverApi api t c jar s = (res, s1)" by fastforce
  obtain q s2 where refresh: "api (refresh_call (the (token_cookie t REFRESH_COOKIE jar))) s1 = (q, s2)" by fastforce
  then have "undecided q" using assms by (metis fst_conv)
  then show ?thesis
    unfolding CallRoute customer_visit.simps customer_serverApiWithRefresh_def
    by (auto simp: first refresh undecided_def split: sum.splits option.splits)
qed

text \<open>An outage of the API does not sign customers out. While the refresh endpoint is unreachable or
  answers with anything but success, 401 or 403, no sequence of page loads and route calls changes a
  single cookie, and a signed-in customer's pages are still served.\<close>

theorem customer_session_survives_outage:
  assumes down: "\<And>r s. undecided (fst (api (refresh_call r) s))"
  shows "fst (fold (customer_visit api secure) visits (jar, s)) = jar \<and>
    (cookie_has t SESSION_USER_COOKIE jar \<and> \<not> is_public customer_public path \<longrightarrow>
       fst (customer_proxy api secure t path jar s) = Inr EdgeNext)"
proof -
  have "fst (fold (customer_visit api secure) visits (jar, s)) = jar" for s
  proof (induction visits arbitrary: s)
    case (Cons v vs)
    obtain s' where "customer_visit api secure v (jar, s) = (jar, s')"
      using customer_visit_undecided [where api = api, OF down] by (metis prod.collapse)
    with Cons show ?case by simp
  qed simp
  then show ?thesis
    using customer_refresh_undecided(1) [where api = api, OF down] by (simp add: customer_proxy_def edge_proxy_def Let_def)
qed

definition bad_gateway :: "unit fetch" where
  "bad_gateway c s = (Some (empty_reply 502), s)"

definition demo_jar :: jar where
  "demo_jar = [SESSION_USER_COOKIE \<mapsto> \<lparr>ck_text = CkJson (JObj []), ck_opts = cookieOptions True 1, ck_expires = 1000000\<rparr>,
     REFRESH_COOKIE \<mapsto> \<lparr>ck_text = CkText ''raw1'', ck_opts = cookieOptions True 1, ck_expires = 1000000\<rparr>]"

lemma cookie_names_differ [simp]:
  "ACCESS_COOKIE \<noteq> REFRESH_COOKIE" "ACCESS_COOKIE \<noteq> SESSION_USER_COOKIE" "REFRESH_COOKIE \<noteq> SESSION_USER_COOKIE"
  "REFRESH_COOKIE \<noteq> ACCESS_COOKIE" "SESSION_USER_COOKIE \<noteq> ACCESS_COOKIE" "SESSION_USER_COOKIE \<noteq> REFRESH_COOKIE"
  by (simp_all add: ACCESS_COOKIE_def REFRESH_COOKIE_def SESSION_USER_COOKIE_def)

lemma pay_not_public: "\<not> is_public customer_public ''/pay''" "\<not> is_public console_public ''/pay''"
  by (simp_all add: is_public_def customer_public_def console_public_def starts_with_def)

lemma customer_session_survives_outage_witness:
  "fst (fold (customer_visit bad_gateway True) [OpenPage 0 ''/'', CallRoute 1 (GET_call ''/alerts'')] (demo_jar, ())) = demo_jar
   \<and> fst (customer_proxy bad_gateway True 5 ''/pay'' demo_jar ()) = Inr EdgeNext"
  using customer_session_survives_outage
    [of bad_gateway True "[OpenPage 0 ''/'', CallRoute 1 (GET_call ''/alerts'')]" demo_jar "()" 5 "''/pay''"] pay_not_public
  by (simp add: bad_gateway_def undecided_def empty_reply_def res_ok_def cookie_has_def cookie_get_def demo_jar_def)

text \<open>The console signs staff out on any refused refresh. The same 502 that a customer's
  session survives ends a console session at its next page load, and at its next route call.\<close>

theorem console_outage_ends_session:
  assumes session: "cookie_has t SESSION_USER_COOKIE jar" "\<not> cookie_has t ACCESS_COOKIE jar"
      "token_cookie t REFRESH_COOKIE jar = Some r" "r \<noteq> []"
    and page: "\<not> is_public console_public path" "\<not> is_public customer_public path"
    and reply: "api (refresh_call r) s = (Some m, s')" "500 \<le> hm_status m"
  shows "console_proxy api secure t path jar s = (Inr (EdgeRedirect ''/login''), clearAuthCookies jar, s') \<and>
    customer_proxy api secure t path jar s = (Inr EdgeNext, jar, s') \<and>
    \<not> cookie_has t SESSION_USER_COOKIE (clearAuthCookies jar)"
  using assms
  by (simp add: console_proxy_def customer_proxy_def edge_proxy_def Let_def given_def
      console_refreshAtEdge_def customer_refreshAtEdge_def res_ok_def clearAuthCookies_def cookie_has_def
      cookie_get_def)

lemma console_outage_ends_session_witness:
  "console_proxy bad_gateway True 5 ''/pay'' demo_jar () = (Inr (EdgeRedirect ''/login''), clearAuthCookies demo_jar, ())"
  using console_outage_ends_session
    [of 5 demo_jar "''raw1''" "''/pay''" bad_gateway "()" "empty_reply 502" "()" True] pay_not_public
  by (simp add: bad_gateway_def empty_reply_def cookie_has_def cookie_get_def demo_jar_def token_cookie_def
      raw_text_def)

section \<open>One refresh, one retry\<close>

text \<open>The API with a log of the calls it received.\<close>

definition logged :: "'s fetch \<Rightarrow> ('s \<times> api_call list) fetch" where
  "logged api c s = (case api c (fst s) of (r, s') \<Rightarrow> (r, (s', snd s @ [c])))"

text \<open>A route makes its call at most twice, the second time only after a 401 and a successful refresh,
  and both times it is the same call: method, path, body and headers (the idempotency key and the
  step-up grant among them) up to the bearer token. This holds of both apps.\<close>

theorem refresh_retries_the_same_call:
  fixes t :: int and jar :: jar and c :: api_call and api :: "'s fetch"
  defines "first \<equiv> callWithToken (token_cookie t ACCESS_COOKIE jar) c"
    and "r \<equiv> the (token_cookie t REFRESH_COOKIE jar)"
  assumes "run = customer_serverApiWithRefresh \<or> run = console_serverApiWithRefresh"
    and "run (logged api) secure t c jar (s, []) = (res, jar', (s', calls))"
  shows "calls = [first] \<or>
    (\<exists>m. fst (api first s) = Some m \<and> hm_status m = 401 \<and>
       (calls = [first, refresh_call r] \<or>
        (\<exists>tok. calls = [first, refresh_call r, callWithToken (Some tok) c])))"
  using assms(3,4)
  by (auto simp: customer_serverApiWithRefresh_def console_serverApiWithRefresh_def serverApi_def logged_def
      retry_with_def first_def r_def split: prod.splits option.splits sum.splits if_splits; blast)

lemma refresh_retries_the_same_call_witness:
  "\<exists>res jar' calls. customer_serverApiWithRefresh (logged bad_gateway) True 5 (GET_call ''/alerts'') demo_jar ((), []) =
      (res, jar', ((), calls)) \<and> calls = [GET_call ''/alerts'']"
proof -
  obtain res jar' u calls where "customer_serverApiWithRefresh (logged bad_gateway) True 5 (GET_call ''/alerts'')
      demo_jar ((), []) = (res, jar', u, calls)" by (rule prod_cases4)
  then have run: "customer_serverApiWithRefresh (logged bad_gateway) True 5 (GET_call ''/alerts'') demo_jar ((), []) =
      (res, jar', ((), calls))" by simp
  have no_access: "callWithToken (token_cookie 5 ACCESS_COOKIE demo_jar) (GET_call ''/alerts'') = GET_call ''/alerts''"
    by (simp add: callWithToken_def token_cookie_def cookie_get_def demo_jar_def given_def)
  have "calls = [GET_call ''/alerts'']"
    using refresh_retries_the_same_call [where run = customer_serverApiWithRefresh and api = bad_gateway
        and secure = True and t = 5 and c = "GET_call ''/alerts''" and jar = demo_jar and s = "()" and s' = "()"
        and res = res and jar' = jar' and calls = calls] run
    by (simp add: no_access bad_gateway_def empty_reply_def)
  with run show ?thesis by (intro exI conjI)
qed

section \<open>Tokens stay on the server\<close>

text \<open>A reply with its token pair blanked out: what is left when nobody may look at the tokens.\<close>

definition blank_field :: "string \<times> jval \<Rightarrow> string \<times> jval" where
  "blank_field kv = (if fst kv = ''tokens'' \<and> snd kv \<noteq> JNull then (fst kv, JObj []) else kv)"

definition blank_tokens :: "http_reply_msg \<Rightarrow> http_reply_msg" where
  "blank_tokens r =
     (case hm_body r of
        JsonBody (JObj fs) \<Rightarrow>
          if res_ok (hm_status r) then r\<lparr>hm_body := JsonBody (JObj (map blank_field fs))\<rparr> else r
      | _ \<Rightarrow> r)"

definition blind :: "'s fetch \<Rightarrow> 's fetch" where
  "blind api c s = (case api c s of (r, s') \<Rightarrow> (map_option blank_tokens r, s'))"

lemma blank_status [simp]: "hm_status (blank_tokens r) = hm_status r"
  by (simp add: blank_tokens_def split: wire_body.splits jval.splits)

lemma blank_refused [simp]: "\<not> res_ok (hm_status r) \<Longrightarrow> blank_tokens r = r"
  by (simp add: blank_tokens_def split: wire_body.splits jval.splits)

lemma map_of_blank:
  "map_of (map blank_field fs) k =
     (if k = ''tokens'' then map_option (\<lambda>v. if v = JNull then JNull else JObj []) (map_of fs k) else map_of fs k)"
  by (induction fs) (auto simp: blank_field_def)

lemma prop_of_JObj [simp]: "prop_of (Some (JObj fs)) k = Inr (map_of fs k)"
  by (simp add: prop_of_def jget_def)

lemma token_pair_fails_same:
  "(case token_pair (map_option (\<lambda>v. if v = JNull then JNull else JObj []) x) of Inl e \<Rightarrow> Inl e | Inr a \<Rightarrow> k) =
   (case token_pair x of Inl e \<Rightarrow> Inl e | Inr a \<Rightarrow> k)"
  by (auto simp: token_pair_def prop_of_def split: option.splits jval.splits)

lemma open_session_fst:
  "fst (open_session secure t st v jar) =
     (case (prop_of (Some v) ''user'', prop_of (Some v) ''tokens'') of
        (Inr user, Inr tokens) \<Rightarrow>
          (case token_pair tokens of Inl e \<Rightarrow> Inl e | Inr a \<Rightarrow> Inr (json_reply st (json_obj [(''user'', user)])))
      | _ \<Rightarrow> Inl NoProperty)"
  by (auto simp: open_session_def split: sum.splits)

lemma open_session_blind:
  "fst (open_session secure t st (JObj (map blank_field fs)) jar) = fst (open_session secure t st (JObj fs) jar)"
  unfolding open_session_fst by (simp add: map_of_blank token_pair_fails_same)

lemma res_json_blank:
  "res_ok (hm_status r) \<Longrightarrow> res_json (blank_tokens r) =
     (case res_json r of Inr (JObj fs) \<Rightarrow> Inr (JObj (map blank_field fs)) | x \<Rightarrow> x)"
  by (auto simp: blank_tokens_def res_json_def split: wire_body.splits jval.splits)

lemma finish_sign_in_blind:
  "res_ok (hm_status r) \<Longrightarrow>
   fst (finish_sign_in secure t st (blank_tokens r) jar) = fst (finish_sign_in secure t st r jar)"
  by (auto simp: finish_sign_in_def res_json_blank open_session_blind split: sum.splits jval.splits)

lemma call_api_blind:
  "(\<And>r. fst (k (blank_tokens r) jar) = fst (k r jar)) \<Longrightarrow>
   fst (call_api (blind api) c k jar s) = fst (call_api api c k jar s)"
  by (auto simp: call_api_def blind_def with_state_def split: prod.splits option.splits)

lemma sign_in_step_blind:
  "fst (sign_in_step (blind api) secure t path fs m i jar s) = fst (sign_in_step api secure t path fs m i jar s)"
proof (cases "pick fs (body_or_empty i)")
  case (Inr kvs)
  show ?thesis unfolding sign_in_step_def Inr sum.case
    by (rule call_api_blind) (auto simp: finish_sign_in_blind)
qed (simp add: sign_in_step_def)

lemma customer_login_blind:
  "fst (customer_login (blind api) secure t i jar s) = fst (customer_login api secure t i jar s)"
proof (cases "ri_body i")
  case (Some b)
  show ?thesis
  proof (cases "pick [''email'', ''password''] (Some b)")
    case (Inr kvs)
    show ?thesis unfolding customer_login_def Some Inr option.case sum.case
      by (rule call_api_blind)
        (auto simp: res_json_blank open_session_blind map_of_blank jget_def split: sum.splits jval.splits)
  qed (simp add: customer_login_def Some)
qed (simp add: customer_login_def)

text \<open>C26: the browser never sees a session token. Whatever the API answers, each of the five sign-in
  routes of the two apps sends the browser exactly what it would have sent had the token pair in the
  reply been blanked out: the pair goes into the cookies and nowhere else.\<close>

theorem sign_in_hides_tokens:
  "fst (customer_login (blind api) secure t i jar s) = fst (customer_login api secure t i jar s) \<and>
   fst (console_login (blind api) secure t i jar s) = fst (console_login api secure t i jar s) \<and>
   fst (customer_login2fa (blind api) secure t i jar s) = fst (customer_login2fa api secure t i jar s) \<and>
   fst (customer_passkeyLoginVerify (blind api) secure t i jar s) = fst (customer_passkeyLoginVerify api secure t i jar s) \<and>
   fst (customer_register is_email issue (blind api) secure t i jar s) = fst (customer_register is_email issue api secure t i jar s)"
proof -
  have "fst (console_login (blind api) secure t i jar s) = fst (console_login api secure t i jar s)"
  proof (cases "ri_body i")
    case (Some b)
    show ?thesis
    proof (cases "pick [''email'', ''password''] (Some b)")
      case (Inr kvs)
      show ?thesis unfolding console_login_def Some Inr option.case sum.case
        by (rule call_api_blind) (auto simp: finish_sign_in_blind)
    qed (simp add: console_login_def Some)
  qed (simp add: console_login_def)
  moreover have "fst (customer_register is_email issue (blind api) secure t i jar s) =
      fst (customer_register is_email issue api secure t i jar s)"
  proof (cases "parse_signup is_email (ri_body i)")
    case (Some f)
    show ?thesis unfolding customer_register_def Some option.case
      by (rule call_api_blind) (auto simp: finish_sign_in_blind)
  qed (simp add: customer_register_def)
  ultimately show ?thesis
    by (simp add: customer_login_blind customer_login2fa_def customer_passkeyLoginVerify_def sign_in_step_blind)
qed

section \<open>Parallel page loads\<close>

text \<open>
  The API's side of a refresh (\<open>POST /auth/refresh\<close> of \<open>auth.controller.ts\<close>): \<open>rotate\<close> with the
  clock and the draws of this request, its result as JSON or as the filter's envelope.
\<close>

record refresh_draw =
  rd_now :: int
  rd_row :: string
  rd_raw :: string

definition tokens_json :: "string tokens \<Rightarrow> jval" where
  "tokens_json tk = JObj [(''accessToken'', JStr (tk_access tk)), (''refreshToken'', JStr (tk_refresh tk))]"

definition error_envelope :: "exn \<Rightarrow> string \<Rightarrow> int \<Rightarrow> http_reply_msg" where
  "error_envelope e path t = json_reply (eb_statusCode (toErrorBody e path t)) (error_json (toErrorBody e path t))"

definition refresh_endpoint ::
  "string jwt_lib \<Rightarrow> (string \<Rightarrow> string) \<Rightarrow> refresh_draw \<Rightarrow> db fetch" where
  "refresh_endpoint J hash n c d =
     (case jstring (Option.bind (cq_body c) (jget ''refreshToken'')) of
        None \<Rightarrow> (Some (error_envelope (BadRequestException ''refreshToken must be a string'') (cq_path c) (rd_now n)), d)
      | Some raw \<Rightarrow>
          (case rotate J hash (rd_now n) (rd_row n) (rd_raw n) raw d of
             (Inl e, d') \<Rightarrow> (Some (error_envelope e (cq_path c) (rd_now n)), d')
           | (Inr tk, d') \<Rightarrow> (Some (json_reply 201 (tokens_json tk)), d')))"

text \<open>Several page loads that left the browser with the same cookies, served one after the other.\<close>

fun page_loads ::
  "string jwt_lib \<Rightarrow> (string \<Rightarrow> string) \<Rightarrow> bool \<Rightarrow> string \<Rightarrow> jar \<Rightarrow> refresh_draw list \<Rightarrow> db
     \<Rightarrow> ((exn + edge_reply) \<times> jar) list \<times> db" where
  "page_loads J hash secure path jar [] d = ([], d)"
| "page_loads J hash secure path jar (n # ns) d =
     (case customer_proxy (refresh_endpoint J hash n) secure (rd_now n) path jar d of
        (res, jar', d') \<Rightarrow>
          (case page_loads J hash secure path jar ns d' of (rs, d'') \<Rightarrow> ((res, jar') # rs, d'')))"

lemma edge_refreshes:
  assumes "rotate J hash (rd_now n) (rd_row n) (rd_raw n) raw d = (Inr tk, d')"
    and "cookie_has (rd_now n) SESSION_USER_COOKIE jar" "\<not> cookie_has (rd_now n) ACCESS_COOKIE jar"
    and "token_cookie (rd_now n) REFRESH_COOKIE jar = Some raw" "raw \<noteq> []" "\<not> is_public customer_public path"
  shows "customer_proxy (refresh_endpoint J hash n) secure (rd_now n) path jar d =
     (Inr EdgeNext, setTokens secure (rd_now n) (tk_access tk, tk_refresh tk) jar, d')"
proof -
  have call: "refresh_endpoint J hash n (refresh_call raw) d = (Some (json_reply 201 (tokens_json tk)), d')"
    using assms(1) by (simp add: refresh_endpoint_def refresh_call_def jget_def jstring_def)
  have "read_tokens (json_reply 201 (tokens_json tk)) = Inr (tk_access tk, tk_refresh tk)"
    by (simp add: read_tokens_def res_json_def json_reply_def ok_bind_def token_pair_def tokens_json_def
        field_text_def)
  then show ?thesis
    using assms(2-) call
    by (simp add: customer_proxy_def edge_proxy_def Let_def given_def customer_refreshAtEdge_def json_reply_def res_ok_def)
qed

lemma rotate_within_grace:
  assumes r: "find_refresh (hash raw) d = Some r" "rt_usedAt r = Some t0" "t < t0 + REUSE_GRACE_MS"
    and u: "find_user (rt_userId r) d = Some u" "u_status u = Active" and fresh: "fresh_refresh hash row_id new_raw d"
  shows "rotate J hash t row_id new_raw raw d =
     (Inr \<lparr>tk_access = j_sign J t (access_claims (token_user_of u d)) ACCESS_TTL_S, tk_refresh = new_raw\<rparr>,
      d\<lparr>refresh_tokens := refresh_tokens d @ [new_refresh hash t row_id new_raw (u_id u) (rt_familyId r)]\<rparr>)"
proof -
  have "rotate_decide t \<lparr>re_row = r, re_status = u_status u, re_user = token_user_of u d\<rparr> = RotSibling"
    using r u by (simp add: rotate_decide_def)
  moreover have "tu_id (token_user_of u d) = u_id u" by (simp add: token_user_of_def)
  ultimately show ?thesis
    using r(1) u
    by (simp add: rotate_def rotate_read_def rotate_finish_def Let_def commit_def issueTokens_fresh [OF fresh])
qed

text \<open>
  The state the loads share: the presented token's row is unused and alive, or was first used within
  the window; its owner is active; the draws to come are fresh.
\<close>

definition refreshable :: "(string \<Rightarrow> string) \<Rightarrow> string \<Rightarrow> int \<Rightarrow> refresh_draw list \<Rightarrow> db \<Rightarrow> bool" where
  "refreshable hash raw T ns d \<longleftrightarrow>
     (\<exists>r u. find_refresh (hash raw) d = Some r \<and> find_user (rt_userId r) d = Some u \<and> u_status u = Active
        \<and> T + REUSE_GRACE_MS \<le> rt_expiresAt r
        \<and> (case rt_usedAt r of None \<Rightarrow> True | Some t0 \<Rightarrow> T \<le> t0))
     \<and> distinct (map rt_id (refresh_tokens d))
     \<and> (\<forall>n \<in> set ns. fresh_refresh hash (rd_row n) (rd_raw n) d)
     \<and> distinct (map rd_row ns) \<and> distinct (map (hash \<circ> rd_raw) ns)"

definition live_refresh :: "(string \<Rightarrow> string) \<Rightarrow> string \<Rightarrow> db \<Rightarrow> bool" where
  "live_refresh hash raw d \<longleftrightarrow> (\<exists>x \<in> set (refresh_tokens d). rt_tokenHash x = hash raw \<and> rt_usedAt x = None)"

lemma fresh_after_new:
  assumes "fresh_refresh hash row_id new_raw d" "row_id \<noteq> rd_row n" "hash new_raw \<noteq> hash (rd_raw n)"
    and "refresh_tokens d' = upd_rows P (rt_usedAt_update f) (refresh_tokens d) @ [new_refresh hash t (rd_row n) (rd_raw n) uid fam]"
  shows "fresh_refresh hash row_id new_raw d'"
  using assms by (auto simp: fresh_refresh_def set_upd_rows new_refresh_def)

text \<open>One rotation in the window succeeds, keeps the state refreshable for the rest, and spares live siblings.\<close>

lemma refreshable_step:
  assumes inv: "refreshable hash raw T (n # ns) d" and win: "T \<le> rd_now n" "rd_now n < T + REUSE_GRACE_MS"
  obtains tk d' where "rotate J hash (rd_now n) (rd_row n) (rd_raw n) raw d = (Inr tk, d')"
    "tk_refresh tk = rd_raw n" "refreshable hash raw T ns d'" "live_refresh hash (rd_raw n) d'"
    "\<And>x. live_refresh hash x d \<Longrightarrow> hash x \<noteq> hash raw \<Longrightarrow> live_refresh hash x d'"
proof -
  obtain r u where r: "find_refresh (hash raw) d = Some r" "T + REUSE_GRACE_MS \<le> rt_expiresAt r"
      "case rt_usedAt r of None \<Rightarrow> True | Some t0 \<Rightarrow> T \<le> t0"
    and u: "find_user (rt_userId r) d = Some u" "u_status u = Active"
    and ids: "distinct (map rt_id (refresh_tokens d))" and fresh: "fresh_refresh hash (rd_row n) (rd_raw n) d"
    using inv by (auto simp: refreshable_def)
  let ?P = "\<lambda>s. rt_usedAt r = None \<and> rt_id s = rt_id r"
  let ?rows = "upd_rows ?P (rt_usedAt_update (\<lambda>_. Some (rd_now n))) (refresh_tokens d)
      @ [new_refresh hash (rd_now n) (rd_row n) (rd_raw n) (u_id u) (rt_familyId r)]"
  let ?d' = "d\<lparr>refresh_tokens := ?rows\<rparr>"
  let ?tk = "\<lparr>tk_access = j_sign J (rd_now n) (access_claims (token_user_of u d)) ACCESS_TTL_S, tk_refresh = rd_raw n\<rparr>"
  have rot: "rotate J hash (rd_now n) (rd_row n) (rd_raw n) raw d = (Inr ?tk, ?d')"
  proof (cases "rt_usedAt r")
    case None
    with rotate_live_pair [where J = J and t = "rd_now n", OF r(1) None _ u ids fresh] r(2) win show ?thesis by simp
  next
    case (Some t0)
    with rotate_within_grace [where J = J and t = "rd_now n", OF r(1) Some _ u fresh] r(3) win show ?thesis by (simp add: upd_rows_def)
  qed
  have rin: "r \<in> set (refresh_tokens d)" "rt_tokenHash r = hash raw" using find_refresh_in [OF r(1)] by auto
  have found: "find_refresh (hash raw) ?d' = Some (if ?P r then r\<lparr>rt_usedAt := Some (rd_now n)\<rparr> else r)"
    using r(1) by (simp add: find_refresh_def find_append find_upd_rows)
  have "refreshable hash raw T ns ?d'"
    unfolding refreshable_def
  proof (intro conjI ballI)
    show "\<exists>r u. find_refresh (hash raw) ?d' = Some r \<and> find_user (rt_userId r) ?d' = Some u \<and> u_status u = Active
        \<and> T + REUSE_GRACE_MS \<le> rt_expiresAt r \<and> (case rt_usedAt r of None \<Rightarrow> True | Some t0 \<Rightarrow> T \<le> t0)"
      using found u r win by (cases "rt_usedAt r") (auto simp: find_user_def)
    show "distinct (map rt_id (refresh_tokens ?d'))"
      using ids fresh by (auto simp: map_upd_rows_key fresh_refresh_def new_refresh_def set_upd_rows)
    show "fresh_refresh hash (rd_row m) (rd_raw m) ?d'" if m: "m \<in> set ns" for m
    proof (rule fresh_after_new)
      show "fresh_refresh hash (rd_row m) (rd_raw m) d" using inv m by (simp add: refreshable_def)
      show "rd_row m \<noteq> rd_row n" "hash (rd_raw m) \<noteq> hash (rd_raw n)"
        using inv m by (auto simp: refreshable_def image_iff)
    qed simp
  qed (use inv in \<open>auto simp: refreshable_def\<close>)
  moreover have "live_refresh hash (rd_raw n) ?d'" by (auto simp: live_refresh_def new_refresh_def)
  moreover have "live_refresh hash x ?d'" if live: "live_refresh hash x d" "hash x \<noteq> hash raw" for x
  proof -
    obtain y where y: "y \<in> set (refresh_tokens d)" "rt_tokenHash y = hash x" "rt_usedAt y = None"
      using live(1) by (auto simp: live_refresh_def)
    then have "rt_id y \<noteq> rt_id r" using distinct_key_unique [OF ids y(1) rin(1)] rin(2) live(2) by auto
    then have "y \<in> set ?rows" using y(1) by (force simp: set_upd_rows)
    with y show ?thesis by (auto simp: live_refresh_def)
  qed
  ultimately show thesis using rot by (intro that [of ?tk ?d']) auto
qed


definition stub_jwt :: "string jwt_lib" where
  "stub_jwt = \<lparr>j_sign = (\<lambda>t c ttl. ''jwt''), j_verify = (\<lambda>t tok. None)\<rparr>"

definition two_loads :: "refresh_draw list" where
  "two_loads = [\<lparr>rd_now = 5000, rd_row = ''t2'', rd_raw = ''raw2''\<rparr>, \<lparr>rd_now = 5100, rd_row = ''t3'', rd_raw = ''raw3''\<rparr>]"


end
