(* ===== verification/Wizards.thy ===== *)
theory Wizards
  imports Inputs HttpErrors Bff Wallets
begin

text \<open>
  The money screens of the customer app as state machines: \<open>SendMoneyWizard\<close> with its
  \<open>StepUpPrompt\<close>, \<open>MoneyRequestWizard\<close> and \<open>ExchangeScreen\<close>
  (\<open>components/pay\<close>, \<open>components/wallet\<close>, \<open>components/exchange\<close>), and
  \<open>lib/passkeys/client.ts\<close>, which the prompt calls.

  A screen is a record of its \<open>useState\<close> cells, the form's fields, the key of \<open>useIdempotencyKey\<close>
  and what it has in flight (timers, requests). An event is what can happen to it: typing, a
  button, a timer, a reply; an event whose button is not on the screen or is disabled changes
  nothing. A step gives the next state and the request that leaves the browser. A handler that
  is waiting keeps the values of the render that started it, as its closure does. Rendering is
  not modelled, beyond which buttons a state shows.
\<close>

section \<open>One idempotency key per logical operation\<close>

text \<open>The key a request carries.\<close>

definition call_key :: "api_call \<Rightarrow> string option" where
  "call_key c = map_of (cq_headers c) ''idempotency-key''"

fun list_of :: "'a option \<Rightarrow> 'a list" where
  "list_of None = []"
| "list_of (Some x) = [x]"

text \<open>A session: events with the identifier \<open>crypto.randomUUID\<close> would give at each. It ends in
  a state, the requests that left, and how often the screen reported success.\<close>

fun session ::
  "(string \<Rightarrow> 'e \<Rightarrow> 'w \<Rightarrow> 'w \<times> api_call option) \<Rightarrow> ('e \<Rightarrow> 'w \<Rightarrow> bool) \<Rightarrow> (string \<times> 'e) list \<Rightarrow> 'w
     \<Rightarrow> 'w \<times> api_call list \<times> nat" where
  "session step succeeds [] w = (w, [], 0)"
| "session step succeeds ((f, e) # evs) w =
     (case step f e w of (w1, out) \<Rightarrow>
        (case session step succeeds evs w1 of (w2, cs, n) \<Rightarrow>
           (w2, list_of out @ cs, if succeeds e w then Suc n else n)))"

definition keys_of :: "api_call list \<Rightarrow> string set" where
  "keys_of cs = {k. \<exists>c \<in> set cs. call_key c = Some k}"

lemma keys_of_simps [simp]:
  "keys_of [] = {}" "keys_of (c # cs) = set_option (call_key c) \<union> keys_of cs"
  "keys_of (cs @ cs') = keys_of cs \<union> keys_of cs'"
  by (auto simp: keys_of_def)

lemma finite_keys [simp]: "finite (keys_of cs)"
proof -
  have "keys_of cs \<subseteq> \<Union> ((\<lambda>c. set_option (call_key c)) ` set cs)" by (auto simp: keys_of_def)
  then show ?thesis by (rule finite_subset) auto
qed

text \<open>
  What every money screen promises: a request that carries a key carries the screen's, the key is
  taken from the fresh identifier when there was none and otherwise kept, and a success drops it.
\<close>

locale keyed_screen =
  fixes step :: "string \<Rightarrow> 'e \<Rightarrow> 'w \<Rightarrow> 'w \<times> api_call option"
    and succeeds :: "'e \<Rightarrow> 'w \<Rightarrow> bool"
    and key :: "'w \<Rightarrow> key_ref"
  assumes carries: "step f e w = (w', Some c) \<Longrightarrow> call_key c = None \<or> call_key c = key w'"
    and keeps: "step f e w = (w', out) \<Longrightarrow> \<not> succeeds e w \<Longrightarrow> key w' = key w \<or> key w = None \<and> key w' = Some f"
    and resets: "step f e w = (w', out) \<Longrightarrow> succeeds e w \<Longrightarrow> key w' = None \<and> out = None"
begin

lemma session_keys:
  assumes "session step succeeds evs w = (w', cs, n)"
  shows "card (keys_of cs \<union> set_option (key w)) \<le> Suc n"
  using assms
proof (induction evs arbitrary: w cs n)
  case Nil
  then show ?case by (cases "key w") auto
next
  case (Cons fe evs)
  obtain f e where fe: "fe = (f, e)" by (cases fe)
  obtain w1 out where st: "step f e w = (w1, out)" by (cases "step f e w")
  obtain cs1 m where rest: "session step succeeds evs w1 = (w', cs1, m)"
    and cs: "cs = list_of out @ cs1" and n: "n = (if succeeds e w then Suc m else m)"
    using Cons.prems fe st by (auto split: prod.splits)
  have ih: "card (keys_of cs1 \<union> set_option (key w1)) \<le> Suc m" using Cons.IH [OF rest] .
  show ?case
  proof (cases "succeeds e w")
    case True
    have "keys_of cs \<union> set_option (key w) = keys_of cs1 \<union> set_option (key w)"
      using resets [OF st True] cs by simp
    moreover have "card (keys_of cs1 \<union> set_option (key w)) \<le> Suc (card (keys_of cs1))"
      by (cases "key w") (auto simp: card_insert_if)
    moreover have "card (keys_of cs1) \<le> Suc m" using ih resets [OF st True] by simp
    ultimately show ?thesis using True n by simp
  next
    case False
    have "keys_of (list_of out) \<subseteq> set_option (key w1)"
      using carries [of f e w w1] st by (cases out) auto
    moreover have "set_option (key w) \<subseteq> set_option (key w1)" using keeps [OF st False] by auto
    ultimately have "keys_of cs \<union> set_option (key w) \<subseteq> keys_of cs1 \<union> set_option (key w1)"
      using cs by auto
    then have "card (keys_of cs \<union> set_option (key w)) \<le> card (keys_of cs1 \<union> set_option (key w1))"
      by (intro card_mono) auto
    then show ?thesis using ih False n by simp
  qed
qed

text \<open>Every key was the screen's at the start or one of the fresh identifiers.\<close>

lemma session_minted:
  assumes "session step succeeds evs w = (w', cs, n)"
  shows "keys_of cs \<subseteq> fst ` set evs \<union> set_option (key w)"
  using assms
proof (induction evs arbitrary: w cs n)
  case (Cons fe evs)
  obtain f e where fe: "fe = (f, e)" by (cases fe)
  obtain w1 out where st: "step f e w = (w1, out)" by (cases "step f e w")
  obtain cs1 m where rest: "session step succeeds evs w1 = (w', cs1, m)" and cs: "cs = list_of out @ cs1"
    using Cons.prems fe st by (auto split: prod.splits)
  have w1: "set_option (key w1) \<subseteq> insert f (set_option (key w))"
    using keeps [OF st] resets [OF st] by (cases "succeeds e w") auto
  have "keys_of (list_of out) \<subseteq> set_option (key w1)"
    using carries [of f e w w1] st by (cases out) auto
  then show ?case using w1 Cons.IH [OF rest] cs fe by auto
qed simp

lemma one_key_per_success:
  assumes "session step succeeds evs w = (w', cs, n)"
  shows "card (keys_of cs) \<le> Suc n"
proof -
  have "card (keys_of cs) \<le> card (keys_of cs \<union> set_option (key w))" by (intro card_mono) auto
  then show ?thesis using session_keys [OF assms] by simp
qed

end

text \<open>
  Screens whose requests only use what replies have given: what the replies of a session give
  grows with it, an invariant holds of state and replies, and under it every request is allowed.
\<close>

locale answered_screen =
  fixes step :: "string \<Rightarrow> 'e \<Rightarrow> 'w \<Rightarrow> 'w \<times> api_call option"
    and succeeds :: "'e \<Rightarrow> 'w \<Rightarrow> bool"
    and seen :: "(string \<times> 'e) list \<Rightarrow> 'b set"
    and inv :: "'b set \<Rightarrow> 'w \<Rightarrow> bool"
    and allowed :: "'b set \<Rightarrow> api_call \<Rightarrow> bool"
  assumes seen_Nil: "seen [] = {}"
    and seen_Cons: "seen (x # evs) = seen [x] \<union> seen evs"
    and allowed_mono: "allowed B c \<Longrightarrow> B \<subseteq> B' \<Longrightarrow> allowed B' c"
    and inv_step: "inv B w \<Longrightarrow> step f e w = (w', out) \<Longrightarrow>
      inv (B \<union> seen [(f, e)]) w' \<and> (\<forall>c. out = Some c \<longrightarrow> allowed (B \<union> seen [(f, e)]) c)"
begin

lemma session_allowed:
  assumes "session step succeeds evs w = (w', cs, n)" "inv B w" "c \<in> set cs"
  shows "allowed (B \<union> seen evs) c"
  using assms
proof (induction evs arbitrary: w cs n B)
  case (Cons fe evs)
  obtain f e where fe: "fe = (f, e)" by (cases fe)
  obtain w1 out where st: "step f e w = (w1, out)" by (cases "step f e w")
  obtain cs1 m where rest: "session step succeeds evs w1 = (w', cs1, m)" and cs: "cs = list_of out @ cs1"
    using Cons.prems(1) fe st by (auto split: prod.splits)
  have now: "inv (B \<union> seen [(f, e)]) w1" "\<forall>c. out = Some c \<longrightarrow> allowed (B \<union> seen [(f, e)]) c"
    using inv_step [OF Cons.prems(2) st] by auto
  have more: "B \<union> seen [(f, e)] \<union> seen evs = B \<union> seen (fe # evs)"
    unfolding fe seen_Cons [of "(f, e)" evs] by auto
  show ?case
  proof (cases "c \<in> set cs1")
    case True
    then show ?thesis using Cons.IH [OF rest now(1)] more by simp
  next
    case False
    then have "out = Some c" using Cons.prems(3) cs by (cases out) auto
    then show ?thesis unfolding more [symmetric] using now(2) by (blast intro: allowed_mono)
  qed
qed simp

end

section \<open>\<open>lib/passkeys/client.ts\<close>\<close>

text \<open>The browser's WebAuthn ceremony is a parameter: from the server's options to a response, or
  an error when the person cancels.\<close>

type_synonym ceremony = "jval option \<Rightarrow> exn + jval"

definition post_empty :: "string \<Rightarrow> api_call" where
  "post_empty path = \<lparr>cq_method = ''POST'', cq_path = path, cq_headers = [], cq_body = None\<rparr>"

definition post_body :: "string \<Rightarrow> jval \<Rightarrow> api_call" where
  "post_body path b = \<lparr>cq_method = ''POST'', cq_path = path, cq_headers = [JSON_HEADER], cq_body = Some b\<rparr>"

text \<open>\<open>const { options, challengeToken } = await o.json()\<close>\<close>

definition read_options :: "http_reply_msg \<Rightarrow> exn + jval option \<times> jval option" where
  "read_options o1 =
     (case res_json o1 of
        Inl e \<Rightarrow> Inl e
      | Inr v \<Rightarrow>
          (case (prop_of (Some v) ''options'', prop_of (Some v) ''challengeToken'') of
             (Inr opts, Inr tok) \<Rightarrow> Inr (opts, tok) | (Inl e, _) \<Rightarrow> Inl e | (_, Inl e) \<Rightarrow> Inl e))"

definition registerPasskey ::
  "'s fetch \<Rightarrow> ceremony \<Rightarrow> string option \<Rightarrow> 's \<Rightarrow> (exn + bool) \<times> 's" where
  "registerPasskey fetch startRegistration label s =
     (case fetch (post_empty ''/api/passkeys/register/options'') s of
        (None, s1) \<Rightarrow> (Inl FetchFailed, s1)
      | (Some o1, s1) \<Rightarrow>
          if \<not> res_ok (hm_status o1) then (Inr False, s1)
          else (case read_options o1 of
             Inl e \<Rightarrow> (Inl e, s1)
           | Inr (opts, tok) \<Rightarrow>
               (case startRegistration opts of
                  Inl e \<Rightarrow> (Inl e, s1)
                | Inr resp \<Rightarrow>
                    (case fetch (post_body ''/api/passkeys/register/verify''
                        (json_obj [(''response'', Some resp), (''challengeToken'', tok),
                           (''label'', map_option JStr label)])) s1 of
                       (None, s2) \<Rightarrow> (Inl FetchFailed, s2)
                     | (Some v, s2) \<Rightarrow> (Inr (res_ok (hm_status v)), s2)))))"

definition passkey_authenticate ::
  "'s fetch \<Rightarrow> ceremony \<Rightarrow> string \<Rightarrow> string \<Rightarrow> 's \<Rightarrow> (exn + http_reply_msg) \<times> 's" where
  "passkey_authenticate fetch startAuthentication optionsUrl verifyUrl s =
     (case fetch (post_empty optionsUrl) s of
        (None, s1) \<Rightarrow> (Inl FetchFailed, s1)
      | (Some o1, s1) \<Rightarrow>
          if \<not> res_ok (hm_status o1) then (Inl (OtherError ''Could not start passkey ceremony''), s1)
          else (case read_options o1 of
             Inl e \<Rightarrow> (Inl e, s1)
           | Inr (opts, tok) \<Rightarrow>
               (case startAuthentication opts of
                  Inl e \<Rightarrow> (Inl e, s1)
                | Inr resp \<Rightarrow>
                    (case fetch (post_body verifyUrl
                        (json_obj [(''response'', Some resp), (''challengeToken'', tok)])) s1 of
                       (None, s2) \<Rightarrow> (Inl FetchFailed, s2)
                     | (Some v, s2) \<Rightarrow> (Inr v, s2)))))"

definition browser_loginWithPasskey :: "'s fetch \<Rightarrow> ceremony \<Rightarrow> 's \<Rightarrow> (exn + bool) \<times> 's" where
  "browser_loginWithPasskey fetch ceremony s =
     (case passkey_authenticate fetch ceremony ''/api/auth/passkeys/login/options''
             ''/api/auth/passkeys/login/verify'' s of
        (Inl e, s') \<Rightarrow> (Inl e, s') | (Inr r, s') \<Rightarrow> (Inr (res_ok (hm_status r)), s'))"

text \<open>\<open>null\<close> is a refusal; the API's grants are strings, and a reply without one gives \<open>undefined\<close>,
  which the caller treats as a refusal too, so both are \<open>None\<close>.\<close>

definition stepUpWithPasskey :: "'s fetch \<Rightarrow> ceremony \<Rightarrow> 's \<Rightarrow> (exn + string option) \<times> 's" where
  "stepUpWithPasskey fetch ceremony s =
     (case passkey_authenticate fetch ceremony ''/api/auth/step-up/passkey/options''
             ''/api/auth/step-up/passkey/verify'' s of
        (Inl e, s') \<Rightarrow> (Inl e, s')
      | (Inr r, s') \<Rightarrow>
          if \<not> res_ok (hm_status r) then (Inr None, s')
          else (case res_json r of
             Inl e \<Rightarrow> (Inl e, s')
           | Inr v \<Rightarrow> (case prop_of (Some v) ''stepUpToken'' of
                Inl e \<Rightarrow> (Inl e, s')
              | Inr t \<Rightarrow> (Inr (case t of Some (JStr x) \<Rightarrow> Some x | _ \<Rightarrow> None), s'))))"

section \<open>\<open>SendMoneyWizard\<close>: state\<close>

datatype recipient_state =
    LkIdle | LkLooking | LkError string
  | LkFound (lk_name: "jval option") (lk_handle: string) (lk_currency: "jval option")

record resolved_lookup =
  rv_handle :: string
  rv_recipient :: "jval option"
  rv_state :: recipient_state

record send_props =
  sp_walletId :: string
  sp_currency :: string
  sp_prefill :: string

text \<open>A handler of the prompt that waits for its reply: whether it is the passkey's, the instance of
  the prompt it belongs to, and the recipient and values its \<open>onGrant\<close> closed over.\<close>

record grant_wait =
  gw_passkey :: bool
  gw_instance :: nat
  gw_recipient :: jval
  gw_values :: transfer_form

record send_wizard =
  sw_handle :: string
  sw_amount :: string
  sw_note :: string
  sw_step :: nat
  sw_open :: bool
  sw_resolved :: resolved_lookup
  sw_values :: "transfer_form option"
  sw_stepUp :: bool
  sw_pending :: bool
  sw_result :: jval
  sw_key :: key_ref
  sw_timer :: "string option"
  sw_lookups :: "string list"
  sw_sends :: nat
  sw_code :: string
  sw_busy :: bool
  sw_instance :: nat
  sw_waiting :: "grant_wait list"
  sw_toasts :: "toast_msg list"

definition nothing_resolved :: resolved_lookup where
  "nothing_resolved = \<lparr>rv_handle = [], rv_recipient = None, rv_state = LkIdle\<rparr>"

text \<open>What the render derives from the state.\<close>

definition typed :: "send_wizard \<Rightarrow> string" where
  "typed w = to_lower (trim (sw_handle w))"

definition current_lookup :: "send_wizard \<Rightarrow> resolved_lookup option" where
  "current_lookup w = (if rv_handle (sw_resolved w) = typed w then Some (sw_resolved w) else None)"

definition the_recipient :: "send_wizard \<Rightarrow> jval option" where
  "the_recipient w = Option.bind (current_lookup w) rv_recipient"

definition lookup_state :: "send_wizard \<Rightarrow> recipient_state" where
  "lookup_state w = (case current_lookup w of Some r \<Rightarrow> rv_state r
     | None \<Rightarrow> if handle_regex (typed w) then LkLooking else LkIdle)"

definition js_truthy :: "jval \<Rightarrow> bool" where
  "js_truthy v = (case v of JNull \<Rightarrow> False | JBool b \<Rightarrow> b | JNum n \<Rightarrow> n \<noteq> 0 | JStr s \<Rightarrow> s \<noteq> [] | _ \<Rightarrow> True)"

text \<open>The three panels of the screen and the prompt inside the second.\<close>

definition confirm_shown :: "send_wizard \<Rightarrow> (jval \<times> transfer_form) option" where
  "confirm_shown w = (case (sw_values w, the_recipient w) of
     (Some v, Some rc) \<Rightarrow> if sw_step w = 2 then Some (rc, v) else None | _ \<Rightarrow> None)"

definition prompt_shown :: "send_wizard \<Rightarrow> (jval \<times> transfer_form) option" where
  "prompt_shown w = (if sw_stepUp w then confirm_shown w else None)"

definition buttons_shown :: "send_wizard \<Rightarrow> (jval \<times> transfer_form) option" where
  "buttons_shown w = (if sw_stepUp w then None else confirm_shown w)"

definition done_shown :: "send_wizard \<Rightarrow> bool" where
  "done_shown w \<longleftrightarrow> sw_step w = 3 \<and> js_truthy (sw_result w) \<and> the_recipient w \<noteq> None"

definition send_start :: "send_props \<Rightarrow> send_wizard" where
  "send_start p = \<lparr>sw_handle = to_lower (sp_prefill p), sw_amount = [], sw_note = [], sw_step = 1,
     sw_open = False, sw_resolved = nothing_resolved, sw_values = None, sw_stepUp = False,
     sw_pending = False, sw_result = JNull, sw_key = None,
     sw_timer = (let t = to_lower (trim (to_lower (sp_prefill p))) in if handle_regex t then Some t else None),
     sw_lookups = [], sw_sends = 0, sw_code = [], sw_busy = False, sw_instance = 0, sw_waiting = [],
     sw_toasts = []\<rparr>"

section \<open>\<open>SendMoneyWizard\<close>: handlers\<close>

definition get_call :: "string \<Rightarrow> api_call" where
  "get_call path = \<lparr>cq_method = ''GET'', cq_path = path, cq_headers = [], cq_body = None\<rparr>"

text \<open>The rules of the lookup: the handle exists, is not the sender's own, and has the same currency.
  A body of \<open>null\<close> throws in the timer's callback, and nothing changes.\<close>

definition lookup_fail :: "string \<Rightarrow> string \<Rightarrow> resolved_lookup" where
  "lookup_fail h message = \<lparr>rv_handle = h, rv_recipient = None, rv_state = LkError message\<rparr>"

definition lookup_result :: "send_props \<Rightarrow> string \<Rightarrow> api_result \<Rightarrow> resolved_lookup option" where
  "lookup_result p h r =
     (case r of
        ApiFailed e \<Rightarrow> Some (lookup_fail h ''No one found with that handle.'')
      | ApiOk st d \<Rightarrow>
          if d = JNull then None
          else if jget ''walletId'' d = Some (JStr (sp_walletId p))
            then Some (lookup_fail h ''You can't send to yourself.'')
          else if jget ''currency'' d \<noteq> Some (JStr (sp_currency p))
            then Some (lookup_fail h ''Cross-currency sending is coming soon.'')
          else Some \<lparr>rv_handle = h, rv_recipient = Some d,
                  rv_state = LkFound (jget ''recipientName'' d) h (jget ''currency'' d)\<rparr>)"

definition toConfirm :: "transfer_form \<Rightarrow> send_wizard \<Rightarrow> send_wizard" where
  "toConfirm v w = (if the_recipient w = None then w else w\<lparr>sw_values := Some v, sw_step := 2\<rparr>)"

text \<open>\<open>NaN\<close> is written as \<open>null\<close>; an empty note is \<open>undefined\<close> and left out.\<close>

definition minor_json :: "string \<Rightarrow> jval" where
  "minor_json amount = (case parseAmountToMinor amount of None \<Rightarrow> JNull | Some m \<Rightarrow> jint (int m))"

definition note_json :: "string option \<Rightarrow> jval option" where
  "note_json n = (case n of None \<Rightarrow> None | Some s \<Rightarrow> if s = [] then None else Some (JStr s))"

definition money_call :: "string \<Rightarrow> string \<Rightarrow> string option \<Rightarrow> (string \<times> jval option) list \<Rightarrow> api_call" where
  "money_call path key token body = \<lparr>cq_method = ''POST'', cq_path = path,
     cq_headers = [JSON_HEADER, (''idempotency-key'', key)] @
       (case token of None \<Rightarrow> [] | Some t \<Rightarrow> if t = [] then [] else [(''x-step-up-token'', t)]),
     cq_body = Some (json_obj body)\<rparr>"

definition send_call :: "send_props \<Rightarrow> string \<Rightarrow> string option \<Rightarrow> jval \<Rightarrow> transfer_form \<Rightarrow> api_call" where
  "send_call p key token rc v =
     money_call (''/api/wallets/'' @ sp_walletId p @ ''/transfers'') key token
       [(''toWalletId'', jget ''walletId'' rc), (''amount'', Some (minor_json (tf_amount v))),
        (''note'', note_json (tf_note v))]"

text \<open>\<open>send\<close> up to its \<open>await\<close>, with the recipient and values of its render.\<close>

definition send_request ::
  "send_props \<Rightarrow> string \<Rightarrow> string option \<Rightarrow> jval \<Rightarrow> transfer_form \<Rightarrow> send_wizard \<Rightarrow> send_wizard \<times> api_call option" where
  "send_request p fresh token rc v w =
     (case key_get fresh (sw_key w) of (k, r) \<Rightarrow>
        (w\<lparr>sw_pending := True, sw_key := r, sw_sends := Suc (sw_sends w)\<rparr>, Some (send_call p k token rc v)))"

definition SEND_TOASTS :: "(string \<times> string) list" where
  "SEND_TOASTS =
     [(''HTTP_409'', ''This send may have already gone through -- check your balance before trying again.''),
      (''HTTP_500'', ''Could not send. Check your balance and try again.''),
      (''HTTP_400'', ''Could not send. Check your balance and try again.'')]"

definition toast :: "api_error \<Rightarrow> (string \<times> string) list \<Rightarrow> send_wizard \<Rightarrow> send_wizard" where
  "toast e overrides w = w\<lparr>sw_toasts := sw_toasts w @ [toastApiError e overrides]\<rparr>"

text \<open>\<open>send\<close> after its \<open>await\<close>.\<close>

definition send_reply :: "api_result \<Rightarrow> send_wizard \<Rightarrow> send_wizard" where
  "send_reply r w =
     (let w1 = w\<lparr>sw_pending := False, sw_sends := sw_sends w - 1\<rparr> in
      case r of
        ApiFailed e \<Rightarrow>
          if ap_status e = 403 \<and> ap_code e = ''STEP_UP_REQUIRED'' then w1\<lparr>sw_stepUp := True\<rparr>
          else toast e SEND_TOASTS w1
      | ApiOk st d \<Rightarrow> w1\<lparr>sw_key := key_reset (sw_key w1), sw_stepUp := False, sw_result := d, sw_step := 3\<rparr>)"

definition send_again :: "send_wizard \<Rightarrow> send_wizard" where
  "send_again w = w\<lparr>sw_handle := [], sw_amount := [], sw_note := [], sw_resolved := nothing_resolved,
     sw_open := False, sw_values := None, sw_result := JNull, sw_step := 1\<rparr>"

section \<open>\<open>StepUpPrompt\<close>\<close>

definition prompt_free :: "send_wizard \<Rightarrow> bool" where
  "prompt_free w \<longleftrightarrow> \<not> sw_busy w \<and> \<not> sw_pending w"

text \<open>\<open>setBusy\<close> and \<open>setCode\<close> of a handler reach only the instance of the prompt it belongs to.\<close>

definition on_instance :: "grant_wait \<Rightarrow> (send_wizard \<Rightarrow> send_wizard) \<Rightarrow> send_wizard \<Rightarrow> send_wizard" where
  "on_instance g f w = (if gw_instance g = sw_instance w then f w else w)"

definition prompt_wait :: "bool \<Rightarrow> jval \<Rightarrow> transfer_form \<Rightarrow> send_wizard \<Rightarrow> send_wizard" where
  "prompt_wait pk rc v w = w\<lparr>sw_busy := True, sw_waiting := sw_waiting w @
     [\<lparr>gw_passkey = pk, gw_instance = sw_instance w, gw_recipient = rc, gw_values = v\<rparr>]\<rparr>"

definition prompt_back :: "grant_wait \<Rightarrow> send_wizard \<Rightarrow> send_wizard" where
  "prompt_back g w = on_instance g (\<lambda>w. w\<lparr>sw_busy := False\<rparr>) (w\<lparr>sw_waiting := remove1 g (sw_waiting w)\<rparr>)"

definition CODE_TOASTS :: "(string \<times> string) list" where
  "CODE_TOASTS = [(''HTTP_401'', ''That code did not work -- try the next one.''),
     (''HTTP_400'', ''That code did not work -- try the next one.'')]"

definition verify_reply ::
  "send_props \<Rightarrow> string \<Rightarrow> grant_wait \<Rightarrow> api_result \<Rightarrow> send_wizard \<Rightarrow> send_wizard \<times> api_call option" where
  "verify_reply p fresh g r w =
     (let w1 = prompt_back g w in
      case r of
        ApiFailed e \<Rightarrow> (toast e CODE_TOASTS w1, None)
      | ApiOk st d \<Rightarrow>
          (let w2 = on_instance g (\<lambda>w. w\<lparr>sw_code := []\<rparr>) w1 in
           if d = JNull then (w2, None)
           else send_request p fresh (env_string ''stepUpToken'' d) (gw_recipient g) (gw_values g) w2))"

definition passkey_error :: "string \<Rightarrow> api_error" where
  "passkey_error m = \<lparr>ap_status = 0, ap_code = ''PASSKEY'', ap_message = m, ap_details = None\<rparr>"

text \<open>The argument is what \<open>stepUpWithPasskey\<close> ended with.\<close>

definition passkey_ends ::
  "send_props \<Rightarrow> string \<Rightarrow> grant_wait \<Rightarrow> exn + string option \<Rightarrow> send_wizard \<Rightarrow> send_wizard \<times> api_call option" where
  "passkey_ends p fresh g res w =
     (let w1 = prompt_back g w in
      case res of
        Inl e \<Rightarrow> (toast (passkey_error ''Passkey verification was cancelled.'') [] w1, None)
      | Inr grant \<Rightarrow>
          if given grant then send_request p fresh grant (gw_recipient g) (gw_values g) w1
          else (toast (passkey_error ''Passkey verification failed.'') [] w1, None))"

section \<open>\<open>SendMoneyWizard\<close>: events\<close>

datatype send_event =
    TypeHandle string | TypeAmount string | TypeNote string | SetOpen bool
  | LookupTimer | LookupReply string "http_reply_msg option"
  | Continue | EditDetails | ConfirmSend | SendReply "http_reply_msg option"
  | PromptCode string | PromptVerify | VerifyReply grant_wait "http_reply_msg option"
  | PromptPasskey | PasskeyEnds grant_wait "exn + string option"
  | SendAgain

definition form_values :: "send_wizard \<Rightarrow> transfer_form" where
  "form_values w = \<lparr>tf_handle = sw_handle w, tf_amount = sw_amount w, tf_note = Some (sw_note w)\<rparr>"

fun send_react :: "send_props \<Rightarrow> string \<Rightarrow> send_event \<Rightarrow> send_wizard \<Rightarrow> send_wizard \<times> api_call option" where
  "send_react p f (TypeHandle s) w = (if sw_step w = 1 then w\<lparr>sw_handle := s\<rparr> else w, None)"
| "send_react p f (TypeAmount s) w = (if sw_step w = 1 then w\<lparr>sw_amount := sanitizeAmount s\<rparr> else w, None)"
| "send_react p f (TypeNote s) w = (if sw_step w = 1 then w\<lparr>sw_note := s\<rparr> else w, None)"
| "send_react p f (SetOpen b) w = (if sw_step w = 1 then w\<lparr>sw_open := b\<rparr> else w, None)"
| "send_react p f LookupTimer w =
     (case sw_timer w of
        None \<Rightarrow> (w, None)
      | Some h \<Rightarrow> (w\<lparr>sw_timer := None, sw_lookups := sw_lookups w @ [h]\<rparr>,
          Some (get_call (''/api/wallets/lookup?handle='' @ encodeURIComponent h))))"
| "send_react p f (LookupReply h r) w =
     (if \<not> List.member (sw_lookups w) h then (w, None)
      else (let w1 = w\<lparr>sw_lookups := remove1 h (sw_lookups w)\<rparr> in
            case lookup_result p h (apiRequest r) of
              None \<Rightarrow> (w1, None) | Some rv \<Rightarrow> (w1\<lparr>sw_resolved := rv\<rparr>, None)))"
| "send_react p f Continue w =
     (if sw_step w = 1 \<and> the_recipient w \<noteq> None \<and> transferSchema (form_values w)
      then toConfirm (form_values w) w else w, None)"
| "send_react p f EditDetails w =
     (if buttons_shown w \<noteq> None \<and> \<not> sw_pending w then w\<lparr>sw_step := 1\<rparr> else w, None)"
| "send_react p f ConfirmSend w =
     (case buttons_shown w of
        None \<Rightarrow> (w, None)
      | Some (rc, v) \<Rightarrow> if sw_pending w then (w, None) else send_request p f None rc v w)"
| "send_react p f (SendReply r) w = (if sw_sends w = 0 then w else send_reply (apiRequest r) w, None)"
| "send_react p f (PromptCode s) w = (if prompt_shown w = None then w else w\<lparr>sw_code := s\<rparr>, None)"
| "send_react p f PromptVerify w =
     (case prompt_shown w of
        None \<Rightarrow> (w, None)
      | Some (rc, v) \<Rightarrow>
          if prompt_free w \<and> sw_code w \<noteq> []
          then (prompt_wait False rc v w,
                Some (post_body ''/api/auth/step-up'' (JObj [(''code'', JStr (sw_code w))])))
          else (w, None))"
| "send_react p f (VerifyReply g r) w =
     (if List.member (sw_waiting w) g \<and> \<not> gw_passkey g then verify_reply p f g (apiRequest r) w else (w, None))"
| "send_react p f PromptPasskey w =
     (case prompt_shown w of
        None \<Rightarrow> (w, None)
      | Some (rc, v) \<Rightarrow> (if prompt_free w then prompt_wait True rc v w else w, None))"
| "send_react p f (PasskeyEnds g res) w =
     (if List.member (sw_waiting w) g \<and> gw_passkey g then passkey_ends p f g res w else (w, None))"
| "send_react p f SendAgain w = (if done_shown w then send_again w else w, None)"

text \<open>What React does after the render: the effect runs again when what is typed has changed (its
  cleanup clears the timer, but a lookup already sent goes on), and a prompt that is no longer
  rendered loses its state.\<close>

definition rerun_effect :: "string \<Rightarrow> send_wizard \<Rightarrow> send_wizard" where
  "rerun_effect before w =
     (if typed w = before then w
      else w\<lparr>sw_timer := if handle_regex (typed w) then Some (typed w) else None\<rparr>)"

definition unmount_prompt :: "bool \<Rightarrow> send_wizard \<Rightarrow> send_wizard" where
  "unmount_prompt was w =
     (if was \<and> prompt_shown w = None
      then w\<lparr>sw_code := [], sw_busy := False, sw_instance := Suc (sw_instance w)\<rparr> else w)"

definition send_step :: "send_props \<Rightarrow> string \<Rightarrow> send_event \<Rightarrow> send_wizard \<Rightarrow> send_wizard \<times> api_call option" where
  "send_step p f e w =
     (case send_react p f e w of
        (w1, out) \<Rightarrow> (unmount_prompt (prompt_shown w \<noteq> None) (rerun_effect (typed w) w1), out))"

text \<open>The event after which the screen says "Sent".\<close>

definition send_succeeds :: "send_event \<Rightarrow> send_wizard \<Rightarrow> bool" where
  "send_succeeds e w \<longleftrightarrow> (case e of
     SendReply r \<Rightarrow> sw_sends w \<noteq> 0 \<and> (case apiRequest r of ApiOk st d \<Rightarrow> True | ApiFailed er \<Rightarrow> False) | _ \<Rightarrow> False)"

lemma after_render_fields [simp]:
  "sw_key (unmount_prompt b (rerun_effect t w)) = sw_key w"
  "sw_handle (unmount_prompt b (rerun_effect t w)) = sw_handle w"
  "sw_resolved (unmount_prompt b (rerun_effect t w)) = sw_resolved w"
  "sw_values (unmount_prompt b (rerun_effect t w)) = sw_values w"
  "sw_step (unmount_prompt b (rerun_effect t w)) = sw_step w"
  "sw_waiting (unmount_prompt b (rerun_effect t w)) = sw_waiting w"
  "sw_stepUp (unmount_prompt b (rerun_effect t w)) = sw_stepUp w"
  "sw_lookups (unmount_prompt b (rerun_effect t w)) = sw_lookups w"
  "sw_sends (unmount_prompt b (rerun_effect t w)) = sw_sends w"
  "sw_amount (unmount_prompt b (rerun_effect t w)) = sw_amount w"
  "sw_result (unmount_prompt b (rerun_effect t w)) = sw_result w"
  by (simp_all add: unmount_prompt_def rerun_effect_def)

lemma money_call_key [simp]: "call_key (money_call path k token body) = Some k"
  by (simp add: call_key_def money_call_def JSON_HEADER_def)

lemma plain_call_key [simp]: "call_key (get_call path) = None" "call_key (post_body path b) = None"
  by (simp_all add: call_key_def get_call_def post_body_def JSON_HEADER_def)

lemma send_call_key [simp]: "call_key (send_call p k token rc v) = Some k"
  by (simp add: send_call_def)

lemmas send_handlers = toConfirm_def send_request_def send_reply_def send_again_def prompt_wait_def
  prompt_back_def on_instance_def verify_reply_def passkey_ends_def toast_def key_get_def key_reset_def Let_def

interpretation sending: keyed_screen "send_step p" send_succeeds sw_key
proof unfold_locales
  fix f e w w' c out
  show "call_key c = None \<or> call_key c = sw_key w'" if "send_step p f e w = (w', Some c)"
    using that by (cases e) (auto simp: send_step_def send_handlers
      split: option.splits if_splits prod.splits api_result.splits sum.splits)
  show "sw_key w' = sw_key w \<or> sw_key w = None \<and> sw_key w' = Some f"
    if "send_step p f e w = (w', out)" "\<not> send_succeeds e w"
    using that by (cases e) (auto simp: send_step_def send_handlers send_succeeds_def
      split: option.splits if_splits prod.splits api_result.splits sum.splits)
  show "sw_key w' = None \<and> out = None" if "send_step p f e w = (w', out)" "send_succeeds e w"
    using that by (cases e) (auto simp: send_step_def send_handlers send_succeeds_def
      split: option.splits if_splits prod.splits api_result.splits sum.splits)
qed

section \<open>What is confirmed is what is sent\<close>

text \<open>The lookups of a session that found someone to pay: the handle asked for and the reply's data.\<close>

definition payable :: "send_props \<Rightarrow> jval \<Rightarrow> bool" where
  "payable p d \<longleftrightarrow> d \<noteq> JNull \<and> jget ''walletId'' d \<noteq> Some (JStr (sp_walletId p)) \<and>
     jget ''currency'' d = Some (JStr (sp_currency p))"

definition found :: "send_props \<Rightarrow> (string \<times> send_event) list \<Rightarrow> (string \<times> jval) set" where
  "found p evs = {(h, d). payable p d \<and>
     (\<exists>f r st. (f, LookupReply h r) \<in> set evs \<and> apiRequest r = ApiOk st d)}"

text \<open>A recipient and values that may be sent: a valid form whose handle was looked up and found.\<close>

definition sendable :: "(string \<times> jval) set \<Rightarrow> jval \<Rightarrow> transfer_form \<Rightarrow> bool" where
  "sendable B rc v \<longleftrightarrow> transferSchema v \<and> (tf_handle v, rc) \<in> B"

definition send_inv :: "(string \<times> jval) set \<Rightarrow> send_wizard \<Rightarrow> bool" where
  "send_inv B w \<longleftrightarrow>
     (\<forall>rc. rv_recipient (sw_resolved w) = Some rc \<longrightarrow> (rv_handle (sw_resolved w), rc) \<in> B) \<and>
     (\<forall>v. sw_values w = Some v \<longrightarrow> transferSchema v \<and> (sw_step w = 2 \<longrightarrow> tf_handle v = sw_handle w)) \<and>
     (\<forall>g \<in> set (sw_waiting w). sendable B (gw_recipient g) (gw_values g))"

lemma send_inv_mono: "send_inv B w \<Longrightarrow> B \<subseteq> B' \<Longrightarrow> send_inv B' w"
  by (auto simp: send_inv_def sendable_def)

lemma handle_char_no_space: "is_handle_char c \<Longrightarrow> \<not> is_space c"
  by (auto simp: is_handle_char_def is_lower_def is_digit_def is_space_def less_eq_char_def)

lemma handle_typed: "handle_regex h \<Longrightarrow> to_lower (trim h) = h"
proof -
  assume h: "handle_regex h"
  then have "list_all (\<lambda>c. \<not> is_space c) h"
    by (cases h) (auto simp: handle_regex_def list_all_iff handle_char_no_space is_handle_char_def)
  then show ?thesis using trim_no_space handle_lower [OF h] by simp
qed

lemma shown_sendable:
  assumes "send_inv B w" "confirm_shown w = Some (rc, v)"
  shows "sendable B rc v"
proof -
  have v: "sw_values w = Some v" "sw_step w = 2" and rc: "the_recipient w = Some rc"
    using assms(2) by (auto simp: confirm_shown_def split: option.splits if_splits)
  have ok: "transferSchema v" "tf_handle v = sw_handle w" using assms(1) v by (auto simp: send_inv_def)
  have "typed w = tf_handle v"
    using ok handle_typed [of "tf_handle v"] by (simp add: typed_def transferSchema_def)
  moreover have "rv_handle (sw_resolved w) = typed w" "rv_recipient (sw_resolved w) = Some rc"
    using rc by (auto simp: the_recipient_def current_lookup_def bind_eq_Some_conv split: if_splits)
  ultimately show ?thesis using ok(1) assms(1) by (auto simp: sendable_def send_inv_def)
qed

lemma lookup_result_found:
  "lookup_result p h r = Some rv \<Longrightarrow> rv_handle rv = h \<and>
     (\<forall>rc. rv_recipient rv = Some rc \<longrightarrow> payable p rc \<and> (\<exists>st. r = ApiOk st rc))"
  by (auto simp: lookup_result_def lookup_fail_def payable_def split: api_result.splits if_splits)

text \<open>What leaves the screen at a step: a lookup, a code to verify, or a transfer of a confirmed pair.\<close>

definition allowed_call :: "send_props \<Rightarrow> (string \<times> jval) set \<Rightarrow> api_call \<Rightarrow> bool" where
  "allowed_call p B c \<longleftrightarrow> call_key c = None \<or> (\<exists>k token rc v. c = send_call p k token rc v \<and> sendable B rc v)"

lemma send_step_inv:
  assumes inv: "send_inv B w" and st: "send_step p f e w = (w', out)"
    and B': "B' = B \<union> found p [(f, e)]"
  shows "send_inv B' w' \<and> (\<forall>c. out = Some c \<longrightarrow> allowed_call p B' c)"
proof -
  have inv': "send_inv B' w" using send_inv_mono [OF inv] B' by blast
  have shown: "sendable B' rc v" if "confirm_shown w = Some (rc, v)" for rc v
    using shown_sendable [OF inv' that] .
  have waits: "sendable B' (gw_recipient g) (gw_values g)" if "g \<in> set (sw_waiting w)" for g
    using inv' that by (auto simp: send_inv_def)
  have new: "rv_handle rv = h \<and> (\<forall>rc. rv_recipient rv = Some rc \<longrightarrow> (h, rc) \<in> B')"
    if "e = LookupReply h r" "lookup_result p h (apiRequest r) = Some rv" for h r rv
    using lookup_result_found [OF that(2)] that(1) B' by (auto simp: found_def)
  obtain w1 where r: "send_react p f e w = (w1, out)"
    and w': "w' = unmount_prompt (prompt_shown w \<noteq> None) (rerun_effect (typed w) w1)"
    using st by (auto simp: send_step_def split: prod.splits)
  have "send_inv B' w1 \<and> (\<forall>c. out = Some c \<longrightarrow> allowed_call p B' c)"
  proof (cases e)
    case (LookupReply h r)
    then show ?thesis using r inv' new [of h r]
      by (auto simp: send_inv_def Let_def split: if_splits option.splits)
  next
    case ConfirmSend
    then show ?thesis using r inv' shown
      by (auto simp: send_inv_def send_request_def key_get_def allowed_call_def buttons_shown_def
        split: if_splits option.splits prod.splits)
  next
    case PromptVerify
    then show ?thesis using r inv' shown
      by (auto simp: send_inv_def prompt_wait_def allowed_call_def prompt_shown_def
        split: if_splits option.splits prod.splits)
  next
    case PromptPasskey
    then show ?thesis using r inv' shown
      by (auto simp: send_inv_def prompt_wait_def allowed_call_def prompt_shown_def
        split: if_splits option.splits prod.splits)
  next
    case (VerifyReply g x)
    then show ?thesis using r inv' waits [of g]
      by (auto simp: send_inv_def send_handlers allowed_call_def 
        dest!: set_remove1_subset [THEN subsetD]
        split: if_splits option.splits prod.splits api_result.splits)
  next
    case (PasskeyEnds g x)
    then show ?thesis using r inv' waits [of g]
      by (auto simp: send_inv_def send_handlers allowed_call_def 
        dest!: set_remove1_subset [THEN subsetD]
        split: if_splits option.splits prod.splits sum.splits)
  next
    case (SendReply x)
    then show ?thesis using r inv'
      by (auto simp: send_inv_def send_reply_def toast_def Let_def split: if_splits api_result.splits)
  qed (use r inv' in \<open>auto simp: send_inv_def toConfirm_def form_values_def send_again_def nothing_resolved_def
        allowed_call_def split: if_splits option.splits\<close>)
  then show ?thesis unfolding w' by (simp add: send_inv_def)
qed

interpretation sent: answered_screen "send_step p" send_succeeds "found p" send_inv "allowed_call p"
proof unfold_locales
  fix x evs B B' c w f e w' out
  show "found p [] = {}" by (simp add: found_def)
  show "found p (x # evs) = found p [x] \<union> found p evs" by (auto simp: found_def)
  show "allowed_call p B' c" if "allowed_call p B c" "B \<subseteq> B'"
    using that unfolding allowed_call_def sendable_def by blast
  show "send_inv (B \<union> found p [(f, e)]) w' \<and> (\<forall>c. out = Some c \<longrightarrow> allowed_call p (B \<union> found p [(f, e)]) c)"
    if "send_inv B w" "send_step p f e w = (w', out)"
    using send_step_inv [OF that refl] .
qed

lemma schema_parses:
  assumes "amount_regex s" "positive_number s"
  shows "\<exists>m. parseAmountToMinor s = Some m \<and> 0 < m"
proof -
  define w r where "w = whole_part s" and "r = dropWhile (\<lambda>c. c \<noteq> CHR ''.'') s"
  have s: "s = w @ r" by (simp add: w_def r_def whole_part_def)
  have w: "w \<noteq> []" "all_digits w" using assms(1) by (auto simp: amount_regex_def w_def Let_def)
  show ?thesis
  proof (cases r)
    case Nil
    have "0 < minor_of w []"
      using minor_of_facts [OF w(2), of "[]"] assms(2) s Nil
      by (auto simp: all_digits_def positive_number_def is_digit_def)
    then show ?thesis using parse_whole [OF w(2,1)] s Nil by simp
  next
    case (Cons c f)
    have c: "c = CHR ''.''" using Cons by (simp add: r_def dropWhile_eq_Cons_conv)
    have f: "all_digits f" "1 \<le> length f" "length f \<le> 2"
      using assms(1) unfolding amount_regex_def Let_def r_def [symmetric] Cons by simp_all
    have "0 < minor_of w f" using minor_of_facts [OF w(2) f(1,3)] assms(2) s Cons c by simp
    then show ?thesis using parse_point [OF w(2) f(1) w(1) f(2,3)] s Cons c by simp
  qed
qed

lemma send_start_inv: "send_inv {} (send_start p)"
  by (simp add: send_inv_def send_start_def nothing_resolved_def)


section \<open>A late lookup\<close>

definition screen_blank :: "send_wizard \<Rightarrow> bool" where
  "screen_blank w \<longleftrightarrow> sw_step w \<noteq> 1 \<and> confirm_shown w = None \<and> \<not> done_shown w"

definition adrift :: "send_wizard \<Rightarrow> bool" where
  "adrift w \<longleftrightarrow> sw_step w \<noteq> 1 \<and> the_recipient w = None \<and> typed w \<notin> set (sw_lookups w) \<and> sw_timer w = None"

lemma adrift_blank: "adrift w \<Longrightarrow> screen_blank w"
  by (auto simp: adrift_def screen_blank_def confirm_shown_def done_shown_def split: option.splits)

lemma adrift_shown: "adrift w \<Longrightarrow> confirm_shown w = None \<and> prompt_shown w = None \<and> buttons_shown w = None"
  by (auto simp: adrift_def confirm_shown_def prompt_shown_def buttons_shown_def split: option.splits)

lemma the_recipient_other: "rv_handle (sw_resolved w) \<noteq> typed w \<Longrightarrow> the_recipient w = None"
  by (simp add: the_recipient_def current_lookup_def)

lemma derived_cong:
  "typed (w\<lparr>sw_resolved := rv, sw_lookups := ls\<rparr>) = typed w" "typed (w\<lparr>sw_resolved := rv\<rparr>) = typed w"
  by (simp_all add: typed_def)

definition place :: "send_wizard \<Rightarrow> nat \<times> string \<times> resolved_lookup \<times> string list \<times> string option" where
  "place w = (sw_step w, sw_handle w, sw_resolved w, sw_lookups w, sw_timer w)"

lemma place_handlers:
  "place (fst (send_request p f t rc v w)) = place w"
  "place (prompt_wait pk rc v w) = place w"
  "place (fst (verify_reply p f g r w)) = place w"
  "place (fst (passkey_ends p f g res w)) = place w"
  "place (unmount_prompt b w) = place w"
  by (auto simp: place_def send_handlers unmount_prompt_def split: option.splits api_result.splits sum.splits)

lemma adrift_place: "place w' = place w \<Longrightarrow> adrift w' = adrift w"
  by (simp add: adrift_def place_def the_recipient_def current_lookup_def typed_def)

lemma adrift_react:
  assumes a: "adrift w"
  shows "adrift (fst (send_react p f e w)) \<and> typed (fst (send_react p f e w)) = typed w"
proof -
  have shown: "prompt_shown w = None" "buttons_shown w = None" "\<not> done_shown w" "sw_step w \<noteq> 1" "sw_timer w = None"
    using adrift_shown [OF a] adrift_blank [OF a] a by (auto simp: screen_blank_def adrift_def)
  have keep: ?thesis if "place (fst (send_react p f e w)) = place w"
    using that a adrift_place [OF that] by (simp add: place_def typed_def)
  show ?thesis
  proof (cases e)
    case (LookupReply h r)
    show ?thesis
    proof (cases "h \<in> set (sw_lookups w)")
      case True
      then have h: "h \<noteq> typed w" using a by (auto simp: adrift_def)
      have "adrift (w\<lparr>sw_lookups := remove1 h (sw_lookups w)\<rparr>)"
        using a set_remove1_subset [of h "sw_lookups w"]
        by (auto simp: adrift_def typed_def the_recipient_def current_lookup_def)
      moreover have "adrift (w\<lparr>sw_lookups := remove1 h (sw_lookups w), sw_resolved := rv\<rparr>)"
        if "lookup_result p h (apiRequest r) = Some rv" for rv
        using a set_remove1_subset [of h "sw_lookups w"] h lookup_result_found [OF that]
        by (auto simp: adrift_def typed_def the_recipient_def current_lookup_def)
      ultimately show ?thesis using True LookupReply
        by (auto simp: Let_def typed_def split: option.splits)
    qed (use LookupReply a in simp)
  next
    case (SendReply r)
    show ?thesis using a unfolding SendReply
      by (auto simp: adrift_def send_reply_def toast_def typed_def the_recipient_def current_lookup_def Let_def
        split: api_result.splits)
  next
    case (VerifyReply g r)
    show ?thesis by (rule keep) (simp add: VerifyReply place_handlers)
  next
    case (PasskeyEnds g res)
    show ?thesis by (rule keep) (simp add: PasskeyEnds place_handlers)
  qed (use shown a in simp_all)
qed

lemma adrift_step: "adrift w \<Longrightarrow> send_step p f e w = (w', out) \<Longrightarrow> adrift w'"
proof -
  assume a: "adrift w" and st: "send_step p f e w = (w', out)"
  obtain w1 where r: "send_react p f e w = (w1, out)" by (cases "send_react p f e w") (use st in \<open>auto simp: send_step_def\<close>)
  have w1: "adrift w1" "typed w1 = typed w" using adrift_react [OF a, of p f e] r by simp_all
  have "w' = unmount_prompt (prompt_shown w \<noteq> None) w1"
    using st r w1(2) by (simp add: send_step_def rerun_effect_def)
  then show ?thesis using adrift_place [OF place_handlers(5)] w1(1) by simp
qed

lemma adrift_session: "adrift w \<Longrightarrow> session (send_step p) send_succeeds evs w = (w', cs, n) \<Longrightarrow> adrift w'"
proof (induction evs arbitrary: w cs n)
  case (Cons fe evs)
  obtain w1 out where st: "send_step p (fst fe) (snd fe) w = (w1, out)" by (cases "send_step p (fst fe) (snd fe) w")
  obtain cs1 m where "session (send_step p) send_succeeds evs w1 = (w', cs1, m)"
    using Cons.prems(2) st by (cases fe) (auto split: prod.splits)
  then show ?case using Cons.IH adrift_step [OF Cons.prems(1) st] by blast
qed simp

text \<open>A late reply can leave the sender with an empty screen. The effect's cleanup
  clears the debounce timer but not a lookup that was already sent. If the reply to an earlier handle
  arrives while the confirm step shows, the step disappears, and nothing that can happen afterwards
  brings any panel back, although a transfer already sent may still succeed.\<close>

theorem late_lookup_blanks_the_screen:
  assumes shown: "confirm_shown w = Some (rc, v)"
    and late: "h \<in> set (sw_lookups w)" "h \<noteq> typed w" "typed w \<notin> set (sw_lookups w)" "sw_timer w = None"
    and reply: "\<forall>st. apiRequest r \<noteq> ApiOk st JNull"
    and run: "session (send_step p) send_succeeds ((f, LookupReply h r) # evs) w = (w', cs, n)"
  shows "screen_blank w'"
proof -
  have "lookup_result p h (apiRequest r) \<noteq> None"
    using reply by (cases "apiRequest r") (auto simp: lookup_result_def)
  then obtain rv where rv: "lookup_result p h (apiRequest r) = Some rv" by blast
  define w0 where "w0 = w\<lparr>sw_lookups := remove1 h (sw_lookups w), sw_resolved := rv\<rparr>"
  have "sw_step w = 2" using shown by (auto simp: confirm_shown_def split: option.splits if_splits)
  then have a: "adrift w0"
    using late set_remove1_subset [of h "sw_lookups w"] lookup_result_found [OF rv]
    by (auto simp: adrift_def w0_def typed_def the_recipient_def current_lookup_def)
  have "send_step p f (LookupReply h r) w = (unmount_prompt (prompt_shown w \<noteq> None) w0, None)"
    using rv late by (simp add: send_step_def rerun_effect_def w0_def typed_def)
  moreover have "adrift (unmount_prompt (prompt_shown w \<noteq> None) w0)"
    using adrift_place [OF place_handlers(5)] a by simp
  ultimately have "adrift w'" using run adrift_session by (auto split: prod.splits)
  then show ?thesis by (rule adrift_blank)
qed

text \<open>A handle typed with a capital or a blank is looked up and shown as found, but the form, which
  checks what was typed, refuses to continue.\<close>

lemma found_but_refused:
  assumes "sw_handle w \<noteq> typed w"
  shows "fst (send_react p f Continue w) = w"
  using assms handle_typed [of "sw_handle w"]
  by (auto simp: typed_def transferSchema_def form_values_def)

definition demo_sender :: send_props where
  "demo_sender = \<lparr>sp_walletId = ''w1'', sp_currency = ''EUR'', sp_prefill = []\<rparr>"

definition demo_payee :: "string \<Rightarrow> http_reply_msg option" where
  "demo_payee i = Some (json_reply 200 (JObj [(''walletId'', JStr i), (''currency'', JStr ''EUR''),
     (''recipientName'', JStr ''Bob'')]))"

text \<open>\<open>@bob\<close> is typed and looked up, then \<open>@bobby\<close>, whose lookup is answered first; the sender goes on.\<close>

definition demo_typing :: "(string \<times> send_event) list" where
  "demo_typing = map (Pair ''k'') [TypeHandle ''bob'', LookupTimer, TypeHandle ''bobby'', LookupTimer,
     LookupReply ''bobby'' (demo_payee ''w2''), TypeAmount ''25'', Continue]"

definition demo_session :: "(string \<times> send_event) list \<Rightarrow> send_wizard \<times> api_call list \<times> nat" where
  "demo_session evs = session (send_step demo_sender) send_succeeds evs (send_start demo_sender)"

lemma demo_typed:
  "confirm_shown (fst (demo_session demo_typing)) = Some (JObj [(''walletId'', JStr ''w2''), (''currency'', JStr ''EUR''),
     (''recipientName'', JStr ''Bob'')], \<lparr>tf_handle = ''bobby'', tf_amount = ''25'', tf_note = Some []\<rparr>)"
  "sw_lookups (fst (demo_session demo_typing)) = [''bob'']"
  "typed (fst (demo_session demo_typing)) = ''bobby''" "sw_timer (fst (demo_session demo_typing)) = None"
  by code_simp+

lemma demo_run: "demo_session evs = (fst (demo_session evs), fst (snd (demo_session evs)), snd (snd (demo_session evs)))"
  by simp

definition demo_sends :: "(string \<times> send_event) list" where
  "demo_sends = demo_typing @ map (Pair ''k'') [ConfirmSend, SendReply None, ConfirmSend,
     SendReply (Some (json_reply 200 (JObj [(''id'', JStr ''t1'')])))]"

lemma demo_sent: "send_call demo_sender ''k'' None (JObj [(''walletId'', JStr ''w2''), (''currency'', JStr ''EUR''),
     (''recipientName'', JStr ''Bob'')]) \<lparr>tf_handle = ''bobby'', tf_amount = ''25'', tf_note = Some []\<rparr>
     \<in> set (fst (snd (demo_session demo_sends)))"
  by code_simp


lemma late_lookup_blanks_the_screen_witness:
  "screen_blank (fst (session (send_step demo_sender) send_succeeds
     ((''k'', LookupReply ''bob'' (demo_payee ''w3'')) # [(''k'', EditDetails), (''k'', ConfirmSend)])
     (fst (demo_session demo_typing))))"
  by (rule late_lookup_blanks_the_screen [OF demo_typed(1), where h = "''bob''" and f = "''k''"
          and cs = "fst (snd (session (send_step demo_sender) send_succeeds
     ((''k'', LookupReply ''bob'' (demo_payee ''w3'')) # [(''k'', EditDetails), (''k'', ConfirmSend)])
     (fst (demo_session demo_typing))))" and n = "snd (snd (session (send_step demo_sender) send_succeeds
     ((''k'', LookupReply ''bob'' (demo_payee ''w3'')) # [(''k'', EditDetails), (''k'', ConfirmSend)])
     (fst (demo_session demo_typing))))"])
    (simp_all add: demo_typed demo_payee_def apiRequest_def json_reply_def res_ok_def del: session.simps)

section \<open>\<open>MoneyRequestWizard\<close>\<close>

datatype request_mode = DepositMode | WithdrawMode

record request_props =
  mp_mode :: request_mode
  mp_walletId :: string
  mp_balance :: int

record money_wizard =
  mw_amount :: string
  mw_note :: string
  mw_step :: nat
  mw_values :: "amount_form option"
  mw_result :: jval
  mw_pending :: bool
  mw_key :: key_ref
  mw_toasts :: "toast_msg list"

definition money_start :: money_wizard where
  "money_start = \<lparr>mw_amount = [], mw_note = [], mw_step = 1, mw_values = None, mw_result = JNull,
     mw_pending = False, mw_key = None, mw_toasts = []\<rparr>"

text \<open>\<open>minor > balance\<close> is false for \<open>NaN\<close>.\<close>

definition values_minor :: "money_wizard \<Rightarrow> nat option" where
  "values_minor w = (case mw_values w of None \<Rightarrow> Some 0 | Some v \<Rightarrow> parseAmountToMinor (af_amount v))"

definition overBalance :: "request_props \<Rightarrow> money_wizard \<Rightarrow> bool" where
  "overBalance p w \<longleftrightarrow> mp_mode p = WithdrawMode \<and>
     (case values_minor w of None \<Rightarrow> False | Some m \<Rightarrow> mp_balance p < int m)"

definition toReview :: "amount_form \<Rightarrow> money_wizard \<Rightarrow> money_wizard" where
  "toReview v w = w\<lparr>mw_values := Some v, mw_step := 2\<rparr>"

definition request_call :: "request_props \<Rightarrow> string \<Rightarrow> amount_form \<Rightarrow> api_call" where
  "request_call p key v =
     money_call (''/api/wallets/'' @ mp_walletId p @ ''/'' @
         (if mp_mode p = DepositMode then ''deposits'' else ''withdrawals'')) key None
       [(''amount'', Some (minor_json (af_amount v))), (''note'', note_json (af_note v))]"

definition request_submit :: "request_props \<Rightarrow> string \<Rightarrow> money_wizard \<Rightarrow> money_wizard \<times> api_call option" where
  "request_submit p fresh w =
     (case mw_values w of
        None \<Rightarrow> (w, None)
      | Some v \<Rightarrow> (case key_get fresh (mw_key w) of (k, r) \<Rightarrow>
          (w\<lparr>mw_pending := True, mw_key := r\<rparr>, Some (request_call p k v))))"

definition request_toasts :: "request_mode \<Rightarrow> (string \<times> string) list" where
  "request_toasts m =
     (''HTTP_409'', ''This request may already have been submitted -- check your activity before trying again.'') #
     (if m = WithdrawMode then [(''HTTP_400'', ''Insufficient funds for this withdrawal.'')] else [])"

definition request_reply :: "request_props \<Rightarrow> api_result \<Rightarrow> money_wizard \<Rightarrow> money_wizard" where
  "request_reply p r w =
     (let w1 = w\<lparr>mw_pending := False\<rparr> in
      case r of
        ApiFailed e \<Rightarrow> w1\<lparr>mw_toasts := mw_toasts w @ [toastApiError e (request_toasts (mp_mode p))]\<rparr>
      | ApiOk st d \<Rightarrow> w1\<lparr>mw_key := key_reset (mw_key w), mw_result := d, mw_step := 3\<rparr>)"

definition QUICK :: "nat list" where "QUICK = [5000, 10000, 25000, 50000]"

datatype money_event =
    MoneyAmount string | MoneyNote string | QuickAmount nat | ToReview | EditAmount | SubmitRequest
  | RequestReply "http_reply_msg option" | AnotherRequest

text \<open>Submit is disabled while a request is out and, for a withdrawal, above the balance.\<close>

fun money_step :: "request_props \<Rightarrow> string \<Rightarrow> money_event \<Rightarrow> money_wizard \<Rightarrow> money_wizard \<times> api_call option" where
  "money_step p f (MoneyAmount s) w = (if mw_step w = 1 then w\<lparr>mw_amount := sanitizeAmount s\<rparr> else w, None)"
| "money_step p f (MoneyNote s) w = (if mw_step w = 1 then w\<lparr>mw_note := s\<rparr> else w, None)"
| "money_step p f (QuickAmount q) w =
     (if mw_step w = 1 \<and> List.member QUICK q then w\<lparr>mw_amount := to_fixed2 (int q)\<rparr> else w, None)"
| "money_step p f ToReview w =
     (let v = \<lparr>af_amount = mw_amount w, af_note = Some (mw_note w)\<rparr>
      in if mw_step w = 1 \<and> amountSchema v then toReview v w else w, None)"
| "money_step p f EditAmount w =
     (if mw_step w = 2 \<and> mw_values w \<noteq> None \<and> \<not> mw_pending w then w\<lparr>mw_step := 1\<rparr> else w, None)"
| "money_step p f SubmitRequest w =
     (if mw_step w = 2 \<and> \<not> mw_pending w \<and> \<not> overBalance p w then request_submit p f w else (w, None))"
| "money_step p f (RequestReply r) w = (if mw_pending w then request_reply p (apiRequest r) w else w, None)"
| "money_step p f AnotherRequest w =
     (if mw_step w = 3 \<and> js_truthy (mw_result w)
      then w\<lparr>mw_amount := [], mw_note := [], mw_values := None, mw_result := JNull, mw_step := 1\<rparr> else w, None)"

definition money_succeeds :: "money_event \<Rightarrow> money_wizard \<Rightarrow> bool" where
  "money_succeeds e w \<longleftrightarrow> (case e of
     RequestReply r \<Rightarrow> mw_pending w \<and> (case apiRequest r of ApiOk st d \<Rightarrow> True | ApiFailed er \<Rightarrow> False) | _ \<Rightarrow> False)"

lemmas money_handlers = toReview_def request_submit_def request_reply_def key_get_def key_reset_def Let_def

lemma request_call_key [simp]: "call_key (request_call p k v) = Some k"
  by (simp add: request_call_def)

interpretation requesting: keyed_screen "money_step p" money_succeeds mw_key
proof unfold_locales
  fix f e w w' c out
  show "call_key c = None \<or> call_key c = mw_key w'" if "money_step p f e w = (w', Some c)"
    using that by (cases e) (auto simp: money_handlers
      split: option.splits if_splits prod.splits api_result.splits)
  show "mw_key w' = mw_key w \<or> mw_key w = None \<and> mw_key w' = Some f"
    if "money_step p f e w = (w', out)" "\<not> money_succeeds e w"
    using that by (cases e) (auto simp: money_handlers money_succeeds_def
      split: option.splits if_splits prod.splits api_result.splits)
  show "mw_key w' = None \<and> out = None" if "money_step p f e w = (w', out)" "money_succeeds e w"
    using that by (cases e) (auto simp: money_handlers money_succeeds_def
      split: option.splits if_splits prod.splits api_result.splits)
qed

end
