(* ===== verification/Dto.thy ===== *)
theory Dto
  imports Bff
begin

text \<open>
  What the API admits: the DTO classes (\<open>*/dto/*.dto.ts\<close>) as tables of validation rules, and the
  global \<open>ValidationPipe({ whitelist: true, transform: true })\<close> of \<open>main.ts\<close> that applies them.
  The pipe belongs to Nest and class-validator and is a parameter; its documented behaviour is the
  locale \<open>validation_pipe\<close>, interpreted on a concrete pipe.
\<close>

section \<open>Rules\<close>

text \<open>
  The decorators the DTOs use. \<open>IsUUID\<close> and \<open>IsEmail\<close> are the library's own predicates;
  \<open>R_Matches\<close> is the handle's pattern, the only one in use.
\<close>

datatype rule =
    R_IsString | R_IsInt | R_Min int | R_Max int | R_MinLength nat | R_MaxLength nat | R_Length nat nat
  | R_IsIn "string list" | R_IsPositive | R_IsUUID | R_IsEmail | R_IsObject | R_IsDate | R_Matches

text \<open>\<open>@Type(() => Number)\<close> and \<open>@Type(() => Date)\<close> convert before the rules judge.\<close>

datatype conv = NoConv | ToNumber | ToDate

record dto_prop =
  dp_name :: string
  dp_optional :: bool
  dp_conv :: conv
  dp_rules :: "rule list"
  dp_default :: "jval option"

type_synonym dto = "dto_prop list"

definition required :: "string \<Rightarrow> rule list \<Rightarrow> dto_prop" where
  "required n rs = \<lparr>dp_name = n, dp_optional = False, dp_conv = NoConv, dp_rules = rs, dp_default = None\<rparr>"

definition optional :: "string \<Rightarrow> rule list \<Rightarrow> dto_prop" where
  "optional n rs = \<lparr>dp_name = n, dp_optional = True, dp_conv = NoConv, dp_rules = rs, dp_default = None\<rparr>"

text \<open>Numbers and dates: a valid date is its time in milliseconds.\<close>

definition jnum :: "jval option \<Rightarrow> rat option" where
  "jnum v = (case v of Some (JNum r) \<Rightarrow> Some r | _ \<Rightarrow> None)"

record validators =
  is_uuid :: "string \<Rightarrow> bool"
  is_email :: "string \<Rightarrow> bool"

fun rule_ok :: "validators \<Rightarrow> rule \<Rightarrow> jval option \<Rightarrow> bool" where
  "rule_ok V R_IsString v = (jstring v \<noteq> None)"
| "rule_ok V R_IsInt v = (case jnum v of None \<Rightarrow> False | Some r \<Rightarrow> of_int \<lfloor>r\<rfloor> = r)"
| "rule_ok V (R_Min n) v = (case jnum v of None \<Rightarrow> False | Some r \<Rightarrow> of_int n \<le> r)"
| "rule_ok V (R_Max n) v = (case jnum v of None \<Rightarrow> False | Some r \<Rightarrow> r \<le> of_int n)"
| "rule_ok V (R_MinLength n) v = (case jstring v of None \<Rightarrow> False | Some s \<Rightarrow> n \<le> length s)"
| "rule_ok V (R_MaxLength n) v = (case jstring v of None \<Rightarrow> False | Some s \<Rightarrow> length s \<le> n)"
| "rule_ok V (R_Length m n) v = (case jstring v of None \<Rightarrow> False | Some s \<Rightarrow> m \<le> length s \<and> length s \<le> n)"
| "rule_ok V (R_IsIn xs) v = (case jstring v of None \<Rightarrow> False | Some s \<Rightarrow> List.member xs s)"
| "rule_ok V R_IsPositive v = (case jnum v of None \<Rightarrow> False | Some r \<Rightarrow> 0 < r)"
| "rule_ok V R_IsUUID v = (case jstring v of None \<Rightarrow> False | Some s \<Rightarrow> is_uuid V s)"
| "rule_ok V R_IsEmail v = (case jstring v of None \<Rightarrow> False | Some s \<Rightarrow> is_email V s)"
| "rule_ok V R_IsObject v = (case v of Some (JObj fs) \<Rightarrow> True | _ \<Rightarrow> False)"
| "rule_ok V R_IsDate v = (jnum v \<noteq> None)"
| "rule_ok V R_Matches v = (case jstring v of None \<Rightarrow> False | Some s \<Rightarrow> handle_regex s)"

text \<open>\<open>@IsOptional\<close> skips the other rules for \<open>undefined\<close> and \<open>null\<close>.\<close>

definition prop_ok :: "validators \<Rightarrow> dto_prop \<Rightarrow> jval option \<Rightarrow> bool" where
  "prop_ok V p v \<longleftrightarrow>
     (dp_optional p \<and> (v = None \<or> v = Some JNull)) \<or> list_all (\<lambda>r. rule_ok V r v) (dp_rules p)"

section \<open>The DTOs\<close>

definition AddAlertDto :: dto where
  "AddAlertDto = [required ''symbol'' [R_IsString, R_Length 1 10], required ''type'' [R_IsIn [''crypto'', ''stock'']],
     required ''targetPrice'' [R_IsPositive], required ''direction'' [R_IsIn [''above'', ''below'']]]"

definition AuditQueryDto :: dto where
  "AuditQueryDto = [optional ''actorId'' [R_IsUUID], optional ''entityType'' [R_IsIn [''transaction'', ''wallet'', ''user'']],
     optional ''entityId'' [R_IsUUID], optional ''action'' [R_IsString], optional ''q'' [R_IsString, R_MaxLength 100],
     (optional ''from'' [R_IsDate])\<lparr>dp_conv := ToDate\<rparr>, (optional ''to'' [R_IsDate])\<lparr>dp_conv := ToDate\<rparr>,
     (optional ''skip'' [R_IsInt, R_Min 0])\<lparr>dp_conv := ToNumber\<rparr>,
     (optional ''take'' [R_IsInt, R_Min 1])\<lparr>dp_conv := ToNumber\<rparr>]"

definition Login2faDto :: dto where
  "Login2faDto = [required ''challengeToken'' [R_IsString], required ''code'' [R_IsString]]"

definition LoginDto :: dto where
  "LoginDto = [required ''email'' [R_IsEmail], required ''password'' [R_IsString]]"

definition PasskeyVerifyDto :: dto where
  "PasskeyVerifyDto = [required ''response'' [R_IsObject], required ''challengeToken'' [R_IsString],
     optional ''label'' [R_IsString]]"

definition RefreshTokenDto :: dto where
  "RefreshTokenDto = [required ''refreshToken'' [R_IsString, R_MinLength 1]]"

definition RegisterDto :: dto where
  "RegisterDto = [required ''email'' [R_IsEmail], required ''handle'' [R_Matches],
     required ''password'' [R_IsString, R_MinLength 8], required ''firstName'' [R_IsString, R_MinLength 1],
     required ''lastName'' [R_IsString, R_MinLength 1]]"

definition TwoFactorCodeDto :: dto where
  "TwoFactorCodeDto = [required ''code'' [R_IsString]]"

definition AddHoldingDto :: dto where
  "AddHoldingDto = [required ''symbol'' [R_IsString, R_Length 1 10], required ''type'' [R_IsIn [''crypto'', ''stock'']],
     required ''quantity'' [R_IsPositive], required ''avgCost'' [R_IsPositive]]"

definition ChartQueryDto :: dto where
  "ChartQueryDto = [(optional ''range'' [R_IsIn [''1m'', ''5m'', ''15m'', ''1h'', ''4h'', ''1D'']])
     \<lparr>dp_default := Some (JStr ''1h'')\<rparr>]"

text \<open>These two classes carry no decorator at all.\<close>

definition SubscribeDto :: dto where "SubscribeDto = []"
definition UnsubscribeDto :: dto where "UnsubscribeDto = []"

definition QuoteQueryDto :: dto where
  "QuoteQueryDto = [required ''from'' [R_IsString, R_Length 3 3], required ''to'' [R_IsString, R_Length 3 3],
     (required ''amount'' [R_IsInt, R_Min 1])\<lparr>dp_conv := ToNumber\<rparr>]"

definition page_props :: "dto_prop list" where
  "page_props = [(optional ''skip'' [R_IsInt, R_Min 0])\<lparr>dp_conv := ToNumber, dp_default := Some (JNum 0)\<rparr>,
     (optional ''take'' [R_IsInt, R_Min 1, R_Max 100])\<lparr>dp_conv := ToNumber, dp_default := Some (JNum 20)\<rparr>]"

definition ListUsersQueryDto :: dto where
  "ListUsersQueryDto = page_props @ [optional ''q'' [R_IsString, R_MaxLength 100],
     optional ''role'' [R_IsString, R_MaxLength 40], optional ''status'' [R_IsIn [''active'', ''suspended'']],
     optional ''sort'' [R_IsIn [''createdAt:asc'', ''createdAt:desc'', ''email:asc'', ''email:desc'', ''status:asc'', ''status:desc'']]]"

definition UpdateUserRoleDto :: dto where
  "UpdateUserRoleDto = [required ''role'' [R_IsString, R_MinLength 1]]"

definition UpdateUserStatusDto :: dto where
  "UpdateUserStatusDto = [required ''status'' [R_IsIn [''active'', ''suspended'']]]"

definition AdjustmentDto :: dto where
  "AdjustmentDto = [required ''direction'' [R_IsIn [''credit'', ''debit'']], required ''amount'' [R_IsInt, R_Min 1],
     required ''note'' [R_IsString, R_MinLength 1]]"

definition CreateWalletDto :: dto where
  "CreateWalletDto = [required ''name'' [R_IsString, R_MinLength 1], required ''currency'' [R_IsString, R_Length 3 3]]"

definition ListWalletsQueryDto :: dto where
  "ListWalletsQueryDto = page_props @ [optional ''q'' [R_IsString, R_MaxLength 100],
     optional ''currency'' [R_IsString, R_Length 3 3],
     optional ''sort'' [R_IsIn [''balance:asc'', ''balance:desc'', ''createdAt:asc'', ''createdAt:desc'', ''name:asc'', ''name:desc'']]]"

definition LookupQueryDto :: dto where
  "LookupQueryDto = [required ''handle'' [R_Matches]]"

definition MoneyAmountDto :: dto where
  "MoneyAmountDto = [required ''amount'' [R_IsInt, R_Min 1], optional ''note'' [R_IsString]]"

definition RejectDto :: dto where
  "RejectDto = [optional ''note'' [R_IsString]]"

definition TransferDto :: dto where
  "TransferDto = [required ''toWalletId'' [R_IsUUID], required ''amount'' [R_IsInt, R_Min 1],
     optional ''note'' [R_IsString]]"

definition AddWatchlistDto :: dto where
  "AddWatchlistDto = [required ''symbol'' [R_IsString, R_Length 1 10], required ''type'' [R_IsIn [''crypto'', ''stock'']]]"

section \<open>The pipe\<close>

text \<open>
  What Nest documents of the pipe: an accepted body is an object with the DTO's decorated
  properties only, all of which satisfy their rules; a property without conversion keeps its value
  (or gets the initialiser's); a refused body is a 400; and an object whose properties satisfy the
  rules as they are is accepted.
\<close>

definition initial_value :: "dto_prop \<Rightarrow> jval option \<Rightarrow> jval option" where
  "initial_value p v = (case v of None \<Rightarrow> dp_default p | Some x \<Rightarrow> Some x)"

locale validation_pipe =
  fixes V :: validators and pipe :: "dto \<Rightarrow> jval \<Rightarrow> exn + jval"
  assumes whitelisted: "pipe D v = Inr v' \<Longrightarrow> \<exists>fs. v' = JObj fs \<and> fst ` set fs \<subseteq> dp_name ` set D"
    and validated: "pipe D v = Inr v' \<Longrightarrow> p \<in> set D \<Longrightarrow> prop_ok V p (jget (dp_name p) v')"
    and unconverted: "pipe D v = Inr v' \<Longrightarrow> distinct (map dp_name D) \<Longrightarrow> p \<in> set D \<Longrightarrow> dp_conv p = NoConv \<Longrightarrow>
        jget (dp_name p) v' = initial_value p (jget (dp_name p) v)"
    and refused: "pipe D v = Inl e \<Longrightarrow> \<exists>r m. e = HttpException 400 r m"
    and accepted: "distinct (map dp_name D) \<Longrightarrow> \<forall>p \<in> set D. dp_conv p = NoConv \<and> prop_ok V p (initial_value p (jget (dp_name p) (JObj fs))) \<Longrightarrow>
        \<exists>v'. pipe D (JObj fs) = Inr v'"

text \<open>Readers of a validated body, as the handlers read it.\<close>

definition dto_int :: "string \<Rightarrow> jval \<Rightarrow> int" where
  "dto_int k v = (case jnum (jget k v) of None \<Rightarrow> 0 | Some r \<Rightarrow> \<lfloor>r\<rfloor>)"

definition dto_string :: "string \<Rightarrow> jval \<Rightarrow> string" where
  "dto_string k v = (case jstring (jget k v) of None \<Rightarrow> [] | Some s \<Rightarrow> s)"

definition dto_opt :: "string \<Rightarrow> jval \<Rightarrow> string option" where
  "dto_opt k v = jstring (jget k v)"

context validation_pipe
begin

lemma required_rule:
  assumes "pipe D v = Inr v'" "required n rs \<in> set D" "r \<in> set rs"
  shows "rule_ok V r (jget n v')"
  using validated [OF assms(1,2)] assms(3) by (auto simp: prop_ok_def required_def list_all_iff)

text \<open>An admitted amount is a positive whole number, the one that was sent.\<close>

lemma amount_admitted:
  assumes "pipe D v = Inr v'" "required ''amount'' [R_IsInt, R_Min 1] \<in> set D"
  shows "0 < dto_int ''amount'' v'" and "jget ''amount'' v' = Some (JNum (of_int (dto_int ''amount'' v')))"
proof -
  have int: "rule_ok V R_IsInt (jget ''amount'' v')" and min: "rule_ok V (R_Min 1) (jget ''amount'' v')"
    by (rule required_rule [OF assms], simp)+
  obtain r where r: "jget ''amount'' v' = Some (JNum r)" "of_int \<lfloor>r\<rfloor> = r" "1 \<le> r"
    using int min by (auto simp: jnum_def split: option.splits jval.splits)
  then show "0 < dto_int ''amount'' v'" by (simp add: dto_int_def jnum_def)
  from r show "jget ''amount'' v' = Some (JNum (of_int (dto_int ''amount'' v')))"
    by (auto simp: dto_int_def jnum_def)
qed

text \<open>It is the amount that was sent.\<close>

lemma sent_value:
  assumes "pipe D v = Inr v'" "distinct (map dp_name D)" "required n rs \<in> set D"
    and "jget n v' = Some x"
  shows "jget n v = Some x"
  using unconverted [OF assms(1,2,3)] assms(4)
  by (auto simp: required_def initial_value_def split: option.splits)

text \<open>A class without decorators admits nothing: every property is stripped.\<close>

lemma undecorated_stripped: "pipe [] v = Inr v' \<Longrightarrow> v' = JObj []"
  using whitelisted [of "[]"] by force

end

section \<open>A pipe\<close>

text \<open>Texts of digits become numbers; everything else is left for the rules to refuse.\<close>

definition convert :: "conv \<Rightarrow> jval \<Rightarrow> jval" where
  "convert cv v = (case (cv, v) of
      (NoConv, _) \<Rightarrow> v
    | (_, JStr s) \<Rightarrow> if s \<noteq> [] \<and> all_digits s then JNum (of_nat (digits_val s)) else v
    | _ \<Rightarrow> v)"

definition converted :: "dto_prop \<Rightarrow> jval \<Rightarrow> (string \<times> jval) option" where
  "converted p v = map_option (\<lambda>x. (dp_name p, convert (dp_conv p) x)) (initial_value p (jget (dp_name p) v))"

definition simple_pipe :: "validators \<Rightarrow> dto \<Rightarrow> jval \<Rightarrow> exn + jval" where
  "simple_pipe V D v =
     (let fs = List.map_filter (\<lambda>p. converted p v) D
      in if list_all (\<lambda>p. prop_ok V p (map_of fs (dp_name p))) D then Inr (JObj fs)
         else Inl (HttpException 400 (RespObj None (Some (MsgMany [''validation failed'']))) ''Bad Request Exception''))"

lemma converted_name: "converted p v = Some (k, x) \<Longrightarrow> k = dp_name p"
  by (auto simp: converted_def)

lemma simple_fields:
  "fst ` set (List.map_filter (\<lambda>p. converted p v) D) \<subseteq> dp_name ` set D"
  by (induction D) (auto simp: List.map_filter_simps dest: converted_name split: option.splits)

lemma simple_lookup:
  "distinct (map dp_name D) \<Longrightarrow> p \<in> set D \<Longrightarrow>
   map_of (List.map_filter (\<lambda>p. converted p v) D) (dp_name p) = map_option snd (converted p v)"
proof (induction D)
  case (Cons q D)
  have other: "map_of (List.map_filter (\<lambda>p. converted p v) D) (dp_name q) = None"
    if "dp_name q \<notin> dp_name ` set D"
    using that simple_fields [of v D] by (auto simp: map_of_eq_None_iff)
  show ?case
  proof (cases "p = q")
    case True
    then show ?thesis
      using Cons.prems other by (cases "converted q v") (auto simp: List.map_filter_simps dest: converted_name)
  next
    case False
    then have "dp_name p \<noteq> dp_name q" using Cons.prems by (auto simp: image_iff)
    then show ?thesis
      using Cons False by (cases "converted q v") (auto simp: List.map_filter_simps dest: converted_name)
  qed
qed simp

lemma unconverted_snd:
  "dp_conv p = NoConv \<Longrightarrow> map_option snd (converted p v) = initial_value p (jget (dp_name p) v)"
  by (cases "initial_value p (jget (dp_name p) v)") (simp_all add: converted_def convert_def)

interpretation simple: validation_pipe V "simple_pipe V" for V
proof unfold_locales
  fix D v v'
  assume ok: "simple_pipe V D v = Inr v'"
  then show "\<exists>fs. v' = JObj fs \<and> fst ` set fs \<subseteq> dp_name ` set D"
    using simple_fields by (auto simp: simple_pipe_def Let_def split: if_splits)
  show "prop_ok V p (jget (dp_name p) v')" if "p \<in> set D" for p
    using ok that by (auto simp: simple_pipe_def Let_def list_all_iff jget_def split: if_splits)
  show "jget (dp_name p) v' = initial_value p (jget (dp_name p) v)"
    if "distinct (map dp_name D)" "p \<in> set D" "dp_conv p = NoConv" for p
    using ok that
    by (auto simp: simple_pipe_def Let_def jget_def [of _ "JObj _"] simple_lookup unconverted_snd split: if_splits)
next
  fix D v e
  assume "simple_pipe V D v = Inl e"
  then show "\<exists>r m. e = HttpException 400 r m" by (auto simp: simple_pipe_def Let_def split: if_splits)
next
  fix D fs
  assume "distinct (map dp_name D)"
    and "\<forall>p \<in> set D. dp_conv p = NoConv \<and> prop_ok V p (initial_value p (jget (dp_name p) (JObj fs)))"
  then show "\<exists>v'. simple_pipe V D (JObj fs) = Inr v'"
    by (auto simp: simple_pipe_def Let_def list_all_iff simple_lookup unconverted_snd)
qed

end
