(* ===== verification/AuthApi.thy ===== *)
theory AuthApi
  imports Dto Money
begin

text \<open>
  The routes of \<open>auth/auth.controller.ts\<close>: each with its guard, its validated body and its service
  call. The theorems say what a new session is issued for, what can switch a second factor off, and
  that none of these routes touches the ledger of an existing wallet.
\<close>

section \<open>Requests and answers\<close>

text \<open>
  Tokens are texts in a body; \<open>ah_tok\<close> reads them. A WebAuthn response is the JSON of the body.
\<close>

record 'tok auth_env =
  ah_lib :: "'tok auth_lib"
  ah_web :: "jval webauthn"
  ah_cfg :: passkey_config
  ah_pipe :: "dto \<Rightarrow> jval \<Rightarrow> exn + jval"
  ah_tok :: "string \<Rightarrow> 'tok"

abbreviation ah_jwt :: "'tok auth_env \<Rightarrow> 'tok jwt_lib" where "ah_jwt E \<equiv> lib_jwt (ah_lib E)"
abbreviation ah_sha :: "'tok auth_env \<Rightarrow> string \<Rightarrow> string" where "ah_sha E \<equiv> lib_sha256 (ah_lib E)"

text \<open>The clock, the generated ids, secrets, codes and challenges of one request.\<close>

record auth_turn =
  ad_ctx :: call_ctx
  ad_draws :: draws
  ad_secret :: string
  ad_code :: "nat \<Rightarrow> string"
  ad_challenge :: string

abbreviation ad_now :: "auth_turn \<Rightarrow> int" where "ad_now n \<equiv> now (ad_ctx n)"

record 'tok auth_req =
  hq_bearer :: "'tok option"
  hq_body :: jval
  hq_param :: string

datatype 'tok auth_answer =
    Session "'tok login_reply" | Pair "'tok tokens" | Done | Me auth_user | WsTicket 'tok
  | TotpUri string | RecoveryCodes "string list" | TotpStatus bool | StepUpToken 'tok
  | RegisterOptions registration_options 'tok | LoginOptions string 'tok
  | PasskeyMade passkey | Passkeys "passkey list"

type_synonym 'tok answered = "(exn + 'tok auth_answer) \<times> db"

definition answer_with :: "('a \<Rightarrow> 'tok auth_answer) \<Rightarrow> (exn + 'a) \<times> db \<Rightarrow> 'tok answered" where
  "answer_with f x = (case x of (Inl e, d) \<Rightarrow> (Inl e, d) | (Inr a, d) \<Rightarrow> (Inr (f a), d))"

text \<open>A service call that is one transaction, or changes nothing when it fails.\<close>

definition atomically :: "(db, 'a) tx \<Rightarrow> db \<Rightarrow> (exn + 'a) \<times> db" where
  "atomically m d = commit d (m d)"

definition signed_in ::
  "'tok auth_env \<Rightarrow> auth_turn \<Rightarrow> 'tok auth_req \<Rightarrow> (auth_user \<Rightarrow> db \<Rightarrow> 'tok answered) \<Rightarrow> db \<Rightarrow> 'tok answered" where
  "signed_in E n r k d =
     (case authenticate (ah_jwt E) (ad_now n) (hq_bearer r) d of Inl e \<Rightarrow> (Inl e, d) | Inr a \<Rightarrow> k a d)"

definition with_dto ::
  "'tok auth_env \<Rightarrow> dto \<Rightarrow> 'tok auth_req \<Rightarrow> (jval \<Rightarrow> db \<Rightarrow> 'tok answered) \<Rightarrow> db \<Rightarrow> 'tok answered" where
  "with_dto E D r k d = (case ah_pipe E D (hq_body r) of Inl e \<Rightarrow> (Inl e, d) | Inr dto \<Rightarrow> k dto d)"

definition dto_value :: "string \<Rightarrow> jval \<Rightarrow> jval" where
  "dto_value k v = (case jget k v of None \<Rightarrow> JNull | Some x \<Rightarrow> x)"

definition dto_tok :: "'tok auth_env \<Rightarrow> string \<Rightarrow> jval \<Rightarrow> 'tok" where
  "dto_tok E k v = ah_tok E (dto_string k v)"

definition register_of :: "jval \<Rightarrow> register_dto" where
  "register_of v = \<lparr>rg_email = dto_string ''email'' v, rg_handle = dto_string ''handle'' v,
     rg_password = dto_string ''password'' v, rg_firstName = dto_string ''firstName'' v,
     rg_lastName = dto_string ''lastName'' v\<rparr>"

section \<open>The routes\<close>

definition auth_register :: "'tok auth_env \<Rightarrow> auth_turn \<Rightarrow> 'tok auth_req \<Rightarrow> db \<Rightarrow> 'tok answered" where
  "auth_register E n r = with_dto E RegisterDto r (\<lambda>dto d.
     answer_with Session (register (ah_lib E) (ad_ctx n) (ad_draws n) (register_of dto) d))"

definition auth_login :: "'tok auth_env \<Rightarrow> auth_turn \<Rightarrow> 'tok auth_req \<Rightarrow> db \<Rightarrow> 'tok answered" where
  "auth_login E n r = with_dto E LoginDto r (\<lambda>dto d. answer_with Session
     (login (ah_lib E) (ad_now n) (ad_draws n) (dto_string ''email'' dto) (dto_string ''password'' dto) d))"

definition auth_login2fa :: "'tok auth_env \<Rightarrow> auth_turn \<Rightarrow> 'tok auth_req \<Rightarrow> db \<Rightarrow> 'tok answered" where
  "auth_login2fa E n r = with_dto E Login2faDto r (\<lambda>dto d. answer_with Session
     (login2fa (ah_lib E) (ad_now n) (ad_draws n) (dto_tok E ''challengeToken'' dto) (dto_string ''code'' dto) d))"

definition auth_refresh :: "'tok auth_env \<Rightarrow> auth_turn \<Rightarrow> 'tok auth_req \<Rightarrow> db \<Rightarrow> 'tok answered" where
  "auth_refresh E n r = with_dto E RefreshTokenDto r (\<lambda>dto d. answer_with Pair
     (rotate (ah_jwt E) (ah_sha E) (ad_now n) (dr_row (ad_draws n)) (dr_raw (ad_draws n))
        (dto_string ''refreshToken'' dto) d))"

definition auth_logout :: "'tok auth_env \<Rightarrow> auth_turn \<Rightarrow> 'tok auth_req \<Rightarrow> db \<Rightarrow> 'tok answered" where
  "auth_logout E n r = with_dto E RefreshTokenDto r (\<lambda>dto d.
     (Inr Done, revoke (ah_sha E) (dto_string ''refreshToken'' dto) d))"

definition auth_me :: "'tok auth_env \<Rightarrow> auth_turn \<Rightarrow> 'tok auth_req \<Rightarrow> db \<Rightarrow> 'tok answered" where
  "auth_me E n r = signed_in E n r (\<lambda>a d. (Inr (Me a), d))"

definition auth_wsTicket :: "'tok auth_env \<Rightarrow> auth_turn \<Rightarrow> 'tok auth_req \<Rightarrow> db \<Rightarrow> 'tok answered" where
  "auth_wsTicket E n r = signed_in E n r (\<lambda>a d.
     (Inr (WsTicket (issueWsTicket (ah_jwt E) (ad_now n) (au_id a))), d))"

definition auth_setup2fa :: "'tok auth_env \<Rightarrow> auth_turn \<Rightarrow> 'tok auth_req \<Rightarrow> db \<Rightarrow> 'tok answered" where
  "auth_setup2fa E n r = signed_in E n r (\<lambda>a d. answer_with TotpUri
     (atomically (twofa_setup (ah_lib E) (ad_secret n) (au_id a) (au_email a)) d))"

definition auth_verify2fa :: "'tok auth_env \<Rightarrow> auth_turn \<Rightarrow> 'tok auth_req \<Rightarrow> db \<Rightarrow> 'tok answered" where
  "auth_verify2fa E n r = signed_in E n r (\<lambda>a. with_dto E TwoFactorCodeDto r (\<lambda>dto d. answer_with RecoveryCodes
     (atomically (verifyAndEnable (ah_lib E) (ad_now n) (ad_code n) (au_id a) (dto_string ''code'' dto)) d)))"

definition auth_disable2fa :: "'tok auth_env \<Rightarrow> auth_turn \<Rightarrow> 'tok auth_req \<Rightarrow> db \<Rightarrow> 'tok answered" where
  "auth_disable2fa E n r = signed_in E n r (\<lambda>a. with_dto E TwoFactorCodeDto r (\<lambda>dto d. answer_with (\<lambda>_. Done)
     (atomically (twofa_disable (ah_lib E) (ad_now n) (au_id a) (dto_string ''code'' dto)) d)))"

definition auth_status2fa :: "'tok auth_env \<Rightarrow> auth_turn \<Rightarrow> 'tok auth_req \<Rightarrow> db \<Rightarrow> 'tok answered" where
  "auth_status2fa E n r = signed_in E n r (\<lambda>a d. (Inr (TotpStatus (twofa_status (au_id a) d)), d))"

definition auth_stepUp :: "'tok auth_env \<Rightarrow> auth_turn \<Rightarrow> 'tok auth_req \<Rightarrow> db \<Rightarrow> 'tok answered" where
  "auth_stepUp E n r = signed_in E n r (\<lambda>a. with_dto E TwoFactorCodeDto r (\<lambda>dto d. answer_with StepUpToken
     (atomically (stepUp (ah_lib E) (ad_now n) a (dto_string ''code'' dto)) d)))"

definition auth_passkeyRegisterOptions :: "'tok auth_env \<Rightarrow> auth_turn \<Rightarrow> 'tok auth_req \<Rightarrow> db \<Rightarrow> 'tok answered" where
  "auth_passkeyRegisterOptions E n r = signed_in E n r (\<lambda>a d.
     (case registrationOptions (ah_jwt E) (ah_cfg E) (ad_now n) (ad_challenge n) (au_id a) (au_email a) d of
        (opts, tok) \<Rightarrow> (Inr (RegisterOptions opts tok), d)))"

definition auth_passkeyRegisterVerify :: "'tok auth_env \<Rightarrow> auth_turn \<Rightarrow> 'tok auth_req \<Rightarrow> db \<Rightarrow> 'tok answered" where
  "auth_passkeyRegisterVerify E n r = signed_in E n r (\<lambda>a. with_dto E PasskeyVerifyDto r (\<lambda>dto d. answer_with PasskeyMade
     (atomically (verifyRegistration (ah_jwt E) (ah_web E) (ah_cfg E) (ad_now n) (dr_row (ad_draws n)) (au_id a)
        (dto_value ''response'' dto) (dto_tok E ''challengeToken'' dto) (dto_opt ''label'' dto)) d)))"

definition auth_listPasskeys :: "'tok auth_env \<Rightarrow> auth_turn \<Rightarrow> 'tok auth_req \<Rightarrow> db \<Rightarrow> 'tok answered" where
  "auth_listPasskeys E n r = signed_in E n r (\<lambda>a d. (Inr (Passkeys (passkeys_list (au_id a) d)), d))"

definition auth_removePasskey :: "'tok auth_env \<Rightarrow> auth_turn \<Rightarrow> 'tok auth_req \<Rightarrow> db \<Rightarrow> 'tok answered" where
  "auth_removePasskey E n r = signed_in E n r (\<lambda>a d. answer_with (\<lambda>_. Done)
     (atomically (passkey_remove (au_id a) (hq_param r)) d))"

definition auth_passkeyLoginOptions :: "'tok auth_env \<Rightarrow> auth_turn \<Rightarrow> 'tok auth_req \<Rightarrow> db \<Rightarrow> 'tok answered" where
  "auth_passkeyLoginOptions E n r d =
     (case authenticationOptions (ah_jwt E) (ad_now n) (ad_challenge n) of
        (ch, tok) \<Rightarrow> (Inr (LoginOptions ch tok), d))"

definition auth_passkeyLoginVerify :: "'tok auth_env \<Rightarrow> auth_turn \<Rightarrow> 'tok auth_req \<Rightarrow> db \<Rightarrow> 'tok answered" where
  "auth_passkeyLoginVerify E n r = with_dto E PasskeyVerifyDto r (\<lambda>dto d. answer_with Session
     (passkeyLoginVerify (ah_lib E) (ah_web E) (ah_cfg E) (ad_now n) (ad_draws n)
        (dto_value ''response'' dto) (dto_tok E ''challengeToken'' dto) d))"

definition auth_stepUpPasskeyOptions :: "'tok auth_env \<Rightarrow> auth_turn \<Rightarrow> 'tok auth_req \<Rightarrow> db \<Rightarrow> 'tok answered" where
  "auth_stepUpPasskeyOptions E n r = signed_in E n r (\<lambda>a. auth_passkeyLoginOptions E n r)"

definition auth_stepUpPasskeyVerify :: "'tok auth_env \<Rightarrow> auth_turn \<Rightarrow> 'tok auth_req \<Rightarrow> db \<Rightarrow> 'tok answered" where
  "auth_stepUpPasskeyVerify E n r = signed_in E n r (\<lambda>a. with_dto E PasskeyVerifyDto r (\<lambda>dto d. answer_with StepUpToken
     (atomically (stepUpPasskeyVerify (ah_lib E) (ah_web E) (ah_cfg E) (ad_now n) a
        (dto_value ''response'' dto) (dto_tok E ''challengeToken'' dto)) d)))"

datatype auth_route = AR_Register | AR_Login | AR_Login2fa | AR_Refresh | AR_Logout | AR_Me | AR_WsTicket
  | AR_Setup2fa | AR_Verify2fa | AR_Disable2fa | AR_Status2fa | AR_StepUp | AR_PasskeyRegisterOptions
  | AR_PasskeyRegisterVerify | AR_ListPasskeys | AR_RemovePasskey | AR_PasskeyLoginOptions
  | AR_PasskeyLoginVerify | AR_StepUpPasskeyOptions | AR_StepUpPasskeyVerify

fun auth_serve :: "'tok auth_env \<Rightarrow> auth_turn \<Rightarrow> auth_route \<Rightarrow> 'tok auth_req \<Rightarrow> db \<Rightarrow> 'tok answered" where
  "auth_serve E n AR_Register = auth_register E n"
| "auth_serve E n AR_Login = auth_login E n"
| "auth_serve E n AR_Login2fa = auth_login2fa E n"
| "auth_serve E n AR_Refresh = auth_refresh E n"
| "auth_serve E n AR_Logout = auth_logout E n"
| "auth_serve E n AR_Me = auth_me E n"
| "auth_serve E n AR_WsTicket = auth_wsTicket E n"
| "auth_serve E n AR_Setup2fa = auth_setup2fa E n"
| "auth_serve E n AR_Verify2fa = auth_verify2fa E n"
| "auth_serve E n AR_Disable2fa = auth_disable2fa E n"
| "auth_serve E n AR_Status2fa = auth_status2fa E n"
| "auth_serve E n AR_StepUp = auth_stepUp E n"
| "auth_serve E n AR_PasskeyRegisterOptions = auth_passkeyRegisterOptions E n"
| "auth_serve E n AR_PasskeyRegisterVerify = auth_passkeyRegisterVerify E n"
| "auth_serve E n AR_ListPasskeys = auth_listPasskeys E n"
| "auth_serve E n AR_RemovePasskey = auth_removePasskey E n"
| "auth_serve E n AR_PasskeyLoginOptions = auth_passkeyLoginOptions E n"
| "auth_serve E n AR_PasskeyLoginVerify = auth_passkeyLoginVerify E n"
| "auth_serve E n AR_StepUpPasskeyOptions = auth_stepUpPasskeyOptions E n"
| "auth_serve E n AR_StepUpPasskeyVerify = auth_stepUpPasskeyVerify E n"

section \<open>What the layers do to the database\<close>

lemma snd_answer_with [simp]: "snd (answer_with f x) = snd x"
  by (auto simp: answer_with_def split: prod.splits sum.splits)

lemma atomically_state:
  "snd (atomically m d) = d \<or> (\<exists>a. m d = Inr (snd (atomically m d), a))"
  by (cases "m d") (auto simp: atomically_def commit_def)

text \<open>What holds of the unchanged state and of the service call's result holds of the route's.\<close>

lemma signed_in_keeps:
  assumes "P d" "\<And>a. authenticate (ah_jwt E) (ad_now n) (hq_bearer r) d = Inr a \<Longrightarrow> P (snd (k a d))"
  shows "P (snd (signed_in E n r k d))"
  using assms by (auto simp: signed_in_def split: sum.splits)

lemma with_dto_keeps:
  assumes "P d" "\<And>dto. ah_pipe E D (hq_body r) = Inr dto \<Longrightarrow> P (snd (k dto d))"
  shows "P (snd (with_dto E D r k d))"
  using assms by (auto simp: with_dto_def split: sum.splits)

lemma atomically_keeps:
  assumes "P d" "\<And>d' a. m d = Inr (d', a) \<Longrightarrow> P d'"
  shows "P (snd (atomically m d))"
  using atomically_state [of m d] assms by auto

text \<open>The services that work on users and passkeys leave sessions, wallets and the ledger alone.\<close>

definition account_only :: "db \<Rightarrow> db \<Rightarrow> bool" where
  "account_only d d' \<longleftrightarrow> refresh_tokens d' = refresh_tokens d \<and> wallets d' = wallets d \<and> txns d' = txns d"

lemma account_only_refl [simp]: "account_only d d"
  by (simp add: account_only_def)

lemma account_only_users [simp]: "account_only d (e\<lparr>users := us\<rparr>) = account_only d e"
  by (simp add: account_only_def)

lemma account_only_trans: "account_only d d1 \<Longrightarrow> account_only d1 d2 \<Longrightarrow> account_only d d2"
  by (simp add: account_only_def)

lemma proveFactor_account: "proveFactor L t u code d = Inr (d', ok) \<Longrightarrow> account_only d d'"
  by (auto simp: proveFactor_def consumeRecoveryHash_def write_recovery_def Let_def tx_simps
      split: if_splits)

lemma verifyForLogin_account: "verifyForLogin L t userId code d = Inr (d', ok) \<Longrightarrow> account_only d d'"
  by (auto simp: verifyForLogin_def tx_simps dest: proveFactor_account split: option.splits if_splits)

lemma passkey_account:
  "verifyAuthentication J W cfg t resp tok expect d = Inr (d', uid) \<Longrightarrow> account_only d d'"
  by (auto simp: verifyAuthentication_def passkey_update_def account_only_def tx_simps split: if_splits prod.splits)

lemma account_services:
  "twofa_setup L secret userId email d = Inr (d', x1) \<Longrightarrow> account_only d d'"
  "verifyAndEnable L t rnd userId code d = Inr (d', x2) \<Longrightarrow> account_only d d'"
  "stepUp L t a code d = Inr (d', x3) \<Longrightarrow> account_only d d'"
  "verifyRegistration J W cfg t i userId resp tok label d = Inr (d', x4) \<Longrightarrow> account_only d d'"
  "passkey_remove userId i d = Inr (d', x5) \<Longrightarrow> account_only d d'"
  "stepUpPasskeyVerify L W cfg t a resp tok d = Inr (d', x6) \<Longrightarrow> account_only d d'"
proof -
  show "twofa_setup L secret userId email d = Inr (d', x1) \<Longrightarrow> account_only d d'"
    by (auto simp: twofa_setup_def setTotpPending_def tx_simps)
  show "verifyAndEnable L t rnd userId code d = Inr (d', x2) \<Longrightarrow> account_only d d'"
    by (auto simp: verifyAndEnable_def enableTotp_def Let_def tx_simps)
  show "stepUp L t a code d = Inr (d', x3) \<Longrightarrow> account_only d d'"
    by (auto simp: stepUp_def tx_simps dest: verifyForLogin_account)
  show "verifyRegistration J W cfg t i userId resp tok label d = Inr (d', x4) \<Longrightarrow> account_only d d'"
    by (auto simp: verifyRegistration_def passkey_create_def account_only_def tx_simps
        split: if_splits prod.splits option.splits)
  show "passkey_remove userId i d = Inr (d', x5) \<Longrightarrow> account_only d d'"
    by (auto simp: passkey_remove_def account_only_def Let_def split: if_splits)
  show "stepUpPasskeyVerify L W cfg t a resp tok d = Inr (d', x6) \<Longrightarrow> account_only d d'"
    by (auto simp: stepUpPasskeyVerify_def tx_simps dest: passkey_account)
qed

lemma disable_account: "twofa_disable L t userId code d = Inr (d', x) \<Longrightarrow> account_only d d'"
  by (auto simp: twofa_disable_def disableTotp_def tx_simps split: option.splits if_splits
      intro: account_only_trans dest!: proveFactor_account)

section \<open>What a session is issued for\<close>

text \<open>A refresh-token row that is live and was not there before: a session of its user.\<close>

definition new_session :: "db \<Rightarrow> db \<Rightarrow> string \<Rightarrow> bool" where
  "new_session d d' userId \<longleftrightarrow>
     (\<exists>s \<in> set (refresh_tokens d'). s \<notin> set (refresh_tokens d) \<and> rt_usedAt s = None \<and> rt_userId s = userId)"

text \<open>The body as the pipe admitted it; what is proved about \<open>userId\<close> on each route.\<close>

definition body_of :: "'tok auth_env \<Rightarrow> dto \<Rightarrow> 'tok auth_req \<Rightarrow> jval \<Rightarrow> bool" where
  "body_of E D r dto \<longleftrightarrow> ah_pipe E D (hq_body r) = Inr dto"

definition knows_password :: "'tok auth_env \<Rightarrow> jval \<Rightarrow> db \<Rightarrow> user \<Rightarrow> bool" where
  "knows_password E dto d u \<longleftrightarrow> findByEmail (dto_string ''email'' dto) d = Some u \<and>
     lib_bcrypt (ah_lib E) (dto_string ''password'' dto) (u_passwordHash u)"

definition holds_passkey :: "'tok auth_env \<Rightarrow> auth_turn \<Rightarrow> jval \<Rightarrow> db \<Rightarrow> string \<Rightarrow> bool" where
  "holds_passkey E n dto d userId \<longleftrightarrow>
     (\<exists>k ch b ctr. find_passkey (wa_id (ah_web E) (dto_value ''response'' dto)) d = Some k \<and> pk_userId k = userId \<and>
        verifyWebAuthnChallenge (ah_jwt E) (ad_now n) (dto_tok E ''challengeToken'' dto) = Inr (ch, b) \<and>
        wa_authentication (ah_web E) (dto_value ''response'' dto) ch (pc_origin (ah_cfg E)) (pc_rpID (ah_cfg E))
          \<lparr>sc_id = pk_credentialId k, sc_publicKey = pk_publicKey k, sc_counter = pk_counter k,
           sc_transports = pk_transports k\<rparr> = Inr (True, ctr))"

fun proves :: "auth_route \<Rightarrow> 'tok auth_env \<Rightarrow> auth_turn \<Rightarrow> jval \<Rightarrow> db \<Rightarrow> string \<Rightarrow> bool" where
  "proves AR_Register E n dto d userId = (findByEmail (dto_string ''email'' dto) d = None \<and> find_user userId d = None)"
| "proves AR_Login E n dto d userId =
     (\<exists>u. u_id u = userId \<and> knows_password E dto d u \<and> u_status u = Active \<and> \<not> u_totpEnabled u)"
| "proves AR_Login2fa E n dto d userId =
     (\<exists>u. find_user userId d = Some u \<and> u_status u = Active \<and> u_totpEnabled u \<and>
        verify2faChallenge (ah_jwt E) (ad_now n) (dto_tok E ''challengeToken'' dto) = Inr (Some userId) \<and>
        factor_proved (ah_lib E) (ad_now n) u (dto_string ''code'' dto))"
| "proves AR_Refresh E n dto d userId =
     (\<exists>s u. find_refresh (ah_sha E (dto_string ''refreshToken'' dto)) d = Some s \<and> rt_userId s = userId \<and>
        find_user userId d = Some u \<and> u_status u = Active \<and>
        (case rt_usedAt s of None \<Rightarrow> ad_now n \<le> rt_expiresAt s | Some used \<Rightarrow> ad_now n - used < REUSE_GRACE_MS))"
| "proves AR_PasskeyLoginVerify E n dto d userId =
     (holds_passkey E n dto d userId \<and> (\<exists>u. find_user userId d = Some u \<and> u_status u = Active))"
| "proves _ E n dto d userId = False"

fun body_dto :: "auth_route \<Rightarrow> dto" where
  "body_dto AR_Register = RegisterDto"
| "body_dto AR_Login = LoginDto"
| "body_dto AR_Login2fa = Login2faDto"
| "body_dto AR_Refresh = RefreshTokenDto"
| "body_dto AR_PasskeyLoginVerify = PasskeyVerifyDto"
| "body_dto _ = []"

lemma new_session_same: "refresh_tokens d' = refresh_tokens d \<Longrightarrow> \<not> new_session d d' uid"
  by (simp add: new_session_def)

lemma new_session_from: "new_session d d' uid \<Longrightarrow> refresh_tokens d1 = refresh_tokens d \<Longrightarrow> new_session d1 d' uid"
  by (simp add: new_session_def)

lemma issued_session:
  "issueTokens J h t i raw u fam d = Inr (d', tk) \<Longrightarrow> new_session d d' uid \<Longrightarrow> uid = tu_id u"
  by (auto simp: issueTokens_def refresh_create_def new_session_def tx_simps split: if_splits)

lemma started_session:
  "start_session L t r u d = (res, d') \<Longrightarrow> new_session d d' uid \<Longrightarrow> uid = u_id u"
  by (auto simp: start_session_def token_user_of_def new_session_same split: sum.splits dest: issued_session)

lemma login_session:
  assumes "login L t r email pw d = (res, d')" "new_session d d' uid"
  shows "\<exists>u. u_id u = uid \<and> findByEmail email d = Some u \<and> lib_bcrypt L pw (u_passwordHash u) \<and>
    u_status u = Active \<and> \<not> u_totpEnabled u"
  using assms
  by (auto simp: login_def Let_def assertActive_def new_session_same split: option.splits if_splits dest: started_session)

lemma find_user_id: "find_user i d = Some u \<Longrightarrow> u_id u = i"
  using find_user_in by blast

lemma login2fa_session:
  assumes "login2fa L t r tok code d = (res, d')" "new_session d d' uid"
  shows "\<exists>u. find_user uid d = Some u \<and> u_status u = Active \<and> u_totpEnabled u \<and>
    verify2faChallenge (lib_jwt L) t tok = Inr (Some uid) \<and> factor_proved L t u code"
proof -
  have idle: "\<not> new_session d d1 uid" if "verifyForLogin L t i code d = Inr (d1, ok)" for i d1 ok
    using verifyForLogin_account [OF that] by (simp add: account_only_def new_session_same)
  obtain i u d1 where v: "verify2faChallenge (lib_jwt L) t tok = Inr (Some i)" "find_user i d = Some u"
    "verifyForLogin L t i code d = Inr (d1, True)" "u_status u = Active" "start_session L t r u d1 = (res, d')"
    using assms idle
    by (auto simp: login2fa_def assertActive_def new_session_same split: sum.splits option.splits prod.splits bool.splits if_splits)
  have "refresh_tokens d1 = refresh_tokens d" using verifyForLogin_account [OF v(3)] by (simp add: account_only_def)
  then have "uid = u_id u" using started_session [OF v(5)] new_session_from [OF assms(2)] by blast
  moreover have "u_id u = i" by (rule find_user_id [OF v(2)])
  ultimately show ?thesis using v verifyForLogin_true [OF v(3)] by auto
qed

lemma passkey_login_session:
  assumes "passkeyLoginVerify L W cfg t r resp tok d = (res, d')" "new_session d d' uid"
  shows "\<exists>k ch b ctr u. find_passkey (wa_id W resp) d = Some k \<and> pk_userId k = uid \<and>
    verifyWebAuthnChallenge (lib_jwt L) t tok = Inr (ch, b) \<and>
    wa_authentication W resp ch (pc_origin cfg) (pc_rpID cfg) \<lparr>sc_id = pk_credentialId k, sc_publicKey = pk_publicKey k,
      sc_counter = pk_counter k, sc_transports = pk_transports k\<rparr> = Inr (True, ctr) \<and>
    find_user uid d = Some u \<and> u_status u = Active"
proof -
  obtain d1 i where v: "verifyAuthentication (lib_jwt L) W cfg t resp tok None d = Inr (d1, i)"
    "loginWithPasskey L t r i d1 = (res, d')"
    using assms by (auto simp: passkeyLoginVerify_def new_session_same split: sum.splits)
  have same: "refresh_tokens d1 = refresh_tokens d" using passkey_account [OF v(1)] by (simp add: account_only_def)
  have users: "users d1 = users d"
    using v(1) by (auto simp: verifyAuthentication_def passkey_update_def tx_simps split: if_splits prod.splits)
  obtain u where u: "find_user i d1 = Some u" "u_status u = Active" "start_session L t r u d1 = (res, d')"
    using v(2) assms(2) same
    by (auto simp: loginWithPasskey_def assertActive_def new_session_same split: option.splits if_splits)
  have "uid = i" using started_session [OF u(3) new_session_from [OF assms(2) same]] find_user_id [OF u(1)] by simp
  moreover have "find_user i d = Some u" using u(1) users by (simp add: find_user_def)
  ultimately show ?thesis
    using v(1) u(2) by (auto simp: verifyAuthentication_def tx_simps split: prod.splits)
qed

text \<open>Marking the presented token as used makes no session of its own.\<close>

lemma new_session_marked:
  assumes "new_session d d' uid" "refresh_tokens d1 = upd_rows P (rt_usedAt_update (\<lambda>_. Some t)) (refresh_tokens d)"
  shows "new_session d1 d' uid"
proof -
  obtain s where s: "s \<in> set (refresh_tokens d')" "s \<notin> set (refresh_tokens d)" "rt_usedAt s = None" "rt_userId s = uid"
    using assms(1) by (auto simp: new_session_def)
  then have "s \<notin> set (refresh_tokens d1)" unfolding assms(2) set_upd_rows by auto
  then show ?thesis using s by (auto simp: new_session_def)
qed

lemma no_new_session_del: "\<not> new_session d (d\<lparr>refresh_tokens := del_rows P (refresh_tokens d)\<rparr>) uid"
  by (auto simp: new_session_def set_del_rows)

lemma commit_state: "commit d r = (res, d') \<Longrightarrow> d' = d \<or> (\<exists>a. r = Inr (d', a))"
  by (auto simp: commit_def split: sum.splits)

lemma claimed_session:
  assumes "rotate_claim J h t i raw e d = Inr (d', x)" "new_session d d' uid"
  shows "uid = tu_id (re_user e)"
  using assms
  by (auto simp: rotate_claim_def tx_simps new_session_same split: if_splits
      dest!: issued_session intro: new_session_marked)

lemma claim_lost: "rotate_claim J h t i raw e d = Inr (d', None) \<Longrightarrow> d' = d"
  by (auto simp: rotate_claim_def tx_simps split: if_splits)

lemma rotate_session:
  assumes rot: "rotate J h t i new raw d = (res, d')" and "new": "new_session d d' uid"
  shows "\<exists>s u. find_refresh (h raw) d = Some s \<and> rt_userId s = uid \<and> find_user uid d = Some u \<and> u_status u = Active \<and>
    (case rt_usedAt s of None \<Rightarrow> t \<le> rt_expiresAt s | Some used \<Rightarrow> t - used < REUSE_GRACE_MS)"
proof -
  obtain s u where s: "find_refresh (h raw) d = Some s" and u: "find_user (rt_userId s) d = Some u"
    and e: "rotate_read h raw d = Inr \<lparr>re_row = s, re_status = u_status u, re_user = token_user_of u d\<rparr>"
    using assms by (auto simp: rotate_def rotate_read_def new_session_same split: option.splits)
  let ?e = "\<lparr>re_row = s, re_status = u_status u, re_user = token_user_of u d\<rparr>"
  have fin: "rotate_finish J h t i new ?e d = (res, d')" using rot e by (simp add: rotate_def)
  have uid: "tu_id (re_user ?e) = rt_userId s" using find_user_id [OF u] by (simp add: token_user_of_def)
  have sib: "x = rt_userId s" if "issueTokens J h t i new (re_user ?e) fam d = Inr (d', tk)" "new_session d d' x" for fam tk x
    using issued_session [OF that] uid by simp
  have idle: "\<not> new_session d d uid" by (simp add: new_session_same)
  have "uid = rt_userId s \<and> u_status u = Active \<and>
      (case rt_usedAt s of None \<Rightarrow> t \<le> rt_expiresAt s | Some used \<Rightarrow> t - used < REUSE_GRACE_MS)"
  proof (cases "rotate_decide t ?e")
    case RotSibling
    then have "d' = d \<or> (\<exists>tk. issueTokens J h t i new (re_user ?e) (rt_familyId s) d = Inr (d', tk))"
      using fin commit_state by (fastforce simp: rotate_finish_def Let_def)
    then show ?thesis
      using RotSibling sib "new" idle by (auto simp: rotate_decide_def split: if_splits option.splits)
  next
    case RotClaim
    have "uid = rt_userId s"
    proof (cases "rotate_claim J h t i new ?e d")
      case (Inl x)
      then show ?thesis using fin RotClaim "new" idle by (simp add: rotate_finish_def Let_def)
    next
      case (Inr p)
      then obtain d1 got where p: "rotate_claim J h t i new ?e d = Inr (d1, got)" by (cases p) auto
      show ?thesis
      proof (cases got)
        case None
        then have "d1 = d" using claim_lost p by blast
        then have "d' = d \<or> (\<exists>tk. issueTokens J h t i new (re_user ?e) (rt_familyId s) d = Inr (d', tk))"
          using fin RotClaim p None commit_state by (fastforce simp: rotate_finish_def Let_def)
        then show ?thesis using sib "new" idle by blast
      next
        case (Some tk)
        then have "d1 = d'" using fin RotClaim p by (simp add: rotate_finish_def Let_def)
        then show ?thesis using claimed_session p "new" uid by metis
      qed
    qed
    then show ?thesis using RotClaim by (auto simp: rotate_decide_def split: if_splits option.splits)
  qed (use fin "new" idle no_new_session_del in \<open>auto simp: rotate_finish_def Let_def split: if_splits\<close>)
  then show ?thesis using s u by blast
qed

lemma register_session:
  assumes "register L c r dto d = (res, d')" "new_session d d' uid"
  shows "findByEmail (rg_email dto) d = None \<and> find_user uid d = None"
proof -
  obtain a d1 u where c: "createWithDefaultWallet c a d = Inr (d1, u)" "start_session L (now c) r u d1 = (res, d')"
    and mail: "findByEmail (rg_email dto) d = None"
    using assms by (auto simp: register_def Let_def new_session_same split: if_splits sum.splits)
  from c(1) have same: "refresh_tokens d1 = refresh_tokens d" and fresh: "\<forall>v \<in> set (users d). u_id v \<noteq> u_id u"
    by (auto simp: createWithDefaultWallet_def user_create_def wallet_create_def tx_simps split: if_splits sum.splits)
  have "uid = u_id u" using started_session [OF c(2) new_session_from [OF assms(2) same]] .
  then show ?thesis using mail fresh find_user_in by (metis not_None_eq)
qed

lemma revoke_session: "\<not> new_session d (revoke h raw d) uid"
  unfolding revoke_def by (rule no_new_session_del)

text \<open>Every route that is not a sign-in works on accounts only; logging out only removes.\<close>

definition sign_in_routes :: "auth_route set" where
  "sign_in_routes = {AR_Register, AR_Login, AR_Login2fa, AR_Refresh, AR_Logout, AR_PasskeyLoginVerify}"

lemma signed_in_account:
  "(\<And>a. account_only d (snd (k a d))) \<Longrightarrow> account_only d (snd (signed_in E n r k d))"
  by (rule signed_in_keeps) simp_all

lemma with_dto_account:
  "(\<And>dto. account_only d (snd (k dto d))) \<Longrightarrow> account_only d (snd (with_dto E D r k d))"
  by (rule with_dto_keeps) simp_all

lemma atomically_account:
  "(\<And>d' a. m d = Inr (d', a) \<Longrightarrow> account_only d d') \<Longrightarrow> account_only d (snd (atomically m d))"
  by (rule atomically_keeps) simp_all

lemma other_routes_account:
  assumes "rt \<notin> sign_in_routes"
  shows "account_only d (snd (auth_serve E n rt r d))"
  using assms
  by (cases rt)
    (auto simp: sign_in_routes_def auth_me_def auth_wsTicket_def auth_setup2fa_def auth_verify2fa_def auth_disable2fa_def
      auth_status2fa_def auth_stepUp_def auth_passkeyRegisterOptions_def auth_passkeyRegisterVerify_def
      auth_listPasskeys_def auth_removePasskey_def auth_passkeyLoginOptions_def auth_stepUpPasskeyOptions_def
      auth_stepUpPasskeyVerify_def split: prod.splits
      intro!: signed_in_account with_dto_account atomically_account intro: account_services disable_account)

lemma sign_in_body:
  assumes "auth_serve E n rt r d = (res, d')" "rt \<in> sign_in_routes" "d' \<noteq> d"
  obtains dto where "rt \<noteq> AR_Logout \<Longrightarrow> ah_pipe E (body_dto rt) (hq_body r) = Inr dto"
    "rt = AR_Register \<Longrightarrow> \<exists>x. register (ah_lib E) (ad_ctx n) (ad_draws n) (register_of dto) d = (x, d')"
    "rt = AR_Login \<Longrightarrow> \<exists>x. login (ah_lib E) (ad_now n) (ad_draws n) (dto_string ''email'' dto) (dto_string ''password'' dto) d = (x, d')"
    "rt = AR_Login2fa \<Longrightarrow> \<exists>x. login2fa (ah_lib E) (ad_now n) (ad_draws n) (dto_tok E ''challengeToken'' dto) (dto_string ''code'' dto) d = (x, d')"
    "rt = AR_Refresh \<Longrightarrow> \<exists>x. rotate (ah_jwt E) (ah_sha E) (ad_now n) (dr_row (ad_draws n)) (dr_raw (ad_draws n)) (dto_string ''refreshToken'' dto) d = (x, d')"
    "rt = AR_Logout \<Longrightarrow> d' = revoke (ah_sha E) (dto_string ''refreshToken'' dto) d"
    "rt = AR_PasskeyLoginVerify \<Longrightarrow> \<exists>x. passkeyLoginVerify (ah_lib E) (ah_web E) (ah_cfg E) (ad_now n) (ad_draws n)
        (dto_value ''response'' dto) (dto_tok E ''challengeToken'' dto) d = (x, d')"
proof -
  have out: "\<exists>x. c = (x, d')" if "answer_with f c = (res, d')" for f :: "'b \<Rightarrow> 'a auth_answer" and c
    using that by (cases c) (metis snd_answer_with snd_conv)
  show thesis
    using assms that
    by (auto simp: sign_in_routes_def auth_register_def auth_login_def auth_login2fa_def auth_refresh_def
        auth_logout_def auth_passkeyLoginVerify_def with_dto_def split: sum.splits dest!: out)
qed

text \<open>C21: no session without proof. Whatever request reaches whatever of the twenty routes of the auth
  controller, a new live refresh token of a user appears only when that user's account was just
  created; or the password was right and no second factor is on; or the challenge of this very user
  and a code of their second factor were presented; or a live token of theirs (unused, or used less
  than the grace period ago) was rotated; or their passkey verified a challenge of the server. In
  all but the first case the account existed and was active.\<close>

theorem no_session_without_proof:
  assumes "auth_serve E n rt r d = (res, d')" and "new_session d d' userId"
  shows "\<exists>dto. ah_pipe E (body_dto rt) (hq_body r) = Inr dto \<and> proves rt E n dto d userId"
proof (cases "rt \<in> sign_in_routes")
  case False
  then show ?thesis
    using other_routes_account [OF False, of d E n r] assms by (simp add: account_only_def new_session_same)
next
  case True
  have "d' \<noteq> d" using assms(2) new_session_same by blast
  then show ?thesis
  proof (rule sign_in_body [OF assms(1) True])
    fix dto
    assume "rt \<noteq> AR_Logout \<Longrightarrow> ah_pipe E (body_dto rt) (hq_body r) = Inr dto"
      "rt = AR_Register \<Longrightarrow> \<exists>x. register (ah_lib E) (ad_ctx n) (ad_draws n) (register_of dto) d = (x, d')"
      "rt = AR_Login \<Longrightarrow> \<exists>x. login (ah_lib E) (ad_now n) (ad_draws n) (dto_string ''email'' dto) (dto_string ''password'' dto) d = (x, d')"
      "rt = AR_Login2fa \<Longrightarrow> \<exists>x. login2fa (ah_lib E) (ad_now n) (ad_draws n) (dto_tok E ''challengeToken'' dto) (dto_string ''code'' dto) d = (x, d')"
      "rt = AR_Refresh \<Longrightarrow> \<exists>x. rotate (ah_jwt E) (ah_sha E) (ad_now n) (dr_row (ad_draws n)) (dr_raw (ad_draws n)) (dto_string ''refreshToken'' dto) d = (x, d')"
      "rt = AR_Logout \<Longrightarrow> d' = revoke (ah_sha E) (dto_string ''refreshToken'' dto) d"
      "rt = AR_PasskeyLoginVerify \<Longrightarrow> \<exists>x. passkeyLoginVerify (ah_lib E) (ah_web E) (ah_cfg E) (ad_now n) (ad_draws n)
        (dto_value ''response'' dto) (dto_tok E ''challengeToken'' dto) d = (x, d')"
    note route = this
    consider "rt = AR_Register" | "rt = AR_Login" | "rt = AR_Login2fa" | "rt = AR_Refresh" | "rt = AR_Logout"
      | "rt = AR_PasskeyLoginVerify" using True by (auto simp: sign_in_routes_def)
    then show ?thesis
    proof cases
      case 1
      with route(1,2) register_session [OF _ assms(2)] show ?thesis by (fastforce simp: register_of_def)
    next
      case 2
      with route(1,3) login_session [OF _ assms(2)] show ?thesis by (fastforce simp: knows_password_def)
    next
      case 3
      with route(1,4) login2fa_session [OF _ assms(2)] show ?thesis by fastforce
    next
      case 4
      with route(1,5) rotate_session [OF _ assms(2)] show ?thesis by fastforce
    next
      case 5
      with route(6) assms(2) revoke_session show ?thesis by blast
    next
      case 6
      with route(1,7) passkey_login_session [OF _ assms(2)] show ?thesis by (fastforce simp: holds_passkey_def)
    qed
  qed
qed

section \<open>What switches a second factor off\<close>

text \<open>Every second factor that is on in \<open>d\<close> is on in \<open>d'\<close>, with the same secret.\<close>

definition factors_kept :: "db \<Rightarrow> db \<Rightarrow> bool" where
  "factors_kept d d' \<longleftrightarrow> (\<forall>i u. find_user i d = Some u \<and> u_totpEnabled u \<longrightarrow>
     (\<exists>u'. find_user i d' = Some u' \<and> u_totpEnabled u' \<and> u_totpSecret u' = u_totpSecret u))"

lemma factors_same_users: "users d' = users d \<Longrightarrow> factors_kept d d'"
  by (simp add: factors_kept_def find_user_def)

lemma factors_trans: "factors_kept d d1 \<Longrightarrow> factors_kept d1 d2 \<Longrightarrow> factors_kept d d2"
  unfolding factors_kept_def by metis

lemma factors_updated:
  assumes upd: "user_update j f d = Inr (d', x)" and key: "\<And>u. u_id (f u) = u_id u"
    and f: "\<And>u. find_user j d = Some u \<Longrightarrow> u_totpEnabled u \<Longrightarrow> u_totpEnabled (f u) \<and> u_totpSecret (f u) = u_totpSecret u"
  shows "factors_kept d d'"
proof -
  have keyed: "keyed_update u_id f" by unfold_locales (rule key)
  have us: "users d' = upd_rows (\<lambda>u. u_id u = j) f (users d)" using upd by (auto simp: user_update_def split: option.splits)
  show ?thesis
    unfolding factors_kept_def
  proof (intro allI impI)
    fix i u assume u: "find_user i d = Some u \<and> u_totpEnabled u"
    show "\<exists>u'. find_user i d' = Some u' \<and> u_totpEnabled u' \<and> u_totpSecret u' = u_totpSecret u"
    proof (cases "i = j")
      case True
      then have "find_user i d' = Some (f u)" using u us keyed_update.find_same [OF keyed, of j "users d"] by (simp add: find_user_def)
      then show ?thesis using f u True by auto
    next
      case False
      then have "find_user i d' = Some u" using u us keyed_update.find_other [OF keyed, of i j "users d"] by (simp add: find_user_def)
      then show ?thesis using u by auto
    qed
  qed
qed

lemma factors_refl [simp]: "factors_kept d d"
  by (rule factors_same_users) simp

lemma factors_cong [simp]:
  "factors_kept d (e\<lparr>passkeys := ks\<rparr>) = factors_kept d e"
  "factors_kept d (e\<lparr>refresh_tokens := ts\<rparr>) = factors_kept d e"
  "factors_kept d (e\<lparr>wallets := ws\<rparr>) = factors_kept d e"
  by (simp_all add: factors_kept_def find_user_def)

lemma proveFactor_keeps: "proveFactor L t u code d = Inr (d', ok) \<Longrightarrow> factors_kept d d'"
  by (auto simp: proveFactor_def Let_def consumeRecoveryHash_def write_recovery_def tx_bind_Inr tx_read_Inr tx_return_Inr
      split: if_splits elim: factors_updated)

lemma verifyForLogin_keeps: "verifyForLogin L t i code d = Inr (d', ok) \<Longrightarrow> factors_kept d d'"
  by (auto simp: verifyForLogin_def tx_simps dest: proveFactor_keeps split: option.splits if_splits)

lemma setup_keeps: "twofa_setup L secret i email d = Inr (d', x) \<Longrightarrow> factors_kept d d'"
  by (auto simp: twofa_setup_def setTotpPending_def tx_bind_Inr tx_read_Inr tx_return_Inr tx_when_Inr
      elim!: factors_updated)

lemma enable_keeps: "verifyAndEnable L t rnd i code d = Inr (d', x) \<Longrightarrow> factors_kept d d'"
  by (auto simp: verifyAndEnable_def enableTotp_def Let_def tx_bind_Inr tx_read_Inr tx_return_Inr tx_when_Inr
      elim!: factors_updated)

lemma passkey_keeps: "verifyAuthentication J W cfg t resp tok expect d = Inr (d', uid) \<Longrightarrow> factors_kept d d'"
  by (auto simp: verifyAuthentication_def passkey_update_def tx_simps split: if_splits prod.splits)

lemma started_keeps: "start_session L t r u d = (res, d') \<Longrightarrow> factors_kept d d'"
  by (auto simp: start_session_def issueTokens_def refresh_create_def tx_simps split: sum.splits if_splits)

lemma created_keeps: "createWithDefaultWallet c x d = Inr (d', u) \<Longrightarrow> factors_kept d d'"
  by (auto simp: createWithDefaultWallet_def user_create_def wallet_create_def ins_row_def tx_simps factors_kept_def
      find_user_def find_append split: if_splits sum.splits)

lemma rotate_keeps: "rotate J h t i new raw d = (res, d') \<Longrightarrow> factors_kept d d'"
  by (auto simp: rotate_def rotate_finish_def rotate_claim_def commit_def issueTokens_def refresh_create_def Let_def tx_simps
      split: sum.splits rotation.splits if_splits option.splits)

lemma updated_other: "user_update j f d = Inr (d', x) \<Longrightarrow> (\<And>u. u_id (f u) = u_id u) \<Longrightarrow> i \<noteq> j \<Longrightarrow> find_user i d' = find_user i d"
  using keyed_update.find_other [of u_id f i j "users d"]
  by (auto simp: user_update_def find_user_def keyed_update_def split: option.splits)

lemma disable_switches_off:
  assumes dis: "twofa_disable L t j code d = Inr (d', x)" and u: "find_user i d = Some u" "u_totpEnabled u"
  shows "(\<exists>u'. find_user i d' = Some u' \<and> u_totpEnabled u' \<and> u_totpSecret u' = u_totpSecret u) \<or>
    i = j \<and> factor_proved L t u code"
proof -
  obtain v d1 y where v: "find_user j d = Some v" "proveFactor L t v code d = Inr (d1, True)"
    and off: "disableTotp j d1 = Inr (d', y)"
    using dis by (auto simp: twofa_disable_def tx_bind_Inr tx_return_Inr tx_read_Inr tx_when_Inr tx_throw_Inr split: option.splits if_splits)
  show ?thesis
  proof (cases "i = j")
    case True
    then show ?thesis using v(1) proveFactor_true [OF v(2)] u by auto
  next
    case False
    obtain u1 where "find_user i d1 = Some u1" "u_totpEnabled u1" "u_totpSecret u1 = u_totpSecret u"
      using proveFactor_keeps [OF v(2)] u unfolding factors_kept_def by blast
    moreover have "find_user i d' = find_user i d1"
      using off False by (auto simp: disableTotp_def intro: updated_other)
    ultimately show ?thesis by simp
  qed
qed

lemma signed_in_factors:
  "(\<And>a. factors_kept d (snd (k a d))) \<Longrightarrow> factors_kept d (snd (signed_in E n r k d))"
  by (rule signed_in_keeps) simp_all

lemma with_dto_factors:
  "(\<And>dto. factors_kept d (snd (k dto d))) \<Longrightarrow> factors_kept d (snd (with_dto E D r k d))"
  by (rule with_dto_keeps) simp_all

lemma atomically_factors:
  "(\<And>d' a. m d = Inr (d', a) \<Longrightarrow> factors_kept d d') \<Longrightarrow> factors_kept d (snd (atomically m d))"
  by (rule atomically_keeps) simp_all

lemma snd_keeps: "(\<And>res d'. m = (res, d') \<Longrightarrow> factors_kept d d') \<Longrightarrow> factors_kept d (snd m)"
  by (cases m) auto

lemma register_keeps: "register L c r dto d = (res, d') \<Longrightarrow> factors_kept d d'"
  by (auto simp: register_def Let_def split: if_splits sum.splits dest!: created_keeps started_keeps intro: factors_trans)

lemma login_keeps: "login L t r email pw d = (res, d') \<Longrightarrow> factors_kept d d'"
  by (auto simp: login_def Let_def split: if_splits option.splits dest: started_keeps)

lemma login2fa_keeps: "login2fa L t r tok code d = (res, d') \<Longrightarrow> factors_kept d d'"
  by (auto simp: login2fa_def split: if_splits option.splits sum.splits bool.splits
      dest!: started_keeps verifyForLogin_keeps intro: factors_trans)

lemma passkey_login_keeps: "passkeyLoginVerify L W cfg t r resp tok d = (res, d') \<Longrightarrow> factors_kept d d'"
  by (auto simp: passkeyLoginVerify_def loginWithPasskey_def split: option.splits sum.splits
      dest!: started_keeps passkey_keeps intro: factors_trans)

lemma revoke_keeps: "factors_kept d (revoke h raw d)"
  by (simp add: revoke_def)

lemma registration_keeps: "verifyRegistration J W cfg t i userId resp tok label d = Inr (d', x) \<Longrightarrow> factors_kept d d'"
  by (auto simp: verifyRegistration_def passkey_create_def tx_simps split: if_splits prod.splits option.splits)

lemma remove_keeps: "passkey_remove userId i d = Inr (d', x) \<Longrightarrow> factors_kept d d'"
  by (auto simp: passkey_remove_def Let_def split: if_splits)

lemma stepUp_keeps: "stepUp L t a code d = Inr (d', x) \<Longrightarrow> factors_kept d d'"
  by (auto simp: stepUp_def tx_simps dest: verifyForLogin_keeps)

lemma stepUpPasskey_keeps: "stepUpPasskeyVerify L W cfg t a resp tok d = Inr (d', x) \<Longrightarrow> factors_kept d d'"
  by (auto simp: stepUpPasskeyVerify_def tx_simps dest: passkey_keeps)

lemmas route_defs = auth_register_def auth_login_def auth_login2fa_def auth_refresh_def auth_logout_def
  auth_passkeyLoginVerify_def auth_me_def auth_wsTicket_def auth_setup2fa_def auth_verify2fa_def auth_disable2fa_def
  auth_status2fa_def auth_stepUp_def auth_passkeyRegisterOptions_def auth_passkeyRegisterVerify_def
  auth_listPasskeys_def auth_removePasskey_def auth_passkeyLoginOptions_def auth_stepUpPasskeyOptions_def
  auth_stepUpPasskeyVerify_def

lemma other_routes_factors:
  assumes "rt \<noteq> AR_Disable2fa"
  shows "factors_kept d (snd (auth_serve E n rt r d))"
  using assms
  by (cases rt)
    (auto simp: route_defs split: prod.splits
      intro!: signed_in_factors with_dto_factors atomically_factors revoke_keeps
      intro: snd_keeps [OF register_keeps] snd_keeps [OF login_keeps] snd_keeps [OF login2fa_keeps]
        snd_keeps [OF rotate_keeps] snd_keeps [OF passkey_login_keeps] setup_keeps enable_keeps
        registration_keeps remove_keeps stepUp_keeps stepUpPasskey_keeps)

text \<open>C39: a second factor stays on. Whatever request reaches whatever route of the auth controller, an
  account whose second factor is on keeps it on, with its secret, except that its own signed-in user,
  proving the factor with a current code or a recovery code, may switch it off.\<close>

theorem second_factor_stays_on:
  assumes serve: "auth_serve E n rt r d = (res, d')" and u: "find_user i d = Some u" "u_totpEnabled u"
  shows "(\<exists>u'. find_user i d' = Some u' \<and> u_totpEnabled u' \<and> u_totpSecret u' = u_totpSecret u) \<or>
    rt = AR_Disable2fa \<and>
    (\<exists>a dto. authenticate (ah_jwt E) (ad_now n) (hq_bearer r) d = Inr a \<and> au_id a = i \<and>
       ah_pipe E TwoFactorCodeDto (hq_body r) = Inr dto \<and>
       factor_proved (ah_lib E) (ad_now n) u (dto_string ''code'' dto))"
proof (cases "rt = AR_Disable2fa")
  case False
  then show ?thesis using other_routes_factors [OF False, of d E n r] serve u by (simp add: factors_kept_def)
next
  case True
  let ?kept = "\<lambda>d'. \<exists>u'. find_user i d' = Some u' \<and> u_totpEnabled u' \<and> u_totpSecret u' = u_totpSecret u"
  have "?kept d" using u by blast
  consider "d' = d" | a dto where "authenticate (ah_jwt E) (ad_now n) (hq_bearer r) d = Inr a"
    "ah_pipe E TwoFactorCodeDto (hq_body r) = Inr dto"
    "d' = snd (atomically (twofa_disable (ah_lib E) (ad_now n) (au_id a) (dto_string ''code'' dto)) d)"
    using serve True
    by (auto simp: auth_disable2fa_def signed_in_def with_dto_def split: sum.splits) (metis snd_answer_with snd_conv)
  then show ?thesis
  proof cases
    case 1
    then show ?thesis using \<open>?kept d\<close> by blast
  next
    case 2
    then consider "d' = d" | x where "twofa_disable (ah_lib E) (ad_now n) (au_id a) (dto_string ''code'' dto) d = Inr (d', x)"
      using atomically_state [of "twofa_disable (ah_lib E) (ad_now n) (au_id a) (dto_string ''code'' dto)" d] by auto
    then show ?thesis
    proof cases
      case 1
      then show ?thesis using \<open>?kept d\<close> by blast
    next
      case 2
      then show ?thesis using disable_switches_off [OF 2 u] \<open>rt = AR_Disable2fa\<close> \<open>authenticate _ _ _ _ = _\<close>
          \<open>ah_pipe E _ _ = _\<close> by blast
    qed
  qed
qed

section \<open>The ledger\<close>

lemma account_steps: "account_only d d' \<Longrightarrow> ledger_step\<^sup>*\<^sup>* d d'"
  by (rule r_into_rtranclp, rule ls_other) (simp_all add: account_only_def)

text \<open>Sign-ins leave wallets and ledger rows alone, apart from the wallet of a new account.\<close>

definition money_kept :: "db \<Rightarrow> db \<Rightarrow> bool" where
  "money_kept d d' \<longleftrightarrow> wallets d' = wallets d \<and> txns d' = txns d"

lemma money_steps: "money_kept d d' \<Longrightarrow> ledger_step\<^sup>*\<^sup>* d d'"
  by (rule r_into_rtranclp, rule ls_other) (simp_all add: money_kept_def)

lemma account_money: "account_only d d' \<Longrightarrow> money_kept d d'"
  by (simp add: account_only_def money_kept_def)

lemma money_trans: "money_kept d d1 \<Longrightarrow> money_kept d1 d2 \<Longrightarrow> money_kept d d2"
  by (simp add: money_kept_def)

lemma money_refl [simp]: "money_kept d d"
  by (simp add: money_kept_def)

lemma started_money: "start_session L t r u d = (res, d') \<Longrightarrow> money_kept d d'"
  by (auto simp: start_session_def issueTokens_def refresh_create_def money_kept_def tx_simps split: sum.splits if_splits)

lemma login_money: "login L t r email pw d = (res, d') \<Longrightarrow> money_kept d d'"
  by (auto simp: login_def Let_def split: if_splits option.splits dest: started_money)

lemma login2fa_money: "login2fa L t r tok code d = (res, d') \<Longrightarrow> money_kept d d'"
  by (auto simp: login2fa_def split: if_splits option.splits sum.splits bool.splits
      dest!: started_money verifyForLogin_account account_money intro: money_trans)

lemma passkey_login_money: "passkeyLoginVerify L W cfg t r resp tok d = (res, d') \<Longrightarrow> money_kept d d'"
  by (auto simp: passkeyLoginVerify_def loginWithPasskey_def split: option.splits sum.splits
      dest!: started_money passkey_account account_money intro: money_trans)

lemma rotate_money: "rotate J h t i new raw d = (res, d') \<Longrightarrow> money_kept d d'"
  by (auto simp: rotate_def rotate_finish_def rotate_claim_def commit_def issueTokens_def refresh_create_def Let_def
      money_kept_def tx_simps split: sum.splits rotation.splits if_splits option.splits)

lemma revoke_money: "money_kept d (revoke h raw d)"
  by (simp add: revoke_def money_kept_def)

lemma register_steps: "register L c r dto d = (res, d') \<Longrightarrow> ledger_step\<^sup>*\<^sup>* d d'"
  by (auto simp: register_def Let_def split: if_splits sum.splits
      dest!: ls_onboard started_money money_steps intro: converse_rtranclp_into_rtranclp)

lemma auth_steps:
  assumes serve: "auth_serve E n rt r d = (res, d')"
  shows "ledger_step\<^sup>*\<^sup>* d d'"
proof (cases "rt \<in> sign_in_routes \<and> d' \<noteq> d")
  case False
  then show ?thesis using other_routes_account [of rt d E n r] serve account_steps by auto
next
  case True
  show ?thesis
  proof (cases "rt = AR_Register")
    case True
    then show ?thesis
      using serve register_steps
      by (auto simp: auth_register_def with_dto_def answer_with_def split: sum.splits prod.splits)
  next
    case False
    have "money_kept d d'"
      using serve True False login_money login2fa_money rotate_money passkey_login_money
      by (auto simp: sign_in_routes_def auth_login_def auth_login2fa_def auth_refresh_def auth_logout_def
          auth_passkeyLoginVerify_def with_dto_def answer_with_def revoke_money split: sum.splits prod.splits)
    then show ?thesis by (rule money_steps)
  qed
qed

section \<open>Examples\<close>

definition demo_auth :: "(claims \<times> int) auth_env" where
  "demo_auth = \<lparr>ah_lib = demo_lib,
     ah_web = \<lparr>wa_id = (\<lambda>_. []), wa_registration = (\<lambda>r ch o' rp. Inr (False, None)),
               wa_authentication = (\<lambda>r ch o' rp c. Inr (False, 0))\<rparr>,
     ah_cfg = demo_config, ah_pipe = simple_pipe \<lparr>is_uuid = (\<lambda>_. True), is_email = (\<lambda>_. True)\<rparr>,
     ah_tok = (\<lambda>_. demo_challenge)\<rparr>"

definition demo_auth_turn :: auth_turn where
  "demo_auth_turn = \<lparr>ad_ctx = demo_ctx, ad_draws = demo_draws, ad_secret = ''s'', ad_code = show_nat, ad_challenge = ''ch''\<rparr>"

definition second_step :: "(claims \<times> int) auth_req" where
  "second_step = \<lparr>hq_bearer = None,
     hq_body = JObj [(''challengeToken'', JStr ''c''), (''code'', JStr ''123456'')], hq_param = []\<rparr>"

lemmas demo_auth_simps = demo_auth_def demo_auth_turn_def second_step_def simple_pipe_def Let_def List.map_filter_simps
  required_def converted_def initial_value_def convert_def prop_ok_def jget_def jstring_def dto_string_def dto_tok_def

lemma second_step_demo:
  "\<exists>res d'. auth_serve demo_auth demo_auth_turn AR_Login2fa second_step demo_session = (res, d') \<and>
     refresh_tokens d' = [demo_refresh, new_refresh plain_hash 1000 ''t9'' ''raw9'' ''u1'' ''f9'']"
  using login2fa_demo
  by (simp add: auth_login2fa_def with_dto_def Login2faDto_def demo_auth_simps answer_with_def demo_ctx_def)

lemma no_session_without_proof_witness:
  "factor_proved demo_lib 1000 demo_user ''123456''"
proof -
  obtain res d' where d': "auth_serve demo_auth demo_auth_turn AR_Login2fa second_step demo_session = (res, d')"
    "refresh_tokens d' = [demo_refresh, new_refresh plain_hash 1000 ''t9'' ''raw9'' ''u1'' ''f9'']"
    using second_step_demo by blast
  have "new_session demo_session d' ''u1''"
    using d'(2) by (auto simp: new_session_def new_refresh_def demo_session_simps)
  from no_session_without_proof [OF d'(1) this] show ?thesis
    by (auto simp: Login2faDto_def demo_auth_simps demo_ctx_def demo_session_simps)
qed

lemma second_factor_stays_on_witness:
  "\<exists>u'. find_user ''u1'' (snd (auth_serve demo_auth demo_auth_turn AR_Login2fa second_step demo_session)) = Some u' \<and>
     u_totpEnabled u'"
proof -
  obtain res d' where d': "auth_serve demo_auth demo_auth_turn AR_Login2fa second_step demo_session = (res, d')"
    using second_step_demo by blast
  have "find_user ''u1'' demo_session = Some demo_user" "u_totpEnabled demo_user" by (simp_all add: demo_session_simps)
  from second_factor_stays_on [OF d' this] d' show ?thesis by auto
qed

end
