(* ===== verification/AccountScreens.thy ===== *)
theory AccountScreens
  imports Wizards AuthApi
begin

text \<open>
  The customer app's account screens: turning the second factor on and off
  (\<open>components/security/two-factor-setup.tsx\<close>), signing in, and the star that
  follows an asset. Where a handler calls \<open>fetch\<close> directly a network failure is an exception that
  ends it; where it calls \<open>apiRequest\<close> it is a failed result.
\<close>

section \<open>Two-factor setup\<close>

datatype two_factor_phase = TwIdle | TwQr | TwRecovery | TwEnabled | TwDisabling
datatype two_factor_request = AskSetup | AskVerify | AskDisable

text \<open>\<open>tw_flight\<close>: the handler that waits for its \<open>fetch\<close>.\<close>

record two_factor =
  tw_phase :: two_factor_phase
  tw_qr :: "jval option"
  tw_code :: string
  tw_recovery :: "jval option"
  tw_error :: "string option"
  tw_busy :: bool
  tw_flight :: "two_factor_request option"

definition two_factor_start :: "bool \<Rightarrow> two_factor" where
  "two_factor_start initialEnabled = \<lparr>tw_phase = (if initialEnabled then TwEnabled else TwIdle), tw_qr = None,
     tw_code = [], tw_recovery = None, tw_error = None, tw_busy = False, tw_flight = None\<rparr>"

definition ask :: "two_factor_request \<Rightarrow> two_factor \<Rightarrow> two_factor" where
  "ask k w = w\<lparr>tw_busy := True, tw_error := None, tw_flight := Some k\<rparr>"

definition code_call :: "string \<Rightarrow> string \<Rightarrow> api_call" where
  "code_call path code = post_body path (JObj [(''code'', JStr code)])"

definition refusal :: "two_factor_request \<Rightarrow> string" where
  "refusal k = (case k of AskSetup \<Rightarrow> ''Could not start setup. Try again.''
     | AskVerify \<Rightarrow> ''That code didn't work -- try the next one.'' | AskDisable \<Rightarrow> ''Invalid code.'')"

text \<open>A body that is not JSON, or \<open>null\<close>, throws after \<open>setBusy(false)\<close>; turning off reads no body.\<close>

definition two_factor_done :: "two_factor_request \<Rightarrow> http_reply_msg \<Rightarrow> two_factor \<Rightarrow> two_factor" where
  "two_factor_done k m w =
     (case k of
        AskDisable \<Rightarrow> w\<lparr>tw_code := [], tw_phase := TwIdle\<rparr>
      | AskSetup \<Rightarrow> (case res_json m of
          Inr v \<Rightarrow> if v = JNull then w else w\<lparr>tw_qr := jget ''qrDataUrl'' v, tw_phase := TwQr\<rparr> | Inl e \<Rightarrow> w)
      | AskVerify \<Rightarrow> (case res_json m of
          Inr v \<Rightarrow> if v = JNull then w
                   else w\<lparr>tw_recovery := jget ''recoveryCodes'' v, tw_code := [], tw_phase := TwRecovery\<rparr> | Inl e \<Rightarrow> w))"

definition two_factor_reply :: "two_factor_request \<Rightarrow> http_reply_msg option \<Rightarrow> two_factor \<Rightarrow> two_factor" where
  "two_factor_reply k r w =
     (let w1 = w\<lparr>tw_flight := None\<rparr> in
      case r of
        None \<Rightarrow> w1
      | Some m \<Rightarrow> (let w2 = w1\<lparr>tw_busy := False\<rparr> in
          if res_ok (hm_status m) then two_factor_done k m w2 else w2\<lparr>tw_error := Some (refusal k)\<rparr>))"

datatype two_factor_event =
    TwStart | TwCode string | TwVerify | TwDisable | TwSaved | TwTurnOff | TwCancel | TwReply "http_reply_msg option"

fun two_factor_step :: "two_factor_event \<Rightarrow> two_factor \<Rightarrow> two_factor \<times> api_call option" where
  "two_factor_step TwStart w =
     (if tw_phase w = TwIdle \<and> \<not> tw_busy w then (ask AskSetup w, Some (post_empty ''/api/2fa/setup'')) else (w, None))"
| "two_factor_step (TwCode s) w =
     ((case tw_phase w of TwQr \<Rightarrow> w\<lparr>tw_code := sanitizeDigits s 6\<rparr> | TwDisabling \<Rightarrow> w\<lparr>tw_code := s\<rparr> | _ \<Rightarrow> w), None)"
| "two_factor_step TwVerify w =
     (if tw_phase w = TwQr \<and> \<not> tw_busy w \<and> tw_code w \<noteq> []
      then (ask AskVerify w, Some (code_call ''/api/2fa/verify'' (tw_code w))) else (w, None))"
| "two_factor_step TwDisable w =
     (if tw_phase w = TwDisabling \<and> \<not> tw_busy w \<and> tw_code w \<noteq> []
      then (ask AskDisable w, Some (code_call ''/api/2fa/disable'' (tw_code w))) else (w, None))"
| "two_factor_step TwSaved w = (if tw_phase w = TwRecovery then w\<lparr>tw_phase := TwEnabled\<rparr> else w, None)"
| "two_factor_step TwTurnOff w = (if tw_phase w = TwEnabled then w\<lparr>tw_phase := TwDisabling\<rparr> else w, None)"
| "two_factor_step TwCancel w = (if tw_phase w = TwDisabling then w\<lparr>tw_phase := TwEnabled\<rparr> else w, None)"
| "two_factor_step (TwReply r) w = (case tw_flight w of None \<Rightarrow> (w, None) | Some k \<Rightarrow> (two_factor_reply k r w, None))"

text \<open>What the screen says: on, in all three phases after a verified code.\<close>

definition says_on :: "two_factor \<Rightarrow> bool" where
  "says_on w \<longleftrightarrow> tw_phase w = TwRecovery \<or> tw_phase w = TwEnabled \<or> tw_phase w = TwDisabling"

section \<open>The screen and the API\<close>

definition two_factor_serve ::
  "'tok auth_env \<Rightarrow> auth_turn \<Rightarrow> 'tok auth_req \<Rightarrow> two_factor_request \<Rightarrow> db \<Rightarrow> 'tok answered" where
  "two_factor_serve E n r k = (case k of
     AskSetup \<Rightarrow> auth_setup2fa E n r | AskVerify \<Rightarrow> auth_verify2fa E n r | AskDisable \<Rightarrow> auth_disable2fa E n r)"

text \<open>The state: the screen, whether the API answered the request in flight with success, the tables.\<close>

type_synonym two_factor_system = "two_factor \<times> bool option \<times> db"

definition json_answer :: "http_reply_msg \<Rightarrow> bool" where
  "json_answer m \<longleftrightarrow> (\<exists>kvs. hm_body m = JsonBody (JObj kvs))"

inductive two_factor_run :: "'tok auth_env \<Rightarrow> string \<Rightarrow> two_factor_system \<Rightarrow> two_factor_system \<Rightarrow> bool" for E i where
  local_event: "two_factor_step e w = (w', None) \<Longrightarrow> \<forall>r. e \<noteq> TwReply r \<Longrightarrow> two_factor_run E i (w, a, d) (w', a, d)"
| served: "two_factor_step e w = (w', Some c) \<Longrightarrow> tw_flight w' = Some k \<Longrightarrow>
    \<forall>u. authenticate (ah_jwt E) (ad_now n) (hq_bearer r) d = Inr u \<longrightarrow> au_id u = i \<Longrightarrow>
    two_factor_serve E n r k d = (res, d') \<Longrightarrow> two_factor_run E i (w, None, d) (w', Some (\<exists>v. res = Inr v), d')"
| answered: "res_ok (hm_status m) = ok \<Longrightarrow> json_answer m \<Longrightarrow> two_factor_step (TwReply (Some m)) w = (w', out) \<Longrightarrow>
    two_factor_run E i (w, Some ok, d) (w', None, d)"
| lost: "two_factor_step (TwReply None) w = (w', out) \<Longrightarrow> two_factor_run E i (w, Some ok, d) (w', None, d)"
| elsewhere: "twofa_status i d' = twofa_status i d \<Longrightarrow> two_factor_run E i (w, a, d) (w, a, d')"

definition two_factor_opened :: "string \<Rightarrow> two_factor_system \<Rightarrow> bool" where
  "two_factor_opened i s \<longleftrightarrow> (case s of (w, a, d) \<Rightarrow> w = two_factor_start (twofa_status i d) \<and> a = None)"

definition flight_ok :: "two_factor_request \<Rightarrow> bool \<Rightarrow> two_factor_phase \<Rightarrow> bool \<Rightarrow> bool" where
  "flight_ok k ok ph on = (case k of
     AskSetup \<Rightarrow> ph = TwIdle \<and> \<not> on | AskVerify \<Rightarrow> ph = TwQr \<and> on = ok
   | AskDisable \<Rightarrow> (ph = TwDisabling \<or> ph = TwEnabled) \<and> on = (\<not> ok))"

fun two_factor_inv :: "string \<Rightarrow> two_factor_system \<Rightarrow> bool" where
  "two_factor_inv i (w, None, d) \<longleftrightarrow> tw_flight w = None \<and> (\<not> tw_busy w \<longrightarrow> says_on w = twofa_status i d)"
| "two_factor_inv i (w, Some ok, d) \<longleftrightarrow> tw_busy w \<and>
     (\<exists>k. tw_flight w = Some k \<and> flight_ok k ok (tw_phase w) (twofa_status i d))"

section \<open>The flag of the second factor\<close>

lemma find_user_updated:
  assumes "\<And>x. u_id (f x) = u_id x"
  shows "find_user i (d\<lparr>users := upd_rows (\<lambda>u. u_id u = j) f (users d)\<rparr>) =
    map_option (\<lambda>x. if j = i then f x else x) (find_user i d)"
proof -
  have "List.find (\<lambda>u. u_id u = i) (upd_rows (\<lambda>u. u_id u = j) f us) =
      map_option (\<lambda>x. if j = i then f x else x) (List.find (\<lambda>u. u_id u = i) us)" for us
    using assms by (induction us) (auto simp: upd_rows_def)
  then show ?thesis by (simp add: find_user_def)
qed

lemma setup_status: "twofa_setup L secret j email d = Inr (d', x) \<Longrightarrow> twofa_status i d' = twofa_status i d"
  by (auto simp: twofa_setup_def setTotpPending_def tx_bind_Inr tx_read_Inr tx_return_Inr tx_when_Inr user_update_Inr
      find_user_updated twofa_status_def split: option.splits)

lemma enable_status: "verifyAndEnable L t rnd i code d = Inr (d', x) \<Longrightarrow> twofa_status i d'"
  by (auto simp: verifyAndEnable_def enableTotp_def Let_def tx_bind_Inr tx_read_Inr tx_return_Inr tx_when_Inr user_update_Inr
      find_user_updated twofa_status_def split: option.splits)

lemma disable_status: "twofa_disable L t i code d = Inr (d', x) \<Longrightarrow> \<not> twofa_status i d'"
  by (auto simp: twofa_disable_def disableTotp_def tx_bind_Inr tx_read_Inr tx_return_Inr tx_when_Inr tx_throw_Inr user_update_Inr
      find_user_updated twofa_status_def split: option.splits if_splits)

lemma serve_status:
  assumes "two_factor_serve E n r k d = (res, d')"
    and "\<forall>u. authenticate (ah_jwt E) (ad_now n) (hq_bearer r) d = Inr u \<longrightarrow> au_id u = i"
  shows "case res of
      Inl e \<Rightarrow> twofa_status i d' = twofa_status i d
    | Inr v \<Rightarrow> (case k of AskSetup \<Rightarrow> twofa_status i d' = twofa_status i d | AskVerify \<Rightarrow> twofa_status i d'
               | AskDisable \<Rightarrow> \<not> twofa_status i d')"
  using assms
  by (cases k) (auto simp: two_factor_serve_def auth_setup2fa_def auth_verify2fa_def auth_disable2fa_def signed_in_def with_dto_def
      answer_with_def atomically_def commit_def setup_status enable_status disable_status
      split: sum.splits prod.splits)

lemma two_factor_asks:
  assumes "two_factor_step e w = (w', Some c)"
  obtains (asks_setup) "w' = ask AskSetup w" "tw_phase w = TwIdle" "\<not> tw_busy w"
  | (asks_verify) "w' = ask AskVerify w" "tw_phase w = TwQr" "\<not> tw_busy w"
  | (asks_disable) "w' = ask AskDisable w" "tw_phase w = TwDisabling" "\<not> tw_busy w"
  using assms by (cases e) (auto split: if_splits two_factor_phase.splits option.splits)

lemma two_factor_local:
  assumes "two_factor_step e w = (w', None)" "\<forall>r. e \<noteq> TwReply r"
  shows "tw_busy w' = tw_busy w \<and> tw_flight w' = tw_flight w \<and> says_on w' = says_on w \<and>
    (tw_phase w' = tw_phase w \<or> says_on w \<and> tw_phase w' \<noteq> TwRecovery \<and> (tw_phase w = TwRecovery \<longrightarrow> tw_phase w' = TwEnabled))"
  using assms by (cases e) (auto simp: says_on_def ask_def split: if_splits two_factor_phase.splits)

lemma flight_local:
  "flight_ok k ok ph on \<Longrightarrow> ph' = ph \<or> (ph = TwEnabled \<or> ph = TwDisabling) \<and> (ph' = TwEnabled \<or> ph' = TwDisabling) \<Longrightarrow>
   flight_ok k ok ph' on"
  by (auto simp: flight_ok_def split: two_factor_request.splits)

lemma two_factor_inv_local:
  assumes inv: "two_factor_inv i (w, a, d)" and st: "two_factor_step e w = (w', None)" "\<forall>r. e \<noteq> TwReply r"
  shows "two_factor_inv i (w', a, d)"
proof (cases a)
  case None
  then show ?thesis using inv two_factor_local [OF st] by simp
next
  case (Some ok)
  then obtain k where k: "tw_busy w" "tw_flight w = Some k" "flight_ok k ok (tw_phase w) (twofa_status i d)"
    using inv by auto
  have "tw_phase w \<noteq> TwRecovery" using k(3) by (auto simp: flight_ok_def split: two_factor_request.splits)
  then have "flight_ok k ok (tw_phase w') (twofa_status i d)"
    using two_factor_local [OF st] by (intro flight_local [OF k(3)]) (auto simp: says_on_def)
  then show ?thesis using Some k two_factor_local [OF st] by simp
qed

lemma two_factor_inv_step:
  assumes "two_factor_run E i s s'" "two_factor_inv i s"
  shows "two_factor_inv i s'"
  using assms
proof cases
  case (local_event e w w' a d)
  then show ?thesis using assms(2) two_factor_inv_local by blast
next
  case (served e w w' c k n r d res d')
  have on: "\<not> tw_busy w \<Longrightarrow> says_on w = twofa_status i d" using assms(2) served(1) by simp
  have st: "case res of Inl e \<Rightarrow> twofa_status i d' = twofa_status i d
    | Inr v \<Rightarrow> (case k of AskSetup \<Rightarrow> twofa_status i d' = twofa_status i d | AskVerify \<Rightarrow> twofa_status i d'
               | AskDisable \<Rightarrow> \<not> twofa_status i d')"
    using serve_status [OF served(6,5)] .
  from served(3) show ?thesis
    by (cases rule: two_factor_asks)
      (use st on served(2,4) in \<open>auto simp: ask_def flight_ok_def says_on_def split: sum.splits\<close>)
next
  case (answered m ok w w' out d)
  obtain k where k: "tw_flight w = Some k" "flight_ok k ok (tw_phase w) (twofa_status i d)"
    using assms(2) answered(1) by auto
  have w': "w' = two_factor_reply k (Some m) w" using answered(5) k(1) by simp
  obtain kvs where "res_json m = Inr (JObj kvs)" using answered(4) by (auto simp: json_answer_def res_json_def)
  then have "tw_flight w' = None \<and> says_on w' = twofa_status i d"
    using k(2) answered(3) unfolding w'
    by (cases k; cases ok) (auto simp: two_factor_reply_def two_factor_done_def flight_ok_def says_on_def Let_def)
  then show ?thesis using answered(2) by simp
next
  case (lost w w' out ok d)
  then show ?thesis using assms(2) by (auto simp: two_factor_reply_def Let_def)
next
  case (elsewhere d' d w a)
  then show ?thesis using assms(2) by (cases a) auto
qed

interpretation two_factor_machine: invariant_system "two_factor_opened i" "two_factor_run E i" "two_factor_inv i"
proof unfold_locales
  show "two_factor_inv i s" if "two_factor_opened i s" for s
    using that by (auto simp: two_factor_opened_def two_factor_start_def says_on_def split: prod.splits)
  show "two_factor_inv i s'" if "two_factor_inv i s" "two_factor_run E i s s'" for s s'
    using two_factor_inv_step [OF that(2,1)] .
qed


text \<open>A lost answer leaves the screen waiting for good: \<open>fetch\<close> throws before \<open>setBusy(false)\<close>, and
  every button that asks the API needs the screen not to be busy.\<close>

lemma lost_answer_freezes:
  assumes "tw_busy w" "tw_flight w = None" "two_factor_step e w = (w', out)"
  shows "out = None \<and> tw_busy w' \<and> tw_flight w' = None"
  using assms by (cases e) (auto split: if_splits two_factor_phase.splits)

definition secured :: db where
  "secured = \<lparr>users = [\<lparr>u_id = ''u1'', u_email = ''ada@wallet.local'', u_handle = None, u_passwordHash = [],
     u_firstName = ''Ada'', u_lastName = ''L'', u_status = Active, u_totpSecret = Some ''s'', u_totpEnabled = True,
     u_totpRecoveryHashes = [], u_roleId = ''r1'', u_createdAt = 0\<rparr>], roles = [], refresh_tokens = [], wallets = [],
     txns = [], audit_logs = [], passkeys = [], outbox = []\<rparr>"


section \<open>Signing in\<close>

text \<open>The customer's sign-in form. \<open>lf_waiting\<close> tells which handler waits; the button of the form is
  busy while \<open>react-hook-form\<close> submits, which ends also when the handler throws.\<close>

datatype login_wait = WaitPassword | WaitCode | WaitPasskey

record login_screen =
  ls_challenge :: "jval option"
  ls_code :: string
  ls_verifying :: bool
  ls_pkBusy :: bool
  ls_submitting :: bool
  ls_waiting :: "login_wait list"
  ls_toasts :: "jval option list"
  ls_home :: bool

definition login_start :: login_screen where
  "login_start = \<lparr>ls_challenge = None, ls_code = [], ls_verifying = False, ls_pkBusy = False, ls_submitting = False,
     ls_waiting = [], ls_toasts = [], ls_home = False\<rparr>"

text \<open>\<open>const { error } = await res.json().catch(() => ({ error: fallback }))\<close>\<close>

definition error_of :: "string \<Rightarrow> http_reply_msg \<Rightarrow> exn + jval option" where
  "error_of fallback m = (case res_json m of
     Inl e \<Rightarrow> Inr (Some (JStr fallback)) | Inr v \<Rightarrow> prop_of (Some v) ''error'')"

definition say_error :: "string \<Rightarrow> http_reply_msg \<Rightarrow> login_screen \<Rightarrow> login_screen" where
  "say_error fallback m w = (case error_of fallback m of
     Inl e \<Rightarrow> w | Inr t \<Rightarrow> w\<lparr>ls_toasts := ls_toasts w @ [t]\<rparr>)"

definition challenge_shown :: "login_screen \<Rightarrow> bool" where
  "challenge_shown w \<longleftrightarrow> (case ls_challenge w of None \<Rightarrow> False | Some v \<Rightarrow> js_truthy v)"

definition password_reply :: "http_reply_msg option \<Rightarrow> login_screen \<Rightarrow> login_screen" where
  "password_reply r w =
     (let w1 = w\<lparr>ls_submitting := False\<rparr> in
      case r of
        None \<Rightarrow> w1
      | Some m \<Rightarrow>
          if \<not> res_ok (hm_status m) then say_error ''Something went wrong.'' m w1
          else (case res_json m of
             Inl e \<Rightarrow> w1
           | Inr v \<Rightarrow> if v = JNull then w1
                      else if (case jget ''requires2fa'' v of None \<Rightarrow> False | Some x \<Rightarrow> js_truthy x)
                      then w1\<lparr>ls_challenge := jget ''challengeToken'' v\<rparr>
                      else w1\<lparr>ls_home := True\<rparr>))"

definition code_reply :: "http_reply_msg option \<Rightarrow> login_screen \<Rightarrow> login_screen" where
  "code_reply r w =
     (case r of
        None \<Rightarrow> w
      | Some m \<Rightarrow>
          (let w1 = w\<lparr>ls_verifying := False\<rparr> in
           if \<not> res_ok (hm_status m) then say_error ''Invalid code.'' m w1 else w1\<lparr>ls_home := True\<rparr>))"

text \<open>The passkey's handler catches what the ceremony throws.\<close>

definition passkey_reply :: "exn + bool \<Rightarrow> login_screen \<Rightarrow> login_screen" where
  "passkey_reply res w =
     (let w1 = w\<lparr>ls_pkBusy := False\<rparr> in
      case res of
        Inl e \<Rightarrow> w1\<lparr>ls_toasts := ls_toasts w @ [Some (JStr ''Passkey sign-in was cancelled.'')]\<rparr>
      | Inr ok \<Rightarrow> if ok then w1\<lparr>ls_home := True\<rparr>
                  else w1\<lparr>ls_toasts := ls_toasts w @ [Some (JStr ''Passkey sign-in failed. Try your password instead.'')]\<rparr>)"

datatype login_event =
    LogIn string string | LoginCode string | SubmitCode | UsePasskey
  | PasswordReply "http_reply_msg option" | CodeReply "http_reply_msg option" | PasskeyReply "exn + bool"

definition stop_waiting :: "login_wait \<Rightarrow> login_screen \<Rightarrow> login_screen" where
  "stop_waiting k w = w\<lparr>ls_waiting := remove1 k (ls_waiting w)\<rparr>"

text \<open>\<open>loginSchema\<close> is the library's judgement of an email address and a password of one character or more.\<close>

fun login_step :: "(string \<Rightarrow> bool) \<Rightarrow> login_event \<Rightarrow> login_screen \<Rightarrow> login_screen \<times> api_call option" where
  "login_step email_ok (LogIn email password) w =
     (if \<not> challenge_shown w \<and> \<not> ls_submitting w \<and> email_ok email \<and> password \<noteq> []
      then (w\<lparr>ls_submitting := True, ls_waiting := WaitPassword # ls_waiting w\<rparr>,
            Some (post_body ''/api/auth/login'' (JObj [(''email'', JStr email), (''password'', JStr password)])))
      else (w, None))"
| "login_step email_ok (LoginCode s) w = (if challenge_shown w then w\<lparr>ls_code := s\<rparr> else w, None)"
| "login_step email_ok SubmitCode w =
     (if challenge_shown w \<and> \<not> ls_verifying w \<and> ls_code w \<noteq> []
      then (w\<lparr>ls_verifying := True, ls_waiting := WaitCode # ls_waiting w\<rparr>,
            Some (post_body ''/api/auth/login/2fa''
              (json_obj [(''challengeToken'', ls_challenge w), (''code'', Some (JStr (ls_code w)))])))
      else (w, None))"
| "login_step email_ok UsePasskey w =
     (if \<not> challenge_shown w \<and> \<not> ls_pkBusy w
      then w\<lparr>ls_pkBusy := True, ls_waiting := WaitPasskey # ls_waiting w\<rparr> else w, None)"
| "login_step email_ok (PasswordReply r) w =
     (if List.member (ls_waiting w) WaitPassword then password_reply r (stop_waiting WaitPassword w) else w, None)"
| "login_step email_ok (CodeReply r) w =
     (if List.member (ls_waiting w) WaitCode then code_reply r (stop_waiting WaitCode w) else w, None)"
| "login_step email_ok (PasskeyReply res) w =
     (if List.member (ls_waiting w) WaitPasskey then passkey_reply res (stop_waiting WaitPasskey w) else w, None)"

text \<open>The screen goes home only on an answer that signed the person in.\<close>

lemma login_goes_home:
  assumes "login_step email_ok e w = (w', out)" "\<not> ls_home w" "ls_home w'"
  shows "(\<exists>m v. e = PasswordReply (Some m) \<and> res_ok (hm_status m) \<and> res_json m = Inr v \<and>
            (jget ''requires2fa'' v = None \<or> \<not> js_truthy (the (jget ''requires2fa'' v))))
     \<or> (\<exists>m. e = CodeReply (Some m) \<and> res_ok (hm_status m)) \<or> e = PasskeyReply (Inr True)"
  using assms
  by (cases e) (auto simp: password_reply_def code_reply_def passkey_reply_def say_error_def stop_waiting_def Let_def
      split: if_splits option.splits sum.splits)

text \<open>A lost answer to the code leaves "Verifying" on the button and no way to send another.\<close>

definition no_code_expected :: "login_screen \<Rightarrow> bool" where
  "no_code_expected w \<longleftrightarrow> ls_verifying w \<and> WaitCode \<notin> set (ls_waiting w)"

lemma lost_code_freezes:
  assumes "no_code_expected w" "login_step email_ok e w = (w', out)"
  shows "no_code_expected w' \<and> e \<noteq> SubmitCode \<or> e = SubmitCode \<and> w' = w \<and> out = None"
  using assms
  by (cases e) (auto simp: no_code_expected_def password_reply_def passkey_reply_def say_error_def stop_waiting_def Let_def
      split: if_splits option.splits sum.splits dest: notin_set_remove1)

section \<open>The star that follows an asset\<close>

record watch_button =
  wb_on :: bool
  wb_wait :: "bool option"
  wb_refreshes :: nat

definition watch_call :: "string \<Rightarrow> string \<Rightarrow> bool \<Rightarrow> api_call" where
  "watch_call symbol type nxt =
     (if nxt then post_body ''/api/watchlist'' (JObj [(''symbol'', JStr symbol), (''type'', JStr type)])
      else \<lparr>cq_method = ''DELETE'', cq_path = ''/api/watchlist/'' @ encodeURIComponent symbol, cq_headers = [], cq_body = None\<rparr>)"

text \<open>\<open>toggle\<close>: the star changes at once and changes back when the request fails.\<close>

definition watch_toggle :: "string \<Rightarrow> string \<Rightarrow> watch_button \<Rightarrow> watch_button \<times> api_call option" where
  "watch_toggle symbol type w =
     (if wb_wait w \<noteq> None then (w, None)
      else (w\<lparr>wb_wait := Some (\<not> wb_on w), wb_on := \<not> wb_on w\<rparr>, Some (watch_call symbol type (\<not> wb_on w))))"

definition watch_reply :: "http_reply_msg option \<Rightarrow> watch_button \<Rightarrow> watch_button" where
  "watch_reply r w = (case wb_wait w of
     None \<Rightarrow> w
   | Some nxt \<Rightarrow> (case apiRequest r of
       ApiOk st d \<Rightarrow> w\<lparr>wb_wait := None, wb_refreshes := Suc (wb_refreshes w)\<rparr>
     | ApiFailed e \<Rightarrow> w\<lparr>wb_wait := None, wb_on := \<not> nxt\<rparr>))"

lemma watch_settles:
  assumes "watch_toggle symbol type w = (w1, Some c)"
  shows "wb_wait (watch_reply r w1) = None \<and>
    wb_on (watch_reply r w1) = (case apiRequest r of ApiOk st d \<Rightarrow> \<not> wb_on w | ApiFailed e \<Rightarrow> wb_on w)"
  using assms by (auto simp: watch_toggle_def watch_reply_def split: if_splits api_result.splits)

end
