(* ===== verification/Markets.thy ===== *)
theory Markets
  imports Notify
begin

text \<open>
  Market data: \<open>markets/market-asset.ts\<close>, \<open>markets/candle-math.ts\<close>, the two providers and
  \<open>markets/markets.service.ts\<close>. Prices are floating-point numbers for display; the model is
  polymorphic in their type and uses no law of arithmetic, only that comparison is a linear
  order, so it holds of doubles. \<open>num\<close> is JavaScript's \<open>Number()\<close> on a JSON value, \<open>None\<close> where
  the result is not finite. The providers' replies are a function of the URL.
\<close>

section \<open>The coin table\<close>

datatype range = R1m | R5m | R15m | R1h | R4h | R1D

definition RANGES :: "range list" where
  "RANGES = [R1m, R5m, R15m, R1h, R4h, R1D]"

definition range_text :: "range \<Rightarrow> string" where
  "range_text r = (case r of R1m \<Rightarrow> ''1m'' | R5m \<Rightarrow> ''5m'' | R15m \<Rightarrow> ''15m'' | R1h \<Rightarrow> ''1h''
     | R4h \<Rightarrow> ''4h'' | R1D \<Rightarrow> ''1D'')"

definition KRAKEN_INTERVAL :: "range \<Rightarrow> nat" where
  "KRAKEN_INTERVAL r = (case r of R1m \<Rightarrow> 1 | R5m \<Rightarrow> 5 | R15m \<Rightarrow> 15 | R1h \<Rightarrow> 60 | R4h \<Rightarrow> 240 | R1D \<Rightarrow> 1440)"

record coin =
  cn_id :: string
  cn_symbol :: string
  cn_name :: string
  cn_krakenPair :: string
  cn_krakenBase :: string
  cn_coinloreId :: string
  cn_image :: string

definition COIN_IMAGES :: string where
  "COIN_IMAGES = ''https://assets.coingecko.com/coins/images/''"

definition COINS :: "coin list" where
  "COINS =
     [\<lparr>cn_id = ''bitcoin'', cn_symbol = ''BTC'', cn_name = ''Bitcoin'', cn_krakenPair = ''XBTUSD'',
       cn_krakenBase = ''XBT'', cn_coinloreId = ''90'', cn_image = COIN_IMAGES @ ''1/large/bitcoin.png''\<rparr>,
      \<lparr>cn_id = ''ethereum'', cn_symbol = ''ETH'', cn_name = ''Ethereum'', cn_krakenPair = ''ETHUSD'',
       cn_krakenBase = ''ETH'', cn_coinloreId = ''80'', cn_image = COIN_IMAGES @ ''279/large/ethereum.png''\<rparr>,
      \<lparr>cn_id = ''solana'', cn_symbol = ''SOL'', cn_name = ''Solana'', cn_krakenPair = ''SOLUSD'',
       cn_krakenBase = ''SOL'', cn_coinloreId = ''48543'', cn_image = COIN_IMAGES @ ''4128/large/solana.png''\<rparr>,
      \<lparr>cn_id = ''cardano'', cn_symbol = ''ADA'', cn_name = ''Cardano'', cn_krakenPair = ''ADAUSD'',
       cn_krakenBase = ''ADA'', cn_coinloreId = ''257'', cn_image = COIN_IMAGES @ ''975/large/cardano.png''\<rparr>,
      \<lparr>cn_id = ''dogecoin'', cn_symbol = ''DOGE'', cn_name = ''Dogecoin'', cn_krakenPair = ''XDGUSD'',
       cn_krakenBase = ''XDG'', cn_coinloreId = ''2'', cn_image = COIN_IMAGES @ ''5/large/dogecoin.png''\<rparr>]"

definition coinById :: "string \<Rightarrow> coin option" where
  "coinById i = List.find (\<lambda>c. cn_id c = i) COINS"

section \<open>Candles\<close>

record 'n candle =
  cd_t :: 'n
  cd_o :: 'n
  cd_h :: 'n
  cd_l :: 'n
  cd_c :: 'n

definition changeFromCandles ::
  "('n::{linorder,minus,inverse,times,zero,numeral}) candle list \<Rightarrow> nat \<Rightarrow> 'n" where
  "changeFromCandles candles hours =
     (if length candles < 2 then 0
      else let current = cd_c (candles ! (length candles - 1));
               past = cd_c (candles ! (length candles - 1 - hours))
           in if past = 0 then 0 else ((current - past) / past) * 100)"

definition restateOpenCandle :: "('n::{linorder,zero}) candle list \<Rightarrow> 'n \<Rightarrow> 'n candle list" where
  "restateOpenCandle candles live =
     (if candles = [] \<or> live = 0 then candles
      else let opened = last candles
           in butlast candles @ [opened\<lparr>cd_c := live, cd_h := max (cd_h opened) live,
                                   cd_l := min (cd_l opened) live\<rparr>])"

definition marketCap :: "('n::{times,zero}) \<Rightarrow> 'n option \<Rightarrow> 'n" where
  "marketCap price supply = (case supply of None \<Rightarrow> 0 | Some s \<Rightarrow> if s = 0 then 0 else price * s)"

section \<open>The providers\<close>

datatype http_reply = NetError string | HttpNotOk nat string | BadJson string | JsonBody jval

record provider_state =
  pv_lastWarned :: "string option"
  pv_log :: "string list"
  pv_calls :: "string list"

definition provider_warn :: "string \<Rightarrow> provider_state \<Rightarrow> provider_state" where
  "provider_warn msg s =
     (if pv_lastWarned s = Some msg then s
      else s\<lparr>pv_lastWarned := Some msg, pv_log := pv_log s @ [msg]\<rparr>)"

definition KRAKEN_BASE :: string where "KRAKEN_BASE = ''https://api.kraken.com/0/public''"

fun join :: "string \<Rightarrow> string list \<Rightarrow> string" where
  "join sep [] = []"
| "join sep [x] = x"
| "join sep (x # y # xs) = x @ sep @ join sep (y # xs)"

definition jstr_or :: "jval \<Rightarrow> string" where
  "jstr_or j = (case j of JStr s \<Rightarrow> s | _ \<Rightarrow> [])"

text \<open>\<open>get\<close>: one door for every call; \<open>None\<close> is \<open>null\<close>.\<close>

definition kraken_get :: "(string \<Rightarrow> http_reply) \<Rightarrow> string \<Rightarrow> provider_state \<Rightarrow> jval option \<times> provider_state" where
  "kraken_get fetch path s =
     (let s1 = s\<lparr>pv_calls := pv_calls s @ [KRAKEN_BASE @ path]\<rparr>
      in case fetch (KRAKEN_BASE @ path) of
           NetError e \<Rightarrow> (None, provider_warn (''Kraken '' @ path @ '' failed: '' @ e) s1)
         | HttpNotOk st body \<Rightarrow>
             (None, provider_warn (''Kraken '' @ show_nat st @ '' for '' @ path @ '': '' @ take 200 body) s1)
         | BadJson e \<Rightarrow> (None, provider_warn (''Kraken '' @ path @ '' failed: '' @ e) s1)
         | JsonBody JNull \<Rightarrow> (None, provider_warn (''Kraken '' @ path @ '' failed: TypeError'') s1)
         | JsonBody body \<Rightarrow>
             (case jget ''error'' body of
                Some (JArr (e # es)) \<Rightarrow>
                  (None, provider_warn (''Kraken error for '' @ path @ '': '' @ join '', '' (map jstr_or (e # es))) s1)
              | _ \<Rightarrow> (case jget ''result'' body of
                        Some JNull \<Rightarrow> (None, s1) | r \<Rightarrow> (r, s1))))"

definition object_keys :: "jval \<Rightarrow> string list" where
  "object_keys j = (case j of JObj fs \<Rightarrow> remdups (map fst fs) | _ \<Rightarrow> [])"

definition pickResult :: "jval \<Rightarrow> string option \<Rightarrow> jval option" where
  "pickResult result base =
     (let keys = filter (\<lambda>k. k \<noteq> ''last'') (object_keys result);
          key = (case base of
                   None \<Rightarrow> (case keys of [] \<Rightarrow> None | k # _ \<Rightarrow> Some k)
                 | Some b \<Rightarrow> List.find (\<lambda>k. contains k b \<and> ends_with k ''USD'') keys)
      in Option.bind key (\<lambda>k. jget k result))"

text \<open>\<open>x[i]\<close>: throws when \<open>x\<close> is \<open>undefined\<close> or \<open>null\<close>.\<close>

definition jindex :: "jval option \<Rightarrow> nat \<Rightarrow> exn + jval option" where
  "jindex x i =
     (case x of
        None \<Rightarrow> Inl (OtherError ''TypeError'')
      | Some JNull \<Rightarrow> Inl (OtherError ''TypeError'')
      | Some (JArr xs) \<Rightarrow> Inr (if i < length xs then Some (xs ! i) else None)
      | Some (JStr s) \<Rightarrow> Inr (if i < length s then Some (JStr [s ! i]) else None)
      | Some j \<Rightarrow> Inr (jget (show_nat i) j))"

record 'n ticker =
  tc_symbol :: string
  tc_price :: 'n
  tc_high24h :: "'n option"
  tc_low24h :: "'n option"

text \<open>One coin of \<open>fetchTickers\<close>: skipped (\<open>None\<close>), read, or a throw while mapping.\<close>

definition read_ticker ::
  "(jval option \<Rightarrow> 'n option) \<Rightarrow> jval \<Rightarrow> coin \<Rightarrow> exn + ('n::{linorder,zero}) ticker option" where
  "read_ticker num result coin =
     (case pickResult result (Some (cn_krakenBase coin)) of
        None \<Rightarrow> Inr None
      | Some row \<Rightarrow>
          if \<not> jtruthy (Some row) then Inr None
          else (case (jindex (jget ''c'' row) 0, jindex (jget ''h'' row) 1, jindex (jget ''l'' row) 1) of
                  (Inr c, Inr h, Inr l) \<Rightarrow>
                    (case num c of
                       None \<Rightarrow> Inr None
                     | Some price \<Rightarrow>
                         if price \<le> 0 then Inr None
                         else Inr (Some \<lparr>tc_symbol = cn_symbol coin, tc_price = price,
                                tc_high24h = num h, tc_low24h = num l\<rparr>))
                | _ \<Rightarrow> Inl (OtherError ''TypeError'')))"

fun read_tickers ::
  "(jval option \<Rightarrow> 'n option) \<Rightarrow> jval \<Rightarrow> coin list \<Rightarrow> exn + ('n::{linorder,zero}) ticker list" where
  "read_tickers num result [] = Inr []"
| "read_tickers num result (c # cs) =
     (case read_ticker num result c of
        Inl e \<Rightarrow> Inl e
      | Inr t \<Rightarrow> (case read_tickers num result cs of
                    Inl e \<Rightarrow> Inl e
                  | Inr ts \<Rightarrow> Inr (case t of None \<Rightarrow> ts | Some x \<Rightarrow> x # ts)))"

definition ticker_path :: string where
  "ticker_path = ''/Ticker?pair='' @ join '','' (map cn_krakenPair COINS)"

definition fetchTickers ::
  "(string \<Rightarrow> http_reply) \<Rightarrow> (jval option \<Rightarrow> 'n option) \<Rightarrow> provider_state
     \<Rightarrow> ('n::{linorder,zero}) ticker list \<times> provider_state" where
  "fetchTickers fetch num s =
     (case kraken_get fetch ticker_path s of
        (None, s1) \<Rightarrow> ([], s1)
      | (Some result, s1) \<Rightarrow>
          if \<not> jtruthy (Some result) then ([], s1)
          else (case read_tickers num result COINS of
                  Inr ts \<Rightarrow> (ts, s1)
                | Inl e \<Rightarrow> ([], provider_warn ''Kraken fetchTickers failed: TypeError'' s1)))"

text \<open>One row of an OHLC reply: a row that is no array throws, one with a non-numeric field is dropped.\<close>

definition read_candle :: "(jval option \<Rightarrow> 'n option) \<Rightarrow> jval \<Rightarrow> exn + 'n candle option" where
  "read_candle num row =
     (case row of
        JArr xs \<Rightarrow>
          (let fld = (\<lambda>i. if i < length xs then num (Some (xs ! i)) else None)
           in case (fld 0, fld 1, fld 2, fld 3, fld 4) of
                (Some t, Some o', Some h, Some l, Some c) \<Rightarrow>
                  Inr (Some \<lparr>cd_t = t, cd_o = o', cd_h = h, cd_l = l, cd_c = c\<rparr>)
              | _ \<Rightarrow> Inr None)
      | _ \<Rightarrow> Inl (OtherError ''TypeError''))"

fun read_candles :: "(jval option \<Rightarrow> 'n option) \<Rightarrow> jval list \<Rightarrow> exn + 'n candle list" where
  "read_candles num [] = Inr []"
| "read_candles num (r # rs) =
     (case read_candle num r of
        Inl e \<Rightarrow> Inl e
      | Inr c \<Rightarrow> (case read_candles num rs of
                    Inl e \<Rightarrow> Inl e
                  | Inr cs \<Rightarrow> Inr (case c of None \<Rightarrow> cs | Some x \<Rightarrow> x # cs)))"

definition candle_path :: "coin \<Rightarrow> range \<Rightarrow> string" where
  "candle_path coin r = ''/OHLC?pair='' @ cn_krakenPair coin @ ''&interval='' @ show_nat (KRAKEN_INTERVAL r)"

definition fetchCandles ::
  "(string \<Rightarrow> http_reply) \<Rightarrow> (jval option \<Rightarrow> 'n option) \<Rightarrow> coin \<Rightarrow> range \<Rightarrow> provider_state
     \<Rightarrow> 'n candle list \<times> provider_state" where
  "fetchCandles fetch num coin r s =
     (case kraken_get fetch (candle_path coin r) s of
        (None, s1) \<Rightarrow> ([], s1)
      | (Some result, s1) \<Rightarrow>
          (case (if jtruthy (Some result) then pickResult result None else None) of
             None \<Rightarrow> ([], s1)
           | Some rows \<Rightarrow>
               if \<not> jtruthy (Some rows) then ([], s1)
               else (case (case rows of JArr rs \<Rightarrow> read_candles num rs | _ \<Rightarrow> Inl (OtherError ''TypeError'')) of
                       Inr cs \<Rightarrow> (cs, s1)
                     | Inl e \<Rightarrow> ([], provider_warn (''Kraken fetchCandles failed for '' @ cn_symbol coin @ '': TypeError'') s1))))"

text \<open>CoinLore: circulating supply by symbol. A body that is no array throws into the catch.\<close>

definition supply_url :: string where
  "supply_url = ''https://api.coinlore.net/api/ticker/?id='' @ join '','' (map cn_coinloreId COINS)"

definition supply_of ::
  "(jval option \<Rightarrow> 'n option) \<Rightarrow> jval list \<Rightarrow> coin \<Rightarrow> (string \<times> ('n::{linorder,zero})) option" where
  "supply_of num rows coin =
     (let row = List.find (\<lambda>r. jget ''id'' r = Some (JStr (cn_coinloreId coin))) rows
      in case num (Option.bind row (jget ''csupply'')) of
           None \<Rightarrow> None
         | Some s \<Rightarrow> if 0 < s then Some (cn_symbol coin, s) else None)"

definition fetchSupply ::
  "(string \<Rightarrow> http_reply) \<Rightarrow> (jval option \<Rightarrow> 'n option) \<Rightarrow> provider_state
     \<Rightarrow> (string \<times> ('n::{linorder,zero})) list \<times> provider_state" where
  "fetchSupply fetch num s =
     (let s1 = s\<lparr>pv_calls := pv_calls s @ [supply_url]\<rparr>;
          fail = (\<lambda>m. ([], s1\<lparr>pv_log := pv_log s1 @ [m]\<rparr>))
      in case fetch supply_url of
           NetError e \<Rightarrow> fail (''CoinLore failed: '' @ e)
         | HttpNotOk st body \<Rightarrow> fail (''CoinLore '' @ show_nat st @ '': '' @ take 200 body)
         | BadJson e \<Rightarrow> fail (''CoinLore failed: '' @ e)
         | JsonBody (JArr rows) \<Rightarrow> (List.map_filter (supply_of num rows) COINS, s1)
         | JsonBody _ \<Rightarrow> fail ''CoinLore failed: TypeError'')"

section \<open>The service\<close>

definition TICKER_TTL :: int where "TICKER_TTL = 15"
definition CANDLE_TTL :: int where "CANDLE_TTL = 60"
definition SUPPLY_TTL :: int where "SUPPLY_TTL = 3600"
definition NEGATIVE_TTL :: int where "NEGATIVE_TTL = 8"

record 'n markets =
  mk_tickers :: "'n ticker list cache"
  mk_candles :: "'n candle list cache"
  mk_supply :: "(string \<times> 'n) list cache"
  mk_provider :: provider_state

definition keep_or_negative :: "'a list \<Rightarrow> cache_decision" where
  "keep_or_negative xs = (if xs = [] then CacheFor NEGATIVE_TTL else CacheTtl)"

definition ok_fetch :: "('s \<Rightarrow> 'v \<times> 's) \<Rightarrow> 's \<Rightarrow> (exn + 'v) \<times> 's" where
  "ok_fetch f s = (case f s of (v, s') \<Rightarrow> (Inr v, s'))"

text \<open>The providers never throw, so the value of a wrap is read back out of its result.\<close>

definition or_else :: "'v \<Rightarrow> exn + 'v \<Rightarrow> 'v" where
  "or_else d r = (case r of Inr v \<Rightarrow> v | Inl _ \<Rightarrow> d)"

definition tickers ::
  "(string \<Rightarrow> http_reply) \<Rightarrow> (jval option \<Rightarrow> 'n option) \<Rightarrow> int \<Rightarrow> ('n::{linorder,zero}) markets
     \<Rightarrow> 'n ticker list \<times> 'n markets" where
  "tickers fetch num t m =
     (let (r, c, p) = cache_wrap t ''markets:tickers'' TICKER_TTL (ok_fetch (fetchTickers fetch num))
                        keep_or_negative (mk_tickers m) (mk_provider m)
      in (or_else [] r, m\<lparr>mk_tickers := c, mk_provider := p\<rparr>))"

definition candles ::
  "(string \<Rightarrow> http_reply) \<Rightarrow> (jval option \<Rightarrow> 'n option) \<Rightarrow> int \<Rightarrow> string \<Rightarrow> range \<Rightarrow> 'n markets
     \<Rightarrow> 'n candle list \<times> 'n markets" where
  "candles fetch num t i rng m =
     (case coinById i of
        None \<Rightarrow> ([], m)
      | Some coin \<Rightarrow>
          (let (r, c, p) = cache_wrap t (''markets:candles:'' @ i @ '':'' @ range_text rng) CANDLE_TTL
                             (ok_fetch (fetchCandles fetch num coin rng)) keep_or_negative
                             (mk_candles m) (mk_provider m)
           in (or_else [] r, m\<lparr>mk_candles := c, mk_provider := p\<rparr>)))"

record 'n market_asset =
  ma_id :: string
  ma_symbol :: string
  ma_name :: string
  ma_price :: 'n
  ma_change24h :: 'n
  ma_image :: string

definition marketAsset ::
  "(string \<Rightarrow> http_reply) \<Rightarrow> (jval option \<Rightarrow> 'n option) \<Rightarrow> int \<Rightarrow> coin \<Rightarrow> 'n ticker
     \<Rightarrow> ('n::{linorder,minus,inverse,times,zero,numeral}) markets \<Rightarrow> 'n market_asset \<times> 'n markets" where
  "marketAsset fetch num t coin tk m =
     (let (history, m') = candles fetch num t (cn_id coin) R1h m
      in (\<lparr>ma_id = cn_id coin, ma_symbol = cn_symbol coin, ma_name = cn_name coin, ma_price = tc_price tk,
           ma_change24h = changeFromCandles (restateOpenCandle history (tc_price tk)) 24,
           ma_image = cn_image coin\<rparr>, m'))"

text \<open>\<open>new Map(...)\<close>: the last ticker of a symbol wins.\<close>

definition by_symbol :: "'n ticker list \<Rightarrow> string \<Rightarrow> 'n ticker option" where
  "by_symbol ts s = map_of (rev (map (\<lambda>t. (tc_symbol t, t)) ts)) s"

fun list_assets ::
  "(string \<Rightarrow> http_reply) \<Rightarrow> (jval option \<Rightarrow> 'n option) \<Rightarrow> int \<Rightarrow> (coin \<times> 'n ticker) list
     \<Rightarrow> ('n::{linorder,minus,inverse,times,zero,numeral}) markets \<Rightarrow> 'n market_asset list \<times> 'n markets" where
  "list_assets fetch num t [] m = ([], m)"
| "list_assets fetch num t ((c, tk) # rest) m =
     (let (a, m1) = marketAsset fetch num t c tk m; (as, m2) = list_assets fetch num t rest m1
      in (a # as, m2))"

definition markets_list ::
  "(string \<Rightarrow> http_reply) \<Rightarrow> (jval option \<Rightarrow> 'n option) \<Rightarrow> int
     \<Rightarrow> ('n::{linorder,minus,inverse,times,zero,numeral}) markets \<Rightarrow> 'n market_asset list \<times> 'n markets" where
  "markets_list fetch num t m =
     (let (ts, m1) = tickers fetch num t m
      in list_assets fetch num t
           (List.map_filter (\<lambda>c. map_option (\<lambda>tk. (c, tk)) (by_symbol ts (cn_symbol c))) COINS) m1)"

record 'n asset_detail =
  ad_asset :: "'n market_asset"
  ad_marketCap :: 'n
  ad_high24h :: "'n option"
  ad_low24h :: "'n option"

definition markets_detail ::
  "(string \<Rightarrow> http_reply) \<Rightarrow> (jval option \<Rightarrow> 'n option) \<Rightarrow> int \<Rightarrow> string
     \<Rightarrow> ('n::{linorder,minus,inverse,times,zero,numeral}) markets \<Rightarrow> 'n asset_detail option \<times> 'n markets" where
  "markets_detail fetch num t i m =
     (case coinById i of
        None \<Rightarrow> (None, m)
      | Some coin \<Rightarrow>
          (let (ts, m1) = tickers fetch num t m
           in case List.find (\<lambda>x. tc_symbol x = cn_symbol coin) ts of
                None \<Rightarrow> (None, m1)
              | Some tk \<Rightarrow>
                  (let (r, c, p) = cache_wrap t ''markets:supply'' SUPPLY_TTL (ok_fetch (fetchSupply fetch num))
                                     (\<lambda>s. if s = [] then DontCache else CacheTtl) (mk_supply m1) (mk_provider m1);
                       (a, m2) = marketAsset fetch num t coin tk (m1\<lparr>mk_supply := c, mk_provider := p\<rparr>)
                   in (Some \<lparr>ad_asset = a,
                             ad_marketCap = marketCap (tc_price tk) (map_of (or_else [] r) (cn_symbol coin)),
                             ad_high24h = tc_high24h tk, ad_low24h = tc_low24h tk\<rparr>, m2))))"

definition controller_detail ::
  "(string \<Rightarrow> http_reply) \<Rightarrow> (jval option \<Rightarrow> 'n option) \<Rightarrow> int \<Rightarrow> string
     \<Rightarrow> ('n::{linorder,minus,inverse,times,zero,numeral}) markets \<Rightarrow> (exn + 'n asset_detail) \<times> 'n markets" where
  "controller_detail fetch num t i m =
     (case markets_detail fetch num t i m of
        (None, m') \<Rightarrow> (Inl (NotFoundException ''Asset not found''), m')
      | (Some a, m') \<Rightarrow> (Inr a, m'))"

definition chart ::
  "(string \<Rightarrow> http_reply) \<Rightarrow> (jval option \<Rightarrow> 'n option) \<Rightarrow> int \<Rightarrow> string \<Rightarrow> range
     \<Rightarrow> ('n::{linorder,minus,inverse,times,zero,numeral}) markets \<Rightarrow> 'n candle list \<times> 'n markets" where
  "chart fetch num t i rng m =
     (case coinById i of
        None \<Rightarrow> ([], m)
      | Some coin \<Rightarrow>
          (let (history, m1) = candles fetch num t i rng m; (ts, m2) = tickers fetch num t m1;
               live = (case List.find (\<lambda>x. tc_symbol x = cn_symbol coin) ts of None \<Rightarrow> 0 | Some x \<Rightarrow> tc_price x)
           in (restateOpenCandle history live, m2)))"

section \<open>What reaches the screen\<close>

definition sane_tickers :: "('n::{linorder,zero}) ticker list \<Rightarrow> bool" where
  "sane_tickers ts \<longleftrightarrow> (\<forall>tk \<in> set ts. 0 < tc_price tk) \<and> distinct (map tc_symbol ts) \<and>
     set (map tc_symbol ts) \<subseteq> set (map cn_symbol COINS)"

definition markets_inv :: "('n::{linorder,zero}) markets \<Rightarrow> bool" where
  "markets_inv m \<longleftrightarrow> (\<forall>k ts e. redis_store (mk_tickers m) k = Some (ts, e) \<longrightarrow> sane_tickers ts)"

lemma read_ticker_sane:
  "read_ticker num result c = Inr (Some tk) \<Longrightarrow> 0 < tc_price tk \<and> tc_symbol tk = cn_symbol c"
  by (auto simp: read_ticker_def split: option.splits if_splits sum.splits)

lemma read_tickers_sane:
  "read_tickers num result cs = Inr ts \<Longrightarrow> distinct (map cn_symbol cs) \<Longrightarrow>
   (\<forall>tk \<in> set ts. 0 < tc_price tk) \<and> distinct (map tc_symbol ts) \<and>
     set (map tc_symbol ts) \<subseteq> set (map cn_symbol cs)"
proof (induction cs arbitrary: ts)
  case Nil
  then show ?case by simp
next
  case (Cons c cs)
  obtain t rest where t: "read_ticker num result c = Inr t" and rest: "read_tickers num result cs = Inr rest"
    and ts: "ts = (case t of None \<Rightarrow> rest | Some x \<Rightarrow> x # rest)"
    using Cons.prems(1) by (auto split: sum.splits)
  have ih: "(\<forall>tk \<in> set rest. 0 < tc_price tk) \<and> distinct (map tc_symbol rest) \<and>
      set (map tc_symbol rest) \<subseteq> set (map cn_symbol cs)"
    using Cons.IH [OF rest] Cons.prems(2) by simp
  show ?case
  proof (cases t)
    case None
    then show ?thesis using ts ih by auto
  next
    case (Some x)
    then have x: "0 < tc_price x" "tc_symbol x = cn_symbol c" using read_ticker_sane t by blast+
    have "cn_symbol c \<notin> set (map tc_symbol rest)" using ih Cons.prems(2) by auto
    then show ?thesis using Some ts ih x by auto
  qed
qed

lemma coins_distinct: "distinct (map cn_symbol COINS)"
  by code_simp

lemma read_all_sane: "read_tickers num result COINS = Inr ts \<Longrightarrow> sane_tickers ts"
  using read_tickers_sane [OF _ coins_distinct] unfolding sane_tickers_def by blast

lemma fetchTickers_sane: "sane_tickers (fst (fetchTickers fetch num s))"
proof -
  have "sane_tickers []" by (simp add: sane_tickers_def)
  then show ?thesis
    by (auto simp: fetchTickers_def dest: read_all_sane split: prod.splits option.splits sum.splits)
qed

lemma tickers_sane:
  assumes inv: "markets_inv m" and run: "tickers fetch num t m = (ts, m')"
  shows "sane_tickers ts \<and> markets_inv m'"
proof -
  have stored: "sane_tickers v" if "fst (cache_get t k (mk_tickers m)) = Some v" for k v
    using that inv by (fastforce simp: cache_get_def redis_lookup_def markets_inv_def split: option.splits if_splits)
  have put: "markets_inv (m\<lparr>mk_tickers := cache_set t k v n (snd (cache_get t k (mk_tickers m))), mk_provider := p\<rparr>)"
    if "sane_tickers v" for k v n p
    using inv that by (auto simp: markets_inv_def cache_set_def split: option.splits if_splits)
  show ?thesis
  proof (cases "fst (cache_get t ''markets:tickers'' (mk_tickers m))")
    case (Some v)
    then have "ts = v" "mk_tickers m' = snd (cache_get t ''markets:tickers'' (mk_tickers m))"
      using run by (auto simp: tickers_def cache_wrap_hit or_else_def)
    then show ?thesis using stored [OF Some] inv by (simp add: markets_inv_def)
  next
    case None
    obtain v p where f: "fetchTickers fetch num (mk_provider m) = (v, p)" by fastforce
    have v: "sane_tickers v" using fetchTickers_sane [of fetch num "mk_provider m"] f by simp
    obtain c where c: "cache_get t ''markets:tickers'' (mk_tickers m) = (None, c)"
      using None by (cases "cache_get t ''markets:tickers'' (mk_tickers m)") simp
    then have "ts = v" and "m' = m\<lparr>mk_tickers := cache_set t ''markets:tickers'' v
        (if v = [] then NEGATIVE_TTL else TICKER_TTL) c, mk_provider := p\<rparr>"
      using run f by (auto simp: tickers_def cache_wrap_def ok_fetch_def keep_or_negative_def or_else_def split: if_splits)
    moreover have "c = snd (cache_get t ''markets:tickers'' (mk_tickers m))" using c by simp
    ultimately show ?thesis using v put [OF v] by simp
  qed
qed

lemma marketAsset_result:
  assumes "marketAsset fetch num t coin tk m = (a, m')"
  shows "ma_id a = cn_id coin" "ma_price a = tc_price tk" "ma_symbol a = cn_symbol coin" "mk_tickers m' = mk_tickers m"
  using assms by (auto simp: marketAsset_def candles_def Let_def split: prod.splits option.splits)

lemma list_assets_result:
  assumes "list_assets fetch num t cts m = (as, m')"
  shows "mk_tickers m' = mk_tickers m \<and>
    (\<forall>a \<in> set as. \<exists>(c, tk) \<in> set cts. ma_id a = cn_id c \<and> ma_symbol a = cn_symbol c \<and> ma_price a = tc_price tk)"
  using assms
proof (induction cts arbitrary: m as m')
  case Nil
  then show ?case by simp
next
  case (Cons ct cts)
  obtain c tk where ct: "ct = (c, tk)" by fastforce
  obtain a m1 where a: "marketAsset fetch num t c tk m = (a, m1)" by fastforce
  obtain rest m2 where r: "list_assets fetch num t cts m1 = (rest, m2)" by fastforce
  have "as = a # rest" "m' = m2" using Cons.prems ct a r by simp_all
  then show ?case using Cons.IH [OF r] marketAsset_result [OF a] ct by auto
qed

lemma markets_list_result:
  assumes "markets_list fetch num t m = (as, m')" and "a \<in> set as"
  obtains ts m1 c tk where "tickers fetch num t m = (ts, m1)" "mk_tickers m' = mk_tickers m1"
    "c \<in> set COINS" "by_symbol ts (cn_symbol c) = Some tk" "ma_id a = cn_id c" "ma_symbol a = cn_symbol c"
    "ma_price a = tc_price tk"
proof -
  obtain ts m1 where t: "tickers fetch num t m = (ts, m1)" by fastforce
  let ?cts = "List.map_filter (\<lambda>c. map_option (\<lambda>tk. (c, tk)) (by_symbol ts (cn_symbol c))) COINS"
  have l: "list_assets fetch num t ?cts m1 = (as, m')" using assms(1) t by (simp add: markets_list_def)
  obtain c tk where "(c, tk) \<in> set ?cts" "ma_id a = cn_id c" "ma_symbol a = cn_symbol c" "ma_price a = tc_price tk"
    using list_assets_result [OF l] assms(2) by blast
  moreover have "c \<in> set COINS \<and> by_symbol ts (cn_symbol c) = Some tk" if "(c, tk) \<in> set ?cts"
    using that by (auto simp: List.map_filter_def)
  ultimately show ?thesis using that t list_assets_result [OF l] by blast
qed

lemma by_symbol_in: "by_symbol ts s = Some tk \<Longrightarrow> tk \<in> set ts \<and> tc_symbol tk = s"
  by (auto simp: by_symbol_def dest!: map_of_SomeD)

lemma markets_list_inv: "markets_inv m \<Longrightarrow> markets_list fetch num t m = (as, m') \<Longrightarrow> markets_inv m'"
proof -
  assume inv: "markets_inv m" and run: "markets_list fetch num t m = (as, m')"
  obtain ts m1 where t: "tickers fetch num t m = (ts, m1)" by fastforce
  have "mk_tickers m' = mk_tickers m1"
    using run t list_assets_result by (fastforce simp: markets_list_def)
  then show ?thesis using tickers_sane [OF inv t] by (simp add: markets_inv_def)
qed

text \<open>No bogus price reaches a client or the alert check. Whatever the provider answers, every
  listed asset is one of the coins of the table with a positive, finite price; a missing or
  malformed row is left out, never shown as zero.\<close>

theorem listed_prices_are_sane:
  assumes inv: "markets_inv m" and run: "markets_list fetch num t m = (as, m')" and a: "a \<in> set as"
  shows "0 < ma_price a \<and> ma_symbol a \<in> set (map cn_symbol COINS) \<and> coinById (ma_id a) \<noteq> None"
  using run a
proof (rule markets_list_result)
  fix ts m1 c tk
  assume t: "tickers fetch num t m = (ts, m1)" and c: "c \<in> set COINS" "by_symbol ts (cn_symbol c) = Some tk"
    and eq: "ma_id a = cn_id c" "ma_symbol a = cn_symbol c" "ma_price a = tc_price tk"
  have "0 < tc_price tk"
    using tickers_sane [OF inv t] by_symbol_in [OF c(2)] by (simp add: sane_tickers_def)
  moreover have "coinById (cn_id c) \<noteq> None"
    using c(1) by (auto simp: coinById_def find_None_iff_all)
  ultimately show ?thesis using c eq by simp
qed

text \<open>
  A reply with one good row and one with an empty price, over rationals: \<open>Number()\<close> of the
  price texts used here.
\<close>

definition demo_num :: "jval option \<Rightarrow> rat option" where
  "demo_num j = (case j of Some (JStr s) \<Rightarrow> if s = ''101.5'' then Some (203/2) else if s = [] then Some 0 else None
     | Some (JNum n) \<Rightarrow> Some n | _ \<Rightarrow> None)"

definition demo_row :: "string \<Rightarrow> jval" where
  "demo_row p = JObj [(''c'', JArr [JStr p]), (''h'', JArr [JStr p, JStr p]), (''l'', JArr [JStr p, JStr p])]"

definition demo_fetch :: "string \<Rightarrow> http_reply" where
  "demo_fetch url = (if contains url ''Ticker''
     then JsonBody (JObj [(''error'', JArr []), (''result'', JObj [(''SOLUSD'', demo_row ''101.5''), (''XXBTZUSD'', demo_row [])])])
     else if contains url ''OHLC''
     then JsonBody (JObj [(''result'', JObj [(''SOLUSD'', JArr [JArr [JNum 1, JNum 100, JNum 101, JNum 99, JNum 100]])])])
     else NetError ''down'')"

definition empty_markets :: "rat markets" where
  "empty_markets = \<lparr>mk_tickers = empty_cache, mk_candles = empty_cache, mk_supply = empty_cache,
     mk_provider = \<lparr>pv_lastWarned = None, pv_log = [], pv_calls = []\<rparr>\<rparr>"

lemma demo_list: "map ma_price (fst (markets_list demo_fetch demo_num 0 empty_markets)) = [203/2]"
  by code_simp

lemma listed_prices_are_sane_witness:
  "\<exists>a \<in> set (fst (markets_list demo_fetch demo_num 0 empty_markets)). 0 < ma_price a"
proof -
  obtain a where a: "a \<in> set (fst (markets_list demo_fetch demo_num 0 empty_markets))"
    using demo_list by (cases "fst (markets_list demo_fetch demo_num 0 empty_markets)") auto
  have "0 < ma_price a \<and> ma_symbol a \<in> set (map cn_symbol COINS) \<and> coinById (ma_id a) \<noteq> None"
    by (rule listed_prices_are_sane [OF _ prod.collapse [symmetric] a])
      (simp add: markets_inv_def empty_markets_def empty_cache_def)
  then show ?thesis using a by blast
qed

lemma restate_last:
  assumes "cs \<noteq> []" "live \<noteq> 0"
  shows "restateOpenCandle cs live \<noteq> []" "cd_c (last (restateOpenCandle cs live)) = live"
    "cd_l (last (restateOpenCandle cs live)) \<le> live" "live \<le> cd_h (last (restateOpenCandle cs live))"
    "butlast (restateOpenCandle cs live) = butlast cs"
  using assms by (simp_all add: restateOpenCandle_def Let_def)

lemma tickers_hit:
  assumes "fst (cache_get t ''markets:tickers'' (mk_tickers m)) = Some ts"
  shows "fst (tickers fetch num t m) = ts" "mk_tickers (snd (tickers fetch num t m)) = mk_tickers m"
proof -
  have "snd (cache_get t ''markets:tickers'' (mk_tickers m)) = mk_tickers m"
    using assms by (auto simp: cache_get_def split: option.splits)
  then show "fst (tickers fetch num t m) = ts" "mk_tickers (snd (tickers fetch num t m)) = mk_tickers m"
    using assms by (simp_all add: tickers_def cache_wrap_hit or_else_def)
qed

lemma find_by_symbol:
  assumes "distinct (map tc_symbol ts)"
  shows "List.find (\<lambda>x. tc_symbol x = s) ts = by_symbol ts s"
proof (cases "List.find (\<lambda>x. tc_symbol x = s) ts")
  case None
  then have "by_symbol ts s = None"
    by (auto simp: by_symbol_def find_None_iff_all map_of_eq_None_iff)
  then show ?thesis using None by simp
next
  case (Some x)
  then have x: "x \<in> set ts" "tc_symbol x = s" using find_Some_in by fastforce+
  have "map fst (rev (map (\<lambda>t. (tc_symbol t, t)) ts)) = rev (map tc_symbol ts)"
    by (simp add: rev_map comp_def)
  then have "distinct (map fst (rev (map (\<lambda>t. (tc_symbol t, t)) ts)))"
    using assms by simp
  then have "by_symbol ts s = Some x" using x unfolding by_symbol_def by (intro map_of_is_SomeI) auto
  then show ?thesis using Some by simp
qed

text \<open>The chart's right edge is the header's price. While a ticker is cached, the last candle of the
  chart of a listed asset, on every time frame, closes at the listed price and spans it, and
  the closed candles before it are untouched history.\<close>

theorem chart_edge_is_listed_price:
  assumes inv: "markets_inv m" and hit: "fst (cache_get t ''markets:tickers'' (mk_tickers m)) = Some ts"
    and run: "markets_list fetch num t m = (as, m1)" and a: "a \<in> set as"
    and ch: "chart fetch num t (ma_id a) rng m1 = (cs, m2)" and ne: "cs \<noteq> []"
  shows "cd_c (last cs) = ma_price a \<and> cd_l (last cs) \<le> ma_price a \<and> ma_price a \<le> cd_h (last cs)
     \<and> butlast cs = butlast (fst (candles fetch num t (ma_id a) rng m1))"
  using run a
proof (rule markets_list_result)
  fix ts' m' c tk
  assume t: "tickers fetch num t m = (ts', m')" and tk: "mk_tickers m1 = mk_tickers m'"
    and c: "c \<in> set COINS" "by_symbol ts' (cn_symbol c) = Some tk"
    and eq: "ma_id a = cn_id c" "ma_symbol a = cn_symbol c" "ma_price a = tc_price tk"
  have ts': "ts' = ts" "mk_tickers m' = mk_tickers m" using tickers_hit [OF hit, of fetch num] t by simp_all
  have sane: "sane_tickers ts" using tickers_sane [OF inv t] ts' by simp
  have ids: "distinct (map cn_id COINS)" by code_simp
  have coin: "coinById (cn_id c) = Some c"
  proof (cases "coinById (cn_id c)")
    case None
    then show ?thesis using c(1) by (auto simp: coinById_def find_None_iff_all)
  next
    case (Some d)
    then have "d \<in> set COINS" "cn_id d = cn_id c" unfolding coinById_def using find_Some_in by fastforce+
    then show ?thesis using Some distinct_key_unique [OF ids _ c(1)] by simp
  qed
  obtain h mh where h: "candles fetch num t (cn_id c) rng m1 = (h, mh)" by fastforce
  have "mk_tickers mh = mk_tickers m"
    using h coin tk ts' by (auto simp: candles_def Let_def split: prod.splits)
  then have "fst (tickers fetch num t mh) = ts" using tickers_hit [of t mh ts fetch num] hit by simp
  then have cs: "cs = restateOpenCandle h (tc_price tk)"
    using ch eq(1) coin h c(2) ts' find_by_symbol [of ts "cn_symbol c"] sane
    by (auto simp: chart_def Let_def sane_tickers_def split: prod.splits)
  have "0 < tc_price tk" using sane by_symbol_in [OF c(2)] ts' by (simp add: sane_tickers_def)
  moreover have "h \<noteq> []" using cs ne by (auto simp: restateOpenCandle_def)
  ultimately show ?thesis using cs eq h restate_last [of h "tc_price tk"] by simp
qed

definition warm_markets :: "rat markets" where
  "warm_markets = snd (markets_list demo_fetch demo_num 0 empty_markets)"

lemma chart_edge_is_listed_price_witness:
  "cd_c (last (fst (chart demo_fetch demo_num 5000 ''solana'' R1D
      (snd (markets_list demo_fetch demo_num 5000 warm_markets))))) = 203/2"
proof -
  let ?as = "fst (markets_list demo_fetch demo_num 5000 warm_markets)"
  have inv: "markets_inv warm_markets"
    unfolding warm_markets_def
    by (rule markets_list_inv [OF _ prod.collapse [symmetric]]) (simp add: markets_inv_def empty_markets_def empty_cache_def)
  have hit: "fst (cache_get 5000 ''markets:tickers'' (mk_tickers warm_markets)) =
      Some [\<lparr>tc_symbol = ''SOL'', tc_price = 203/2, tc_high24h = Some (203/2), tc_low24h = Some (203/2)\<rparr>]"
    by code_simp
  have l: "map ma_price ?as = [203/2]" "map ma_id ?as = [''solana'']" by code_simp+
  then obtain a where a: "a \<in> set ?as" "ma_price a = 203/2" "ma_id a = ''solana''"
    by (cases ?as) auto
  have ne: "fst (chart demo_fetch demo_num 5000 ''solana'' R1D (snd (markets_list demo_fetch demo_num 5000 warm_markets))) \<noteq> []"
    by code_simp
  from chart_edge_is_listed_price [OF inv hit prod.collapse [symmetric] a(1), unfolded a(2,3), OF prod.collapse [symmetric] ne]
  show ?thesis by blast
qed

end
