(* ===== verification/Alerts.thy ===== *)
theory Alerts
  imports Markets
begin

text \<open>
  Price alerts, holdings and the watch list: \<open>alerts/alerts.service.ts\<close>,
  \<open>alerts/is-triggered.ts\<close> and its twin \<open>customer/lib/alerts/compute.ts\<close>,
  \<open>realtime/alert-check.service.ts\<close>, \<open>realtime/price-stream.service.ts\<close>,
  \<open>holdings/holdings.service.ts\<close>, \<open>watchlist/watchlist.service.ts\<close> and the valuation of
  \<open>customer/lib/portfolio/compute.ts\<close>. The alert table has its own list of rows; the check
  writes it together with the outbox. Number formatting (\<open>toLocaleString\<close>) is a parameter.
\<close>

section \<open>Alerts\<close>

record 'n alert =
  at_id :: string
  at_userId :: string
  at_symbol :: string
  at_type :: string
  at_targetPrice :: 'n
  at_direction :: string
  at_createdAt :: int
  at_triggeredAt :: "int option"

record 'n alert_input =
  ai_symbol :: string
  ai_type :: string
  ai_targetPrice :: 'n
  ai_direction :: string

definition isTriggered :: "string \<Rightarrow> 'n::linorder \<Rightarrow> 'n \<Rightarrow> bool" where
  "isTriggered direction targetPrice price =
     (if direction = ''above'' then targetPrice \<le> price else price \<le> targetPrice)"

definition alerts_list :: "string \<Rightarrow> 'n alert list \<Rightarrow> 'n alert list" where
  "alerts_list actorId as = order_asc at_createdAt (filter (\<lambda>a. at_userId a = actorId) as)"

definition alerts_add :: "string \<Rightarrow> int \<Rightarrow> string \<Rightarrow> 'n alert_input \<Rightarrow> 'n alert list \<Rightarrow> 'n alert list" where
  "alerts_add i t actorId dto as = as @ [\<lparr>at_id = i, at_userId = actorId, at_symbol = ai_symbol dto,
     at_type = ai_type dto, at_targetPrice = ai_targetPrice dto, at_direction = ai_direction dto,
     at_createdAt = t, at_triggeredAt = None\<rparr>]"

definition alerts_remove :: "string \<Rightarrow> string \<Rightarrow> 'n alert list \<Rightarrow> 'n alert list" where
  "alerts_remove actorId i as = del_rows (\<lambda>a. at_id a = i \<and> at_userId a = actorId) as"

definition findPending :: "'n alert list \<Rightarrow> 'n alert list" where
  "findPending as = filter (\<lambda>a. at_triggeredAt a = None) as"

definition markTriggered :: "int \<Rightarrow> string list \<Rightarrow> 'n alert list \<Rightarrow> 'n alert list" where
  "markTriggered t ids as = upd_rows (\<lambda>a. List.member ids (at_id a)) (at_triggeredAt_update (\<lambda>_. Some t)) as"

text \<open>The client's evaluation.\<close>

record 'n price_info =
  pi_symbol :: string
  pi_price :: 'n
  pi_image :: "string option"

record 'n alert_view =
  av_alert :: "'n alert"
  av_currentPrice :: "'n option"
  av_triggered :: bool
  av_image :: "string option"

definition price_map :: "('a \<Rightarrow> string) \<Rightarrow> 'a list \<Rightarrow> string \<Rightarrow> 'a option" where
  "price_map key ps s = map_of (rev (map (\<lambda>p. (key p, p)) ps)) s"

definition computeAlerts :: "'n::linorder alert list \<Rightarrow> 'n price_info list \<Rightarrow> 'n alert_view list" where
  "computeAlerts as prices =
     map (\<lambda>a.
       let hit = price_map pi_symbol prices (at_symbol a); currentPrice = map_option pi_price hit;
           triggered = (case currentPrice of None \<Rightarrow> False
              | Some p \<Rightarrow> if at_direction a = ''above'' then at_targetPrice a \<le> p else p \<le> at_targetPrice a)
       in \<lparr>av_alert = a, av_currentPrice = currentPrice, av_triggered = triggered,
           av_image = Option.bind hit pi_image\<rparr>) as"

section \<open>The check\<close>

record 'n alert_world =
  aw_alerts :: "'n alert list"
  aw_world :: world

text \<open>The bell of the title, in UTF-8.\<close>

definition BELL :: string where "BELL = [CHR 0xF0, CHR 0x9F, CHR 0x94, CHR 0x94]"

definition alert_note :: "('n \<Rightarrow> string) \<Rightarrow> ('n::linorder) alert \<Rightarrow> 'n \<Rightarrow> notification_payload" where
  "alert_note px a price =
     \<lparr>np_title = BELL @ '' '' @ at_symbol a @ '' crossed '' @ at_direction a @ '' $'' @ px (at_targetPrice a),
      np_body = ''now $'' @ px price, np_tag = Some (at_id a), np_url = Some ''/alerts''\<rparr>"

definition price_of :: "'n market_asset list \<Rightarrow> string \<Rightarrow> 'n option" where
  "price_of assets s = map_option ma_price (price_map ma_symbol assets s)"

definition fired_alerts :: "'n market_asset list \<Rightarrow> 'n::linorder alert list \<Rightarrow> 'n alert list" where
  "fired_alerts assets pending =
     filter (\<lambda>a. case price_of assets (at_symbol a) of None \<Rightarrow> False
               | Some p \<Rightarrow> isTriggered (at_direction a) (at_targetPrice a) p) pending"

fun enqueue_all ::
  "call_ctx \<Rightarrow> nat \<Rightarrow> (string \<times> notification_payload) list \<Rightarrow> (db, push_event list) tx" where
  "enqueue_all c n [] = tx_return []"
| "enqueue_all c n ((userId, p) # rest) =
     tx_bind (notify_enqueue c (uuids c n) userId p) (\<lambda>e.
     tx_bind (enqueue_all c (Suc n) rest) (\<lambda>es. tx_return (e # es)))"

fun dispatch_all :: "outside \<Rightarrow> call_ctx \<Rightarrow> push_event list \<Rightarrow> world \<Rightarrow> world" where
  "dispatch_all x c [] w = w"
| "dispatch_all x c (e # es) w = dispatch_all x c es (dispatch x c e w)"

text \<open>
  \<open>check\<close> after it has read the pending alerts: mark and enqueue in one transaction, then
  dispatch. \<open>pending\<close> is a parameter because another instance's check may run in between.
\<close>

definition fire_alerts ::
  "('n \<Rightarrow> string) \<Rightarrow> outside \<Rightarrow> call_ctx \<Rightarrow> 'n market_asset list \<Rightarrow> 'n::linorder alert list \<Rightarrow> 'n alert_world
     \<Rightarrow> (exn + unit) \<times> 'n alert_world" where
  "fire_alerts px x c assets pending w =
     (let fired = fired_alerts assets pending
      in if fired = [] then (Inr (), w)
         else let marked = markTriggered (now c) (map at_id fired) (aw_alerts w);
                  notes = map (\<lambda>a. (at_userId a, alert_note px a (the (price_of assets (at_symbol a))))) fired
              in case enqueue_all c 0 notes (wdb (aw_world w)) of
                   Inl e \<Rightarrow> (Inl e, w)
                 | Inr (d', events) \<Rightarrow>
                     (Inr (), \<lparr>aw_alerts = marked,
                               aw_world = dispatch_all x c events ((aw_world w)\<lparr>wdb := d'\<rparr>)\<rparr>))"

definition alert_check ::
  "('n \<Rightarrow> string) \<Rightarrow> outside \<Rightarrow> call_ctx \<Rightarrow> 'n market_asset list \<Rightarrow> 'n::linorder alert_world
     \<Rightarrow> (exn + unit) \<times> 'n alert_world" where
  "alert_check px x c assets w = fire_alerts px x c assets (findPending (aw_alerts w)) w"

section \<open>The price tick\<close>

record 'n stream =
  st_alerts :: "'n alert_world"
  st_markets :: "'n markets"
  st_broadcasts :: "'n market_asset list list"
  st_log :: "string list"

definition tick ::
  "(string \<Rightarrow> http_reply) \<Rightarrow> (jval option \<Rightarrow> 'n option) \<Rightarrow> ('n \<Rightarrow> string) \<Rightarrow> outside \<Rightarrow> call_ctx \<Rightarrow> nat
     \<Rightarrow> ('n::{linorder,minus,inverse,times,zero,numeral}) stream \<Rightarrow> 'n stream" where
  "tick fetch num px x c clients s =
     (let watching = 0 < clients; pending = length (findPending (aw_alerts (st_alerts s)))
      in if \<not> watching \<and> pending = 0 then s
         else let (assets, m') = markets_list fetch num (now c) (st_markets s); s1 = s\<lparr>st_markets := m'\<rparr>
              in if assets = [] then s1
                 else let s2 = (if watching then s1\<lparr>st_broadcasts := st_broadcasts s1 @ [assets]\<rparr> else s1)
                      in if pending = 0 then s2
                         else case alert_check px x c assets (st_alerts s2) of
                                (Inl e, aw) \<Rightarrow> s2\<lparr>st_alerts := aw,
                                   st_log := st_log s2 @ [''price-stream tick failed: '' @
                                     (case e of HttpException st r m \<Rightarrow> m | PrismaKnown k \<Rightarrow> k | OtherError m \<Rightarrow> m)]\<rparr>
                              | (Inr _, aw) \<Rightarrow> s2\<lparr>st_alerts := aw\<rparr>)"

section \<open>Holdings and the watch list\<close>

record 'n holding =
  hd_userId :: string
  hd_symbol :: string
  hd_type :: string
  hd_quantity :: 'n
  hd_avgCost :: 'n
  hd_createdAt :: int

record 'n holding_input =
  hi_symbol :: string
  hi_type :: string
  hi_quantity :: 'n
  hi_avgCost :: 'n

definition hd_key :: "'n holding \<Rightarrow> string \<times> string" where
  "hd_key h = (hd_userId h, hd_symbol h)"

definition holdings_list :: "string \<Rightarrow> 'n holding list \<Rightarrow> 'n holding list" where
  "holdings_list actorId hs = order_asc hd_createdAt (filter (\<lambda>h. hd_userId h = actorId) hs)"

definition holdings_add :: "int \<Rightarrow> string \<Rightarrow> 'n holding_input \<Rightarrow> 'n holding list \<Rightarrow> 'n holding list" where
  "holdings_add t actorId dto hs =
     (if List.member (map hd_key hs) (actorId, hi_symbol dto)
      then upd_rows (\<lambda>h. hd_key h = (actorId, hi_symbol dto))
             (\<lambda>h. h\<lparr>hd_quantity := hi_quantity dto, hd_avgCost := hi_avgCost dto, hd_type := hi_type dto\<rparr>) hs
      else hs @ [\<lparr>hd_userId = actorId, hd_symbol = hi_symbol dto, hd_type = hi_type dto,
                  hd_quantity = hi_quantity dto, hd_avgCost = hi_avgCost dto, hd_createdAt = t\<rparr>])"

definition holdings_remove :: "string \<Rightarrow> string \<Rightarrow> 'n holding list \<Rightarrow> 'n holding list" where
  "holdings_remove actorId symbol hs = del_rows (\<lambda>h. hd_key h = (actorId, symbol)) hs"

record watch_item =
  wi_userId :: string
  wi_symbol :: string
  wi_type :: string
  wi_createdAt :: int

definition wi_pair :: "watch_item \<Rightarrow> string \<times> string" where
  "wi_pair i = (wi_userId i, wi_symbol i)"

definition watchlist_list :: "string \<Rightarrow> watch_item list \<Rightarrow> watch_item list" where
  "watchlist_list actorId is = order_asc wi_createdAt (filter (\<lambda>i. wi_userId i = actorId) is)"

definition watchlist_add :: "int \<Rightarrow> string \<Rightarrow> string \<Rightarrow> string \<Rightarrow> watch_item list \<Rightarrow> watch_item list" where
  "watchlist_add t actorId symbol ty is =
     (if List.member (map wi_pair is) (actorId, symbol) then is
      else is @ [\<lparr>wi_userId = actorId, wi_symbol = symbol, wi_type = ty, wi_createdAt = t\<rparr>])"

definition watchlist_remove :: "string \<Rightarrow> string \<Rightarrow> watch_item list \<Rightarrow> watch_item list" where
  "watchlist_remove actorId symbol is = del_rows (\<lambda>i. wi_pair i = (actorId, symbol)) is"

section \<open>Properties\<close>

text \<open>What the customer is shown is what fires. On the same prices, the client marks a row as
  triggered exactly when the server's rule fires the alert.\<close>

theorem client_and_server_agree:
  assumes "map (\<lambda>p. (pi_symbol p, pi_price p)) prices = map (\<lambda>a. (ma_symbol a, ma_price a)) assets"
  shows "map av_alert (filter av_triggered (computeAlerts as prices)) = fired_alerts assets as"
proof -
  have "map (\<lambda>p. (fst p, snd p)) (rev (map (\<lambda>p. (pi_symbol p, pi_price p)) prices)) =
      map (\<lambda>p. (fst p, snd p)) (rev (map (\<lambda>a. (ma_symbol a, ma_price a)) assets))"
    using assms by simp
  then have eq: "map_of (rev (map (\<lambda>p. (pi_symbol p, pi_price p)) prices)) s =
      map_of (rev (map (\<lambda>a. (ma_symbol a, ma_price a)) assets)) s" for s
    by simp
  have val: "map_option g (map_of (rev (map (\<lambda>p. (k p, p)) ps)) s) = map_of (rev (map (\<lambda>p. (k p, g p)) ps)) s"
    for k :: "'b \<Rightarrow> string" and g :: "'b \<Rightarrow> 'c" and ps s
    by (induction ps rule: rev_induct) auto
  have price: "map_option pi_price (price_map pi_symbol prices s) = price_of assets s" for s
    by (simp add: price_map_def price_of_def val eq)
  show ?thesis
    unfolding computeAlerts_def fired_alerts_def Let_def price isTriggered_def
    by (induction as) (auto split: option.splits)
qed

definition demo_asset :: "string \<Rightarrow> rat \<Rightarrow> rat market_asset" where
  "demo_asset s p = \<lparr>ma_id = s, ma_symbol = s, ma_name = s, ma_price = p, ma_change24h = 0, ma_image = []\<rparr>"

definition demo_alert :: "string \<Rightarrow> string \<Rightarrow> rat \<Rightarrow> rat alert" where
  "demo_alert i dir p = \<lparr>at_id = i, at_userId = ''u1'', at_symbol = ''BTC'', at_type = ''crypto'',
     at_targetPrice = p, at_direction = dir, at_createdAt = 0, at_triggeredAt = None\<rparr>"

lemma client_and_server_agree_witness:
  "map av_alert (filter av_triggered (computeAlerts [demo_alert ''a1'' ''above'' 90, demo_alert ''a2'' ''below'' 90]
      [\<lparr>pi_symbol = ''BTC'', pi_price = 100, pi_image = None\<rparr>])) = [demo_alert ''a1'' ''above'' 90]"
  by (subst client_and_server_agree [where assets = "[demo_asset ''BTC'' 100]"])
    (simp_all add: demo_asset_def fired_alerts_def price_of_def price_map_def demo_alert_def isTriggered_def)

lemma enqueue_all_result:
  "enqueue_all c n ns d = Inr (d', es) \<Longrightarrow>
     map ev_userId es = map fst ns \<and> map ev_payload es = map snd ns \<and>
     outbox d' = outbox d @ map (event_row c) es"
proof (induction ns arbitrary: n d d' es)
  case Nil
  then show ?case by (simp add: tx_simps)
next
  case (Cons p ns)
  obtain u q where p: "p = (u, q)" by fastforce
  obtain e d1 es1 where "notify_enqueue c (uuids c n) u q d = Inr (d1, e)"
    "enqueue_all c (Suc n) ns d1 = Inr (d', es1)" "es = e # es1"
    using Cons.prems p by (auto simp: tx_simps)
  then show ?case using Cons.IH [of "Suc n" d1 d' es1] p by (auto simp: tx_simps notification_event_def)
qed

lemma fire_alerts_success:
  assumes "fire_alerts px x c assets pending w = (Inr (), w')" and "fired_alerts assets pending \<noteq> []"
  shows "aw_alerts w' = markTriggered (now c) (map at_id (fired_alerts assets pending)) (aw_alerts w)"
  using assms by (auto simp: fire_alerts_def Let_def split: sum.splits)

lemma fired_pending: "set (fired_alerts assets pending) \<subseteq> set pending"
  by (auto simp: fired_alerts_def)

text \<open>An alert fires once. After a check has succeeded no alert that the same prices trigger is
  pending any more, so another check on these prices changes nothing; alerts that were not
  triggered are untouched.\<close>

theorem alert_fires_once:
  assumes run: "alert_check px x c assets w = (Inr (), w')"
    and ids: "distinct (map at_id (aw_alerts w))"
  shows "alert_check px x c' assets w' = (Inr (), w')
     \<and> (\<forall>a \<in> set (aw_alerts w). a \<notin> set (fired_alerts assets (findPending (aw_alerts w))) \<longrightarrow> a \<in> set (aw_alerts w'))"
proof -
  let ?fired = "fired_alerts assets (findPending (aw_alerts w))"
  have mem: "a \<in> set ?fired" if old: "a \<in> set (aw_alerts w)" and hit: "at_id a \<in> at_id ` set ?fired" for a
  proof -
    obtain b where b: "b \<in> set ?fired" "at_id a = at_id b" using hit by blast
    have "b \<in> set (aw_alerts w)" using b(1) fired_pending by (fastforce simp: findPending_def)
    then show ?thesis using distinct_key_unique [OF ids old _ b(2)] b(1) by simp
  qed
  have w': "aw_alerts w' = markTriggered (now c) (map at_id ?fired) (aw_alerts w)"
  proof (cases "?fired = []")
    case True
    then have "w' = w" using run by (simp add: alert_check_def fire_alerts_def)
    then show ?thesis using True by (simp add: markTriggered_def upd_rows_idle)
  next
    case False
    then show ?thesis using fire_alerts_success run by (auto simp: alert_check_def)
  qed
  have "a \<notin> set (fired_alerts assets (findPending (aw_alerts w')))" for a
  proof
    assume a: "a \<in> set (fired_alerts assets (findPending (aw_alerts w')))"
    then have pend: "a \<in> set (aw_alerts w')" "at_triggeredAt a = None"
      by (auto simp: fired_alerts_def findPending_def)
    then have old: "a \<in> set (aw_alerts w)" "at_id a \<notin> at_id ` set ?fired"
      by (auto simp: w' markTriggered_def set_upd_rows)
    have "a \<in> set ?fired" using a old(1) pend(2) by (auto simp: fired_alerts_def findPending_def)
    then show False using old(2) by blast
  qed
  then have none: "fired_alerts assets (findPending (aw_alerts w')) = []" by (metis list.set_intros(1) neq_Nil_conv)
  have "a \<in> set (aw_alerts w')" if "a \<in> set (aw_alerts w)" "a \<notin> set ?fired" for a
    using that mem [OF that(1)] by (force simp: w' markTriggered_def set_upd_rows)
  then show ?thesis using none by (simp add: alert_check_def fire_alerts_def)
qed

definition demo_alert_world :: "rat alert_world" where
  "demo_alert_world = \<lparr>aw_alerts = [demo_alert ''a1'' ''above'' 90, demo_alert ''a2'' ''below'' 90],
     aw_world = \<lparr>wdb = empty_db, wq = fresh_queue, wemits = [], wrates = empty_cache, wnet = []\<rparr>\<rparr>"

definition alert_outside :: outside where
  "alert_outside = \<lparr>x_decimal = exact_decimal, x_fx = (\<lambda>_. FxNotOk), x_chan = (\<lambda>_. ChanAccepts), x_mark_ok = True\<rparr>"

definition alert_ctx :: call_ctx where
  "alert_ctx = \<lparr>now = 1000, uuids = show_nat, cx_requestId = [], cx_ipAddress = None, cx_userAgent = None\<rparr>"

lemma demo_check:
  "\<exists>w'. alert_check (\<lambda>n. ''100'') alert_outside alert_ctx [demo_asset ''BTC'' 100] demo_alert_world = (Inr (), w')"
  by (simp add: alert_check_def fire_alerts_def demo_alert_world_def findPending_def demo_alert_def fired_alerts_def
      price_of_def price_map_def demo_asset_def isTriggered_def Let_def tx_defs notify_enqueue_def outbox_enqueue_def
      ins_row_def empty_db_def)

lemma alert_fires_once_witness:
  "\<exists>w'. alert_check (\<lambda>n. ''100'') alert_outside alert_ctx [demo_asset ''BTC'' 100] w' = (Inr (), w')
     \<and> demo_alert ''a2'' ''below'' 90 \<in> set (aw_alerts w')"
proof -
  obtain w' where run: "alert_check (\<lambda>n. ''100'') alert_outside alert_ctx [demo_asset ''BTC'' 100] demo_alert_world = (Inr (), w')"
    using demo_check by blast
  have ids: "distinct (map at_id (aw_alerts demo_alert_world))" by (simp add: demo_alert_world_def demo_alert_def)
  have "demo_alert ''a2'' ''below'' 90 \<in> set (aw_alerts demo_alert_world)"
    "demo_alert ''a2'' ''below'' 90 \<notin> set (fired_alerts [demo_asset ''BTC'' 100] (findPending (aw_alerts demo_alert_world)))"
    by (simp_all add: demo_alert_world_def findPending_def fired_alerts_def price_of_def price_map_def demo_asset_def
        demo_alert_def isTriggered_def)
  then show ?thesis using alert_fires_once [OF run ids, of alert_ctx] by blast
qed

lemma publishNow_ids:
  "publishNow ch ok t r d q = (b, d', q') \<Longrightarrow> map ob_id (outbox d') = map ob_id (outbox d)"
  by (auto simp: publishNow_def Let_def map_upd_rows_key split: prod.splits if_splits)

lemma dispatch_all_ids: "map ob_id (outbox (wdb (dispatch_all x c es w))) = map ob_id (outbox (wdb w))"
proof (induction es arbitrary: w)
  case (Cons e es)
  have "map ob_id (outbox (wdb (dispatch x c e w))) = map ob_id (outbox (wdb w))"
    by (auto simp: dispatch_def Let_def emitNotification_def split: prod.splits dest: publishNow_ids)
  then show ?case using Cons.IH by simp
qed simp

lemma enqueue_all_ids:
  "enqueue_all c n ns d = Inr (d', es) \<Longrightarrow> map ev_id es = map (uuids c) [n..<n + length ns]"
proof (induction ns arbitrary: n d d' es)
  case (Cons p ns)
  obtain u q where p: "p = (u, q)" by fastforce
  obtain e d1 es1 where "notify_enqueue c (uuids c n) u q d = Inr (d1, e)"
    "enqueue_all c (Suc n) ns d1 = Inr (d', es1)" "es = e # es1"
    using Cons.prems p by (auto simp: tx_simps)
  moreover have "[n..<n + length (p # ns)] = n # [Suc n..<Suc n + length ns]" by (simp add: upt_rec)
  ultimately show ?case using Cons.IH [of "Suc n" d1 d' es1] by (auto simp: tx_simps notification_event_def)
qed (auto simp: tx_simps)

lemma fire_alerts_outbox_ids:
  assumes "fire_alerts px x c assets pending w = (Inr (), w')"
  shows "map ob_id (outbox (wdb (aw_world w'))) = map ob_id (outbox (wdb (aw_world w)))
    @ map (uuids c) [0..<length (fired_alerts assets pending)]"
proof (cases "fired_alerts assets pending = []")
  case True
  then show ?thesis using assms by (simp add: fire_alerts_def)
next
  case False
  then obtain d' es where run: "enqueue_all c 0 (map (\<lambda>a. (at_userId a, alert_note px a
        (the (price_of assets (at_symbol a))))) (fired_alerts assets pending)) (wdb (aw_world w)) = Inr (d', es)"
    and w': "aw_world w' = dispatch_all x c es ((aw_world w)\<lparr>wdb := d'\<rparr>)"
    using assms by (auto simp: fire_alerts_def Let_def split: sum.splits)
  have "map ob_id (map (event_row c) es) = map ev_id es" by (simp add: event_row_def new_outbox_row_def)
  then show ?thesis
    using enqueue_all_result [OF run] enqueue_all_ids [OF run] by (simp add: w' dispatch_all_ids)
qed

text \<open>Two checks at once fire the same alert twice. The mark does not ask for the alert to be
  still pending, so a check that read the alert before another one marked it sends a second
  notification for it.\<close>

theorem raced_checks_fire_twice:
  assumes a: "a \<in> set (fired_alerts assets pending)" and p: "pending = findPending (aw_alerts w)"
    and one: "fire_alerts px x c assets pending w = (Inr (), w1)"
    and ids: "enqueue_all c' 0 (map (\<lambda>a. (at_userId a, alert_note px a (the (price_of assets (at_symbol a)))))
        (fired_alerts assets pending)) (wdb (aw_world w1)) = Inr (d2, es)"
  shows "(\<exists>t. \<forall>b \<in> set (aw_alerts w1). at_id b = at_id a \<longrightarrow> at_triggeredAt b = Some t)
     \<and> (\<exists>w2. fire_alerts px x c' assets pending w1 = (Inr (), w2))
     \<and> (\<exists>e \<in> set es. ev_userId e = at_userId a \<and> ev_payload e = alert_note px a (the (price_of assets (at_symbol a))))"
proof (intro conjI)
  have ne: "fired_alerts assets pending \<noteq> []" using a by auto
  have "aw_alerts w1 = markTriggered (now c) (map at_id (fired_alerts assets pending)) (aw_alerts w)"
    using fire_alerts_success [OF one ne] .
  then show "\<exists>t. \<forall>b \<in> set (aw_alerts w1). at_id b = at_id a \<longrightarrow> at_triggeredAt b = Some t"
    using a by (intro exI [of _ "now c"]) (auto simp: markTriggered_def set_upd_rows)
  show "\<exists>w2. fire_alerts px x c' assets pending w1 = (Inr (), w2)"
    using ne ids by (simp add: fire_alerts_def Let_def)
  let ?note = "\<lambda>a. (at_userId a, alert_note px a (the (price_of assets (at_symbol a))))"
  have "map (\<lambda>e. (ev_userId e, ev_payload e)) es = map ?note (fired_alerts assets pending)"
  proof -
    have "map ev_userId es = map fst (map ?note (fired_alerts assets pending))"
      "map ev_payload es = map snd (map ?note (fired_alerts assets pending))"
      using enqueue_all_result [OF ids] by blast+
    then show ?thesis by (simp add: list_eq_iff_nth_eq)
  qed
  moreover have "?note a \<in> set (map ?note (fired_alerts assets pending))" using a by simp
  ultimately have "?note a \<in> set (map (\<lambda>e. (ev_userId e, ev_payload e)) es)" by (simp only:)
  then obtain e where "e \<in> set es" "?note a = (ev_userId e, ev_payload e)" by auto
  then show "\<exists>e \<in> set es. ev_userId e = at_userId a \<and> ev_payload e = alert_note px a (the (price_of assets (at_symbol a)))"
    by (intro bexI [of _ e]) auto
qed

lemma raced_checks_fire_twice_witness:
  "\<exists>w1 d2 es. fire_alerts (\<lambda>n. ''100'') alert_outside alert_ctx [demo_asset ''BTC'' 100]
        (findPending (aw_alerts demo_alert_world)) demo_alert_world = (Inr (), w1)
     \<and> enqueue_all (alert_ctx\<lparr>uuids := (\<lambda>n. CHR ''b'' # show_nat n)\<rparr>) 0
         [(''u1'', alert_note (\<lambda>n. ''100'') (demo_alert ''a1'' ''above'' 90) 100)] (wdb (aw_world w1)) = Inr (d2, es)
     \<and> (\<exists>w2. fire_alerts (\<lambda>n. ''100'') alert_outside (alert_ctx\<lparr>uuids := (\<lambda>n. CHR ''b'' # show_nat n)\<rparr>)
           [demo_asset ''BTC'' 100] (findPending (aw_alerts demo_alert_world)) w1 = (Inr (), w2))
     \<and> (\<exists>e \<in> set es. ev_userId e = ''u1'')"
proof -
  let ?c' = "alert_ctx\<lparr>uuids := (\<lambda>n. CHR ''b'' # show_nat n)\<rparr>"
  let ?as = "[demo_asset ''BTC'' 100]" and ?a = "demo_alert ''a1'' ''above'' 90"
  let ?px = "\<lambda>n::rat. ''100''"
  obtain w1 where one: "fire_alerts ?px alert_outside alert_ctx ?as
        (findPending (aw_alerts demo_alert_world)) demo_alert_world = (Inr (), w1)"
    using demo_check by (auto simp: alert_check_def)
  have fired: "fired_alerts ?as (findPending (aw_alerts demo_alert_world)) = [?a]"
    by (simp add: demo_alert_world_def findPending_def fired_alerts_def price_of_def price_map_def demo_asset_def
        demo_alert_def isTriggered_def)
  have px: "price_of ?as (at_symbol ?a) = Some 100" "at_userId ?a = ''u1''"
    by (simp_all add: price_of_def price_map_def demo_asset_def demo_alert_def)
  have "map ob_id (outbox (wdb (aw_world w1))) = [show_nat 0]"
    using fire_alerts_outbox_ids [OF one] fired
    by (simp add: demo_alert_world_def empty_db_def alert_ctx_def)
  then have "CHR ''b'' # show_nat 0 \<notin> set (map ob_id (outbox (wdb (aw_world w1))))" by simp
  then obtain d2 es where two: "enqueue_all ?c' 0 [(''u1'', alert_note ?px ?a 100)] (wdb (aw_world w1)) = Inr (d2, es)"
    by (simp add: tx_simps)
  show ?thesis
    using raced_checks_fire_twice [of ?a ?as _ demo_alert_world ?px alert_outside alert_ctx w1 ?c' d2 es]
      one two fired px by auto
qed

lemma upsert_keeps_key:
  "distinct (map hd_key hs) \<Longrightarrow> distinct (map hd_key (holdings_add t actorId dto hs))"
  by (auto simp: holdings_add_def hd_key_def map_upd_rows_key image_iff)

text \<open>A holding is unique per user and symbol, and adding is idempotent: adding again sets the new
  quantity and cost, and no operation of one user touches a row of another.\<close>

theorem holdings_upsert:
  assumes "distinct (map hd_key hs)"
  shows "distinct (map hd_key (holdings_add t actorId dto hs))
     \<and> holdings_add t' actorId dto (holdings_add t actorId dto hs) = holdings_add t actorId dto hs
     \<and> (\<exists>h \<in> set (holdings_add t actorId dto hs). hd_key h = (actorId, hi_symbol dto) \<and>
          hd_quantity h = hi_quantity dto \<and> hd_avgCost h = hi_avgCost dto)
     \<and> filter (\<lambda>h. hd_userId h \<noteq> actorId) (holdings_add t actorId dto hs) = filter (\<lambda>h. hd_userId h \<noteq> actorId) hs
     \<and> filter (\<lambda>h. hd_userId h \<noteq> actorId) (holdings_remove actorId symbol hs) = filter (\<lambda>h. hd_userId h \<noteq> actorId) hs"
proof (intro conjI)
  let ?f = "\<lambda>h::'a holding. h\<lparr>hd_quantity := hi_quantity dto, hd_avgCost := hi_avgCost dto, hd_type := hi_type dto\<rparr>"
  let ?k = "(actorId, hi_symbol dto)"
  show "distinct (map hd_key (holdings_add t actorId dto hs))" by (rule upsert_keeps_key [OF assms])
  have key: "hd_key (?f h) = hd_key h" for h by (simp add: hd_key_def)
  have idem: "upd_rows (\<lambda>h. hd_key h = ?k) ?f (upd_rows (\<lambda>h. hd_key h = ?k) ?f ys) =
      upd_rows (\<lambda>h. hd_key h = ?k) ?f ys" for ys
    by (simp add: upd_rows_def hd_key_def)
  show "holdings_add t' actorId dto (holdings_add t actorId dto hs) = holdings_add t actorId dto hs"
  proof (cases "?k \<in> set (map hd_key hs)")
    case True
    then have "?k \<in> set (map hd_key (upd_rows (\<lambda>h. hd_key h = ?k) ?f hs))"
      by (simp only: map_upd_rows_key [of hd_key ?f, OF key])
    then show ?thesis using True by (simp add: holdings_add_def idem)
  next
    case False
    then have "upd_rows (\<lambda>h. hd_key h = ?k) ?f hs = hs" by (intro upd_rows_idle) (auto simp: image_iff)
    then show ?thesis using False by (simp add: holdings_add_def hd_key_def)
  qed
  show "\<exists>h \<in> set (holdings_add t actorId dto hs). hd_key h = ?k \<and>
          hd_quantity h = hi_quantity dto \<and> hd_avgCost h = hi_avgCost dto"
  proof (cases "?k \<in> set (map hd_key hs)")
    case True
    then obtain h where h: "h \<in> set hs" "hd_key h = ?k" by auto
    then have "?f h \<in> set (holdings_add t actorId dto hs)"
      using True by (auto simp: holdings_add_def set_upd_rows image_iff)
    then show ?thesis using h(2) key [of h] by (intro bexI [of _ "?f h"]) auto
  next
    case False
    then show ?thesis by (auto simp: holdings_add_def hd_key_def)
  qed
  show "filter (\<lambda>h. hd_userId h \<noteq> actorId) (holdings_add t actorId dto hs) = filter (\<lambda>h. hd_userId h \<noteq> actorId) hs"
  proof -
    have "filter (\<lambda>h. hd_userId h \<noteq> actorId) (upd_rows (\<lambda>h. hd_key h = ?k) ?f ys) = filter (\<lambda>h. hd_userId h \<noteq> actorId) ys" for ys
      by (induction ys) (auto simp: hd_key_def)
    then show ?thesis by (simp add: holdings_add_def)
  qed
  show "filter (\<lambda>h. hd_userId h \<noteq> actorId) (holdings_remove actorId symbol hs) = filter (\<lambda>h. hd_userId h \<noteq> actorId) hs"
    by (auto simp: holdings_remove_def del_rows_def hd_key_def intro: filter_cong)
qed

lemma holdings_upsert_witness:
  "\<exists>h \<in> set (holdings_add 1 ''u1'' \<lparr>hi_symbol = ''BTC'', hi_type = ''crypto'', hi_quantity = 2, hi_avgCost = (5::nat)\<rparr> []).
     hd_quantity h = 2"
  using holdings_upsert [of "[]" 1 "''u1''" "\<lparr>hi_symbol = ''BTC'', hi_type = ''crypto'', hi_quantity = 2, hi_avgCost = (5::nat)\<rparr>" 2]
  by auto

end
