(* ===== verification/Idempotency.thy ===== *)
theory Idempotency
  imports Queue
begin

text \<open>
  \<open>idempotency/idempotency.service.ts\<close> and \<open>idempotency/idempotency.interceptor.ts\<close>: a
  client-chosen key is reserved before the handler runs, its successful response is stored and
  replayed, a failed handler releases it. The handler is a parameter, a function on a state of
  its own, so that "the handler did not run" is visible as an unchanged state.
\<close>

section \<open>The store\<close>

record idem_row =
  ik_id :: string
  ik_userId :: string
  ik_key :: string
  ik_fingerprint :: string
  ik_completed :: bool
  ik_statusCode :: "nat option"
  ik_responseBody :: jval
  ik_createdAt :: int

definition IDEM_TTL_MS :: int where "IDEM_TTL_MS = 24 * 60 * 60 * 1000"

datatype reservation = ResNew string | ResReplay nat jval | ResMismatch | ResInProgress

text \<open>The insert behind \<open>@@unique([userId, key])\<close>.\<close>

definition same_key :: "string \<Rightarrow> string \<Rightarrow> idem_row \<Rightarrow> bool" where
  "same_key userId key r \<longleftrightarrow> ik_userId r = userId \<and> ik_key r = key"

definition idem_create :: "idem_row \<Rightarrow> idem_row list \<Rightarrow> exn + idem_row list" where
  "idem_create r rows =
     (if (\<exists>s \<in> set rows. same_key (ik_userId r) (ik_key r) s \<or> ik_id r = ik_id s)
      then Inl (PrismaKnown ''P2002'') else Inr (rows @ [r]))"

definition new_idem :: "int \<Rightarrow> string \<Rightarrow> string \<Rightarrow> string \<Rightarrow> string \<Rightarrow> idem_row" where
  "new_idem t i userId key fp = \<lparr>ik_id = i, ik_userId = userId, ik_key = key, ik_fingerprint = fp,
     ik_completed = False, ik_statusCode = None, ik_responseBody = JNull, ik_createdAt = t\<rparr>"

text \<open>
  \<open>reserve\<close> calls itself again after it has removed an expired row, or when the row it collided
  with has vanished; \<open>fuel\<close> bounds the calls and \<open>None\<close> is running out of it. \<open>ids\<close> are the
  generated row ids.
\<close>

fun reserve ::
  "nat \<Rightarrow> int \<Rightarrow> (nat \<Rightarrow> string) \<Rightarrow> string \<Rightarrow> string \<Rightarrow> string \<Rightarrow> idem_row list
     \<Rightarrow> ((exn + reservation) \<times> idem_row list) option" where
  "reserve 0 t ids userId key fp rows = None"
| "reserve (Suc fuel) t ids userId key fp rows =
     (case idem_create (new_idem t (ids fuel) userId key fp) rows of
        Inr rows' \<Rightarrow> Some (Inr (ResNew (ids fuel)), rows')
      | Inl e \<Rightarrow>
          (case List.find (same_key userId key) rows of
             None \<Rightarrow> reserve fuel t ids userId key fp rows
           | Some existing \<Rightarrow>
               if ik_createdAt existing < t - IDEM_TTL_MS
               then reserve fuel t ids userId key fp (del_rows (\<lambda>r. ik_id r = ik_id existing) rows)
               else if ik_fingerprint existing \<noteq> fp then Some (Inr ResMismatch, rows)
               else if \<not> ik_completed existing then Some (Inr ResInProgress, rows)
               else Some (Inr (ResReplay (case ik_statusCode existing of None \<Rightarrow> 200 | Some s \<Rightarrow> s)
                            (ik_responseBody existing)), rows)))"

definition complete :: "string \<Rightarrow> nat \<Rightarrow> jval \<Rightarrow> idem_row list \<Rightarrow> exn + idem_row list" where
  "complete i statusCode body rows =
     (if \<exists>r \<in> set rows. ik_id r = i
      then Inr (upd_rows (\<lambda>r. ik_id r = i)
                  (\<lambda>r. r\<lparr>ik_completed := True, ik_statusCode := Some statusCode, ik_responseBody := body\<rparr>) rows)
      else Inl (PrismaKnown ''P2025''))"

definition release :: "string \<Rightarrow> idem_row list \<Rightarrow> idem_row list" where
  "release i rows = del_rows (\<lambda>r. ik_id r = i) rows"

section \<open>The interceptor\<close>

record request =
  rq_user :: "string option"
  rq_key :: "string option"
  rq_method :: string
  rq_url :: string
  rq_bodyText :: string

type_synonym 's handler = "'s \<Rightarrow> (exn + jval) \<times> 's"

record response =
  rs_status :: nat
  rs_body :: jval

text \<open>What the database does to the two writes after the handler: an error, if any.\<close>

record idem_env =
  complete_err :: "exn option"
  release_err :: "exn option"

definition fingerprint :: "(string \<Rightarrow> string) \<Rightarrow> request \<Rightarrow> string" where
  "fingerprint hash rq = hash (rq_method rq @ '' '' @ rq_url rq @ '' '' @ rq_bodyText rq)"

definition present :: "string option \<Rightarrow> string option" where
  "present x = (case x of None \<Rightarrow> None | Some s \<Rightarrow> if s = [] then None else Some s)"

definition IDEM_KEY_REQUIRED :: exn where
  "IDEM_KEY_REQUIRED = HttpException 400
     (RespObj (Some ''IDEMPOTENCY_KEY_REQUIRED'') (Some (MsgOne ''Idempotency-Key header is required'')))
     ''Idempotency-Key header is required''"

definition idem_conflict :: "string \<Rightarrow> exn" where
  "idem_conflict m = HttpException 409 (RespObj (Some ''IDEMPOTENCY_CONFLICT'') (Some (MsgOne m))) m"

definition IDEM_MISMATCH :: exn where
  "IDEM_MISMATCH = idem_conflict ''Idempotency-Key was already used for a different request''"

definition IDEM_IN_PROGRESS :: exn where
  "IDEM_IN_PROGRESS = idem_conflict ''A request with this Idempotency-Key is still in progress''"

text \<open>
  The handler under a new reservation. An error of the handler and an error of \<open>complete\<close> both
  end in the same \<open>catchError\<close>: the key is released and the error passed on.
\<close>

definition release_and_fail ::
  "idem_env \<Rightarrow> string \<Rightarrow> exn \<Rightarrow> idem_row list \<Rightarrow> 's \<Rightarrow> (exn + response) \<times> idem_row list \<times> 's" where
  "release_and_fail env i e rows s =
     (case release_err env of
        Some e' \<Rightarrow> (Inl e', rows, s) | None \<Rightarrow> (Inl e, release i rows, s))"

definition run_reserved ::
  "idem_env \<Rightarrow> nat \<Rightarrow> 's handler \<Rightarrow> string \<Rightarrow> idem_row list \<Rightarrow> 's \<Rightarrow> (exn + response) \<times> idem_row list \<times> 's"
where
  "run_reserved env okStatus handler i rows s =
     (case handler s of
        (Inl e, s') \<Rightarrow> release_and_fail env i e rows s'
      | (Inr body, s') \<Rightarrow>
          (case (complete_err env, complete i okStatus body rows) of
             (Some e, _) \<Rightarrow> release_and_fail env i e rows s'
           | (None, Inl e) \<Rightarrow> release_and_fail env i e rows s'
           | (None, Inr rows') \<Rightarrow> (Inr \<lparr>rs_status = okStatus, rs_body = body\<rparr>, rows', s')))"

definition RESERVE_FUEL :: nat where "RESERVE_FUEL = 2"

definition intercept ::
  "(string \<Rightarrow> string) \<Rightarrow> idem_env \<Rightarrow> int \<Rightarrow> (nat \<Rightarrow> string) \<Rightarrow> bool \<Rightarrow> nat \<Rightarrow> 's handler \<Rightarrow> request
     \<Rightarrow> idem_row list \<Rightarrow> 's \<Rightarrow> (exn + response) \<times> idem_row list \<times> 's" where
  "intercept hash env t ids required okStatus handler rq rows s =
     (case present (rq_key rq) of
        None \<Rightarrow>
          if required then (Inl IDEM_KEY_REQUIRED, rows, s)
          else (case handler s of
                  (Inl e, s') \<Rightarrow> (Inl e, rows, s')
                | (Inr body, s') \<Rightarrow> (Inr \<lparr>rs_status = okStatus, rs_body = body\<rparr>, rows, s'))
      | Some key \<Rightarrow>
          (case present (rq_user rq) of
             None \<Rightarrow> (Inl (BadRequestException ''Idempotency requires an authenticated user''), rows, s)
           | Some userId \<Rightarrow>
               (case reserve RESERVE_FUEL t ids userId key (fingerprint hash rq) rows of
                  None \<Rightarrow> (Inl (OtherError ''out of fuel''), rows, s)
                | Some (Inl e, rows') \<Rightarrow> (Inl e, rows', s)
                | Some (Inr (ResReplay st body), rows') \<Rightarrow> (Inr \<lparr>rs_status = st, rs_body = body\<rparr>, rows', s)
                | Some (Inr ResMismatch, rows') \<Rightarrow> (Inl IDEM_MISMATCH, rows', s)
                | Some (Inr ResInProgress, rows') \<Rightarrow> (Inl IDEM_IN_PROGRESS, rows', s)
                | Some (Inr (ResNew i), rows') \<Rightarrow> run_reserved env okStatus handler i rows' s)))"

section \<open>The store's invariant and the fuel\<close>

definition idem_ok :: "idem_row list \<Rightarrow> bool" where
  "idem_ok rows \<longleftrightarrow> distinct (map ik_id rows) \<and> distinct (map (\<lambda>r. (ik_userId r, ik_key r)) rows)"

lemma idem_ok_del: "idem_ok rows \<Longrightarrow> idem_ok (del_rows P rows)"
  by (simp add: idem_ok_def distinct_map_del)

lemma idem_create_Inr:
  "idem_create r rows = Inr rows' \<longleftrightarrow>
     (\<forall>s \<in> set rows. \<not> same_key (ik_userId r) (ik_key r) s \<and> ik_id r \<noteq> ik_id s) \<and> rows' = rows @ [r]"
  by (auto simp: idem_create_def)

lemma idem_create_ok: "idem_create r rows = Inr rows' \<Longrightarrow> idem_ok rows \<Longrightarrow> idem_ok rows'"
  unfolding idem_create_Inr by (force simp: idem_ok_def same_key_def)

definition fresh_ids :: "(nat \<Rightarrow> string) \<Rightarrow> idem_row list \<Rightarrow> bool" where
  "fresh_ids ids rows \<longleftrightarrow> (\<forall>n. \<forall>r \<in> set rows. ids n \<noteq> ik_id r)"

text \<open>No row for the key: the key is reserved at the first attempt.\<close>

lemma reserve_new:
  assumes "\<forall>r \<in> set rows. \<not> same_key userId key r" and "fresh_ids ids rows"
  shows "reserve (Suc fuel) t ids userId key fp rows =
     Some (Inr (ResNew (ids fuel)), rows @ [new_idem t (ids fuel) userId key fp])"
proof -
  have "idem_create (new_idem t (ids fuel) userId key fp) rows = Inr (rows @ [new_idem t (ids fuel) userId key fp])"
    using assms by (simp add: idem_create_Inr new_idem_def fresh_ids_def)
  then show ?thesis by simp
qed

lemma find_same_key:
  assumes "idem_ok rows" "r \<in> set rows" "same_key userId key r"
  shows "List.find (same_key userId key) rows = Some r"
proof (cases "List.find (same_key userId key) rows")
  case None
  then show ?thesis using assms by (simp add: find_None_iff_all)
next
  case (Some s)
  then have "s \<in> set rows" "same_key userId key s" using find_Some_in by fastforce+
  then have "s = r"
    using distinct_key_unique [of "\<lambda>r. (ik_userId r, ik_key r)" rows s r] assms
    by (auto simp: idem_ok_def same_key_def)
  then show ?thesis using Some by simp
qed

lemma reserve_collision:
  assumes "idem_ok rows" "r \<in> set rows" "same_key userId key r"
  shows "reserve (Suc fuel) t ids userId key fp rows =
     (if ik_createdAt r < t - IDEM_TTL_MS
      then reserve fuel t ids userId key fp (del_rows (\<lambda>s. ik_id s = ik_id r) rows)
      else if ik_fingerprint r \<noteq> fp then Some (Inr ResMismatch, rows)
      else if \<not> ik_completed r then Some (Inr ResInProgress, rows)
      else Some (Inr (ResReplay (case ik_statusCode r of None \<Rightarrow> 200 | Some s \<Rightarrow> s) (ik_responseBody r)), rows))"
proof -
  have "idem_create (new_idem t (ids fuel) userId key fp) rows = Inl (PrismaKnown ''P2002'')"
    using assms(2,3) by (auto simp: idem_create_def new_idem_def same_key_def)
  then show ?thesis by (simp add: find_same_key [OF assms])
qed

lemma fresh_ids_del: "fresh_ids ids rows \<Longrightarrow> fresh_ids ids (del_rows P rows)"
  by (simp add: fresh_ids_def set_del_rows)

lemma no_key_after_del:
  assumes "idem_ok rows" "r \<in> set rows" "same_key userId key r"
  shows "\<forall>s \<in> set (del_rows (\<lambda>s. ik_id s = ik_id r) rows). \<not> same_key userId key s"
proof
  fix s assume s: "s \<in> set (del_rows (\<lambda>s. ik_id s = ik_id r) rows)"
  then have "s \<in> set rows" "s \<noteq> r" by (auto simp: set_del_rows)
  then show "\<not> same_key userId key s"
    using distinct_key_unique [of "\<lambda>r. (ik_userId r, ik_key r)" rows s r] assms
    by (auto simp: idem_ok_def same_key_def)
qed

text \<open>Two attempts are enough. On a well-formed store, reserving with fresh row ids ends: it
  removes at most one expired row and then either reserves the key or reports on the row it found.
  More fuel changes nothing but the choice of id.\<close>

theorem reserve_ends:
  assumes ok: "idem_ok rows" and fresh: "fresh_ids ids rows"
  shows "\<exists>res rows'. reserve RESERVE_FUEL t ids userId key fp rows = Some (Inr res, rows') \<and> idem_ok rows' \<and>
     (\<forall>s. \<not> same_key userId key s \<longrightarrow> (s \<in> set rows' \<longleftrightarrow> s \<in> set rows))"
proof (cases "\<exists>r \<in> set rows. same_key userId key r")
  case False
  then have none: "\<forall>r \<in> set rows. \<not> same_key userId key r" by blast
  have "reserve RESERVE_FUEL t ids userId key fp rows =
      Some (Inr (ResNew (ids 1)), rows @ [new_idem t (ids 1) userId key fp])"
    using reserve_new [OF none fresh, of 1] by (simp add: RESERVE_FUEL_def numeral_2_eq_2)
  moreover have "idem_ok (rows @ [new_idem t (ids 1) userId key fp])"
    using ok none fresh by (force simp: idem_ok_def same_key_def new_idem_def fresh_ids_def)
  ultimately show ?thesis by (auto simp: same_key_def new_idem_def)
next
  case True
  then obtain r where r: "r \<in> set rows" "same_key userId key r" by blast
  note step = reserve_collision [OF ok r, of 1 t ids fp]
  show ?thesis
  proof (cases "ik_createdAt r < t - IDEM_TTL_MS")
    case False
    then show ?thesis using step ok by (simp add: RESERVE_FUEL_def numeral_2_eq_2)
  next
    case expired: True
    let ?rest = "del_rows (\<lambda>s. ik_id s = ik_id r) rows"
    note rest = no_key_after_del [OF ok r] fresh_ids_del [OF fresh, of "\<lambda>s. ik_id s = ik_id r"]
    have res: "reserve RESERVE_FUEL t ids userId key fp rows =
        Some (Inr (ResNew (ids 0)), ?rest @ [new_idem t (ids 0) userId key fp])"
      using step expired reserve_new [OF rest, of 0] by (simp add: RESERVE_FUEL_def numeral_2_eq_2)
    have "idem_ok (?rest @ [new_idem t (ids 0) userId key fp])"
      using idem_ok_del [OF ok, of "\<lambda>s. ik_id s = ik_id r"] rest
      by (force simp: idem_ok_def same_key_def new_idem_def fresh_ids_def)
    moreover have "s \<in> set ?rest \<longleftrightarrow> s \<in> set rows" if "\<not> same_key userId key s" for s
      using that r distinct_key_unique [of ik_id rows s r] ok by (auto simp: set_del_rows idem_ok_def)
    ultimately show ?thesis using res by (auto simp: same_key_def new_idem_def)
  qed
qed

definition demo_ids :: "nat \<Rightarrow> string" where
  "demo_ids n = ''i'' @ show_nat n"

definition expired_row :: idem_row where
  "expired_row = (new_idem 0 ''old'' ''u1'' ''k'' ''fp'')\<lparr>ik_completed := True\<rparr>"

lemma reserve_ends_witness:
  "\<exists>res rows'. reserve RESERVE_FUEL 90000000 demo_ids ''u1'' ''k'' ''fp'' [expired_row] = Some (Inr res, rows')"
  using reserve_ends [of "[expired_row]" demo_ids 90000000 "''u1''" "''k''" "''fp''"]
  by (auto simp: idem_ok_def fresh_ids_def expired_row_def new_idem_def demo_ids_def)

section \<open>At most one run per key\<close>

lemma intercept_existing:
  assumes ok: "idem_ok rows" and r: "r \<in> set rows" "ik_userId r = userId" "ik_key r = key"
    and live: "t \<le> ik_createdAt r + IDEM_TTL_MS"
    and rq: "rq_user rq = Some userId" "rq_key rq = Some key" "userId \<noteq> []" "key \<noteq> []"
  shows "intercept hash env t ids required okStatus handler rq rows s =
     (if ik_fingerprint r \<noteq> fingerprint hash rq then Inl IDEM_MISMATCH
      else if \<not> ik_completed r then Inl IDEM_IN_PROGRESS
      else Inr \<lparr>rs_status = (case ik_statusCode r of None \<Rightarrow> 200 | Some st \<Rightarrow> st), rs_body = ik_responseBody r\<rparr>,
      rows, s)"
proof -
  have "reserve RESERVE_FUEL t ids userId key (fingerprint hash rq) rows =
     (if ik_fingerprint r \<noteq> fingerprint hash rq then Some (Inr ResMismatch, rows)
      else if \<not> ik_completed r then Some (Inr ResInProgress, rows)
      else Some (Inr (ResReplay (case ik_statusCode r of None \<Rightarrow> 200 | Some s \<Rightarrow> s) (ik_responseBody r)), rows))"
    using reserve_collision [OF ok r(1), of userId key 1 t ids] r(2,3) live
    by (simp add: RESERVE_FUEL_def numeral_2_eq_2 same_key_def)
  then show ?thesis using rq by (auto simp: intercept_def present_def)
qed

text \<open>C9: while a key is reserved or its response stored, for 24 hours, no request with that key
  runs the handler: the same request gets the stored response, or a conflict while the first is
  in progress, and a different request gets a conflict.\<close>

theorem handler_runs_once_per_key:
  assumes ok: "idem_ok rows" and r: "r \<in> set rows" "ik_userId r = userId" "ik_key r = key"
    and live: "t \<le> ik_createdAt r + IDEM_TTL_MS"
    and rq: "rq_user rq = Some userId" "rq_key rq = Some key" "userId \<noteq> []" "key \<noteq> []"
  shows "intercept hash env t ids required okStatus handler rq rows s =
     (if ik_fingerprint r \<noteq> fingerprint hash rq then Inl IDEM_MISMATCH
      else if \<not> ik_completed r then Inl IDEM_IN_PROGRESS
      else Inr \<lparr>rs_status = (case ik_statusCode r of None \<Rightarrow> 200 | Some st \<Rightarrow> st), rs_body = ik_responseBody r\<rparr>,
      rows, s)"
  by (rule intercept_existing [OF assms])

text \<open>A counter stands for the money a handler moves.\<close>

definition count_handler :: "nat handler" where
  "count_handler n = (Inr (JStr ''t1''), Suc n)"

definition demo_request :: request where
  "demo_request = \<lparr>rq_user = Some ''u1'', rq_key = Some ''k'', rq_method = ''POST'',
     rq_url = ''/wallets/w1/transfers'', rq_bodyText = ''{}''\<rparr>"

definition no_errors :: idem_env where
  "no_errors = \<lparr>complete_err = None, release_err = None\<rparr>"

lemma handler_runs_once_per_key_witness:
  "snd (snd (intercept (\<lambda>s. s) no_errors 5000 demo_ids True 201 count_handler demo_request
      [new_idem 1000 ''i1'' ''u1'' ''k'' ''fp''] 7)) = 7"
  by (subst handler_runs_once_per_key [where r = "new_idem 1000 ''i1'' ''u1'' ''k'' ''fp''" and userId = "''u1''" and key = "''k''"])
    (simp_all add: idem_ok_def new_idem_def IDEM_TTL_MS_def demo_request_def)

text \<open>The first request with a fresh key.\<close>

lemma intercept_fresh:
  assumes none: "\<forall>r \<in> set rows. \<not> same_key userId key r" and fresh: "fresh_ids ids rows"
    and rq: "rq_user rq = Some userId" "rq_key rq = Some key" "userId \<noteq> []" "key \<noteq> []"
  shows "intercept hash env t ids required okStatus handler rq rows s =
     run_reserved env okStatus handler (ids 1) (rows @ [new_idem t (ids 1) userId key (fingerprint hash rq)]) s"
  using reserve_new [OF none fresh, of 1 t "fingerprint hash rq"] rq
  by (simp add: intercept_def present_def RESERVE_FUEL_def numeral_2_eq_2)

lemma complete_new:
  "\<forall>r \<in> set rows. ik_id r \<noteq> i \<Longrightarrow>
   complete i st body (rows @ [new_idem t i u k fp]) =
     Inr (rows @ [(new_idem t i u k fp)\<lparr>ik_completed := True, ik_statusCode := Some st, ik_responseBody := body\<rparr>])"
  by (simp add: complete_def new_idem_def upd_rows_idle)

lemma release_new:
  "\<forall>r \<in> set rows. ik_id r \<noteq> i \<Longrightarrow> release i (rows @ [new_idem t i u k fp]) = rows"
  by (simp add: release_def new_idem_def del_rows_def)

text \<open>A retry of a request that succeeded gets the first answer. Sent again within 24 hours with
  the same key, it returns the stored status and body and the handler's state is as the first
  run left it.\<close>

theorem retry_replays:
  assumes ok: "idem_ok rows" and none: "\<forall>r \<in> set rows. \<not> same_key userId key r" and fresh: "fresh_ids ids rows"
    and rq: "rq_user rq = Some userId" "rq_key rq = Some key" "userId \<noteq> []" "key \<noteq> []"
    and run: "handler s = (Inr body, s1)" and t': "t' \<le> t + IDEM_TTL_MS"
    and first: "intercept hash no_errors t ids required okStatus handler rq rows s = (res, rows1, s2)"
  shows "res = Inr \<lparr>rs_status = okStatus, rs_body = body\<rparr> \<and> s2 = s1 \<and>
     intercept hash env t' ids' required okStatus handler' rq rows1 s2 = (res, rows1, s1)"
proof -
  let ?new = "new_idem t (ids 1) userId key (fingerprint hash rq)"
  let ?r = "?new\<lparr>ik_completed := True, ik_statusCode := Some okStatus, ik_responseBody := body\<rparr>"
  have "\<forall>r \<in> set rows. ik_id r \<noteq> ids 1" using fresh by (force simp: fresh_ids_def)
  then have 1: "(res, rows1, s2) = (Inr \<lparr>rs_status = okStatus, rs_body = body\<rparr>, rows @ [?r], s1)"
    using first unfolding intercept_fresh [OF none fresh rq]
    by (simp add: run_reserved_def run complete_new no_errors_def)
  have "idem_ok (rows @ [?r])"
    using ok none fresh by (force simp: idem_ok_def same_key_def new_idem_def fresh_ids_def)
  then have "intercept hash env t' ids' required okStatus handler' rq (rows @ [?r]) s1 =
      (Inr \<lparr>rs_status = okStatus, rs_body = body\<rparr>, rows @ [?r], s1)"
    using t' intercept_existing [of "rows @ [?r]" ?r userId key t' rq hash env ids' required okStatus handler' s1] rq
    by (simp add: new_idem_def)
  then show ?thesis using 1 by simp
qed

lemma retry_replays_witness:
  "intercept (\<lambda>s. s) no_errors 6000 demo_ids True 201 count_handler demo_request
     (fst (snd (intercept (\<lambda>s. s) no_errors 5000 demo_ids True 201 count_handler demo_request [] 0))) 1 =
   (Inr \<lparr>rs_status = 201, rs_body = JStr ''t1''\<rparr>,
    fst (snd (intercept (\<lambda>s. s) no_errors 5000 demo_ids True 201 count_handler demo_request [] 0)), 1)"
proof -
  obtain res rows1 s2 where
    first: "intercept (\<lambda>s. s) no_errors 5000 demo_ids True 201 count_handler demo_request [] 0 = (res, rows1, s2)"
    by (metis prod_cases3)
  have "res = Inr \<lparr>rs_status = 201, rs_body = JStr ''t1''\<rparr> \<and> s2 = 1 \<and>
     intercept (\<lambda>s. s) no_errors 6000 demo_ids True 201 count_handler demo_request rows1 s2 = (res, rows1, 1)"
    by (rule retry_replays [where userId = "''u1''" and key = "''k''", OF _ _ _ _ _ _ _ _ _ first])
      (simp_all add: idem_ok_def fresh_ids_def demo_request_def count_handler_def IDEM_TTL_MS_def)
  then have "res = Inr \<lparr>rs_status = 201, rs_body = JStr ''t1''\<rparr>" "s2 = 1"
     "intercept (\<lambda>s. s) no_errors 6000 demo_ids True 201 count_handler demo_request rows1 s2 = (res, rows1, 1)"
    by blast+
  then show ?thesis by (simp only: first fst_conv snd_conv)
qed

text \<open>A failed request can be retried: when the handler fails, its key is free again and the
  store as it was, so the next request with the key runs the handler.\<close>

theorem failure_frees_key:
  assumes none: "\<forall>r \<in> set rows. \<not> same_key userId key r" and fresh: "fresh_ids ids rows"
    and rq: "rq_user rq = Some userId" "rq_key rq = Some key" "userId \<noteq> []" "key \<noteq> []"
    and run: "handler s = (Inl e, s1)"
  shows "intercept hash no_errors t ids required okStatus handler rq rows s = (Inl e, rows, s1)"
proof -
  have "\<forall>r \<in> set rows. ik_id r \<noteq> ids 1" using fresh by (force simp: fresh_ids_def)
  then show ?thesis
    unfolding intercept_fresh [OF none fresh rq]
    by (simp add: run_reserved_def run release_and_fail_def release_new no_errors_def)
qed

lemma failure_frees_key_witness:
  "intercept (\<lambda>s. s) no_errors 5000 demo_ids True 201 (\<lambda>n::nat. (Inl (BadRequestException ''Insufficient funds''), n))
     demo_request [] 3 = (Inl (BadRequestException ''Insufficient funds''), [], 3)"
  by (rule failure_frees_key [where userId = "''u1''" and key = "''k''"]) (simp_all add: fresh_ids_def demo_request_def)

text \<open>C27 (a defect): a request whose handler has moved money can be run again. When storing the
  response fails, the same \<open>catchError\<close> that handles a failed handler releases the key, so the
  client's retry with that key runs the handler a second time.\<close>

theorem lost_response_runs_twice:
  assumes none: "\<forall>r \<in> set rows. \<not> same_key userId key r" and fresh: "fresh_ids ids rows" "fresh_ids ids' rows"
    and rq: "rq_user rq = Some userId" "rq_key rq = Some key" "userId \<noteq> []" "key \<noteq> []"
    and run: "handler s = (Inr body, s1)" "handler s1 = (Inr body2, s2)"
    and env: "complete_err env = Some e" "release_err env = None"
  shows "intercept hash env t ids required okStatus handler rq rows s = (Inl e, rows, s1)
     \<and> (\<exists>rows2. intercept hash no_errors t' ids' required okStatus handler rq rows s1 =
          (Inr \<lparr>rs_status = okStatus, rs_body = body2\<rparr>, rows2, s2))"
proof -
  have "\<forall>r \<in> set rows. ik_id r \<noteq> ids 1" "\<forall>r \<in> set rows. ik_id r \<noteq> ids' 1"
    using fresh by (force simp: fresh_ids_def)+
  then show ?thesis
    unfolding intercept_fresh [OF none fresh(1) rq] intercept_fresh [OF none fresh(2) rq]
    by (simp add: run_reserved_def run env release_and_fail_def release_new complete_new no_errors_def)
qed

lemma lost_response_runs_twice_witness:
  "intercept (\<lambda>s. s) \<lparr>complete_err = Some (OtherError ''db down''), release_err = None\<rparr> 5000 demo_ids True 201
     count_handler demo_request [] 0 = (Inl (OtherError ''db down''), [], 1)
   \<and> (\<exists>rows2. intercept (\<lambda>s. s) no_errors 6000 demo_ids True 201 count_handler demo_request [] 1 =
        (Inr \<lparr>rs_status = 201, rs_body = JStr ''t1''\<rparr>, rows2, 2))"
  by (rule lost_response_runs_twice [where userId = "''u1''" and key = "''k''"])
    (simp_all add: fresh_ids_def demo_request_def count_handler_def)

end
