(* ===== verification/Views.thy ===== *)
theory Views
  imports Wallets Alerts Idempotency Inputs "HOL-Library.AList" "HOL-Library.Extended_Nat"
begin

text \<open>
  The pure rules behind the screens. Staff console: the table state in the URL
  (\<open>frontend/lib/table/params.ts\<close>, \<open>configs.ts\<close>, the pagination buttons), the navigation
  (\<open>lib/nav.ts\<close>) and the audit diff (\<open>lib/audit-diff.ts\<close>). Customer app: the statement's day groups,
  the portfolio, live prices over the server's list, the chart's bars, and small formats. Numbers
  are exact; \<open>Number()\<close> of an arbitrary string and the locale's formatting are parameters.
\<close>

section \<open>Table state in the URL\<close>

datatype js_number = JsNaN | JsInf | JsNegInf | JsFin rat

definition PAGE_SIZES :: "nat list" where "PAGE_SIZES = [20, 50, 100]"

record table_config =
  tc_sortFields :: "string list"
  tc_defaultSort :: string
  tc_filterKeys :: "string list"
  tc_defaultSize :: "nat option"

record table_params =
  tp_q :: string
  tp_sort :: string
  tp_page :: enat
  tp_size :: nat
  tp_filters :: "(string \<times> string) list"
  tp_skip :: enat
  tp_take :: nat

datatype raw_param = RawOne string | RawMany "string list"

definition first_param :: "raw_param option \<Rightarrow> string" where
  "first_param v = (case v of None \<Rightarrow> [] | Some (RawOne s) \<Rightarrow> s | Some (RawMany ss) \<Rightarrow> (case ss of [] \<Rightarrow> [] | s # _ \<Rightarrow> s))"

definition default_size :: "table_config \<Rightarrow> nat" where
  "default_size cfg = (case tc_defaultSize cfg of Some n \<Rightarrow> n | None \<Rightarrow> 20)"

text \<open>The first two parts of \<open>s.split(':')\<close>.\<close>

definition split_colon :: "string \<Rightarrow> string \<times> string option" where
  "split_colon s =
     (let f = takeWhile (\<lambda>c. c \<noteq> CHR '':'') s; r = dropWhile (\<lambda>c. c \<noteq> CHR '':'') s
      in (f, if r = [] then None else Some (takeWhile (\<lambda>c. c \<noteq> CHR '':'') (tl r))))"

definition parse_sort :: "table_config \<Rightarrow> string \<Rightarrow> string" where
  "parse_sort cfg s =
     (case split_colon s of
        (field, Some dir) \<Rightarrow>
          if List.member (tc_sortFields cfg) field \<and> (dir = ''asc'' \<or> dir = ''desc'')
          then field @ '':'' @ dir else tc_defaultSort cfg
      | (field, None) \<Rightarrow> tc_defaultSort cfg)"

definition parse_size :: "table_config \<Rightarrow> js_number \<Rightarrow> nat" where
  "parse_size cfg x =
     (case x of
        JsFin r \<Rightarrow> (case List.find (\<lambda>n. of_nat n = r) PAGE_SIZES of Some n \<Rightarrow> n | None \<Rightarrow> default_size cfg)
      | _ \<Rightarrow> default_size cfg)"

text \<open>\<open>Math.max(1, Math.floor(Number(s) || 1))\<close>\<close>

definition parse_page :: "js_number \<Rightarrow> enat" where
  "parse_page x =
     (case x of JsNaN \<Rightarrow> 1 | JsInf \<Rightarrow> \<infinity> | JsNegInf \<Rightarrow> 1
      | JsFin r \<Rightarrow> enat (max 1 (nat \<lfloor>if r = 0 then 1 else r\<rfloor>)))"

definition parse_filters :: "(string \<Rightarrow> raw_param option) \<Rightarrow> string list \<Rightarrow> (string \<times> string) list" where
  "parse_filters raw keys =
     concat (map (\<lambda>k. let v = trim (first_param (raw k)) in if v = [] then [] else [(k, take 60 v)]) keys)"

definition skip_of :: "enat \<Rightarrow> nat \<Rightarrow> enat" where
  "skip_of pg n = (pg - 1) * enat n"

definition parseTableParams ::
  "(string \<Rightarrow> js_number) \<Rightarrow> (string \<Rightarrow> raw_param option) \<Rightarrow> table_config \<Rightarrow> table_params" where
  "parseTableParams num raw cfg =
     (let size = parse_size cfg (num (first_param (raw ''size'')));
          pg = parse_page (num (first_param (raw ''page'')))
      in \<lparr>tp_q = take 100 (trim (first_param (raw ''q''))), tp_sort = parse_sort cfg (first_param (raw ''sort'')),
          tp_page = pg, tp_size = size, tp_filters = parse_filters raw (tc_filterKeys cfg),
          tp_skip = skip_of pg size, tp_take = size\<rparr>)"

text \<open>The parameters of a query string, in order; \<open>set\<close> of \<open>URLSearchParams\<close>.\<close>

type_synonym search_params = "(string \<times> string) list"

definition sp_set :: "string \<Rightarrow> string \<Rightarrow> search_params \<Rightarrow> search_params" where
  "sp_set k v sp = (if List.member (map fst sp) k then AList.update k v sp else sp @ [(k, v)])"

definition show_enat :: "enat \<Rightarrow> string" where
  "show_enat n = (case n of enat k \<Rightarrow> show_nat k | \<infinity> \<Rightarrow> ''Infinity'')"

definition set_if :: "bool \<Rightarrow> string \<Rightarrow> string \<Rightarrow> search_params \<Rightarrow> search_params" where
  "set_if b k v sp = (if b then sp_set k v sp else sp)"

definition apiQuery :: "bool \<Rightarrow> table_params \<Rightarrow> search_params" where
  "apiQuery with_sort p =
     fold (\<lambda>(k, v). sp_set k v) (tp_filters p)
       (sp_set ''take'' (show_nat (tp_take p)) (sp_set ''skip'' (show_enat (tp_skip p))
         (set_if with_sort ''sort'' (tp_sort p) (set_if (tp_q p \<noteq> []) ''q'' (tp_q p) []))))"

record table_patch =
  pt_q :: "string option"
  pt_sort :: "string option"
  pt_page :: "enat option"
  pt_size :: "nat option"
  pt_filters :: "(string \<times> string option) list option"

definition patch_filter :: "string \<times> string option \<Rightarrow> (string \<times> string) list \<Rightarrow> (string \<times> string) list" where
  "patch_filter kv fs =
     (case kv of (k, v) \<Rightarrow>
        (case present v of Some s \<Rightarrow> sp_set k s fs | None \<Rightarrow> filter (\<lambda>p. fst p \<noteq> k) fs))"

definition patch_resets :: "table_patch \<Rightarrow> bool" where
  "patch_resets patch \<longleftrightarrow> pt_q patch \<noteq> None \<or> pt_sort patch \<noteq> None \<or> pt_size patch \<noteq> None \<or> pt_filters patch \<noteq> None"

text \<open>\<open>tableHref\<close> before the parameters are written as text.\<close>

definition filter_params :: "string list \<Rightarrow> (string \<times> string) list \<Rightarrow> search_params \<Rightarrow> search_params" where
  "filter_params keys fs sp =
     fold (\<lambda>k sp. case present (map_of fs k) of Some v \<Rightarrow> sp_set k v sp | None \<Rightarrow> sp) keys sp"

definition tableHref_params :: "table_params \<Rightarrow> table_patch \<Rightarrow> table_config \<Rightarrow> search_params" where
  "tableHref_params current patch cfg =
     (let q = opt_default (pt_q patch) (tp_q current);
          srt = opt_default (pt_sort patch) (tp_sort current);
          size = opt_default (pt_size patch) (tp_size current);
          filters = fold patch_filter (opt_default (pt_filters patch) []) (tp_filters current);
          pg = (if patch_resets patch then 1 else opt_default (pt_page patch) (tp_page current))
      in filter_params (tc_filterKeys cfg) filters
           (set_if (size \<noteq> default_size cfg) ''size'' (show_nat size)
             (set_if (1 < pg) ''page'' (show_enat pg)
               (set_if (srt \<noteq> tc_defaultSort cfg) ''sort'' srt
                 (set_if (q \<noteq> []) ''q'' q [])))))"

text \<open>\<open>tableHref\<close>; \<open>enc\<close> is the URL encoding of one key or value.\<close>

definition tableHref :: "(string \<Rightarrow> string) \<Rightarrow> string \<Rightarrow> table_params \<Rightarrow> table_patch \<Rightarrow> table_config \<Rightarrow> string" where
  "tableHref enc pathname current patch cfg =
     (let sp = tableHref_params current patch cfg
      in if sp = [] then pathname
         else pathname @ ''?'' @ join ''&'' (map (\<lambda>(k, v). enc k @ ''='' @ enc v) sp))"

definition pageLabel :: "table_params \<Rightarrow> nat \<Rightarrow> string" where
  "pageLabel p n =
     (if n = 0 then ''No results''
      else show_enat (tp_skip p + 1) @ [CHR 0xE2, CHR 0x80, CHR 0x93]
           @ show_enat (min (tp_skip p + enat (tp_take p)) (enat n)) @ '' of '' @ show_nat n)"

definition WALLETS_TABLE :: table_config where
  "WALLETS_TABLE = \<lparr>tc_sortFields = [''balance'', ''createdAt'', ''name''], tc_defaultSort = ''createdAt:asc'',
     tc_filterKeys = [''currency''], tc_defaultSize = None\<rparr>"

definition USERS_TABLE :: table_config where
  "USERS_TABLE = \<lparr>tc_sortFields = [''createdAt'', ''email'', ''status''], tc_defaultSort = ''createdAt:desc'',
     tc_filterKeys = [''role'', ''status''], tc_defaultSize = None\<rparr>"

definition AUDIT_TABLE :: table_config where
  "AUDIT_TABLE = \<lparr>tc_sortFields = [], tc_defaultSort = ''createdAt:desc'',
     tc_filterKeys = [''entityType'', ''action'', ''actorId'', ''from'', ''to''], tc_defaultSize = None\<rparr>"


section \<open>Navigation\<close>

record nav_item =
  ni_href :: string
  ni_label :: string
  ni_permission :: "string option"
  ni_badge :: "string option"

record nav_group =
  ng_label :: string
  ng_items :: "nav_item list"

definition nav :: "string \<Rightarrow> string \<Rightarrow> string option \<Rightarrow> string option \<Rightarrow> nav_item" where
  "nav href label perm badge = \<lparr>ni_href = href, ni_label = label, ni_permission = perm, ni_badge = badge\<rparr>"

definition GROUPS :: "nav_group list" where
  "GROUPS =
     [\<lparr>ng_label = ''Overview'', ng_items = [nav ''/'' ''Dashboard'' None None]\<rparr>,
      \<lparr>ng_label = ''Operations'', ng_items =
         [nav ''/approvals'' ''Approvals'' (Some ''deposit.approve'') (Some ''pending''),
          nav ''/wallets'' ''Wallets'' (Some ''transaction.view_all'') None]\<rparr>,
      \<lparr>ng_label = ''Administration'', ng_items =
         [nav ''/users'' ''Users'' (Some ''user.manage'') None, nav ''/audit'' ''Audit'' (Some ''audit.view'') None]\<rparr>]"

definition item_visible :: "string \<Rightarrow> nav_item \<Rightarrow> bool" where
  "item_visible role i = (case ni_permission i of None \<Rightarrow> True | Some p \<Rightarrow> roleHasPermission role p)"

definition navGroupsForRole :: "string \<Rightarrow> nav_group list" where
  "navGroupsForRole role =
     filter (\<lambda>g. 0 < length (ng_items g)) (map (\<lambda>g. g\<lparr>ng_items := filter (item_visible role) (ng_items g)\<rparr>) GROUPS)"

definition isActivePath :: "string \<Rightarrow> string \<Rightarrow> bool" where
  "isActivePath href pathname = (if href = ''/'' then pathname = ''/'' else starts_with pathname href)"

definition SEGMENT_LABELS :: "(string \<times> string) list" where
  "SEGMENT_LABELS = [([], ''Dashboard''), (''approvals'', ''Approvals''), (''wallets'', ''Wallets''),
     (''users'', ''Users''), (''audit'', ''Audit'')]"

definition NAV_ITEMS :: "(string \<times> string) list" where
  "NAV_ITEMS = [(''/'', ''Home''), (''/pay'', ''Pay''), (''/markets'', ''Markets''), (''/profile'', ''Profile'')]"

section \<open>Audit diff\<close>

datatype diff_kind = Changed | Added | Removed

record diff_row =
  df_key :: string
  df_before :: "jval option"
  df_after :: "jval option"
  df_kind :: diff_kind

definition snapshot_fields :: "jval \<Rightarrow> (string \<times> jval) list" where
  "snapshot_fields v = (case v of JObj fs \<Rightarrow> fs | _ \<Rightarrow> [])"

text \<open>\<open>Array.from(new Set(xs))\<close>: the first occurrence of each element.\<close>

definition uniq :: "'a list \<Rightarrow> 'a list" where "uniq xs = rev (remdups (rev xs))"

definition diff_key :: "(string \<times> jval) list \<Rightarrow> (string \<times> jval) list \<Rightarrow> string \<Rightarrow> diff_row list" where
  "diff_key a b key =
     (case (map_of a key, map_of b key) of
        (Some x, Some y) \<Rightarrow>
          if x \<noteq> y then [\<lparr>df_key = key, df_before = Some x, df_after = Some y, df_kind = Changed\<rparr>] else []
      | (None, Some y) \<Rightarrow> [\<lparr>df_key = key, df_before = None, df_after = Some y, df_kind = Added\<rparr>]
      | (Some x, None) \<Rightarrow> [\<lparr>df_key = key, df_before = Some x, df_after = None, df_kind = Removed\<rparr>]
      | (None, None) \<Rightarrow> [])"

definition diffSnapshots :: "jval \<Rightarrow> jval \<Rightarrow> diff_row list" where
  "diffSnapshots oldValue newValue =
     (let a = snapshot_fields oldValue; b = snapshot_fields newValue
      in concat (map (diff_key a b) (uniq (map fst a @ map fst b))))"

definition MONEY_KEYS :: "string list" where
  "MONEY_KEYS = [''amount'', ''balance'', ''balanceBefore'', ''balanceAfter'', ''credit'']"

definition humanKey :: "string \<Rightarrow> string" where
  "humanKey key =
     to_lower (map (\<lambda>c. if c = CHR ''_'' then CHR '' '' else c)
       (concat (map (\<lambda>c. if CHR ''A'' \<le> c \<and> c \<le> CHR ''Z'' then [CHR '' '', c] else [c]) key)))"

section \<open>Statements and times\<close>

text \<open>
  \<open>dayLabel\<close>: the viewer's calendar is a parameter (the local midnight of a time, its year, and the
  short date with or without the year); times are milliseconds.
\<close>

record calendar =
  cal_startOfDay :: "int \<Rightarrow> int"
  cal_year :: "int \<Rightarrow> int"
  cal_short :: "bool \<Rightarrow> int \<Rightarrow> string"

text \<open>\<open>Math.round(a / b)\<close> for a positive \<open>b\<close>: halves go up.\<close>

definition math_round :: "int \<Rightarrow> int \<Rightarrow> int" where
  "math_round a b = (2 * a + b) div (2 * b)"

definition dayLabel :: "calendar \<Rightarrow> int \<Rightarrow> int \<Rightarrow> string" where
  "dayLabel cal d now_ms =
     (let days = math_round (cal_startOfDay cal now_ms - cal_startOfDay cal d) 86400000
      in if days = 0 then ''Today'' else if days = 1 then ''Yesterday''
         else cal_short cal (cal_year cal d \<noteq> cal_year cal now_ms) d)"

definition group_step :: "('r \<Rightarrow> string) \<Rightarrow> (string \<times> 'r list) list \<Rightarrow> 'r \<Rightarrow> (string \<times> 'r list) list" where
  "group_step label groups row =
     (if groups \<noteq> [] \<and> fst (last groups) = label row
      then butlast groups @ [(fst (last groups), snd (last groups) @ [row])]
      else groups @ [(label row, [row])])"

definition groupByDay :: "calendar \<Rightarrow> ('r \<Rightarrow> int) \<Rightarrow> int \<Rightarrow> 'r list \<Rightarrow> (string \<times> 'r list) list" where
  "groupByDay cal createdAt now_ms rows = foldl (group_step (\<lambda>r. dayLabel cal (createdAt r) now_ms)) [] rows"

definition relativeTime :: "(int \<Rightarrow> string) \<Rightarrow> int \<Rightarrow> int \<Rightarrow> string" where
  "relativeTime local_date then_ms now_ms =
     (let s = max 0 (math_round (now_ms - then_ms) 1000)
      in if s < 60 then ''just now''
         else let m = math_round s 60
              in if m < 60 then show_int m @ ''m ago''
                 else let h = math_round m 60
                      in if h < 24 then show_int h @ ''h ago''
                         else let d = math_round h 24
                              in if d < 30 then show_int d @ ''d ago'' else local_date then_ms)"

definition split_spaces :: "string \<Rightarrow> string list" where
  "split_spaces s = foldr (\<lambda>c acc. if c = CHR '' '' then [] # acc else (c # hd acc) # tl acc) s [[]]"

definition initials :: "string \<Rightarrow> string \<Rightarrow> string" where
  "initials name fallback =
     (let s = to_upper (take 2 (concat (map (take 1) (split_spaces name)))) in if s = [] then fallback else s)"

section \<open>Portfolio, live prices and charts\<close>

record 'n pf_price =
  pp_id :: string
  pp_symbol :: string
  pp_name :: string
  pp_price :: 'n
  pp_image :: "string option"

record 'n holding_row =
  hr_id :: string
  hr_symbol :: string
  hr_name :: string
  hr_image :: "string option"
  hr_quantity :: 'n
  hr_currentPrice :: 'n
  hr_value :: 'n
  hr_invested :: 'n
  hr_pnl :: 'n
  hr_pnlPct :: 'n

record 'n portfolio =
  po_rows :: "'n holding_row list"
  po_totalValue :: 'n
  po_totalInvested :: 'n
  po_totalPnl :: 'n
  po_totalPnlPct :: 'n

definition holding_view ::
  "('n::linordered_field) pf_price list \<Rightarrow> 'n holding \<Rightarrow> 'n holding_row option" where
  "holding_view prices h =
     (case price_map pp_symbol prices (hd_symbol h) of
        None \<Rightarrow> None
      | Some p \<Rightarrow>
          (let v = hd_quantity h * pp_price p; invested = hd_quantity h * hd_avgCost h
           in Some \<lparr>hr_id = pp_id p, hr_symbol = hd_symbol h, hr_name = pp_name p, hr_image = pp_image p,
                hr_quantity = hd_quantity h, hr_currentPrice = pp_price p, hr_value = v, hr_invested = invested,
                hr_pnl = v - invested,
                hr_pnlPct = (if 0 < hd_avgCost h then ((pp_price p - hd_avgCost h) / hd_avgCost h) * 100 else 0)\<rparr>))"

definition computePortfolio ::
  "('n::linordered_field) holding list \<Rightarrow> 'n pf_price list \<Rightarrow> 'n portfolio" where
  "computePortfolio holdings prices =
     (let rows = List.map_filter (holding_view prices) holdings;
          totalValue = foldl (\<lambda>s r. s + hr_value r) 0 rows;
          totalInvested = foldl (\<lambda>s r. s + hr_invested r) 0 rows;
          totalPnl = totalValue - totalInvested
      in \<lparr>po_rows = rows, po_totalValue = totalValue, po_totalInvested = totalInvested, po_totalPnl = totalPnl,
          po_totalPnlPct = (if 0 < totalInvested then (totalPnl / totalInvested) * 100 else 0)\<rparr>)"

definition mergeLivePrices :: "'n market_asset list \<Rightarrow> 'n market_asset list \<Rightarrow> 'n market_asset list" where
  "mergeLivePrices current incoming =
     map (\<lambda>a. case price_map ma_symbol incoming (ma_symbol a) of
            Some live \<Rightarrow> a\<lparr>ma_price := ma_price live, ma_change24h := ma_change24h live\<rparr> | None \<Rightarrow> a) current"

record 'n bar =
  bar_time :: 'n
  bar_open :: 'n
  bar_high :: 'n
  bar_low :: 'n
  bar_close :: 'n

definition toBars :: "'n candle list \<Rightarrow> 'n bar list" where
  "toBars ks = map (\<lambda>k. \<lparr>bar_time = cd_t k, bar_open = cd_o k, bar_high = cd_h k, bar_low = cd_l k,
     bar_close = cd_c k\<rparr>) ks"

definition toLine :: "'n candle list \<Rightarrow> ('n \<times> 'n) list" where
  "toLine ks = map (\<lambda>k. (cd_t k, cd_c k)) ks"

text \<open>Precision and smallest move of the price axis, and the decimals of a printed price.\<close>

definition priceFormat :: "('n::linordered_field) \<Rightarrow> nat \<times> 'n" where
  "priceFormat price = (if price < 1 then (5, 1 / 100000) else (2, 1 / 100))"

definition price_digits :: "('n::linordered_field) \<Rightarrow> nat" where
  "price_digits value = (if value \<noteq> 0 \<and> \<bar>value\<bar> < 1 then 4 else 2)"


section \<open>Table state: facts\<close>

lemma map_of_snoc:
  "k \<notin> fst ` set sp \<Longrightarrow> map_of (sp @ [(k, v)]) k' = (if k' = k then Some v else map_of sp k')"
  by (induction sp) auto

lemma map_of_sp_set: "map_of (sp_set k v sp) k' = (if k' = k then Some v else map_of sp k')"
  by (simp add: sp_set_def update_conv' map_of_snoc del: map_of_append)

lemma map_of_set_if: "map_of (set_if b k v sp) k' = (if b \<and> k' = k then Some v else map_of sp k')"
  by (simp add: set_if_def map_of_sp_set)

lemma map_of_filter_params:
  "map_of (filter_params keys fs sp) k =
     (if List.member keys k \<and> present (map_of fs k) \<noteq> None then present (map_of fs k) else map_of sp k)"
  unfolding filter_params_def
  by (induction keys arbitrary: sp) (auto simp: map_of_sp_set split: option.splits)

lemma size_is_offered: "tc_defaultSize cfg = None \<Longrightarrow> parse_size cfg x \<in> set PAGE_SIZES"
  by (auto simp: parse_size_def default_size_def PAGE_SIZES_def split: js_number.splits)

lemma sort_is_offered:
  "parse_sort cfg s = tc_defaultSort cfg \<or>
   (\<exists>f \<in> set (tc_sortFields cfg). parse_sort cfg s = f @ '':asc'' \<or> parse_sort cfg s = f @ '':desc'')"
  by (auto simp: parse_sort_def split: prod.splits option.splits)

text \<open>Whatever stands in the URL, the console asks the API for something it admits. The page size
  is one of the three offered, within the API's cap of 100, the search text within its 100
  characters, the sort one that the users and wallets services implement, and the rows skipped are
  those of the pages before.\<close>

theorem table_state_is_admissible:
  "tp_size (parseTableParams num raw USERS_TABLE) \<in> {20, 50, 100}
   \<and> (\<forall>cfg. length (tp_q (parseTableParams num raw cfg)) \<le> 100 \<and> 1 \<le> tp_page (parseTableParams num raw cfg)
        \<and> tp_take (parseTableParams num raw cfg) = tp_size (parseTableParams num raw cfg)
        \<and> tp_skip (parseTableParams num raw cfg) =
            (tp_page (parseTableParams num raw cfg) - 1) * enat (tp_size (parseTableParams num raw cfg)))
   \<and> user_order (tp_sort (parseTableParams num raw USERS_TABLE)) \<noteq> None
   \<and> wallet_order (tp_sort (parseTableParams num raw WALLETS_TABLE)) \<noteq> None"
proof (intro conjI allI)
  show "tp_size (parseTableParams num raw USERS_TABLE) \<in> {20, 50, 100}"
    using size_is_offered [of USERS_TABLE "num (first_param (raw ''size''))"]
    by (simp add: parseTableParams_def Let_def PAGE_SIZES_def USERS_TABLE_def)
  show "user_order (tp_sort (parseTableParams num raw USERS_TABLE)) \<noteq> None"
    using sort_is_offered [of USERS_TABLE "first_param (raw ''sort'')"]
    by (auto simp: parseTableParams_def Let_def USERS_TABLE_def user_order_def)
  show "wallet_order (tp_sort (parseTableParams num raw WALLETS_TABLE)) \<noteq> None"
    using sort_is_offered [of WALLETS_TABLE "first_param (raw ''sort'')"]
    by (auto simp: parseTableParams_def Let_def WALLETS_TABLE_def wallet_order_def)
  fix cfg
  show "length (tp_q (parseTableParams num raw cfg)) \<le> 100"
    "tp_take (parseTableParams num raw cfg) = tp_size (parseTableParams num raw cfg)"
    "tp_skip (parseTableParams num raw cfg) =
       (tp_page (parseTableParams num raw cfg) - 1) * enat (tp_size (parseTableParams num raw cfg))"
    by (simp_all add: parseTableParams_def Let_def skip_of_def)
  show "1 \<le> tp_page (parseTableParams num raw cfg)"
    by (auto simp: parseTableParams_def Let_def parse_page_def one_enat_def split: js_number.splits)
qed


lemma table_state_is_admissible_sorted: "parse_sort USERS_TABLE ''email:asc'' = ''email:asc''"
  by code_simp

definition patched :: "table_config \<Rightarrow> table_params \<Rightarrow> table_patch \<Rightarrow> table_params" where
  "patched cfg current patch =
     (let n = opt_default (pt_size patch) (tp_size current);
          fs = fold patch_filter (opt_default (pt_filters patch) []) (tp_filters current);
          pg = (if patch_resets patch then 1 else opt_default (pt_page patch) (tp_page current))
      in \<lparr>tp_q = opt_default (pt_q patch) (tp_q current), tp_sort = opt_default (pt_sort patch) (tp_sort current),
          tp_page = pg, tp_size = n,
          tp_filters = concat (map (\<lambda>k. case present (map_of fs k) of Some v \<Rightarrow> [(k, v)] | None \<Rightarrow> []) (tc_filterKeys cfg)),
          tp_skip = skip_of pg n, tp_take = n\<rparr>)"

definition proper_state :: "table_config \<Rightarrow> table_params \<Rightarrow> bool" where
  "proper_state cfg p \<longleftrightarrow> trim (tp_q p) = tp_q p \<and> length (tp_q p) \<le> 100 \<and>
     parse_sort cfg (tp_sort p) = tp_sort p \<and> (\<exists>n. 1 \<le> n \<and> tp_page p = enat n) \<and>
     (tp_size p \<in> set PAGE_SIZES \<or> tp_size p = default_size cfg) \<and>
     (\<forall>kv \<in> set (tp_filters p). trim (snd kv) = snd kv \<and> length (snd kv) \<le> 60)"

definition proper_config :: "table_config \<Rightarrow> bool" where
  "proper_config cfg \<longleftrightarrow> set (tc_filterKeys cfg) \<inter> {''q'', ''sort'', ''page'', ''size''} = {}"

lemma present_cases: "present x = Some v \<longleftrightarrow> x = Some v \<and> v \<noteq> []"
  by (auto simp: present_def split: option.splits)

lemma first_param_one: "first_param (map_option RawOne x) = (case x of None \<Rightarrow> [] | Some s \<Rightarrow> s)"
  by (simp add: first_param_def split: option.splits)

lemma parse_sort_empty: "parse_sort cfg [] = tc_defaultSort cfg"
  by (simp add: parse_sort_def split_colon_def)

lemma parse_size_number:
  "n \<in> set PAGE_SIZES \<Longrightarrow> parse_size cfg (JsFin (of_nat n)) = n" "parse_size cfg (JsFin 0) = default_size cfg"
  by (auto simp: parse_size_def PAGE_SIZES_def)

lemma parse_page_number: "1 \<le> n \<Longrightarrow> parse_page (JsFin (of_nat n)) = enat n" "parse_page (JsFin 0) = 1"
  by (auto simp: parse_page_def one_enat_def)

lemma map_concat_cong: "(\<And>k. k \<in> set ks \<Longrightarrow> f k = g k) \<Longrightarrow> concat (map f ks) = concat (map g ks)"
  by (induction ks) auto

text \<open>The URL is the table's state. Reading back the link that a change of the table produces
  gives the changed state: the new search text, sort, page size and filters, page 1 whenever the
  result set changes, and the page asked for otherwise.\<close>

theorem table_href_roundtrip:
  assumes num: "\<And>n. num (show_nat n) = JsFin (of_nat n)" "num [] = JsFin 0"
    and cfg: "proper_config cfg" and proper: "proper_state cfg (patched cfg current patch)"
  shows "parseTableParams num (\<lambda>k. map_option RawOne (map_of (tableHref_params current patch cfg) k)) cfg =
      patched cfg current patch
    \<and> (patch_resets patch \<longrightarrow> tp_page (patched cfg current patch) = 1)"
proof
  let ?p = "patched cfg current patch"
  define fs where "fs = fold patch_filter (opt_default (pt_filters patch) []) (tp_filters current)"
  have filters: "tp_filters ?p =
      concat (map (\<lambda>k. case present (map_of fs k) of Some v \<Rightarrow> [(k, v)] | None \<Rightarrow> []) (tc_filterKeys cfg))"
    by (simp add: patched_def fs_def Let_def)
  have href: "tableHref_params current patch cfg = filter_params (tc_filterKeys cfg) fs
           (set_if (tp_size ?p \<noteq> default_size cfg) ''size'' (show_nat (tp_size ?p))
             (set_if (1 < tp_page ?p) ''page'' (show_enat (tp_page ?p))
               (set_if (tp_sort ?p \<noteq> tc_defaultSort cfg) ''sort'' (tp_sort ?p)
                 (set_if (tp_q ?p \<noteq> []) ''q'' (tp_q ?p) []))))"
    by (simp add: tableHref_params_def patched_def fs_def Let_def)
  obtain n where n: "1 \<le> n" "tp_page ?p = enat n" using proper by (auto simp: proper_state_def)
  have other: "''q'' \<notin> set (tc_filterKeys cfg)" "''sort'' \<notin> set (tc_filterKeys cfg)"
    "''page'' \<notin> set (tc_filterKeys cfg)" "''size'' \<notin> set (tc_filterKeys cfg)"
    using cfg by (auto simp: proper_config_def)
  have q: "map_of (tableHref_params current patch cfg) ''q'' = (if tp_q ?p \<noteq> [] then Some (tp_q ?p) else None)"
    and srt: "map_of (tableHref_params current patch cfg) ''sort'' =
      (if tp_sort ?p \<noteq> tc_defaultSort cfg then Some (tp_sort ?p) else None)"
    and pg: "map_of (tableHref_params current patch cfg) ''page'' = (if 1 < n then Some (show_nat n) else None)"
    and sz: "map_of (tableHref_params current patch cfg) ''size'' =
      (if tp_size ?p \<noteq> default_size cfg then Some (show_nat (tp_size ?p)) else None)"
    using n by (simp_all add: href map_of_filter_params map_of_set_if other show_enat_def one_enat_def)
  have flt: "map_of (tableHref_params current patch cfg) k = present (map_of fs k)" if "k \<in> set (tc_filterKeys cfg)" for k
  proof -
    have "k \<noteq> ''q''" "k \<noteq> ''sort''" "k \<noteq> ''page''" "k \<noteq> ''size''" using that cfg by (auto simp: proper_config_def)
    then show ?thesis using that by (simp add: href map_of_filter_params map_of_set_if)
  qed
  have size: "parse_size cfg (num (case map_of (tableHref_params current patch cfg) ''size'' of None \<Rightarrow> [] | Some s \<Rightarrow> s)) = tp_size ?p"
    using proper by (auto simp: sz num parse_size_number proper_state_def)
  have pages: "parse_page (num (case map_of (tableHref_params current patch cfg) ''page'' of None \<Rightarrow> [] | Some s \<Rightarrow> s)) = tp_page ?p"
    using n by (auto simp: pg num parse_page_number one_enat_def)
  have "parse_filters (\<lambda>k. map_option RawOne (map_of (tableHref_params current patch cfg) k)) (tc_filterKeys cfg) = tp_filters ?p"
    unfolding parse_filters_def filters
  proof (rule map_concat_cong)
    fix k assume k: "k \<in> set (tc_filterKeys cfg)"
    show "(let v = trim (first_param (map_option RawOne (map_of (tableHref_params current patch cfg) k)))
        in if v = [] then [] else [(k, take 60 v)]) = (case present (map_of fs k) of Some v \<Rightarrow> [(k, v)] | None \<Rightarrow> [])"
    proof (cases "present (map_of fs k)")
      case None
      then show ?thesis by (simp add: flt [OF k] first_param_def trim_def)
    next
      case (Some v)
      then have "(k, v) \<in> set (tp_filters ?p)" using k by (force simp: filters)
      then have "trim v = v" "length v \<le> 60" using proper by (force simp: proper_state_def)+
      moreover have "v \<noteq> []" using Some by (simp add: present_cases)
      ultimately show ?thesis by (simp add: flt [OF k] first_param_def Some)
    qed
  qed
  moreover have "tp_skip ?p = skip_of (tp_page ?p) (tp_size ?p)" "tp_take ?p = tp_size ?p"
    by (simp_all add: patched_def Let_def)
  moreover have "take 100 (trim (case map_of (tableHref_params current patch cfg) ''q'' of None \<Rightarrow> [] | Some s \<Rightarrow> s)) = tp_q ?p"
    using proper by (simp add: q proper_state_def trim_def)
  moreover have "parse_sort cfg (case map_of (tableHref_params current patch cfg) ''sort'' of None \<Rightarrow> [] | Some s \<Rightarrow> s) = tp_sort ?p"
    using proper by (simp add: srt proper_state_def parse_sort_empty)
  ultimately show "parseTableParams num (\<lambda>k. map_option RawOne (map_of (tableHref_params current patch cfg) k)) cfg = ?p"
    using size pages by (simp add: parseTableParams_def first_param_one Let_def)
  show "patch_resets patch \<longrightarrow> tp_page ?p = 1" by (simp add: patched_def Let_def)
qed


definition demo_state :: table_params where
  "demo_state = \<lparr>tp_q = ''ann'', tp_sort = ''email:asc'', tp_page = 3, tp_size = 50,
     tp_filters = [(''status'', ''active'')], tp_skip = 100, tp_take = 50\<rparr>"

definition next_page :: table_patch where
  "next_page = \<lparr>pt_q = None, pt_sort = None, pt_page = Some 4, pt_size = None, pt_filters = None\<rparr>"

definition read_number :: "string \<Rightarrow> js_number" where
  "read_number s = (if all_digits s then JsFin (of_nat (digits_val s)) else JsNaN)"

lemma table_href_roundtrip_witness:
  "parseTableParams read_number (\<lambda>k. map_option RawOne (map_of (tableHref_params demo_state next_page USERS_TABLE) k))
     USERS_TABLE = patched USERS_TABLE demo_state next_page"
proof -
  have num: "read_number (show_nat n) = JsFin (of_nat n)" "read_number [] = JsFin 0" for n
    using show_nat_digits [of n] by (simp_all add: read_number_def all_digits_def)
  have p: "patched USERS_TABLE demo_state next_page = \<lparr>tp_q = ''ann'', tp_sort = ''email:asc'', tp_page = 4, tp_size = 50,
      tp_filters = [(''status'', ''active'')], tp_skip = skip_of 4 50, tp_take = 50\<rparr>"
    by (simp add: patched_def demo_state_def next_page_def USERS_TABLE_def opt_default_def patch_resets_def present_def)
  have "trim ''ann'' = ''ann''" "trim ''active'' = ''active''" by code_simp+
  then have "proper_state USERS_TABLE (patched USERS_TABLE demo_state next_page)"
    using table_state_is_admissible_sorted
    by (auto simp: p proper_state_def PAGE_SIZES_def numeral_eq_enat intro: exI [of _ 4])
  then show ?thesis
    using table_href_roundtrip [OF num] by (simp add: proper_config_def USERS_TABLE_def)
qed

section \<open>Navigation, diff, groups and portfolio: facts\<close>

text \<open>The navigation shows a staff member exactly the items their role may use.\<close>

lemma nav_matches_role:
  "(\<exists>g \<in> set (navGroupsForRole role). i \<in> set (ng_items g)) \<longleftrightarrow>
   (\<exists>g \<in> set GROUPS. i \<in> set (ng_items g) \<and> item_visible role i)"
proof
  assume "\<exists>g \<in> set (navGroupsForRole role). i \<in> set (ng_items g)"
  then show "\<exists>g \<in> set GROUPS. i \<in> set (ng_items g) \<and> item_visible role i"
    by (auto simp: navGroupsForRole_def)
next
  assume "\<exists>g \<in> set GROUPS. i \<in> set (ng_items g) \<and> item_visible role i"
  then obtain g where g: "g \<in> set GROUPS" "i \<in> set (filter (item_visible role) (ng_items g))" by auto
  then have "g\<lparr>ng_items := filter (item_visible role) (ng_items g)\<rparr> \<in> set (navGroupsForRole role)"
    unfolding navGroupsForRole_def set_filter set_map
    by (intro CollectI conjI image_eqI [OF refl g(1)]) (use g(2) in \<open>auto simp: filter_empty_conv\<close>)
  then show "\<exists>g \<in> set (navGroupsForRole role). i \<in> set (ng_items g)" using g(2)
    by (intro bexI [where x = "g\<lparr>ng_items := filter (item_visible role) (ng_items g)\<rparr>"]) auto
qed

lemma set_uniq [simp]: "set (uniq xs) = set xs" and distinct_uniq [simp]: "distinct (uniq xs)"
  by (simp_all add: uniq_def)

lemma diff_key_row: "r \<in> set (diff_key a b k) \<longleftrightarrow>
    map_of a k \<noteq> map_of b k \<and> df_key r = k \<and> df_before r = map_of a k \<and> df_after r = map_of b k \<and>
    df_kind r = (if map_of a k = None then Added else if map_of b k = None then Removed else Changed)"
  by (auto simp: diff_key_def split: option.splits)

lemma diff_key_keys: "map df_key (diff_key a b k) = (if map_of a k \<noteq> map_of b k then [k] else [])"
  by (auto simp: diff_key_def split: option.splits)

lemma concat_filter: "concat (map (\<lambda>k. if P k then [k] else []) ks) = filter P ks"
  by (induction ks) auto

text \<open>The audit screen shows every change and nothing else. A key has a row exactly when the two
  snapshots differ in it, no key has two, and the row carries both values and says whether the key
  was changed, added or removed.\<close>

theorem diff_is_exact:
  "(\<forall>k. k \<in> set (map df_key (diffSnapshots v w)) \<longleftrightarrow> map_of (snapshot_fields v) k \<noteq> map_of (snapshot_fields w) k)
   \<and> distinct (map df_key (diffSnapshots v w))
   \<and> (\<forall>r \<in> set (diffSnapshots v w). df_before r = map_of (snapshot_fields v) (df_key r) \<and>
        df_after r = map_of (snapshot_fields w) (df_key r) \<and>
        (df_kind r = Added \<longleftrightarrow> df_before r = None) \<and> (df_kind r = Removed \<longleftrightarrow> df_after r = None))"
proof -
  let ?a = "snapshot_fields v" and ?b = "snapshot_fields w"
  let ?ks = "uniq (map fst ?a @ map fst ?b)"
  have keys: "map df_key (diffSnapshots v w) = filter (\<lambda>k. map_of ?a k \<noteq> map_of ?b k) ?ks"
    by (simp add: diffSnapshots_def Let_def map_concat comp_def diff_key_keys concat_filter)
  have "k \<in> set ?ks" if "map_of ?a k \<noteq> map_of ?b k" for k
    using that by (auto simp: map_of_eq_None_iff) (metis map_of_eq_None_iff option.exhaust)
  then have "k \<in> set (map df_key (diffSnapshots v w)) \<longleftrightarrow> map_of ?a k \<noteq> map_of ?b k" for k
    unfolding keys by auto
  moreover have "distinct (map df_key (diffSnapshots v w))" unfolding keys by simp
  moreover have "df_before r = map_of ?a (df_key r) \<and> df_after r = map_of ?b (df_key r) \<and>
        (df_kind r = Added \<longleftrightarrow> df_before r = None) \<and> (df_kind r = Removed \<longleftrightarrow> df_after r = None)"
    if row: "r \<in> set (diffSnapshots v w)" for r
  proof -
    obtain k where "r \<in> set (diff_key ?a ?b k)" using row by (auto simp: diffSnapshots_def Let_def)
    then show ?thesis by (auto simp: diff_key_row)
  qed
  ultimately show ?thesis by blast
qed

lemma diff_is_exact_witness:
  "map df_key (diffSnapshots (JObj [(''balance'', JNum 1), (''x'', JNull)]) (JObj [(''balance'', JNum 2), (''y'', JNull)]))
     = [''balance'', ''x'', ''y'']
   \<and> distinct (map df_key (diffSnapshots (JObj [(''balance'', JNum 1), (''x'', JNull)]) (JObj [(''balance'', JNum 2), (''y'', JNull)])))"
  using diff_is_exact [of "JObj [(''balance'', JNum 1), (''x'', JNull)]" "JObj [(''balance'', JNum 2), (''y'', JNull)]"]
  by (simp add: diffSnapshots_def snapshot_fields_def uniq_def diff_key_def)

text \<open>Grouping loses and reorders nothing, and neighbouring groups have different labels.\<close>

definition groups_ok :: "('r \<Rightarrow> string) \<Rightarrow> (string \<times> 'r list) list \<Rightarrow> 'r list \<Rightarrow> bool" where
  "groups_ok label gs rows \<longleftrightarrow> concat (map snd gs) = rows \<and>
     (\<forall>g \<in> set gs. snd g \<noteq> [] \<and> (\<forall>r \<in> set (snd g). label r = fst g)) \<and>
     (\<forall>i. Suc i < length gs \<longrightarrow> fst (gs ! i) \<noteq> fst (gs ! Suc i))"

lemma group_step_ok: "groups_ok label gs rows \<Longrightarrow> groups_ok label (group_step label gs r) (rows @ [r])"
proof (cases "gs \<noteq> [] \<and> fst (last gs) = label r")
  case True
  then obtain hs g where gs: "gs = hs @ [g]" "fst g = label r" by (cases gs rule: rev_cases) auto
  assume "groups_ok label gs rows"
  then show ?thesis using True unfolding gs groups_ok_def group_step_def
    by (auto simp: nth_append less_Suc_eq split: if_splits)
next
  case False
  assume ok: "groups_ok label gs rows"
  have "fst ((gs @ [(label r, [r])]) ! i) \<noteq> fst ((gs @ [(label r, [r])]) ! Suc i)" if i: "i < length gs" for i
  proof (cases "Suc i = length gs")
    case True
    then have "gs \<noteq> []" by auto
    moreover from this have "gs ! i = last gs" using True by (metis diff_Suc_1 last_conv_nth)
    ultimately have "gs \<noteq> []" "gs ! i = last gs" by auto
    then show ?thesis using False i True by (simp add: nth_append)
  next
    case False
    then have "Suc i < length gs" using i by simp
    then show ?thesis using ok i by (simp add: groups_ok_def nth_append)
  qed
  then show ?thesis using ok False by (auto simp: groups_ok_def group_step_def)
qed

lemma group_by_day_ok: "groups_ok (\<lambda>r. dayLabel cal (createdAt r) t) (groupByDay cal createdAt t rows) rows"
proof (induction rows rule: rev_induct)
  case Nil
  then show ?case by (simp add: groupByDay_def groups_ok_def)
next
  case (snoc r rows)
  then show ?case using group_step_ok by (simp add: groupByDay_def)
qed

lemma foldl_sum: "foldl (\<lambda>s r. s + f r) a rows = a + sum_list (map f rows)" for a :: "'n::linordered_field"
  by (induction rows arbitrary: a) (simp_all add: add.assoc)

text \<open>The portfolio adds up: the totals are the sums of the rows, and the gain is the rows' gains.\<close>

lemma portfolio_adds_up:
  "po_totalValue (computePortfolio hs ps) = sum_list (map hr_value (po_rows (computePortfolio hs ps)))
   \<and> po_totalPnl (computePortfolio hs ps) = sum_list (map hr_pnl (po_rows (computePortfolio hs ps)))"
proof -
  have "hr_pnl r = hr_value r - hr_invested r" if "r \<in> set (List.map_filter (holding_view ps) hs)" for r
    using that by (auto simp: List.map_filter_def holding_view_def Let_def split: option.splits)
  then have gain: "map hr_pnl (List.map_filter (holding_view ps) hs) =
      map (\<lambda>r. hr_value r - hr_invested r) (List.map_filter (holding_view ps) hs)"
    by simp
  show ?thesis by (simp add: computePortfolio_def Let_def foldl_sum gain sum_list_subtractf)
qed

text \<open>Live prices change numbers only: the coins listed stay those of the server's page.\<close>

lemma merge_keeps_catalog:
  "map ma_symbol (mergeLivePrices current incoming) = map ma_symbol current"
  by (simp add: mergeLivePrices_def split: option.splits)

end
