(* ===== verification/LiveScreens.thy ===== *)
theory LiveScreens
  imports AccountScreens Views
begin

text \<open>
  The parts of the customer app that keep changing after they are drawn: the price chart with its
  timeframes (\<open>components/markets/price-chart.tsx\<close>), the socket of a mounted component
  (\<open>lib/realtime/use-socket.ts\<close>) and what listens to it, the push toggle with \<open>lib/push/subscribe.ts\<close>,
  the passkey list and the buttons that delete a row after a confirmation. Prices are an ordered
  field. The chart library draws what it is given; the browser's push, permission and passkey
  calls are parameters.
\<close>

section \<open>The price chart\<close>

definition TIMEFRAMES :: "string list" where
  "TIMEFRAMES = [''1m'', ''5m'', ''15m'', ''1h'', ''4h'', ''1D'']"

text \<open>One call of \<open>select\<close> that has not ended: its number, the timeframe asked for, the timeframe to go
  back to, and whether it has its response and is reading the body.\<close>

record chart_request =
  cr_id :: nat
  cr_next :: string
  cr_previous :: string
  cr_reading :: bool

record 'n price_chart =
  pc_candles :: "'n candle list"
  pc_range :: string
  pc_line :: bool
  pc_busy :: bool
  pc_requestId :: nat
  pc_waiting :: "chart_request list"

definition chart_open :: "bool \<Rightarrow> 'n candle list \<Rightarrow> 'n price_chart" where
  "chart_open small ks = \<lparr>pc_candles = ks, pc_range = ''1h'', pc_line = small, pc_busy = False,
     pc_requestId = 0, pc_waiting = []\<rparr>"

text \<open>What the series is fed with.\<close>

datatype 'n drawn = DrawnBars "'n bar list" | DrawnLine "('n \<times> 'n) list"

definition chart_drawn :: "'n price_chart \<Rightarrow> 'n drawn" where
  "chart_drawn w =
     (if pc_line w then DrawnLine (toLine (pc_candles w)) else DrawnBars (toBars (pc_candles w)))"

text \<open>The effect on a new live price: the last, still open candle follows it.\<close>

definition chart_live :: "'n \<Rightarrow> 'n candle list \<Rightarrow> ('n::linordered_field) candle list" where
  "chart_live p ks =
     (if p = 0 \<or> ks = [] then ks
      else butlast ks @ [(last ks)\<lparr>cd_c := p, cd_h := max (cd_h (last ks)) p, cd_l := min (cd_l (last ks)) p\<rparr>])"

text \<open>It is the rule by which the API restates the open candle.\<close>

lemma chart_live_restates: "chart_live p ks = restateOpenCandle ks p"
  by (simp add: chart_live_def restateOpenCandle_def Let_def)

definition chart_select :: "string \<Rightarrow> string \<Rightarrow> 'n price_chart \<Rightarrow> 'n price_chart \<times> api_call option" where
  "chart_select i nxt w =
     (if nxt = pc_range w then (w, None)
      else (w\<lparr>pc_range := nxt, pc_busy := True, pc_requestId := Suc (pc_requestId w),
              pc_waiting := pc_waiting w @ [\<lparr>cr_id = Suc (pc_requestId w), cr_next = nxt,
                cr_previous = pc_range w, cr_reading = False\<rparr>]\<rparr>,
            Some (GET_call (''/api/markets/'' @ i @ ''/chart?range='' @ nxt))))"

text \<open>A failure of the newest request takes the timeframe back; an older one's changes nothing.\<close>

definition chart_fail :: "chart_request \<Rightarrow> 'n price_chart \<Rightarrow> 'n price_chart" where
  "chart_fail q w =
     (if cr_id q = pc_requestId w then w\<lparr>pc_range := cr_previous q, pc_busy := False\<rparr> else w)"

text \<open>The response: \<open>None\<close> is a \<open>fetch\<close> that throws, otherwise \<open>res.ok\<close>. The number of the request is
  looked at here, before the body is read, and not again.\<close>

definition chart_head :: "chart_request \<Rightarrow> bool option \<Rightarrow> 'n price_chart \<Rightarrow> 'n price_chart" where
  "chart_head q r w =
     (let w1 = w\<lparr>pc_waiting := remove1 q (pc_waiting w)\<rparr> in
      case r of
        None \<Rightarrow> chart_fail q w1
      | Some ok \<Rightarrow>
          if cr_id q \<noteq> pc_requestId w then w1
          else if \<not> ok then chart_fail q w1
          else w1\<lparr>pc_waiting := pc_waiting w1 @ [q\<lparr>cr_reading := True\<rparr>]\<rparr>)"

definition chart_body :: "chart_request \<Rightarrow> 'n candle list option \<Rightarrow> 'n price_chart \<Rightarrow> 'n price_chart" where
  "chart_body q b w =
     (let w1 = w\<lparr>pc_waiting := remove1 q (pc_waiting w)\<rparr> in
      case b of
        None \<Rightarrow> chart_fail q w1
      | Some ks \<Rightarrow>
          (let w2 = w1\<lparr>pc_candles := ks\<rparr>
           in if cr_id q = pc_requestId w then w2\<lparr>pc_busy := False\<rparr> else w2))"

datatype 'n chart_event =
    PickRange string | ChartHead chart_request "bool option" | ChartBody chart_request "'n candle list option"
  | ChartLive 'n | ChartMode

fun chart_step ::
  "string \<Rightarrow> 'n chart_event \<Rightarrow> ('n::linordered_field) price_chart \<Rightarrow> 'n price_chart \<times> api_call option" where
  "chart_step i (PickRange r) w = (if List.member TIMEFRAMES r then chart_select i r w else (w, None))"
| "chart_step i (ChartHead q r) w =
     (if List.member (pc_waiting w) q \<and> \<not> cr_reading q then chart_head q r w else w, None)"
| "chart_step i (ChartBody q b) w =
     (if List.member (pc_waiting w) q \<and> cr_reading q then chart_body q b w else w, None)"
| "chart_step i (ChartLive p) w = (w\<lparr>pc_candles := chart_live p (pc_candles w)\<rparr>, None)"
| "chart_step i ChartMode w = (w\<lparr>pc_line := \<not> pc_line w\<rparr>, None)"

definition chart_run :: "string \<Rightarrow> 'n chart_event list \<Rightarrow> ('n::linordered_field) price_chart \<Rightarrow> 'n price_chart" where
  "chart_run i evs w = fold (\<lambda>e w. fst (chart_step i e w)) evs w"

text \<open>A session in which a timeframe is only picked when no earlier pick is pending, and the candles of
  a timeframe are those the API has for it.\<close>

fun patient :: "string \<Rightarrow> 'n chart_event list \<Rightarrow> ('n::linordered_field) price_chart \<Rightarrow> bool" where
  "patient i [] w \<longleftrightarrow> True"
| "patient i (e # evs) w \<longleftrightarrow>
     (case e of PickRange r \<Rightarrow> pc_waiting w = [] | _ \<Rightarrow> True) \<and> patient i evs (fst (chart_step i e w))"

definition answers_with :: "(string \<Rightarrow> 'n candle list) \<Rightarrow> 'n chart_event \<Rightarrow> bool" where
  "answers_with data e \<longleftrightarrow> (case e of ChartBody q (Some ks) \<Rightarrow> ks = data (cr_next q) | _ \<Rightarrow> True)"

text \<open>The same bars, but for the open one, which follows the live price.\<close>

definition same_bars :: "'n candle list \<Rightarrow> 'n candle list \<Rightarrow> bool" where
  "same_bars ks ks' \<longleftrightarrow> length ks = length ks' \<and> butlast ks = butlast ks'"

definition chart_inv :: "(string \<Rightarrow> 'n candle list) \<Rightarrow> 'n price_chart \<Rightarrow> bool" where
  "chart_inv data w \<longleftrightarrow>
     (pc_waiting w = [] \<and> \<not> pc_busy w \<and> same_bars (pc_candles w) (data (pc_range w)))
   \<or> (\<exists>q. pc_waiting w = [q] \<and> pc_busy w \<and> cr_id q = pc_requestId w \<and> cr_next q = pc_range w
        \<and> same_bars (pc_candles w) (data (cr_previous q)))"

lemma same_bars_live: "same_bars (chart_live p ks) ks' \<longleftrightarrow> same_bars ks ks'"
  by (auto simp: same_bars_def chart_live_def Suc_leI)

lemma chart_inv_step:
  assumes "chart_inv data w" "answers_with data e" "case e of PickRange r \<Rightarrow> pc_waiting w = [] | _ \<Rightarrow> True"
  shows "chart_inv data (fst (chart_step i e w))"
proof (cases e)
  case (PickRange r)
  then show ?thesis using assms by (auto simp: chart_inv_def chart_select_def)
next
  case (ChartHead q r)
  then show ?thesis using assms(1)
    by (auto simp: chart_inv_def chart_head_def chart_fail_def Let_def split: option.splits)
next
  case (ChartBody q b)
  then show ?thesis using assms(1,2)
    by (auto simp: chart_inv_def chart_body_def chart_fail_def answers_with_def same_bars_def Let_def split: option.splits)
next
  case (ChartLive p)
  then show ?thesis using assms(1) by (auto simp: chart_inv_def same_bars_live)
next
  case ChartMode
  then show ?thesis using assms(1) by (auto simp: chart_inv_def)
qed

lemma chart_inv_run:
  "chart_inv data w \<Longrightarrow> \<forall>e \<in> set evs. answers_with data e \<Longrightarrow> patient i evs w \<Longrightarrow> chart_inv data (chart_run i evs w)"
proof (induction evs arbitrary: w)
  case (Cons e evs)
  then show ?case using chart_inv_step [of data w e i] by (simp add: chart_run_def)
qed (simp add: chart_run_def)

text \<open>C31: the chart shows the timeframe its buttons say. If a timeframe is only picked when no earlier
  pick is pending, then, whichever requests fail, break off or answer, and whatever live prices come
  in between, a chart with nothing pending is not busy and has the bars of the selected timeframe, the
  open bar aside.\<close>

theorem chart_shows_selected_range:
  assumes "\<forall>e \<in> set evs. answers_with data e" "patient i evs (chart_open small (data ''1h''))"
    and "w = chart_run i evs (chart_open small (data ''1h''))" "pc_waiting w = []"
  shows "\<not> pc_busy w \<and> same_bars (pc_candles w) (data (pc_range w))"
proof -
  have "chart_inv data (chart_open small (data ''1h''))"
    by (simp add: chart_inv_def chart_open_def same_bars_def)
  from chart_inv_run [OF this assms(1,2)] show ?thesis using assms(3,4) by (auto simp: chart_inv_def)
qed

definition chart_pick :: "nat \<Rightarrow> string \<Rightarrow> string \<Rightarrow> chart_request" where
  "chart_pick n nxt prev = \<lparr>cr_id = n, cr_next = nxt, cr_previous = prev, cr_reading = False\<rparr>"

lemmas chart_facts = chart_open_def chart_select_def chart_head_def chart_body_def chart_fail_def chart_pick_def Let_def

definition demo_candle :: "rat \<Rightarrow> rat candle" where
  "demo_candle p = \<lparr>cd_t = 0, cd_o = p, cd_h = p, cd_l = p, cd_c = p\<rparr>"

definition demo_bars :: "string \<Rightarrow> rat candle list" where
  "demo_bars r = (if r = ''1h'' then [demo_candle 1] else if r = ''1D'' then [demo_candle 2, demo_candle 3] else [demo_candle 4])"

lemma chart_shows_selected_range_witness:
  "same_bars (pc_candles (chart_run ''btc'' [PickRange ''1D'', ChartHead (chart_pick 1 ''1D'' ''1h'') (Some True), ChartLive 7,
      ChartBody ((chart_pick 1 ''1D'' ''1h'')\<lparr>cr_reading := True\<rparr>) (Some (demo_bars ''1D''))] (chart_open False (demo_bars ''1h''))))
     (demo_bars ''1D'')"
proof -
  let ?evs = "[PickRange ''1D'', ChartHead (chart_pick 1 ''1D'' ''1h'') (Some True), ChartLive 7,
      ChartBody ((chart_pick 1 ''1D'' ''1h'')\<lparr>cr_reading := True\<rparr>) (Some (demo_bars ''1D''))]"
  let ?w = "chart_run ''btc'' ?evs (chart_open False (demo_bars ''1h''))"
  have "\<forall>e \<in> set ?evs. answers_with demo_bars e" by (simp add: answers_with_def chart_pick_def)
  moreover have "patient ''btc'' ?evs (chart_open False (demo_bars ''1h''))" by (simp add: chart_open_def chart_pick_def)
  moreover have "pc_waiting ?w = []" "pc_range ?w = ''1D''" by (simp_all add: chart_run_def TIMEFRAMES_def chart_facts)
  ultimately show ?thesis using chart_shows_selected_range [of ?evs demo_bars "''btc''" False ?w] by simp
qed

text \<open>Picking a second timeframe before the first has arrived can leave the buttons
  and the chart in disagreement for good. If the second request fails, the buttons go back to the
  first, whose own answer is thrown away as superseded, and the old bars stay. And if the first's
  body is still being read when the second is picked, it is drawn whenever it ends, also over the
  second's bars.\<close>

theorem chart_can_mislabel:
  assumes idle: "pc_waiting w = []" and ranges: "r1 \<in> set TIMEFRAMES" "r2 \<in> set TIMEFRAMES" "r1 \<noteq> pc_range w" "r2 \<noteq> r1"
    and q: "q1 = chart_pick (Suc (pc_requestId w)) r1 (pc_range w)" "q2 = chart_pick (Suc (Suc (pc_requestId w))) r2 r1"
    and fails: "wx = chart_run i [PickRange r1, PickRange r2, ChartHead q2 (Some False), ChartHead q1 (Some True)] w"
    and late: "wy = chart_run i [PickRange r1, ChartHead q1 (Some True), PickRange r2, ChartHead q2 (Some True),
        ChartBody (q2\<lparr>cr_reading := True\<rparr>) (Some ks2), ChartBody (q1\<lparr>cr_reading := True\<rparr>) (Some ks1)] w"
  shows "(pc_range wx = r1 \<and> pc_candles wx = pc_candles w \<and> pc_waiting wx = [] \<and> \<not> pc_busy wx)
       \<and> (pc_range wy = r2 \<and> pc_candles wy = ks1 \<and> pc_waiting wy = [] \<and> \<not> pc_busy wy)"
  using idle ranges unfolding fails late q
  by (simp add: chart_run_def chart_select_def chart_head_def chart_body_def chart_fail_def chart_pick_def)

lemma chart_can_mislabel_witness:
  "pc_range (chart_run ''btc'' [PickRange ''1D'', PickRange ''5m'', ChartHead (chart_pick 2 ''5m'' ''1D'') (Some False),
      ChartHead (chart_pick 1 ''1D'' ''1h'') (Some True)] (chart_open False (demo_bars ''1h''))) = ''1D''
   \<and> pc_candles (chart_run ''btc'' [PickRange ''1D'', PickRange ''5m'', ChartHead (chart_pick 2 ''5m'' ''1D'') (Some False),
      ChartHead (chart_pick 1 ''1D'' ''1h'') (Some True)] (chart_open False (demo_bars ''1h''))) = demo_bars ''1h''"
  using chart_can_mislabel [of "chart_open False (demo_bars ''1h'')" "''1D''" "''5m''" "chart_pick 1 ''1D'' ''1h''" "chart_pick 2 ''5m'' ''1D''"
      "chart_run ''btc'' [PickRange ''1D'', PickRange ''5m'', ChartHead (chart_pick 2 ''5m'' ''1D'') (Some False),
      ChartHead (chart_pick 1 ''1D'' ''1h'') (Some True)] (chart_open False (demo_bars ''1h''))" "''btc''" _ "[]" "[]"]
  by (simp add: chart_open_def TIMEFRAMES_def chart_pick_def numeral_2_eq_2)

section \<open>The socket of a mounted component\<close>

datatype socket_phase = Ticketing | ReadingTicket | NoSocket | SocketOpen string
datatype socket_action = SocketConnect string | SocketDisconnect

record live_socket =
  so_phase :: socket_phase
  so_cancelled :: bool
  so_log :: "socket_action list"

definition socket_mount :: live_socket where
  "socket_mount = \<lparr>so_phase = Ticketing, so_cancelled = False, so_log = []\<rparr>"

text \<open>The answer to \<open>POST /api/ws-ticket\<close> (\<open>None\<close>: \<open>fetch\<close> throws), its body, and the clean-up of the
  effect, which React runs once.\<close>

datatype socket_event = TicketHead "bool option" | TicketBody "string option" | Unmount

fun socket_step :: "socket_event \<Rightarrow> live_socket \<Rightarrow> live_socket" where
  "socket_step (TicketHead r) w =
     (if so_phase w = Ticketing
      then w\<lparr>so_phase := (if r = Some True \<and> \<not> so_cancelled w then ReadingTicket else NoSocket)\<rparr> else w)"
| "socket_step (TicketBody b) w =
     (if so_phase w = ReadingTicket
      then (case b of
          Some ticket \<Rightarrow> if so_cancelled w then w\<lparr>so_phase := NoSocket\<rparr>
            else w\<lparr>so_phase := SocketOpen ticket, so_log := so_log w @ [SocketConnect ticket]\<rparr>
        | None \<Rightarrow> w\<lparr>so_phase := NoSocket\<rparr>)
      else w)"
| "socket_step Unmount w =
     (if so_cancelled w then w
      else (case so_phase w of
          SocketOpen ticket \<Rightarrow> w\<lparr>so_cancelled := True, so_phase := NoSocket, so_log := so_log w @ [SocketDisconnect]\<rparr>
        | _ \<Rightarrow> w\<lparr>so_cancelled := True\<rparr>))"

definition socket_inv :: "live_socket \<Rightarrow> bool" where
  "socket_inv w \<longleftrightarrow>
     (case so_phase w of
        SocketOpen ticket \<Rightarrow> \<not> so_cancelled w \<and> so_log w = [SocketConnect ticket]
      | Ticketing \<Rightarrow> so_log w = [] | ReadingTicket \<Rightarrow> so_log w = []
      | NoSocket \<Rightarrow> so_log w = [] \<or> (\<exists>t. so_log w = [SocketConnect t, SocketDisconnect]))"

text \<open>However the ticket and the unmounting interleave, at most one socket is opened, and after the
  unmounting none is open.\<close>

lemma socket_step_inv: "socket_inv w \<Longrightarrow> socket_inv (socket_step e w)"
  by (cases e) (auto simp: socket_inv_def split: socket_phase.splits option.splits)

lemma socket_never_leaks:
  assumes "w = fold socket_step evs socket_mount"
  shows "(\<exists>t. so_log w = [SocketConnect t] \<and> \<not> so_cancelled w) \<or> so_log w = [] \<or> (\<exists>t. so_log w = [SocketConnect t, SocketDisconnect])"
proof -
  have "socket_inv (fold socket_step evs w0)" if "socket_inv w0" for w0
    using that by (induction evs arbitrary: w0) (simp_all add: socket_step_inv)
  moreover have "socket_inv socket_mount" by (simp add: socket_inv_def socket_mount_def)
  ultimately have "socket_inv w" using assms by simp
  then show ?thesis by (auto simp: socket_inv_def split: socket_phase.splits)
qed

section \<open>What listens to it\<close>

record balance_event =
  be_walletId :: string
  be_currency :: string
  be_balance :: int

definition live_balance :: "string \<Rightarrow> balance_event \<Rightarrow> int \<Rightarrow> int" where
  "live_balance walletId p shown = (if be_walletId p = walletId then be_balance p else shown)"

lemma live_balance_last:
  "fold (live_balance i) ps b =
     (case filter (\<lambda>p. be_walletId p = i) ps of [] \<Rightarrow> b | qs \<Rightarrow> be_balance (last qs))"
proof (induction ps rule: rev_induct)
  case (snoc p ps)
  then show ?case by (auto simp: live_balance_def split: list.splits)
qed simp

definition toast_of :: "notification_payload \<Rightarrow> toast_msg" where
  "toast_of p = \<lparr>tm_text = np_title p, tm_description = Some (np_body p)\<rparr>"

text \<open>\<open>applyLive\<close>. A high or low that did not arrive is \<open>null\<close>, which counts as 0.\<close>

definition or_zero :: "'n option \<Rightarrow> 'n::zero" where
  "or_zero x = (case x of None \<Rightarrow> 0 | Some y \<Rightarrow> y)"

definition applyLive ::
  "('n::linordered_field) asset_detail \<Rightarrow> 'n market_asset list \<Rightarrow> 'n asset_detail" where
  "applyLive d incoming =
     (case List.find (\<lambda>p. ma_symbol p = ma_symbol (ad_asset d)) incoming of
        None \<Rightarrow> d
      | Some live \<Rightarrow>
          (let a = ad_asset d;
               supply = (if 0 < ma_price a then ad_marketCap d / ma_price a else 0)
           in d\<lparr>ad_asset := a\<lparr>ma_price := ma_price live, ma_change24h := ma_change24h live\<rparr>,
                ad_marketCap := supply * ma_price live,
                ad_high24h := Some (max (or_zero (ad_high24h d)) (ma_price live)),
                ad_low24h := Some (if 0 < or_zero (ad_low24h d) then min (or_zero (ad_low24h d)) (ma_price live)
                                   else ma_price live)\<rparr>))"

text \<open>After a tick the price lies between the day's low and high, and the market cap is the same
  supply at the new price.\<close>

lemma applyLive_consistent:
  assumes "List.find (\<lambda>p. ma_symbol p = ma_symbol (ad_asset d)) incoming = Some live"
  shows "ma_price (ad_asset (applyLive d incoming)) = ma_price live
    \<and> or_zero (ad_low24h (applyLive d incoming)) \<le> ma_price live
    \<and> ma_price live \<le> or_zero (ad_high24h (applyLive d incoming))
    \<and> (0 < ma_price (ad_asset d) \<longrightarrow>
         ad_marketCap (applyLive d incoming) * ma_price (ad_asset d) = ad_marketCap d * ma_price live)"
  using assms by (simp add: applyLive_def or_zero_def Let_def)

section \<open>The market list\<close>

datatype chip = ChipAll | ChipWatching | ChipGainers | ChipLosers

definition chip_admits :: "chip \<Rightarrow> string list \<Rightarrow> ('n::linordered_field) market_asset \<Rightarrow> bool" where
  "chip_admits c followed a = (case c of
     ChipWatching \<Rightarrow> List.member followed (ma_symbol a) | ChipGainers \<Rightarrow> 0 \<le> ma_change24h a
   | ChipLosers \<Rightarrow> ma_change24h a < 0 | ChipAll \<Rightarrow> True)"

definition chip_key :: "chip \<Rightarrow> ('n::linordered_field) market_asset \<Rightarrow> 'n" where
  "chip_key c a = (case c of ChipGainers \<Rightarrow> - ma_change24h a | ChipLosers \<Rightarrow> ma_change24h a | _ \<Rightarrow> 0)"

definition search_admits :: "string \<Rightarrow> 'n market_asset \<Rightarrow> bool" where
  "search_admits q a \<longleftrightarrow>
     (let needle = to_lower (trim q)
      in needle = [] \<or> contains (to_lower (ma_name a)) needle \<or> contains (to_lower (ma_symbol a)) needle)"

definition visible_assets ::
  "chip \<Rightarrow> string \<Rightarrow> string list \<Rightarrow> ('n::linordered_field) market_asset list \<Rightarrow> 'n market_asset list" where
  "visible_assets c q followed assets =
     sort_key (chip_key c) (filter (chip_admits c followed) (filter (search_admits q) assets))"

definition markets_empty_text :: "chip \<Rightarrow> string \<Rightarrow> string option" where
  "markets_empty_text c q =
     (if c = ChipWatching \<and> q = [] then Some ''Star assets to build your watchlist.''
      else if q \<noteq> [] then Some (''Nothing matches '' @ q) else None)"

text \<open>A price tick changes neither which assets the list has nor, outside the two movers' chips, which
  of them are shown and in what order.\<close>

lemma merge_keeps_assets:
  "map ma_symbol (mergeLivePrices cur inc) = map ma_symbol cur \<and> map ma_name (mergeLivePrices cur inc) = map ma_name cur"
  by (auto simp: mergeLivePrices_def split: option.splits)

lemma visible_assets_mset:
  "mset (visible_assets c q f assets) = filter_mset (chip_admits c f) (mset (filter (search_admits q) assets))"
  by (simp only: visible_assets_def mset_sort mset_filter)

lemma chips_complement:
  "chip_admits ChipLosers f = (\<lambda>a. \<not> chip_admits ChipGainers f a)" "chip_admits ChipAll f = (\<lambda>a. True)"
  by (auto simp: chip_admits_def fun_eq_iff)

lemma gainers_and_losers_split:
  "mset (visible_assets ChipGainers q f assets) + mset (visible_assets ChipLosers q f assets) =
     mset (visible_assets ChipAll q f assets)"
  by (simp only: visible_assets_mset chips_complement filter_mset_True multiset_partition [symmetric])

end
