(* ===== verification/Announcements.thy ===== *)
theory Announcements
  imports Locking LiveScreens
begin

text \<open>
  The balance a customer sees while requests overlap: the wallets' service announces a balance
  after the commit, in a statement of its own, and the screen of \<open>LiveScreens\<close> shows what arrived
  last. The two meet here.
\<close>

definition balance_event_of :: "owner_info \<Rightarrow> balance_event" where
  "balance_event_of o' = \<lparr>be_walletId = ow_walletId o', be_currency = ow_currency o', be_balance = ow_balance o'\<rparr>"

text \<open>What a screen that showed \<open>b\<close> for the wallet shows after these announcements.\<close>

definition shown_balance :: "string \<Rightarrow> owner_info list \<Rightarrow> int \<Rightarrow> int" where
  "shown_balance i os b = fold (live_balance i) (map balance_event_of os) b"

lemma shown_balance_simps [simp]:
  "shown_balance i [] b = b"
  "shown_balance i (o' # os) b = shown_balance i os (if ow_walletId o' = i then ow_balance o' else b)"
  by (simp_all add: shown_balance_def live_balance_def balance_event_of_def)

section \<open>Announcements tell the truth at the commit\<close>

lemma announced_deposit:
  assumes "find_wallet i d = Some w" "money_tx (CallDeposit c i actor amount memo) d = Inr (d', r)"
  shows "find_wallet i d' = Some (w\<lparr>w_balance := w_balance w + amount\<rparr>)"
    and "owners_of r = [owner_of w (w_balance w + amount)]"
proof -
  obtain t ow ev where r: "r = RDeposit (t, ow, ev)" and tx: "deposit_tx c i actor amount memo d = Inr (d', t, ow, ev)"
    using assms(2) by (auto simp: tx_map_def map_sum_def map_prod_def split: sum.splits prod.splits)
  have "wallets d' = upd_rows (\<lambda>w. w_id w = i) (w_balance_update (\<lambda>_. w_balance w + amount)) (wallets d)"
    and ow: "ow = owner_of w (w_balance w + amount)"
    using tx assms(1) by (auto simp: deposit_tx_def tx_simps Let_def)
  then show "find_wallet i d' = Some (w\<lparr>w_balance := w_balance w + amount\<rparr>)"
    using assms(1) by (simp add: find_wallet_def wallet_balance.find_same)
  show "owners_of r = [owner_of w (w_balance w + amount)]" using r ow by simp
qed

section \<open>But they may overtake each other\<close>

text \<open>Two more sessions, beside some that are answered.\<close>

definition with_two :: "db_session list \<Rightarrow> tx_call \<Rightarrow> tx_call \<Rightarrow> db \<Rightarrow> owner_info list \<Rightarrow> phase \<Rightarrow> phase \<Rightarrow> lock_sys" where
  "with_two ss a b d f x y = \<lparr>cs_db = d,
     cs_sessions = ss @ [\<lparr>se_call = a, se_phase = x\<rparr>, \<lparr>se_call = b, se_phase = y\<rparr>], cs_feed = f\<rparr>"

lemma with_two_sel [simp]:
  "cs_db (with_two ss a b d f x y) = d" "cs_feed (with_two ss a b d f x y) = f"
  "cs_sessions (with_two ss a b d f x y) ! length ss = \<lparr>se_call = a, se_phase = x\<rparr>"
  "cs_sessions (with_two ss a b d f x y) ! Suc (length ss) = \<lparr>se_call = b, se_phase = y\<rparr>"
  "length (cs_sessions (with_two ss a b d f x y)) = Suc (Suc (length ss))"
  by (simp_all add: with_two_def nth_append)

lemma with_two_update [simp]:
  "set_phase (length ss) ph (with_two ss a b d f x y) = with_two ss a b d f ph y"
  "set_phase (Suc (length ss)) ph (with_two ss a b d f x y) = with_two ss a b d f x ph"
  "(with_two ss a b d f x y)\<lparr>cs_db := d'\<rparr> = with_two ss a b d' f x y"
  "(with_two ss a b d f x y)\<lparr>cs_feed := f'\<rparr> = with_two ss a b d f' x y"
  by (simp_all add: with_two_def set_phase_def nth_append list_update_append)

lemma locks_of_with_two:
  assumes "\<forall>se \<in> set ss. \<exists>res. se_phase se = Answered res"
  shows "taken (with_two ss a b d f x y) (length ss) l \<longleftrightarrow> l \<in> set (locks_of \<lparr>se_call = b, se_phase = y\<rparr>)"
    and "taken (with_two ss a b d f x y) (Suc (length ss)) l \<longleftrightarrow> l \<in> set (locks_of \<lparr>se_call = a, se_phase = x\<rparr>)"
proof -
  have "locks_of (ss ! j) = []" if "j < length ss" for j
    using assms nth_mem [OF that] by (auto simp: locks_of_def split: phase.splits)
  then have taken: "taken (with_two ss a b d f x y) k l \<longleftrightarrow>
      k \<noteq> length ss \<and> l \<in> set (locks_of \<lparr>se_call = a, se_phase = x\<rparr>) \<or>
      k \<noteq> Suc (length ss) \<and> l \<in> set (locks_of \<lparr>se_call = b, se_phase = y\<rparr>)" for k
    unfolding taken_iff with_two_sel(5) Ex_less_Suc by (auto simp: with_two_def nth_append)
  show "taken (with_two ss a b d f x y) (length ss) l \<longleftrightarrow> l \<in> set (locks_of \<lparr>se_call = b, se_phase = y\<rparr>)"
    and "taken (with_two ss a b d f x y) (Suc (length ss)) l \<longleftrightarrow> l \<in> set (locks_of \<lparr>se_call = a, se_phase = x\<rparr>)"
    by (simp_all add: taken)
qed

lemma announce_step:
  "advance (length ss) (with_two ss a b d f (Announcing r) y) =
     Some (with_two ss a b d (f @ owners_of r) (Answered (Inr r)) y)"
  "advance (Suc (length ss)) (with_two ss a b d f x (Announcing r)) =
     Some (with_two ss a b d (f @ owners_of r) x (Answered (Inr r)))"
  by (simp_all add: advance_def blocked_def)

text \<open>Two deposits commit one after the other, and announce in the opposite order.\<close>

lemma overtaken:
  fixes s :: lock_sys and ca cb :: call_ctx and i :: string and ua ub :: auth_user and a b :: int and ma mb :: "string option"
  defines "go \<equiv> with_two (cs_sessions s) (CallDeposit ca i ua a ma) (CallDeposit cb i ub b mb)"
  assumes "reach locking_start locking_step s" "\<forall>se \<in> set (cs_sessions s). \<exists>res. se_phase se = Answered res"
    and "0 < a" "0 < b" "find_wallet i (cs_db s) = Some w" "find_wallet i d1 = Some w1"
    and "money_tx (CallDeposit ca i ua a ma) (cs_db s) = Inr (d1, ra)"
    and "money_tx (CallDeposit cb i ub b mb) d1 = Inr (d2, rb)"
  shows "reach locking_start locking_step
    (go d2 (cs_feed s @ owners_of rb @ owners_of ra) (Answered (Inr ra)) (Answered (Inr rb)))"
proof -
  let ?A = "CallDeposit ca i ua a ma" and ?B = "CallDeposit cb i ub b mb" and ?f = "cs_feed s" and ?n = "length (cs_sessions s)"
  let ?pa = "deposit_ready ca i ua a ma w" and ?pb = "deposit_ready cb i ub b mb w1"
  let ?oa = "se_phase (begin_call ?A)" and ?ob = "se_phase (begin_call ?B)"
  have "reach locking_start locking_step (go (cs_db s) ?f ?oa ?ob)"
    using reach_begin [OF assms(2), of "[?A, ?B]"] assms(4,5)
    by (cases s) (simp add: go_def with_two_def begin_call_def del: money_prog.simps)
  moreover have "own_step\<^sup>*\<^sup>* (go (cs_db s) ?f ?oa ?ob) (go (cs_db s) ?f ?pa ?ob)"
    using deposit_session_reads [of ?n "go (cs_db s) ?f ?oa ?ob" i w ca ua a ma] assms(3,6)
    by (simp add: go_def locks_of_with_two begin_call_def locks_of_def)
  moreover have "own_step (go (cs_db s) ?f ?pa ?ob) (go d1 ?f (Announcing ra) ?ob)"
    using deposit_session_commits [of ?n "go (cs_db s) ?f ?pa ?ob" i w ca ua a ma] assms(6,8)
    unfolding own_step_def go_def by (intro exI [of _ ?n]) simp
  moreover have "own_step\<^sup>*\<^sup>* (go d1 ?f (Announcing ra) ?ob) (go d1 ?f (Announcing ra) ?pb)"
    using deposit_session_reads [of "Suc ?n" "go d1 ?f (Announcing ra) ?ob" i w1 cb ub b mb] assms(3,7)
    by (simp add: go_def locks_of_with_two begin_call_def locks_of_def)
  moreover have "own_step (go d1 ?f (Announcing ra) ?pb) (go d2 ?f (Announcing ra) (Announcing rb))"
    using deposit_session_commits [of "Suc ?n" "go d1 ?f (Announcing ra) ?pb" i w1 cb ub b mb] assms(7,9)
    unfolding own_step_def go_def by (intro exI [of _ "Suc ?n"]) simp
  moreover have "own_step (go d2 ?f (Announcing ra) (Announcing rb)) (go d2 (?f @ owners_of rb) (Announcing ra) (Answered (Inr rb)))"
    unfolding own_step_def go_def by (intro exI [of _ "Suc ?n"]) (rule announce_step)
  moreover have "own_step (go d2 (?f @ owners_of rb) (Announcing ra) (Answered (Inr rb)))
      (go d2 ((?f @ owners_of rb) @ owners_of ra) (Answered (Inr ra)) (Answered (Inr rb)))"
    unfolding own_step_def go_def by (intro exI [of _ ?n]) (rule announce_step)
  ultimately show ?thesis unfolding append_assoc
    by (meson reach_own_steps own_step_locking reach_step)
qed

text \<open>C30 (a defect): a live balance can go back and stay wrong. Two deposits to one wallet overlap; the
  second to commit announces its balance first. Both are answered, the wallet holds both amounts,
  and the screen of its owner shows the balance without the second, until something else moves.\<close>

theorem live_balance_can_go_back:
  assumes "reach locking_start locking_step s" "\<forall>se \<in> set (cs_sessions s). \<exists>res. se_phase se = Answered res"
    and "0 < a" "0 < b" "find_wallet i (cs_db s) = Some w"
    and "money_tx (CallDeposit ca i ua a ma) (cs_db s) = Inr (d1, ra)"
    and "money_tx (CallDeposit cb i ub b mb) d1 = Inr (d2, rb)"
  shows "\<exists>s' w' out. reach locking_start locking_step s' \<and>
     (\<forall>se \<in> set (cs_sessions s'). \<exists>res. se_phase se = Answered res) \<and>
     find_wallet i (cs_db s') = Some w' \<and> w_balance w' = w_balance w + a + b \<and>
     cs_feed s' = cs_feed s @ out \<and> shown_balance i out (w_balance w) = w_balance w' - b"
proof -
  define s' where "s' = with_two (cs_sessions s) (CallDeposit ca i ua a ma) (CallDeposit cb i ub b mb) d2
    (cs_feed s @ owners_of rb @ owners_of ra) (Answered (Inr ra)) (Answered (Inr rb))"
  note first = announced_deposit [OF assms(5,6)]
  note second = announced_deposit [OF first(1) assms(7)]
  have "reach locking_start locking_step s'"
    unfolding s'_def by (rule overtaken [OF assms(1-5) first(1) assms(6,7)])
  moreover have "shown_balance i (owners_of rb @ owners_of ra) (w_balance w) = w_balance w + a"
    using find_wallet_in [OF assms(5)] by (simp add: first(2) second(2) owner_of_def)
  moreover have "\<forall>se \<in> set (cs_sessions s'). \<exists>res. se_phase se = Answered res"
    using assms(2) by (auto simp: s'_def with_two_def)
  ultimately show ?thesis using second(1)
    by (intro exI [of _ s'] exI [of _ "w\<lparr>w_balance := w_balance w + a + b\<rparr>"]
        exI [of _ "owners_of rb @ owners_of ra"]) (simp add: s'_def)
qed

lemma second_deposit:
  "\<exists>d r. money_tx (CallDeposit (money_ctx ''b'') ''w1'' (money_actor ''u1'') 200 None) funded = Inr (d, r)"
  by (auto simp: deposit_tx_def tx_map_def tx_defs_all wallet_set_balance_def txn_create_def ins_row_def
      audit_log_def audit_row_of_def notify_enqueue_def outbox_enqueue_def funded_def two_wallets_def
      find_wallet_def demo_wallet_def int4_def int4_max_def int4_opt_def settled_row_def
      event_row_def new_outbox_row_def notification_event_def Let_def)

lemma live_balance_can_go_back_witness:
  "\<exists>s' w' out. reach locking_start locking_step s' \<and> find_wallet ''w1'' (cs_db s') = Some w' \<and>
     w_balance w' = 700 \<and> cs_feed s' = out \<and> shown_balance ''w1'' out 0 = 500"
proof -
  obtain r where r: "money_tx demo_deposit two_wallets = Inr (funded, r)" using demo_deposit_runs by blast
  obtain d r' where r': "money_tx (CallDeposit (money_ctx ''b'') ''w1'' (money_actor ''u1'') 200 None) funded = Inr (d, r')"
    using second_deposit by blast
  have w: "w_balance (demo_wallet ''w1'' ''u1'' 0) = 0" by (simp add: demo_wallet_def)
  show ?thesis
    using live_balance_can_go_back [OF reach_two_wallets _ _ _ _ _ r', of 500 "demo_wallet ''w1'' ''u1'' 0"
        "money_ctx ''a''" "money_actor ''u1''" None r] r find_demo_wallet
    by (fastforce simp: w demo_deposit_def simp del: money_tx.simps)
qed

end
