(* ===== verification/Exchange.thy ===== *)
theory Exchange
  imports Wizards
begin

text \<open>
  \<open>ExchangeScreen\<close> (\<open>customer/components/exchange/exchange-screen.tsx\<close>): exchanging between two of
  the person's own wallets with a live quote. The effect that asks for a quote cancels itself when
  what it depends on changes, so only the reply to the latest question counts. Which sheet is open,
  the animations and the formatting of amounts are not modelled.
\<close>

section \<open>State\<close>

record wallet_summary =
  ws_id :: string
  ws_currency :: string
  ws_balance :: int

record quote_key =
  qk_minor :: nat
  qk_from :: string
  qk_to :: string

record quote_result =
  qr_converted :: "jval option"
  qr_rate :: "jval option"
  qr_key :: quote_key

text \<open>The quote effect: idle, waiting for its timer, waiting for its reply, or answered.\<close>

datatype quote_task = NoQuote | QuoteTimer quote_key | QuoteAsked quote_key | QuoteAnswered

record exchange_done =
  xd_minor :: nat
  xd_from :: string
  xd_converted :: "jval option"
  xd_to :: string

record exchange =
  ex_fromId :: string
  ex_toId :: string
  ex_amount :: string
  ex_result :: "quote_result option"
  ex_failedFor :: "quote_key option"
  ex_turns :: nat
  ex_task :: quote_task
  ex_sent :: "exchange_done option"
  ex_done :: "exchange_done option"
  ex_key :: key_ref
  ex_toasts :: "toast_msg list"

text \<open>\<open>busy\<close>: a submit waits, holding what its success will say.\<close>

definition ex_busy :: "exchange \<Rightarrow> bool" where
  "ex_busy w \<longleftrightarrow> ex_sent w \<noteq> None"

definition nth_id :: "wallet_summary list \<Rightarrow> nat \<Rightarrow> string" where
  "nth_id ws i = (if i < length ws then ws_id (ws ! i) else [])"

definition exchange_start :: "wallet_summary list \<Rightarrow> exchange" where
  "exchange_start ws = \<lparr>ex_fromId = nth_id ws 0, ex_toId = nth_id ws 1, ex_amount = [], ex_result = None,
     ex_failedFor = None, ex_turns = 0, ex_task = NoQuote, ex_sent = None, ex_done = None, ex_key = None,
     ex_toasts = []\<rparr>"

section \<open>What a render derives\<close>

definition ex_wallet :: "wallet_summary list \<Rightarrow> string \<Rightarrow> wallet_summary option" where
  "ex_wallet ws i = List.find (\<lambda>w. ws_id w = i) ws"

definition ex_from :: "wallet_summary list \<Rightarrow> exchange \<Rightarrow> wallet_summary option" where
  "ex_from ws w = ex_wallet ws (ex_fromId w)"

definition ex_to :: "wallet_summary list \<Rightarrow> exchange \<Rightarrow> wallet_summary option" where
  "ex_to ws w = ex_wallet ws (ex_toId w)"

definition ex_overBalance :: "wallet_summary list \<Rightarrow> exchange \<Rightarrow> bool" where
  "ex_overBalance ws w \<longleftrightarrow> (case (parseAmountToMinor (ex_amount w), ex_from ws w) of
     (Some m, Some src) \<Rightarrow> ws_balance src < int m | _ \<Rightarrow> False)"

text \<open>The key of what is asked now. A currency that is the empty string counts as missing.\<close>

definition ex_asked :: "wallet_summary list \<Rightarrow> exchange \<Rightarrow> quote_key option" where
  "ex_asked ws w = (case (parseAmountToMinor (ex_amount w), ex_from ws w, ex_to ws w) of
     (Some m, Some src, Some dst) \<Rightarrow>
       if ws_currency src = [] \<or> ws_currency dst = [] then None
       else Some \<lparr>qk_minor = m, qk_from = ws_currency src, qk_to = ws_currency dst\<rparr>
   | _ \<Rightarrow> None)"

definition ex_current :: "wallet_summary list \<Rightarrow> exchange \<Rightarrow> quote_result option" where
  "ex_current ws w = (case (ex_asked ws w, ex_result w) of
     (Some k, Some r) \<Rightarrow> if qr_key r = k then Some r else None | _ \<Rightarrow> None)"

definition ex_failed :: "wallet_summary list \<Rightarrow> exchange \<Rightarrow> bool" where
  "ex_failed ws w \<longleftrightarrow> ex_asked ws w \<noteq> None \<and> ex_failedFor w = ex_asked ws w"

definition ex_loading :: "wallet_summary list \<Rightarrow> exchange \<Rightarrow> bool" where
  "ex_loading ws w \<longleftrightarrow> ex_asked ws w \<noteq> None \<and> ex_current ws w = None \<and> \<not> ex_failed ws w"

definition canSubmit :: "wallet_summary list \<Rightarrow> exchange \<Rightarrow> bool" where
  "canSubmit ws w \<longleftrightarrow> ex_current ws w \<noteq> None \<and> \<not> ex_overBalance ws w \<and> ex_from ws w \<noteq> None \<and> ex_to ws w \<noteq> None"

definition ex_shown :: "wallet_summary list \<Rightarrow> exchange \<Rightarrow> quote_result option" where
  "ex_shown ws w = (case ex_current ws w of Some r \<Rightarrow> Some r
     | None \<Rightarrow> if ex_asked ws w \<noteq> None then ex_result w else None)"

section \<open>Handlers\<close>

definition ex_swap :: "exchange \<Rightarrow> exchange" where
  "ex_swap w = w\<lparr>ex_fromId := ex_toId w, ex_toId := ex_fromId w, ex_turns := Suc (ex_turns w)\<rparr>"

datatype side = FromSide | ToSide

definition ex_pick :: "side \<Rightarrow> string \<Rightarrow> exchange \<Rightarrow> exchange" where
  "ex_pick sd i w =
     (case sd of
        FromSide \<Rightarrow> w\<lparr>ex_toId := if i = ex_toId w then ex_fromId w else ex_toId w, ex_fromId := i\<rparr>
      | ToSide \<Rightarrow> w\<lparr>ex_fromId := if i = ex_fromId w then ex_toId w else ex_fromId w, ex_toId := i\<rparr>)"

definition quote_path :: "quote_key \<Rightarrow> string" where
  "quote_path k = ''/api/rates/quote?from='' @ qk_from k @ ''&to='' @ qk_to k @ ''&amount='' @ show_nat (qk_minor k)"

definition screen_quote_reply :: "quote_key \<Rightarrow> api_result \<Rightarrow> exchange \<Rightarrow> exchange" where
  "screen_quote_reply k r w =
     (let w1 = w\<lparr>ex_task := QuoteAnswered\<rparr> in
      case r of
        ApiFailed e \<Rightarrow> w1\<lparr>ex_failedFor := Some k\<rparr>
      | ApiOk st d \<Rightarrow>
          if d = JNull then w1\<lparr>ex_failedFor := None\<rparr>
          else w1\<lparr>ex_failedFor := None,
                  ex_result := Some \<lparr>qr_converted = jget ''converted'' d, qr_rate = jget ''rate'' d, qr_key = k\<rparr>\<rparr>)"

definition exchange_call :: "string \<Rightarrow> string \<Rightarrow> string \<Rightarrow> nat \<Rightarrow> api_call" where
  "exchange_call fromId toId key minor = money_call (''/api/wallets/'' @ fromId @ ''/transfers'') key None
     [(''toWalletId'', Some (JStr toId)), (''amount'', Some (jint (int minor)))]"

text \<open>\<open>minor\<close> is the amount of the current quote's key, which is the key of what is asked.\<close>

definition exchange_submit :: "wallet_summary list \<Rightarrow> string \<Rightarrow> exchange \<Rightarrow> exchange \<times> api_call option" where
  "exchange_submit ws fresh w =
     (case (ex_current ws w, ex_from ws w, ex_to ws w) of
        (Some q, Some src, Some dst) \<Rightarrow>
          if canSubmit ws w then
            (case key_get fresh (ex_key w) of (k, r) \<Rightarrow>
               (w\<lparr>ex_key := r, ex_sent := Some \<lparr>xd_minor = qk_minor (qr_key q), xd_from = ws_currency src,
                    xd_converted = qr_converted q, xd_to = ws_currency dst\<rparr>\<rparr>,
                Some (exchange_call (ex_fromId w) (ex_toId w) k (qk_minor (qr_key q)))))
          else (w, None)
      | _ \<Rightarrow> (w, None))"

definition EXCHANGE_TOASTS :: "(string \<times> string) list" where
  "EXCHANGE_TOASTS =
     [(''HTTP_409'', ''This exchange may have already gone through -- check your balances before trying again.''),
      (''HTTP_400'', ''Exchange failed. Check your balance and try again.''),
      (''HTTP_500'', ''Exchange failed. Check your balance and try again.'')]"

definition exchange_reply :: "api_result \<Rightarrow> exchange \<Rightarrow> exchange" where
  "exchange_reply r w =
     (let w1 = w\<lparr>ex_sent := None\<rparr> in
      case r of
        ApiFailed e \<Rightarrow> w1\<lparr>ex_toasts := ex_toasts w @ [toastApiError e EXCHANGE_TOASTS]\<rparr>
      | ApiOk st d \<Rightarrow> w1\<lparr>ex_key := key_reset (ex_key w), ex_done := ex_sent w\<rparr>)"

section \<open>Events\<close>

datatype exchange_event =
    ExType string | ExSwap | ExPick side string | ExSubmit | ExReply "http_reply_msg option"
  | QuoteTick | QuoteReply quote_key "http_reply_msg option"

text \<open>The dialog that reports success covers the screen, and without two wallets there is none.\<close>

definition ex_usable :: "wallet_summary list \<Rightarrow> exchange \<Rightarrow> bool" where
  "ex_usable ws w \<longleftrightarrow> ex_done w = None \<and> ex_from ws w \<noteq> None \<and> ex_to ws w \<noteq> None"

fun exchange_react :: "wallet_summary list \<Rightarrow> string \<Rightarrow> exchange_event \<Rightarrow> exchange \<Rightarrow> exchange \<times> api_call option" where
  "exchange_react ws f (ExType s) w = (if ex_usable ws w then w\<lparr>ex_amount := sanitizeAmount s\<rparr> else w, None)"
| "exchange_react ws f ExSwap w = (if ex_usable ws w then ex_swap w else w, None)"
| "exchange_react ws f (ExPick sd i) w =
     (if ex_usable ws w \<and> List.member (map ws_id ws) i then ex_pick sd i w else w, None)"
| "exchange_react ws f ExSubmit w =
     (if ex_usable ws w \<and> \<not> ex_busy w then exchange_submit ws f w else (w, None))"
| "exchange_react ws f (ExReply r) w = (if ex_busy w then exchange_reply (apiRequest r) w else w, None)"
| "exchange_react ws f QuoteTick w =
     (case ex_task w of QuoteTimer k \<Rightarrow> (w\<lparr>ex_task := QuoteAsked k\<rparr>, Some (get_call (quote_path k))) | _ \<Rightarrow> (w, None))"
| "exchange_react ws f (QuoteReply k r) w =
     (if ex_task w = QuoteAsked k then screen_quote_reply k (apiRequest r) w else w, None)"

text \<open>The effect runs again when its dependencies change: the old timer is cleared and the old
  request cancelled, so its reply, which is ignored, is no event here.\<close>

definition rerun_quote :: "wallet_summary list \<Rightarrow> exchange \<Rightarrow> exchange \<Rightarrow> exchange" where
  "rerun_quote ws before w =
     (let deps = (\<lambda>w. (parseAmountToMinor (ex_amount w), map_option ws_currency (ex_from ws w),
                       map_option ws_currency (ex_to ws w)))
      in if deps w = deps before then w
         else w\<lparr>ex_task := (case ex_asked ws w of None \<Rightarrow> NoQuote | Some k \<Rightarrow> QuoteTimer k)\<rparr>)"

definition exchange_step :: "wallet_summary list \<Rightarrow> string \<Rightarrow> exchange_event \<Rightarrow> exchange \<Rightarrow> exchange \<times> api_call option" where
  "exchange_step ws f e w = (case exchange_react ws f e w of (w1, out) \<Rightarrow> (rerun_quote ws w w1, out))"

definition exchange_succeeds :: "exchange_event \<Rightarrow> exchange \<Rightarrow> bool" where
  "exchange_succeeds e w \<longleftrightarrow> (case e of
     ExReply r \<Rightarrow> ex_busy w \<and> (case apiRequest r of ApiOk st d \<Rightarrow> True | ApiFailed er \<Rightarrow> False) | _ \<Rightarrow> False)"

lemma rerun_quote_fields [simp]:
  "ex_key (rerun_quote ws w0 w) = ex_key w" "ex_fromId (rerun_quote ws w0 w) = ex_fromId w"
  "ex_toId (rerun_quote ws w0 w) = ex_toId w" "ex_result (rerun_quote ws w0 w) = ex_result w"
  "ex_amount (rerun_quote ws w0 w) = ex_amount w"
  by (simp_all add: rerun_quote_def Let_def)

lemma exchange_call_key [simp]: "call_key (exchange_call i j k m) = Some k"
  by (simp add: exchange_call_def)

lemmas exchange_handlers = ex_swap_def ex_pick_def screen_quote_reply_def exchange_submit_def exchange_reply_def
  key_get_def key_reset_def Let_def

interpretation exchanging: keyed_screen "exchange_step ws" exchange_succeeds ex_key
proof unfold_locales
  fix f e w w' c out
  show "call_key c = None \<or> call_key c = ex_key w'" if "exchange_step ws f e w = (w', Some c)"
    using that by (cases e) (auto simp: exchange_step_def exchange_handlers
      split: option.splits if_splits prod.splits api_result.splits quote_task.splits)
  show "ex_key w' = ex_key w \<or> ex_key w = None \<and> ex_key w' = Some f"
    if "exchange_step ws f e w = (w', out)" "\<not> exchange_succeeds e w"
    using that by (cases e) (auto simp: exchange_step_def exchange_handlers exchange_succeeds_def
      split: option.splits if_splits prod.splits api_result.splits quote_task.splits side.splits)
  show "ex_key w' = None \<and> out = None" if "exchange_step ws f e w = (w', out)" "exchange_succeeds e w"
    using that by (cases e) (auto simp: exchange_step_def exchange_handlers exchange_succeeds_def
      split: option.splits if_splits prod.splits api_result.splits quote_task.splits)
qed

section \<open>What is shown is what is sent\<close>

definition quoted :: "(string \<times> exchange_event) list \<Rightarrow> quote_key set" where
  "quoted evs = {k. \<exists>f r st d. (f, QuoteReply k r) \<in> set evs \<and> apiRequest r = ApiOk st d}"

definition exchange_inv :: "quote_key set \<Rightarrow> exchange \<Rightarrow> bool" where
  "exchange_inv B w \<longleftrightarrow> ex_fromId w \<noteq> ex_toId w \<and> (\<forall>q. ex_result w = Some q \<longrightarrow> qr_key q \<in> B)"

definition exchange_allowed :: "wallet_summary list \<Rightarrow> quote_key set \<Rightarrow> api_call \<Rightarrow> bool" where
  "exchange_allowed ws B c \<longleftrightarrow> call_key c = None \<or>
     (\<exists>src dst k m. src \<in> set ws \<and> dst \<in> set ws \<and> ws_id src \<noteq> ws_id dst \<and>
        c = exchange_call (ws_id src) (ws_id dst) k m \<and> 0 < m \<and> int m \<le> ws_balance src \<and>
        \<lparr>qk_minor = m, qk_from = ws_currency src, qk_to = ws_currency dst\<rparr> \<in> B)"

lemma exchange_inv_mono: "exchange_inv B w \<Longrightarrow> B \<subseteq> B' \<Longrightarrow> exchange_inv B' w"
  by (auto simp: exchange_inv_def)


lemma ex_wallet_in: "ex_wallet ws i = Some x \<Longrightarrow> x \<in> set ws \<and> ws_id x = i"
  by (auto simp: ex_wallet_def find_Some_iff)

lemma parse_positive: "parseAmountToMinor s = Some m \<Longrightarrow> 0 < m"
  by (auto simp: parseAmountToMinor_def Let_def split: if_splits)

lemma ex_current_facts:
  assumes "ex_current ws w = Some q"
  obtains src dst m where "parseAmountToMinor (ex_amount w) = Some m" "ex_from ws w = Some src" "ex_to ws w = Some dst"
    "qr_key q = \<lparr>qk_minor = m, qk_from = ws_currency src, qk_to = ws_currency dst\<rparr>" "ex_result w = Some q"
  using assms by (fastforce simp: ex_current_def ex_asked_def split: option.splits if_splits)

lemma submit_allowed:
  assumes inv: "exchange_inv B w" and s: "exchange_submit ws f w = (w', Some c)"
  shows "exchange_allowed ws B c"
proof -
  obtain q src dst where q: "ex_current ws w = Some q" "ex_from ws w = Some src" "ex_to ws w = Some dst"
    "canSubmit ws w" and c: "\<exists>k. c = exchange_call (ex_fromId w) (ex_toId w) k (qk_minor (qr_key q))"
    using s by (auto simp: exchange_submit_def split: option.splits if_splits prod.splits)
  obtain m where m: "parseAmountToMinor (ex_amount w) = Some m" "ex_result w = Some q"
    "qr_key q = \<lparr>qk_minor = m, qk_from = ws_currency src, qk_to = ws_currency dst\<rparr>"
    using ex_current_facts [OF q(1)] q(2,3) by (metis option.inject)
  have "int m \<le> ws_balance src" using q(2,4) m(1) by (simp add: canSubmit_def ex_overBalance_def)
  moreover have "src \<in> set ws" "ws_id src = ex_fromId w" "dst \<in> set ws" "ws_id dst = ex_toId w"
    using q(2,3) ex_wallet_in by (auto simp: ex_from_def ex_to_def)
  moreover have "qr_key q \<in> B" "ex_fromId w \<noteq> ex_toId w" using inv m(2) by (auto simp: exchange_inv_def)
  ultimately show ?thesis using c m parse_positive [OF m(1)] unfolding exchange_allowed_def by force
qed

lemma exchange_step_inv:
  assumes inv: "exchange_inv B w" and st: "exchange_step ws f e w = (w', out)"
    and B': "B' = B \<union> quoted [(f, e)]"
  shows "exchange_inv B' w' \<and> (\<forall>c. out = Some c \<longrightarrow> exchange_allowed ws B' c)"
proof -
  have inv': "exchange_inv B' w" using exchange_inv_mono [OF inv] B' by blast
  have new: "k \<in> B'" if "e = QuoteReply k r" "apiRequest r = ApiOk s d" for k r s d
    using that B' by (auto simp: quoted_def)
  obtain w1 where r: "exchange_react ws f e w = (w1, out)" and w': "w' = rerun_quote ws w w1"
    using st by (auto simp: exchange_step_def split: prod.splits)
  have "exchange_inv B' w1 \<and> (\<forall>c. out = Some c \<longrightarrow> exchange_allowed ws B' c)"
  proof (cases e)
    case ExSubmit
    have "exchange_inv B' (fst (exchange_submit ws f w))"
      using inv' by (auto simp: exchange_inv_def exchange_submit_def key_get_def split: option.splits prod.splits)
    then show ?thesis using r ExSubmit submit_allowed [OF inv', of ws f] inv' by (auto split: if_splits)
  next
    case (QuoteReply k x)
    then show ?thesis using r inv' new [OF QuoteReply]
      by (auto simp: exchange_inv_def screen_quote_reply_def Let_def split: if_splits api_result.splits)
  qed (use r inv' in \<open>auto simp: exchange_inv_def ex_swap_def ex_pick_def exchange_reply_def exchange_allowed_def Let_def
        split: if_splits side.splits api_result.splits quote_task.splits\<close>)
  then show ?thesis unfolding w' by (simp add: exchange_inv_def)
qed

interpretation exchanged: answered_screen "exchange_step ws" exchange_succeeds quoted exchange_inv "exchange_allowed ws"
proof unfold_locales
  fix x evs B B' c w f e w' out
  show "quoted [] = {}" by (simp add: quoted_def)
  show "quoted (x # evs) = quoted [x] \<union> quoted evs" by (auto simp: quoted_def)
  show "exchange_allowed ws B' c" if "exchange_allowed ws B c" "B \<subseteq> B'"
    using that unfolding exchange_allowed_def by blast
  show "exchange_inv (B \<union> quoted [(f, e)]) w' \<and>
      (\<forall>c. out = Some c \<longrightarrow> exchange_allowed ws (B \<union> quoted [(f, e)]) c)"
    if "exchange_inv B w" "exchange_step ws f e w = (w', out)"
    using exchange_step_inv [OF that refl] .
qed

text \<open>C11: the exchange that is asked for is the one on the screen. With two wallets or more, every
  request to exchange names two different wallets of the person, moves a positive amount within the
  balance the screen had, and the rate service had answered for exactly that amount and those two
  currencies, whatever was typed, swapped or picked before and however the replies came in.\<close>

theorem exchange_is_as_shown:
  assumes ws: "distinct (map ws_id ws)" "2 \<le> length ws"
    and run: "session (exchange_step ws) exchange_succeeds evs (exchange_start ws) = (w, cs, n)"
    and c: "c \<in> set cs" "call_key c = Some k"
  shows "\<exists>src dst m f r st d. src \<in> set ws \<and> dst \<in> set ws \<and> ws_id src \<noteq> ws_id dst \<and>
     c = exchange_call (ws_id src) (ws_id dst) k m \<and> 0 < m \<and> int m \<le> ws_balance src \<and>
     (f, QuoteReply \<lparr>qk_minor = m, qk_from = ws_currency src, qk_to = ws_currency dst\<rparr> r) \<in> set evs \<and>
     apiRequest r = ApiOk st d"
proof -
  have "nth_id ws 0 \<noteq> nth_id ws 1"
    using ws nth_eq_iff_index_eq [OF ws(1), of 0 1] by (auto simp: nth_id_def)
  then have "exchange_inv {} (exchange_start ws)" by (simp add: exchange_inv_def exchange_start_def)
  then have "exchange_allowed ws (quoted evs) c" using exchanged.session_allowed [OF run _ c(1)] by fastforce
  then obtain src dst k' m where call: "c = exchange_call (ws_id src) (ws_id dst) k' m" "src \<in> set ws" "dst \<in> set ws"
    "ws_id src \<noteq> ws_id dst" "0 < m" "int m \<le> ws_balance src"
    and q: "\<lparr>qk_minor = m, qk_from = ws_currency src, qk_to = ws_currency dst\<rparr> \<in> quoted evs"
    using c(2) by (auto simp: exchange_allowed_def)
  have "k' = k" using call(1) c(2) by simp
  then show ?thesis using call q unfolding quoted_def by blast
qed

definition demo_wallets :: "wallet_summary list" where
  "demo_wallets = [\<lparr>ws_id = ''w1'', ws_currency = ''EUR'', ws_balance = 10000\<rparr>,
     \<lparr>ws_id = ''w2'', ws_currency = ''USD'', ws_balance = 0\<rparr>]"

definition demo_exchanging :: "(string \<times> exchange_event) list" where
  "demo_exchanging = map (Pair ''k'') [ExType ''12.5'', QuoteTick,
     QuoteReply \<lparr>qk_minor = 1250, qk_from = ''EUR'', qk_to = ''USD''\<rparr>
       (Some (json_reply 200 (JObj [(''converted'', jint 1400), (''rate'', JStr ''1.12'')]))), ExSubmit]"

definition demo_exchange :: "exchange \<times> api_call list \<times> nat" where
  "demo_exchange = session (exchange_step demo_wallets) exchange_succeeds demo_exchanging (exchange_start demo_wallets)"

lemma demo_exchanged: "exchange_call ''w1'' ''w2'' ''k'' 1250 \<in> set (fst (snd demo_exchange))"
  by code_simp

lemma exchange_is_as_shown_witness:
  "\<exists>src dst m. src \<in> set demo_wallets \<and> dst \<in> set demo_wallets \<and> ws_id src \<noteq> ws_id dst \<and>
     exchange_call ''w1'' ''w2'' ''k'' 1250 = exchange_call (ws_id src) (ws_id dst) ''k'' m \<and> 0 < m \<and>
     int m \<le> ws_balance src"
proof -
  have ok: "distinct (map ws_id demo_wallets)" "2 \<le> length demo_wallets" by (simp_all add: demo_wallets_def)
  have run: "session (exchange_step demo_wallets) exchange_succeeds demo_exchanging (exchange_start demo_wallets) =
      (fst demo_exchange, fst (snd demo_exchange), snd (snd demo_exchange))"
    by (simp add: demo_exchange_def)
  show ?thesis using exchange_is_as_shown [OF ok run demo_exchanged exchange_call_key] by blast
qed

end
