(* ===== verification/Backoffice.thy ===== *)
theory Backoffice
  imports Wallets Queue Cache
begin

text \<open>
  What the operators see: the audit history page (\<open>backend/src/audit/audit.service.ts\<close>), the
  dashboard's work queue (\<open>admin/overview.service.ts\<close>), the health check (\<open>health/\<close>), the
  watch over the outbox and the dead letters (\<open>observability/ops-watch.service.ts\<close>) and the
  error tracker's switch (\<open>observability/sentry.ts\<close>). All of it only reads the tables.
\<close>

section \<open>The audit history\<close>

text \<open>The names of the audited actions and entities are those of \<open>audit.actions.ts\<close>.\<close>

fun action_name :: "audit_action \<Rightarrow> string" where
  "action_name DepositSettle = ''deposit.settle''"
| "action_name DepositApprove = ''deposit.approve''"
| "action_name DepositReject = ''deposit.reject''"
| "action_name WithdrawalApprove = ''withdrawal.approve''"
| "action_name WithdrawalReject = ''withdrawal.reject''"
| "action_name WalletAdjust = ''wallet.adjust''"
| "action_name WalletTransfer = ''wallet.transfer''"
| "action_name UserStatusChange = ''user.status_change''"
| "action_name UserRoleChange = ''user.role_change''"

fun entity_name :: "audit_entity \<Rightarrow> string" where
  "entity_name EntTransaction = ''transaction''"
| "entity_name EntWallet = ''wallet''"
| "entity_name EntUser = ''user''"

record audit_filters =
  af_actorId :: "string option"
  af_entityType :: "string option"
  af_entityId :: "string option"
  af_action :: "string option"
  af_q :: "string option"
  af_from :: "int option"
  af_to :: "int option"
  af_skip :: "nat option"
  af_take :: "nat option"

record audit_page =
  ag_total :: nat
  ag_skip :: nat
  ag_take :: nat
  ag_logs :: "audit_row list"

text \<open>A filter that is absent or the empty string (both falsy) restricts nothing.\<close>

definition wanted :: "string option \<Rightarrow> (string \<Rightarrow> bool) \<Rightarrow> bool" where
  "wanted f P = (case f of None \<Rightarrow> True | Some v \<Rightarrow> if v = [] then True else P v)"

definition audit_matches :: "audit_filters \<Rightarrow> audit_row \<Rightarrow> bool" where
  "audit_matches f r =
     (wanted (af_actorId f) (\<lambda>v. ae_actorUserId (al_entry r) = v)
      \<and> wanted (af_entityType f) (\<lambda>v. entity_name (ae_entityType (al_entry r)) = v)
      \<and> wanted (af_entityId f) (\<lambda>v. ae_entityId (al_entry r) = v)
      \<and> wanted (af_action f) (\<lambda>v. action_name (ae_action (al_entry r)) = v)
      \<and> wanted (af_q f) (\<lambda>v. contains_ci (action_name (ae_action (al_entry r))) v
                            \<or> starts_with (ae_entityId (al_entry r)) v)
      \<and> (case af_from f of None \<Rightarrow> True | Some t \<Rightarrow> t \<le> al_createdAt r)
      \<and> (case af_to f of None \<Rightarrow> True | Some t \<Rightarrow> al_createdAt r \<le> t))"

definition audit_findMany :: "audit_filters \<Rightarrow> db \<Rightarrow> audit_page" where
  "audit_findMany f d =
     (let sk = (case af_skip f of Some n \<Rightarrow> n | None \<Rightarrow> 0);
          tk = min (case af_take f of Some n \<Rightarrow> n | None \<Rightarrow> 20) 100;
          rows = filter (audit_matches f) (audit_logs d)
      in \<lparr>ag_total = length rows, ag_skip = sk, ag_take = tk,
          ag_logs = page sk tk (order_desc al_createdAt rows)\<rparr>)"

section \<open>The dashboard's work queue\<close>

record type_total =
  tt_count :: nat
  tt_amount :: int

record overview_report =
  ov_pendingCount :: nat
  ov_oldestCreatedAt :: "string option"
  ov_deposit :: type_total
  ov_withdrawal :: type_total
  ov_approved :: nat
  ov_rejected :: nat
  ov_oldestPending :: "pending_row list"

definition is_pending :: "txn \<Rightarrow> bool" where
  "is_pending t \<longleftrightarrow> t_status t = Pending"

text \<open>\<open>groupBy\<close> over the type: one group per type that occurs, with its count and its sum.\<close>

definition type_groups :: "txn list \<Rightarrow> (txn_type \<times> type_total) list" where
  "type_groups rows =
     map (\<lambda>ty. let g = filter (\<lambda>t. t_type t = ty) rows
               in (ty, \<lparr>tt_count = length g, tt_amount = sum_list (map t_amount g)\<rparr>))
       (remdups (map t_type rows))"

text \<open>The loop that copies the groups of the two types into \<open>typed\<close>.\<close>

fun typed_totals :: "(txn_type \<times> type_total) list \<Rightarrow> type_total \<times> type_total \<Rightarrow> type_total \<times> type_total" where
  "typed_totals [] acc = acc"
| "typed_totals ((ty, g) # gs) (dep, wd) =
     typed_totals gs (if ty = Deposit then (g, wd) else if ty = Withdrawal then (dep, g) else (dep, wd))"

definition reviewed_since :: "txn_status \<Rightarrow> int \<Rightarrow> txn \<Rightarrow> bool" where
  "reviewed_since st t0 t \<longleftrightarrow>
     t_status t = st \<and> (case t_reviewedAt t of None \<Rightarrow> False | Some r \<Rightarrow> t0 \<le> r)"

text \<open>
  \<open>report\<close>: \<open>startOfDay\<close> is the host's \<open>setHours(0, 0, 0, 0)\<close>, which depends on its time
  zone. The six queries read one database here; the code runs them without a transaction.
\<close>

definition overview :: "(int \<Rightarrow> int) \<Rightarrow> int \<Rightarrow> db \<Rightarrow> overview_report" where
  "overview startOfDay t d =
     (let pending = filter is_pending (txns d);
          sorted_pending = order_asc t_createdAt pending;
          empty = \<lparr>tt_count = 0, tt_amount = 0\<rparr>;
          typed = typed_totals (type_groups pending) (empty, empty)
      in \<lparr>ov_pendingCount = count_rows is_pending (txns d),
          ov_oldestCreatedAt =
            (case sorted_pending of [] \<Rightarrow> None | x # _ \<Rightarrow> Some (iso_string (t_createdAt x))),
          ov_deposit = fst typed, ov_withdrawal = snd typed,
          ov_approved = count_rows (reviewed_since Approved (startOfDay t)) (txns d),
          ov_rejected = count_rows (reviewed_since Rejected (startOfDay t)) (txns d),
          ov_oldestPending = map (pending_view d) (take 5 sorted_pending)\<rparr>)"

section \<open>Health\<close>

datatype up_down = Up | Down

datatype health_status = HealthOk | Degraded

record health_report =
  hh_status :: health_status
  hh_db :: up_down
  hh_redis :: up_down
  hh_rabbitmq :: up_down
  hh_outboxPending :: "nat option"
  hh_deadLetters :: "nat option"

text \<open>
  What Postgres answers during the check: \<open>SELECT 1\<close> and the outbox count succeed or fail on
  their own.
\<close>

definition pending_events :: "db \<Rightarrow> nat" where
  "pending_events d = count_rows (\<lambda>e. ob_status e = OutPending) (outbox d)"

definition health_check ::
  "bool \<Rightarrow> bool \<Rightarrow> (string + nat) \<Rightarrow> 'v cache \<Rightarrow> db \<Rightarrow> queue \<Rightarrow> health_report \<times> queue" where
  "health_check selectOk countOk reply cch d q =
     (let dbs = (if selectOk then Up else Down);
          redis = (if cache_ping cch then Up else Down);
          (dead, q') = queue_depth reply q;
          pend = (if countOk then Some (pending_events d) else None);
          rabbit = (if isConnected q' then Up else Down);
          status = (if dbs = Up \<and> redis = Up \<and> rabbit = Up then HealthOk else Degraded)
      in (\<lparr>hh_status = status, hh_db = dbs, hh_redis = redis, hh_rabbitmq = rabbit,
           hh_outboxPending = pend, hh_deadLetters = dead\<rparr>, q'))"

text \<open>The controller: 200 unless the database is down.\<close>

definition health_http :: "health_report \<Rightarrow> nat \<times> health_report" where
  "health_http r = (if hh_db r = Down then 503 else 200, r)"

section \<open>The error tracker\<close>

record sentry =
  se_enabled :: bool
  se_service :: "string option"
  se_events :: "(string \<times> (string \<times> string) list) list"

definition initSentry :: "string option \<Rightarrow> string \<Rightarrow> sentry \<Rightarrow> bool \<times> sentry" where
  "initSentry dsn service s =
     (case dsn of
        None \<Rightarrow> (False, s)
      | Some x \<Rightarrow> if x = [] then (False, s)
                  else (True, s\<lparr>se_enabled := True, se_service := Some service\<rparr>))"

definition captureException :: "string \<Rightarrow> (string \<times> string) list \<Rightarrow> sentry \<Rightarrow> sentry" where
  "captureException e extra s =
     (if \<not> se_enabled s then s else s\<lparr>se_events := se_events s @ [(e, extra)]\<rparr>)"

definition captureMessage :: "string \<Rightarrow> string \<Rightarrow> (string \<times> string) list \<Rightarrow> sentry \<Rightarrow> sentry" where
  "captureMessage msg level extra s =
     (if \<not> se_enabled s then s
      else s\<lparr>se_events := se_events s @ [(msg, (''level'', level) # extra)]\<rparr>)"

section \<open>The operations watch\<close>

definition OUTBOX_PENDING_AGE_LIMIT_S :: int where
  "OUTBOX_PENDING_AGE_LIMIT_S = 60"

record ops_snapshot =
  sn_redisUp :: bool
  sn_rabbitmqUp :: bool
  sn_outboxPending :: nat
  sn_oldestPendingSec :: int
  sn_deadLetters :: nat

datatype ops_line = OpsAlert (ol_key: string) string | OpsRecovered (ol_key: string) | OpsWarn string

text \<open>The service: the gauges it exposes, the breaches it has reported, and its log.\<close>

record ops_watch =
  ow_gauges :: "string \<rightharpoonup> int"
  ow_breached :: "string list"
  ow_log :: "ops_line list"
  ow_sentry :: sentry

text \<open>
  \<open>snapshot\<close>: the two outbox queries may fail (\<open>dbError\<close>); the ping and the queue depth never
  throw, so a failure is the database's.
\<close>

definition ops_snapshot_of ::
  "int \<Rightarrow> string option \<Rightarrow> (string + nat) \<Rightarrow> 'v cache \<Rightarrow> db \<Rightarrow> queue \<Rightarrow> (string + ops_snapshot) \<times> queue" where
  "ops_snapshot_of t dbError reply cch d q =
     (let (dead, q') = queue_depth reply q;
          pend = order_asc ob_createdAt (filter (\<lambda>e. ob_status e = OutPending) (outbox d))
      in case dbError of
           Some e \<Rightarrow> (Inl e, q')
         | None \<Rightarrow>
             (Inr \<lparr>sn_redisUp = cache_ping cch, sn_rabbitmqUp = isConnected q',
                sn_outboxPending = pending_events d,
                sn_oldestPendingSec = (case pend of [] \<Rightarrow> 0 | x # _ \<Rightarrow> (t - ob_createdAt x) div 1000),
                sn_deadLetters = (case dead of None \<Rightarrow> 0 | Some n \<Rightarrow> n)\<rparr>, q'))"

text \<open>\<open>watch\<close>: alert on the transition into a breach, log once on recovery.\<close>

definition watch :: "string \<Rightarrow> bool \<Rightarrow> string \<Rightarrow> ops_watch \<Rightarrow> ops_watch" where
  "watch key isBreached message ws =
     (let was = List.member (ow_breached ws) key
      in if isBreached \<and> \<not> was
         then ws\<lparr>ow_breached := ow_breached ws @ [key], ow_log := ow_log ws @ [OpsAlert key message],
                ow_sentry := captureMessage (''ALERT '' @ key @ '': '' @ message) ''error''
                               [(''key'', key)] (ow_sentry ws)\<rparr>
         else if \<not> isBreached \<and> was
         then ws\<lparr>ow_breached := filter (\<lambda>k. k \<noteq> key) (ow_breached ws), ow_log := ow_log ws @ [OpsRecovered key]\<rparr>
         else ws)"

definition set_gauges :: "ops_snapshot \<Rightarrow> (string \<rightharpoonup> int) \<Rightarrow> (string \<rightharpoonup> int)" where
  "set_gauges s g =
     g(''maxone_outbox_pending'' \<mapsto> int (sn_outboxPending s),
       ''maxone_outbox_oldest_pending_seconds'' \<mapsto> sn_oldestPendingSec s,
       ''maxone_dead_letters'' \<mapsto> int (sn_deadLetters s),
       ''maxone_redis_up'' \<mapsto> (if sn_redisUp s then 1 else 0),
       ''maxone_rabbitmq_up'' \<mapsto> (if sn_rabbitmqUp s then 1 else 0))"

definition DEAD_LETTERS :: string where "DEAD_LETTERS = ''dead-letters''"
definition OUTBOX_STUCK :: string where "OUTBOX_STUCK = ''outbox-stuck''"

definition ops_refresh :: "string + ops_snapshot \<Rightarrow> ops_watch \<Rightarrow> ops_snapshot option \<times> ops_watch" where
  "ops_refresh snap ws =
     (case snap of
        Inl e \<Rightarrow> (None, ws\<lparr>ow_log := ow_log ws @ [OpsWarn (''ops snapshot failed: '' @ e)]\<rparr>)
      | Inr s \<Rightarrow>
          (let o1 = ws\<lparr>ow_gauges := set_gauges s (ow_gauges ws)\<rparr>;
               o2 = watch DEAD_LETTERS (0 < sn_deadLetters s)
                      (show_nat (sn_deadLetters s) @ '' message(s) in '' @ QUEUE_dead @ '' need a human'') o1;
               o3 = watch OUTBOX_STUCK (OUTBOX_PENDING_AGE_LIMIT_S < sn_oldestPendingSec s)
                      (''oldest pending outbox event is '' @ show_int (sn_oldestPendingSec s) @ ''s old (''
                       @ show_nat (sn_outboxPending s)
                       @ '' pending) -- events are not reaching the broker'') o2
           in (Some s, o3)))"

section \<open>The history, page by page\<close>

lemma audit_matches_paging [simp]:
  "audit_matches (f\<lparr>af_skip := sk, af_take := tk\<rparr>) = audit_matches f"
  by (rule ext) (simp add: audit_matches_def)

lemma concat_pages: "concat (map (\<lambda>i. page (i * n) n xs) [0..<k]) = take (k * n) xs"
proof (induction k)
  case (Suc k)
  have "take (Suc k * n) xs = take (k * n) xs @ take n (drop (k * n) xs)"
    by (metis add.commute mult_Suc take_add)
  with Suc show ?case by (simp add: page_def)
qed simp

lemma audit_page_rows:
  "n \<le> 100 \<Longrightarrow>
   ag_logs (audit_findMany (f\<lparr>af_skip := Some sk, af_take := Some n\<rparr>) d) =
     page sk n (order_desc al_createdAt (filter (audit_matches f) (audit_logs d)))"
  by (simp add: audit_findMany_def min_def Let_def)

lemma audit_page_shape:
  "length (ag_logs (audit_findMany f d)) \<le> 100"
  "set (ag_logs (audit_findMany f d)) \<subseteq> {r \<in> set (audit_logs d). audit_matches f r}"
  using length_page [of _ "ag_take (audit_findMany f d)"] set_page
  by (fastforce simp: audit_findMany_def Let_def)+

text \<open>The audit history hides nothing and repeats nothing. For every filter, reading it in pages
  of at most 100 rows until \<open>total\<close> is reached shows exactly the rows that match, each as often as
  it is stored, newest first; and no request, whatever it asks for, gets more than 100 rows.\<close>

theorem audit_history_is_complete:
  fixes d :: db and f :: audit_filters and n k :: nat
  assumes "n \<le> 100" and "ag_total (audit_findMany f d) \<le> k * n"
  defines "pages \<equiv> map (\<lambda>i. audit_findMany (f\<lparr>af_skip := Some (i * n), af_take := Some n\<rparr>) d) [0..<k]"
  shows "mset (concat (map ag_logs pages)) = mset (filter (audit_matches f) (audit_logs d)) \<and>
    sorted (rev (map al_createdAt (concat (map ag_logs pages)))) \<and>
    length (ag_logs (audit_findMany f d)) \<le> 100"
proof -
  let ?rows = "order_desc al_createdAt (filter (audit_matches f) (audit_logs d))"
  have "concat (map ag_logs pages) = take (k * n) ?rows"
    using assms(1) by (simp add: pages_def comp_def audit_page_rows concat_pages)
  moreover have "length ?rows \<le> k * n"
    using assms(2) by (simp add: audit_findMany_def Let_def order_desc_def)
  ultimately have "concat (map ag_logs pages) = ?rows" by simp
  moreover have "mset ?rows = mset (filter (audit_matches f) (audit_logs d))"
    by (simp add: order_desc_def)
  ultimately show ?thesis using sorted_order_desc audit_page_shape(1) by metis
qed

definition demo_audit :: "string \<Rightarrow> int \<Rightarrow> audit_row" where
  "demo_audit i t = \<lparr>al_id = i,
     al_entry = \<lparr>ae_actorUserId = ''u1'', ae_action = WalletAdjust, ae_entityType = EntWallet,
       ae_entityId = ''w1'', ae_oldValue = JNull, ae_newValue = JNull\<rparr>,
     al_ipAddress = None, al_userAgent = None, al_createdAt = t\<rparr>"

definition demo_history :: db where
  "demo_history = empty_db\<lparr>audit_logs := [demo_audit ''l1'' 10, demo_audit ''l2'' 20, demo_audit ''l3'' 30]\<rparr>"

definition adjust_filter :: audit_filters where
  "adjust_filter = \<lparr>af_actorId = Some ''u1'', af_entityType = None, af_entityId = None, af_action = None,
     af_q = Some ''ADJ'', af_from = Some 15, af_to = None, af_skip = None, af_take = None\<rparr>"

lemma demo_history_rows:
  "filter (audit_matches adjust_filter) (audit_logs demo_history) = [demo_audit ''l2'' 20, demo_audit ''l3'' 30]"
  by code_simp

theorem audit_history_is_complete_witness:
  "mset (concat (map ag_logs (map (\<lambda>i. audit_findMany
      (adjust_filter\<lparr>af_skip := Some (i * 1), af_take := Some 1\<rparr>) demo_history) [0..<2]))) =
   mset [demo_audit ''l2'' 20, demo_audit ''l3'' 30]"
proof -
  have total: "ag_total (audit_findMany adjust_filter demo_history) \<le> 2 * 1"
    by (simp add: audit_findMany_def Let_def demo_history_rows)
  show ?thesis
    using audit_history_is_complete [of 1 adjust_filter demo_history 2] total
    by (simp only: demo_history_rows)
qed

section \<open>The dashboard agrees with the approvals queue\<close>

lemma typed_totals_groups:
  "distinct tys \<Longrightarrow>
   typed_totals (map (\<lambda>ty. (ty, f ty)) tys) (a, b) =
     (if Deposit \<in> set tys then f Deposit else a, if Withdrawal \<in> set tys then f Withdrawal else b)"
  by (induction tys arbitrary: a b) auto

definition type_total_of :: "txn_type \<Rightarrow> txn list \<Rightarrow> type_total" where
  "type_total_of ty rows = \<lparr>tt_count = count_rows (\<lambda>t. t_type t = ty) rows,
     tt_amount = sum_list (map t_amount (filter (\<lambda>t. t_type t = ty) rows))\<rparr>"

lemma type_total_of_absent:
  "ty \<notin> t_type ` set rows \<Longrightarrow> \<lparr>tt_count = 0, tt_amount = 0\<rparr> = type_total_of ty rows"
proof -
  assume "ty \<notin> t_type ` set rows"
  then have "filter (\<lambda>t. t_type t = ty) rows = []" by (auto simp: filter_empty_conv)
  then show ?thesis by (simp add: type_total_of_def count_rows_def)
qed

lemma typed_totals_exact:
  "typed_totals (type_groups rows) (\<lparr>tt_count = 0, tt_amount = 0\<rparr>, \<lparr>tt_count = 0, tt_amount = 0\<rparr>) =
     (type_total_of Deposit rows, type_total_of Withdrawal rows)"
proof -
  have "type_groups rows = map (\<lambda>ty. (ty, type_total_of ty rows)) (remdups (map t_type rows))"
    by (simp add: type_groups_def type_total_of_def count_rows_def Let_def)
  then show ?thesis by (simp add: typed_totals_groups type_total_of_absent)
qed

lemma listPending_order: "listPending d = map (pending_view d) (order_asc t_createdAt (filter is_pending (txns d)))"
  by (simp add: listPending_def is_pending_def [abs_def])

text \<open>The dashboard and the approvals queue tell the same story. The five rows it shows are the
  head of \<open>listPending\<close>, the age it shows is that of the first of them, its count is the queue's
  length, and the two totals are the number and the sum of the queue's deposits and withdrawals.\<close>

theorem overview_matches_queue:
  fixes d :: db and sod :: "int \<Rightarrow> int" and t :: int
  defines "q \<equiv> map pr_txn (listPending d)"
  shows "ov_oldestPending (overview sod t d) = take 5 (listPending d) \<and>
    ov_pendingCount (overview sod t d) = length (listPending d) \<and>
    ov_oldestCreatedAt (overview sod t d) =
      (if q = [] then None else Some (iso_string (Min (t_createdAt ` set q)))) \<and>
    tt_count (ov_deposit (overview sod t d)) = count_rows (\<lambda>x. t_type x = Deposit) q \<and>
    tt_amount (ov_deposit (overview sod t d)) = sum_list (map t_amount (filter (\<lambda>x. t_type x = Deposit) q)) \<and>
    tt_count (ov_withdrawal (overview sod t d)) = count_rows (\<lambda>x. t_type x = Withdrawal) q \<and>
    tt_amount (ov_withdrawal (overview sod t d)) = sum_list (map t_amount (filter (\<lambda>x. t_type x = Withdrawal) q))"
proof -
  let ?p = "filter is_pending (txns d)"
  have q: "q = order_asc t_createdAt ?p"
  proof -
    have "map pr_txn (map (pending_view d) xs) = xs" for xs
      by (induction xs) (auto simp: pending_view_def split: option.splits)
    then show ?thesis by (simp add: q_def listPending_order)
  qed
  have m: "mset q = mset ?p" by (simp add: q order_asc_def)
  have cnt: "count_rows P q = count_rows P ?p" for P :: "txn \<Rightarrow> bool"
    unfolding count_rows_def by (metis m mset_filter size_mset)
  have amt: "sum_list (map t_amount (filter P q)) = sum_list (map t_amount (filter P ?p))" for P
    by (metis m mset_filter mset_map sum_mset_sum_list)
  have len: "length (listPending d) = length q" by (simp add: q_def)
  have old: "(case q of [] \<Rightarrow> None | x # _ \<Rightarrow> Some (iso_string (t_createdAt x))) =
      (if q = [] then None else Some (iso_string (Min (t_createdAt ` set q))))"
  proof (cases q)
    case (Cons x xs)
    have "sorted (map t_createdAt q)" unfolding q by (rule sorted_order_asc)
    with Cons have "Min (t_createdAt ` set q) = t_createdAt x" by (auto intro!: Min_eqI)
    with Cons show ?thesis by simp
  qed simp
  have n: "length q = length ?p" by (metis m size_mset)
  show ?thesis
    using cnt [of "\<lambda>x. t_type x = Deposit"] cnt [of "\<lambda>x. t_type x = Withdrawal"]
      amt [of "\<lambda>x. t_type x = Deposit"] amt [of "\<lambda>x. t_type x = Withdrawal"] old n len
    by (simp add: overview_def Let_def typed_totals_exact type_total_of_def listPending_order q take_map
        count_rows_def)
qed

section \<open>Health is truthful\<close>

text \<open>A dead Redis or broker shows in the report, but only a dead database turns the check red.\<close>

lemma health_red_iff:
  "fst (health_http (fst (health_check sel cnt reply cch d q))) = 503 \<longleftrightarrow> \<not> sel"
  by (auto simp: health_http_def health_check_def Let_def split: prod.splits)

lemma queue_depth_connected [simp]: "isConnected (snd (queue_depth reply q)) = isConnected q"
  by (auto simp: queue_depth_def isConnected_def queue_warn_def split: sum.splits)

lemma health_ok_iff:
  "hh_status (fst (health_check sel cnt reply cch d q)) = HealthOk \<longleftrightarrow>
     sel \<and> redis_error cch = None \<and> q_channel q"
  using queue_depth_connected [of reply q]
  by (auto simp: health_check_def Let_def cache_ping_def isConnected_def split: prod.splits)

section \<open>A pager, not a ticker\<close>

definition fresh_watch :: "sentry \<Rightarrow> ops_watch" where
  "fresh_watch s = \<lparr>ow_gauges = Map.empty, ow_breached = [], ow_log = [], ow_sentry = s\<rparr>"

definition ops_run :: "(string + ops_snapshot) list \<Rightarrow> ops_watch \<Rightarrow> ops_watch" where
  "ops_run snaps ws = fold (\<lambda>s w. snd (ops_refresh s w)) snaps ws"

text \<open>The lines about one key, an alert as \<open>True\<close> and a recovery as \<open>False\<close>.\<close>

fun line_of :: "string \<Rightarrow> ops_line \<Rightarrow> bool option" where
  "line_of key (OpsAlert k m) = (if k = key then Some True else None)"
| "line_of key (OpsRecovered k) = (if k = key then Some False else None)"
| "line_of key (OpsWarn m) = None"

definition key_lines :: "string \<Rightarrow> ops_watch \<Rightarrow> bool list" where
  "key_lines key ws = List.map_filter (line_of key) (ow_log ws)"

definition ok_snaps :: "(string + ops_snapshot) list \<Rightarrow> ops_snapshot list" where
  "ok_snaps snaps = List.map_filter (\<lambda>s. case s of Inl e \<Rightarrow> None | Inr x \<Rightarrow> Some x) snaps"

lemma map_filter_append: "List.map_filter f (xs @ ys) = List.map_filter f xs @ List.map_filter f ys"
  by (simp add: List.map_filter_def)

lemma watch_same:
  "key_lines key (watch key b m ws) = key_lines key ws @ (if b = (key \<in> set (ow_breached ws)) then [] else [b])"
  "key \<in> set (ow_breached (watch key b m ws)) \<longleftrightarrow> b"
  by (auto simp: watch_def key_lines_def map_filter_append Let_def List.map_filter_simps)

lemma watch_other:
  "key \<noteq> k \<Longrightarrow> key_lines key (watch k b m ws) = key_lines key ws"
  "key \<noteq> k \<Longrightarrow> key \<in> set (ow_breached (watch k b m ws)) \<longleftrightarrow> key \<in> set (ow_breached ws)"
  by (auto simp: watch_def key_lines_def map_filter_append Let_def List.map_filter_simps)

lemma watch_gauges:
  "key_lines key (ws\<lparr>ow_gauges := g\<rparr>) = key_lines key ws" "ow_breached (ws\<lparr>ow_gauges := g\<rparr>) = ow_breached ws"
  by (simp_all add: key_lines_def)

text \<open>The interface of one watched condition: what a refresh does to its lines and its breach flag.\<close>

locale paged_condition =
  fixes key :: string and cond :: "ops_snapshot \<Rightarrow> bool"
  assumes refresh_lines: "key_lines key (snd (ops_refresh (Inr s) ws)) =
      key_lines key ws @ (if cond s = (key \<in> set (ow_breached ws)) then [] else [cond s])"
    and refresh_breach: "key \<in> set (ow_breached (snd (ops_refresh (Inr s) ws))) \<longleftrightarrow> cond s"
begin

lemma refresh_failed:
  "key_lines key (snd (ops_refresh (Inl e) ws)) = key_lines key ws"
  "ow_breached (snd (ops_refresh (Inl e) ws)) = ow_breached ws"
  by (simp_all add: ops_refresh_def key_lines_def map_filter_append List.map_filter_simps)

lemma adj_step:
  "tl (remdups_adj (a # b # xs)) = (if b = a then [] else [b]) @ tl (remdups_adj (b # xs))"
  for a b :: bool
  by (cases xs) (auto simp: remdups_adj_Cons split: list.splits)

lemma run_lines:
  "key_lines key (ops_run snaps ws) =
     key_lines key ws @ tl (remdups_adj ((key \<in> set (ow_breached ws)) # map cond (ok_snaps snaps)))"
proof (induction snaps arbitrary: ws)
  case Nil
  then show ?case by (simp add: ops_run_def ok_snaps_def List.map_filter_simps)
next
  case (Cons s snaps)
  show ?case
  proof (cases s)
    case (Inl e)
    with Cons [of "snd (ops_refresh s ws)"] show ?thesis
      by (simp add: ops_run_def ok_snaps_def List.map_filter_simps refresh_failed)
  next
    case (Inr x)
    have step: "ops_run (s # snaps) ws = ops_run snaps (snd (ops_refresh (Inr x) ws))"
      by (simp add: ops_run_def Inr)
    have "ok_snaps (s # snaps) = x # ok_snaps snaps"
      by (simp add: Inr ok_snaps_def List.map_filter_simps)
    then show ?thesis
      by (simp only: step Cons.IH refresh_lines refresh_breach adj_step list.map append_assoc)
  qed
qed

end

lemma watched_keys_differ: "DEAD_LETTERS \<noteq> OUTBOX_STUCK"
  by (simp add: DEAD_LETTERS_def OUTBOX_STUCK_def)

interpretation dead: paged_condition DEAD_LETTERS "\<lambda>s. 0 < sn_deadLetters s"
  by unfold_locales
    (simp_all add: ops_refresh_def Let_def watch_same watch_other watched_keys_differ watch_gauges)

interpretation stuck: paged_condition OUTBOX_STUCK "\<lambda>s. OUTBOX_PENDING_AGE_LIMIT_S < sn_oldestPendingSec s"
  by unfold_locales
    (simp_all add: ops_refresh_def Let_def watch_same watch_other watched_keys_differ [symmetric] watch_gauges)

text \<open>The watch pages on transitions only. Whatever the ticks see, and whichever of them fail, the
  lines about dead letters (and those about a stuck outbox) are the observed conditions with their
  repetitions removed: one alert when a breach begins, one line when it ends, none in between.\<close>

theorem ops_alerts_are_transitions:
  "key_lines DEAD_LETTERS (ops_run snaps (fresh_watch s)) =
     tl (remdups_adj (False # map (\<lambda>x. 0 < sn_deadLetters x) (ok_snaps snaps))) \<and>
   key_lines OUTBOX_STUCK (ops_run snaps (fresh_watch s)) =
     tl (remdups_adj (False # map (\<lambda>x. OUTBOX_PENDING_AGE_LIMIT_S < sn_oldestPendingSec x) (ok_snaps snaps)))"
  using dead.run_lines [of snaps "fresh_watch s"] stuck.run_lines [of snaps "fresh_watch s"]
  by (simp add: fresh_watch_def key_lines_def List.map_filter_simps)

text \<open>Without a DSN nothing ever reaches the tracker.\<close>

lemma sentry_silent:
  "fst (initSentry dsn service s) = False \<Longrightarrow>
   captureException e extra (snd (initSentry dsn service s)) = captureException e extra s"
  by (auto simp: initSentry_def split: option.splits if_splits)

end
