(* ===== verification/Api.thy ===== *)
theory Api
  imports Dto Money Idempotency Backoffice
begin

text \<open>
  The API's routes as Nest runs them: the controllers of \<open>wallets/\<close>, \<open>users/\<close>, \<open>admin/\<close>, \<open>audit/\<close>
  and \<open>push/\<close> with their guards (\<open>JwtAuthGuard\<close>, \<open>PermissionsGuard\<close>, \<open>StepUpGuard\<close>), the
  idempotency interceptor around the pipes (\<open>ParseUUIDPipe\<close>, the validation pipe) and the handler.
  The theorems compose the components: authentication, authority, validation, idempotency and
  the ledger.
\<close>

section \<open>Requests\<close>

record 'tok api_env =
  en_jwt :: "'tok jwt_lib"
  en_sha :: "string \<Rightarrow> string"
  en_V :: validators
  en_pipe :: "dto \<Rightarrow> jval \<Rightarrow> exn + jval"
  en_outside :: outside

text \<open>What one request draws and meets: its clock and uuids, the ids of idempotency rows, write failures.\<close>

record turn =
  tn_ctx :: call_ctx
  tn_ids :: "nat \<Rightarrow> string"
  tn_idem :: idem_env

record 'tok api_req =
  aq_bearer :: "'tok option"
  aq_stepUp :: "'tok option"
  aq_key :: "string option"
  aq_url :: string
  aq_bodyText :: string
  aq_body :: jval
  aq_query :: jval
  aq_param :: string

record server =
  sv_world :: world
  sv_idem :: "idem_row list"

abbreviation sv_db :: "server \<Rightarrow> db" where "sv_db sv \<equiv> wdb (sv_world sv)"

type_synonym answer = "(exn + response) \<times> server"

text \<open>\<open>@UseGuards(JwtAuthGuard)\<close>, and \<open>PermissionsGuard\<close> behind it with the codes of the route.\<close>

definition guarded :: "'tok api_env \<Rightarrow> turn \<Rightarrow> 'tok api_req \<Rightarrow> db \<Rightarrow> exn + auth_user" where
  "guarded E n r d = authenticate (en_jwt E) (now (tn_ctx n)) (aq_bearer r) d"

definition permitted :: "'tok api_env \<Rightarrow> turn \<Rightarrow> 'tok api_req \<Rightarrow> string list \<Rightarrow> db \<Rightarrow> exn + auth_user" where
  "permitted E n r codes d =
     ok_bind (guarded E n r d) (\<lambda>a. ok_bind (permissions_guard (Some codes) (Some a) d) (\<lambda>_. Inr a))"

definition stepped_up :: "'tok api_env \<Rightarrow> turn \<Rightarrow> 'tok api_req \<Rightarrow> db \<Rightarrow> exn + auth_user" where
  "stepped_up E n r d =
     ok_bind (guarded E n r d) (\<lambda>a.
     ok_bind (step_up_guard (en_jwt E) (now (tn_ctx n)) (Some a) (aq_stepUp r)) (\<lambda>_. Inr a))"

definition ParseUUID :: "'tok api_env \<Rightarrow> string \<Rightarrow> exn + string" where
  "ParseUUID E i = (if is_uuid (en_V E) i then Inr i
     else Inl (BadRequestException ''Validation failed (uuid is expected)''))"

text \<open>The arguments of a handler: its path id and its validated body.\<close>

definition with_args ::
  "'tok api_env \<Rightarrow> 'tok api_req \<Rightarrow> dto \<Rightarrow> (string \<Rightarrow> jval \<Rightarrow> world handler) \<Rightarrow> world handler" where
  "with_args E r D k w =
     (case ok_bind (ParseUUID E (aq_param r)) (\<lambda>i. ok_bind (en_pipe E D (aq_body r)) (\<lambda>dto. Inr (i, dto))) of
        Inl e \<Rightarrow> (Inl e, w)
      | Inr (i, dto) \<Rightarrow> k i dto w)"

definition with_id :: "'tok api_env \<Rightarrow> 'tok api_req \<Rightarrow> (string \<Rightarrow> world handler) \<Rightarrow> world handler" where
  "with_id E r k w = (case ParseUUID E (aq_param r) of Inl e \<Rightarrow> (Inl e, w) | Inr i \<Rightarrow> k i w)"

definition with_body :: "'tok api_env \<Rightarrow> 'tok api_req \<Rightarrow> dto \<Rightarrow> (jval \<Rightarrow> world handler) \<Rightarrow> world handler" where
  "with_body E r D k w = (case en_pipe E D (aq_body r) of Inl e \<Rightarrow> (Inl e, w) | Inr dto \<Rightarrow> k dto w)"

definition as_json :: "('a \<Rightarrow> jval) \<Rightarrow> (exn + 'a) \<times> world \<Rightarrow> (exn + jval) \<times> world" where
  "as_json f x = (case x of (Inl e, w) \<Rightarrow> (Inl e, w) | (Inr a, w) \<Rightarrow> (Inr (f a), w))"

text \<open>A single-statement operation on the database as a handler.\<close>

definition run_tx :: "(db, 'a) tx \<Rightarrow> world \<Rightarrow> (exn + 'a) \<times> world" where
  "run_tx m w = (case m (wdb w) of Inl e \<Rightarrow> (Inl e, w) | Inr (d', a) \<Rightarrow> (Inr a, w\<lparr>wdb := d'\<rparr>))"

definition idempotent ::
  "'tok api_env \<Rightarrow> turn \<Rightarrow> 'tok api_req \<Rightarrow> bool \<Rightarrow> auth_user \<Rightarrow> world handler \<Rightarrow> server \<Rightarrow> answer" where
  "idempotent E n r keyRequired a h sv =
     (case intercept (en_sha E) (tn_idem n) (now (tn_ctx n)) (tn_ids n) keyRequired 201 h
             \<lparr>rq_user = Some (au_id a), rq_key = aq_key r, rq_method = ''POST'', rq_url = aq_url r,
              rq_bodyText = aq_bodyText r\<rparr> (sv_idem sv) (sv_world sv) of
        (res, rows, w) \<Rightarrow> (res, \<lparr>sv_world = w, sv_idem = rows\<rparr>))"

definition plainly :: "nat \<Rightarrow> world handler \<Rightarrow> server \<Rightarrow> answer" where
  "plainly status h sv =
     (case h (sv_world sv) of
        (Inl e, w) \<Rightarrow> (Inl e, sv\<lparr>sv_world := w\<rparr>)
      | (Inr body, w) \<Rightarrow> (Inr \<lparr>rs_status = status, rs_body = body\<rparr>, sv\<lparr>sv_world := w\<rparr>))"

definition behind :: "exn + auth_user \<Rightarrow> (auth_user \<Rightarrow> server \<Rightarrow> answer) \<Rightarrow> server \<Rightarrow> answer" where
  "behind guard k sv = (case guard of Inl e \<Rightarrow> (Inl e, sv) | Inr a \<Rightarrow> k a sv)"

section \<open>What the handlers answer with\<close>

fun type_text :: "txn_type \<Rightarrow> string" where
  "type_text Deposit = ''deposit''"
| "type_text Withdrawal = ''withdrawal''"
| "type_text Adjustment = ''adjustment''"
| "type_text TransferOut = ''transfer_out''"
| "type_text TransferIn = ''transfer_in''"

fun txn_status_text :: "txn_status \<Rightarrow> string" where
  "txn_status_text Pending = ''pending''"
| "txn_status_text Approved = ''approved''"
| "txn_status_text Rejected = ''rejected''"

text \<open>\<open>null\<close> columns stay, dates are ISO strings, a Decimal is its string.\<close>

definition txn_json :: "outside \<Rightarrow> txn \<Rightarrow> jval" where
  "txn_json x t = JObj [(''id'', JStr (t_id t)), (''walletId'', JStr (t_walletId t)),
     (''type'', JStr (type_text (t_type t))), (''amount'', jint (t_amount t)),
     (''balanceBefore'', case t_balanceBefore t of None \<Rightarrow> JNull | Some b \<Rightarrow> jint b),
     (''balanceAfter'', case t_balanceAfter t of None \<Rightarrow> JNull | Some b \<Rightarrow> jint b),
     (''status'', JStr (txn_status_text (t_status t))), (''requestedBy'', JStr (t_requestedBy t)),
     (''reviewedBy'', jopt (t_reviewedBy t)), (''reviewedAt'', jopt (map_option iso_string (t_reviewedAt t))),
     (''note'', jopt (t_note t)), (''transferId'', jopt (t_transferId t)),
     (''counterpartyWalletId'', jopt (t_counterpartyWalletId t)),
     (''exchangeRate'', jopt (map_option (d_toString (x_decimal x)) (t_exchangeRate t))),
     (''createdAt'', JStr (iso_string (t_createdAt t)))]"

definition wallet_json :: "wallet \<Rightarrow> jval" where
  "wallet_json w = JObj [(''id'', JStr (w_id w)), (''userId'', JStr (w_userId w)), (''name'', JStr (w_name w)),
     (''currency'', JStr (w_currency w)), (''balance'', jint (w_balance w)), (''createdAt'', JStr (iso_string (w_createdAt w)))]"

definition safe_user_json :: "safe_user \<Rightarrow> jval" where
  "safe_user_json u = JObj [(''id'', JStr (su_id u)), (''email'', JStr (su_email u)), (''handle'', jopt (su_handle u)),
     (''firstName'', JStr (su_firstName u)), (''lastName'', JStr (su_lastName u)),
     (''status'', JStr (status_text (su_status u))), (''totpEnabled'', JBool (su_totpEnabled u)),
     (''roleId'', JStr (su_roleId u)), (''createdAt'', JStr (iso_string (su_createdAt u))),
     (''role'', case su_role u of None \<Rightarrow> JNull | Some (i, nm) \<Rightarrow> JObj [(''id'', JStr i), (''name'', JStr nm)])]"

section \<open>Routes that write\<close>

definition post_wallet :: "'tok api_env \<Rightarrow> turn \<Rightarrow> 'tok api_req \<Rightarrow> server \<Rightarrow> answer" where
  "post_wallet E n r sv = behind (guarded E n r (sv_db sv)) (\<lambda>a. plainly 201
     (with_body E r CreateWalletDto (\<lambda>dto w. as_json wallet_json
       (run_tx (createWallet (tn_ctx n) a (dto_string ''name'' dto) (dto_string ''currency'' dto)) w)))) sv"

definition post_deposit :: "'tok api_env \<Rightarrow> turn \<Rightarrow> 'tok api_req \<Rightarrow> server \<Rightarrow> answer" where
  "post_deposit E n r sv = behind (guarded E n r (sv_db sv)) (\<lambda>a. idempotent E n r True a
     (with_args E r MoneyAmountDto (\<lambda>i dto w. as_json (txn_json (en_outside E))
       (deposit (en_outside E) (tn_ctx n) i a (dto_int ''amount'' dto) (dto_opt ''note'' dto) w)))) sv"

definition post_withdrawal :: "'tok api_env \<Rightarrow> turn \<Rightarrow> 'tok api_req \<Rightarrow> server \<Rightarrow> answer" where
  "post_withdrawal E n r sv = behind (guarded E n r (sv_db sv)) (\<lambda>a. idempotent E n r True a
     (with_args E r MoneyAmountDto (\<lambda>i dto w. as_json (txn_json (en_outside E))
       (run_tx (requestWithdrawal (tn_ctx n) i a (dto_int ''amount'' dto) (dto_opt ''note'' dto)) w)))) sv"

definition post_transfer :: "'tok api_env \<Rightarrow> turn \<Rightarrow> 'tok api_req \<Rightarrow> server \<Rightarrow> answer" where
  "post_transfer E n r sv = behind (stepped_up E n r (sv_db sv)) (\<lambda>a. idempotent E n r True a
     (with_args E r TransferDto (\<lambda>i dto w. as_json (txn_json (en_outside E))
       (transfer (en_outside E) (tn_ctx n) i a (dto_string ''toWalletId'' dto) (dto_int ''amount'' dto)
          (dto_opt ''note'' dto) w)))) sv"

definition post_adjustment :: "'tok api_env \<Rightarrow> turn \<Rightarrow> 'tok api_req \<Rightarrow> server \<Rightarrow> answer" where
  "post_adjustment E n r sv = behind (permitted E n r [''wallet.adjust''] (sv_db sv)) (\<lambda>a. idempotent E n r False a
     (with_args E r AdjustmentDto (\<lambda>i dto w. as_json (txn_json (en_outside E))
       (adjust (tn_ctx n) i (if dto_string ''direction'' dto = ''credit'' then Credit else Debit)
          (dto_int ''amount'' dto) (dto_string ''note'' dto) a w)))) sv"

definition post_approve :: "'tok api_env \<Rightarrow> turn \<Rightarrow> 'tok api_req \<Rightarrow> server \<Rightarrow> answer" where
  "post_approve E n r sv = behind (permitted E n r [''transaction.view_all''] (sv_db sv)) (\<lambda>a. plainly 200
     (with_id E r (\<lambda>i w. as_json (txn_json (en_outside E)) (approve (en_outside E) (tn_ctx n) i a w)))) sv"

definition post_reject :: "'tok api_env \<Rightarrow> turn \<Rightarrow> 'tok api_req \<Rightarrow> server \<Rightarrow> answer" where
  "post_reject E n r sv = behind (permitted E n r [''transaction.view_all''] (sv_db sv)) (\<lambda>a. plainly 200
     (with_args E r RejectDto (\<lambda>i dto w. as_json (txn_json (en_outside E))
       (reject (en_outside E) (tn_ctx n) i a (dto_opt ''note'' dto) w)))) sv"

definition patch_user_status :: "'tok api_env \<Rightarrow> turn \<Rightarrow> 'tok api_req \<Rightarrow> server \<Rightarrow> answer" where
  "patch_user_status E n r sv = behind (permitted E n r [''user.manage''] (sv_db sv)) (\<lambda>a. plainly 200
     (with_args E r UpdateUserStatusDto (\<lambda>i dto w. as_json safe_user_json
       (run_tx (updateStatus (tn_ctx n) i (if dto_string ''status'' dto = ''active'' then Active else Suspended) a) w)))) sv"

definition patch_user_role :: "'tok api_env \<Rightarrow> turn \<Rightarrow> 'tok api_req \<Rightarrow> server \<Rightarrow> answer" where
  "patch_user_role E n r sv = behind (permitted E n r [''user.manage''] (sv_db sv)) (\<lambda>a. plainly 200
     (with_args E r UpdateUserRoleDto (\<lambda>i dto w. as_json safe_user_json
       (run_tx (updateRole (tn_ctx n) i (dto_string ''role'' dto) a) w)))) sv"

datatype route = PostWallet | PostDeposit | PostWithdrawal | PostTransfer | PostAdjustment
  | PostApprove | PostReject | PatchUserStatus | PatchUserRole

fun serve :: "'tok api_env \<Rightarrow> turn \<Rightarrow> route \<Rightarrow> 'tok api_req \<Rightarrow> server \<Rightarrow> answer" where
  "serve E n PostWallet = post_wallet E n"
| "serve E n PostDeposit = post_deposit E n"
| "serve E n PostWithdrawal = post_withdrawal E n"
| "serve E n PostTransfer = post_transfer E n"
| "serve E n PostAdjustment = post_adjustment E n"
| "serve E n PostApprove = post_approve E n"
| "serve E n PostReject = post_reject E n"
| "serve E n PatchUserStatus = patch_user_status E n"
| "serve E n PatchUserRole = patch_user_role E n"

section \<open>Routes that read\<close>

text \<open>Reads answer with the value they computed (the framework writes it as JSON) and change nothing.\<close>

definition read_as :: "exn + auth_user \<Rightarrow> (auth_user \<Rightarrow> exn + 'a) \<Rightarrow> exn + 'a" where
  "read_as guard f = ok_bind guard f"

definition get_wallets :: "'tok api_env \<Rightarrow> turn \<Rightarrow> 'tok api_req \<Rightarrow> db \<Rightarrow> exn + wallet list" where
  "get_wallets E n r d = read_as (guarded E n r d) (\<lambda>a. Inr (listWallets a d))"

definition get_wallet_lookup :: "'tok api_env \<Rightarrow> turn \<Rightarrow> 'tok api_req \<Rightarrow> db \<Rightarrow> exn + recipient" where
  "get_wallet_lookup E n r d = read_as (guarded E n r d) (\<lambda>a.
     ok_bind (en_pipe E LookupQueryDto (aq_query r)) (\<lambda>q. findRecipientByHandle (dto_string ''handle'' q) d))"

definition get_wallet :: "'tok api_env \<Rightarrow> turn \<Rightarrow> 'tok api_req \<Rightarrow> db \<Rightarrow> exn + wallet" where
  "get_wallet E n r d = read_as (guarded E n r d) (\<lambda>a.
     ok_bind (ParseUUID E (aq_param r)) (\<lambda>i. getWallet i a d))"

definition get_wallet_transactions :: "'tok api_env \<Rightarrow> turn \<Rightarrow> 'tok api_req \<Rightarrow> db \<Rightarrow> exn + txn list" where
  "get_wallet_transactions E n r d = read_as (guarded E n r d) (\<lambda>a.
     ok_bind (ParseUUID E (aq_param r)) (\<lambda>i. listTransactions i a d))"

definition get_pending :: "'tok api_env \<Rightarrow> turn \<Rightarrow> 'tok api_req \<Rightarrow> db \<Rightarrow> exn + pending_row list" where
  "get_pending E n r d = read_as (permitted E n r [''transaction.view_all''] d) (\<lambda>a. Inr (listPending d))"

definition dto_nat :: "string \<Rightarrow> jval \<Rightarrow> nat option" where
  "dto_nat k v = map_option (\<lambda>q. nat \<lfloor>q\<rfloor>) (jnum (jget k v))"

definition get_admin_wallets :: "'tok api_env \<Rightarrow> turn \<Rightarrow> 'tok api_req \<Rightarrow> db \<Rightarrow> exn + staff_wallet paged" where
  "get_admin_wallets E n r d = read_as (permitted E n r [''transaction.view_all''] d) (\<lambda>a.
     ok_bind (en_pipe E ListWalletsQueryDto (aq_query r)) (\<lambda>q. listAllWallets
       \<lparr>wq_skip = dto_nat ''skip'' q, wq_take = dto_nat ''take'' q, wq_q = dto_opt ''q'' q,
        wq_currency = dto_opt ''currency'' q, wq_sort = dto_opt ''sort'' q\<rparr> d))"

definition get_admin_wallet :: "'tok api_env \<Rightarrow> turn \<Rightarrow> 'tok api_req \<Rightarrow> db \<Rightarrow> exn + staff_wallet" where
  "get_admin_wallet E n r d = read_as (permitted E n r [''transaction.view_all''] d) (\<lambda>a.
     ok_bind (ParseUUID E (aq_param r)) (\<lambda>i. getWalletForStaff i d))"

definition get_admin_wallet_transactions :: "'tok api_env \<Rightarrow> turn \<Rightarrow> 'tok api_req \<Rightarrow> db \<Rightarrow> exn + txn list" where
  "get_admin_wallet_transactions E n r d = read_as (permitted E n r [''transaction.view_all''] d) (\<lambda>a.
     ok_bind (ParseUUID E (aq_param r)) (\<lambda>i. listTransactionsForStaff i d))"

definition status_filter :: "string option \<Rightarrow> user_status option" where
  "status_filter s = map_option (\<lambda>x. if x = ''active'' then Active else Suspended) s"

definition get_users :: "'tok api_env \<Rightarrow> turn \<Rightarrow> 'tok api_req \<Rightarrow> db \<Rightarrow> exn + safe_user paged" where
  "get_users E n r d = read_as (permitted E n r [''user.manage''] d) (\<lambda>a.
     ok_bind (en_pipe E ListUsersQueryDto (aq_query r)) (\<lambda>q. users_findMany
       \<lparr>uq_skip = dto_nat ''skip'' q, uq_take = dto_nat ''take'' q, uq_q = dto_opt ''q'' q,
        uq_role = dto_opt ''role'' q, uq_status = status_filter (dto_opt ''status'' q),
        uq_sort = dto_opt ''sort'' q\<rparr> d))"

definition get_user :: "'tok api_env \<Rightarrow> turn \<Rightarrow> 'tok api_req \<Rightarrow> db \<Rightarrow> exn + safe_user" where
  "get_user E n r d = read_as (permitted E n r [''user.manage''] d) (\<lambda>a.
     ok_bind (ParseUUID E (aq_param r)) (\<lambda>i. findById i d))"

definition get_roles :: "'tok api_env \<Rightarrow> turn \<Rightarrow> 'tok api_req \<Rightarrow> db \<Rightarrow> exn + (string \<times> string \<times> string option) list" where
  "get_roles E n r d = read_as (permitted E n r [''user.manage''] d) (\<lambda>a. Inr (roles_findAll d))"

definition dto_date :: "string \<Rightarrow> jval \<Rightarrow> int option" where
  "dto_date k v = map_option floor (jnum (jget k v))"

definition get_audit_logs :: "'tok api_env \<Rightarrow> turn \<Rightarrow> 'tok api_req \<Rightarrow> db \<Rightarrow> exn + audit_page" where
  "get_audit_logs E n r d = read_as (permitted E n r [''audit.view''] d) (\<lambda>a.
     ok_bind (en_pipe E AuditQueryDto (aq_query r)) (\<lambda>q. Inr (audit_findMany
       \<lparr>af_actorId = dto_opt ''actorId'' q, af_entityType = dto_opt ''entityType'' q,
        af_entityId = dto_opt ''entityId'' q, af_action = dto_opt ''action'' q, af_q = dto_opt ''q'' q,
        af_from = dto_date ''from'' q, af_to = dto_date ''to'' q, af_skip = dto_nat ''skip'' q,
        af_take = dto_nat ''take'' q\<rparr> d)))"

definition get_overview :: "(int \<Rightarrow> int) \<Rightarrow> 'tok api_env \<Rightarrow> turn \<Rightarrow> 'tok api_req \<Rightarrow> db \<Rightarrow> exn + overview_report" where
  "get_overview startOfDay E n r d = read_as (permitted E n r [''transaction.view_all''] d) (\<lambda>a.
     Inr (overview startOfDay (now (tn_ctx n)) d))"

section \<open>Push subscriptions\<close>

text \<open>
  The handlers read what the pipe left of the body. \<open>dto.keys.p256dh\<close> throws when \<open>keys\<close> is
  missing; a \<open>where\<close> value that is \<open>undefined\<close> does not restrict a Prisma query.
\<close>

definition post_subscribe ::
  "'tok api_env \<Rightarrow> turn \<Rightarrow> 'tok api_req \<Rightarrow> db \<Rightarrow> push_subscription list \<Rightarrow> (exn + unit) \<times> push_subscription list" where
  "post_subscribe E n r d subs =
     (case ok_bind (guarded E n r d) (\<lambda>a. ok_bind (en_pipe E SubscribeDto (aq_body r)) (\<lambda>dto.
             ok_bind (prop_of (jget ''keys'' dto) ''p256dh'') (\<lambda>p.
             ok_bind (prop_of (jget ''keys'' dto) ''auth'') (\<lambda>au. Inr (a, dto, p, au))))) of
        Inl e \<Rightarrow> (Inl e, subs)
      | Inr (a, dto, p, au) \<Rightarrow>
          (case (jstring (jget ''endpoint'' dto), jstring p, jstring au) of
             (Some ep, Some p', Some au') \<Rightarrow>
               (Inr (), if List.member (map ps_endpoint subs) ep
                  then upd_rows (\<lambda>s. ps_endpoint s = ep)
                         (\<lambda>s. s\<lparr>ps_userId := au_id a, ps_p256dh := p', ps_auth := au'\<rparr>) subs
                  else subs @ [\<lparr>ps_endpoint = ep, ps_userId = au_id a, ps_p256dh = p', ps_auth = au'\<rparr>])
           | _ \<Rightarrow> (Inl (OtherError ''PrismaClientValidationError''), subs)))"

definition post_unsubscribe ::
  "'tok api_env \<Rightarrow> turn \<Rightarrow> 'tok api_req \<Rightarrow> db \<Rightarrow> push_subscription list \<Rightarrow> (exn + unit) \<times> push_subscription list" where
  "post_unsubscribe E n r d subs =
     (case ok_bind (guarded E n r d) (\<lambda>a. ok_bind (en_pipe E UnsubscribeDto (aq_body r)) (\<lambda>dto. Inr (a, dto))) of
        Inl e \<Rightarrow> (Inl e, subs)
      | Inr (a, dto) \<Rightarrow>
          (Inr (), del_rows (\<lambda>s. ps_userId s = au_id a \<and>
                     (case jget ''endpoint'' dto of None \<Rightarrow> True | Some v \<Rightarrow> v = JStr (ps_endpoint s))) subs))"

section \<open>What the layers around a handler do\<close>

lemma ok_bind_Inr: "ok_bind m k = Inr b \<longleftrightarrow> (\<exists>a. m = Inr a \<and> k a = Inr b)"
  by (cases m) (auto simp: ok_bind_def)

lemma ok_bind_Inl: "ok_bind m k = Inl e \<longleftrightarrow> m = Inl e \<or> (\<exists>a. m = Inr a \<and> k a = Inl e)"
  by (cases m) (auto simp: ok_bind_def)

text \<open>Whatever the interceptor does, the handler's state is the one before or the one the handler left.\<close>

lemma intercept_state:
  "intercept hash env t ids req ok h rq rows s = (res, rows', s') \<Longrightarrow> s' = s \<or> s' = snd (h s)"
  by (auto simp: intercept_def run_reserved_def release_and_fail_def
      split: option.splits sum.splits prod.splits reservation.splits if_splits)

lemma reserve_new_row:
  "reserve fuel t ids userId key fp rows = Some (Inr (ResNew i), rows') \<Longrightarrow> \<exists>r \<in> set rows'. ik_id r = i"
proof (induction fuel t ids userId key fp rows rule: reserve.induct)
  case (2 fuel t ids userId key fp rows)
  then show ?case
    by (auto simp: idem_create_Inr new_idem_def Let_def split: sum.splits option.splits if_splits)
qed simp

text \<open>Unless storing the response fails, an error of the interceptor is its own or the handler's.\<close>

lemma intercept_refused:
  assumes "complete_err env = None" and "intercept hash env t ids req ok h rq rows s = (Inl e, rows', s')"
  shows "s' = s \<or> (\<exists>e'. h s = (Inl e', s'))"
  using assms reserve_new_row
  by (fastforce simp: intercept_def run_reserved_def release_and_fail_def complete_def
      split: option.splits sum.splits prod.splits reservation.splits if_splits)

lemma behind_cases:
  "behind guard k sv = (res, sv') \<Longrightarrow>
   (\<exists>e. guard = Inl e \<and> res = Inl e \<and> sv' = sv) \<or> (\<exists>a. guard = Inr a \<and> k a sv = (res, sv'))"
  by (auto simp: behind_def split: sum.splits)

lemma idempotent_world:
  "idempotent E n r req a h sv = (res, sv') \<Longrightarrow> sv_world sv' = sv_world sv \<or> sv_world sv' = snd (h (sv_world sv))"
  by (auto simp: idempotent_def split: prod.splits dest!: intercept_state)

lemma idempotent_refused:
  assumes "complete_err (tn_idem n) = None" "idempotent E n r req a h sv = (Inl e, sv')"
  shows "sv_world sv' = sv_world sv \<or> (\<exists>e'. h (sv_world sv) = (Inl e', sv_world sv'))"
  using assms intercept_refused [OF assms(1)] by (fastforce simp: idempotent_def split: prod.splits)

lemma plainly_world: "plainly st h sv = (res, sv') \<Longrightarrow> sv_world sv' = snd (h (sv_world sv))"
  by (auto simp: plainly_def split: prod.splits sum.splits)

lemma plainly_refused: "plainly st h sv = (Inl e, sv') \<Longrightarrow> h (sv_world sv) = (Inl e, sv_world sv')"
  by (auto simp: plainly_def split: prod.splits sum.splits)

lemma as_json_snd [simp]: "snd (as_json f x) = snd x"
  by (auto simp: as_json_def split: prod.splits sum.splits)

lemma as_json_Inl: "as_json f x = (Inl e, w) \<longleftrightarrow> x = (Inl e, w)"
  by (auto simp: as_json_def split: prod.splits sum.splits)

text \<open>
  A state relation that holds of every handler holds of every route: the layers around the handler
  change the world by the handler or not at all.
\<close>

fun handler_of :: "'tok api_env \<Rightarrow> turn \<Rightarrow> route \<Rightarrow> 'tok api_req \<Rightarrow> auth_user \<Rightarrow> world handler" where
  "handler_of E n PostWallet r a = with_body E r CreateWalletDto (\<lambda>dto w. as_json wallet_json
     (run_tx (createWallet (tn_ctx n) a (dto_string ''name'' dto) (dto_string ''currency'' dto)) w))"
| "handler_of E n PostDeposit r a = with_args E r MoneyAmountDto (\<lambda>i dto w. as_json (txn_json (en_outside E))
     (deposit (en_outside E) (tn_ctx n) i a (dto_int ''amount'' dto) (dto_opt ''note'' dto) w))"
| "handler_of E n PostWithdrawal r a = with_args E r MoneyAmountDto (\<lambda>i dto w. as_json (txn_json (en_outside E))
     (run_tx (requestWithdrawal (tn_ctx n) i a (dto_int ''amount'' dto) (dto_opt ''note'' dto)) w))"
| "handler_of E n PostTransfer r a = with_args E r TransferDto (\<lambda>i dto w. as_json (txn_json (en_outside E))
     (transfer (en_outside E) (tn_ctx n) i a (dto_string ''toWalletId'' dto) (dto_int ''amount'' dto) (dto_opt ''note'' dto) w))"
| "handler_of E n PostAdjustment r a = with_args E r AdjustmentDto (\<lambda>i dto w. as_json (txn_json (en_outside E))
     (adjust (tn_ctx n) i (if dto_string ''direction'' dto = ''credit'' then Credit else Debit)
        (dto_int ''amount'' dto) (dto_string ''note'' dto) a w))"
| "handler_of E n PostApprove r a = with_id E r (\<lambda>i w. as_json (txn_json (en_outside E)) (approve (en_outside E) (tn_ctx n) i a w))"
| "handler_of E n PostReject r a = with_args E r RejectDto (\<lambda>i dto w. as_json (txn_json (en_outside E))
     (reject (en_outside E) (tn_ctx n) i a (dto_opt ''note'' dto) w))"
| "handler_of E n PatchUserStatus r a = with_args E r UpdateUserStatusDto (\<lambda>i dto w. as_json safe_user_json
     (run_tx (updateStatus (tn_ctx n) i (if dto_string ''status'' dto = ''active'' then Active else Suspended) a) w))"
| "handler_of E n PatchUserRole r a = with_args E r UpdateUserRoleDto (\<lambda>i dto w. as_json safe_user_json
     (run_tx (updateRole (tn_ctx n) i (dto_string ''role'' dto) a) w))"

fun codes_of :: "route \<Rightarrow> string list" where
  "codes_of PostAdjustment = [''wallet.adjust'']"
| "codes_of PostApprove = [''transaction.view_all'']"
| "codes_of PostReject = [''transaction.view_all'']"
| "codes_of PatchUserStatus = [''user.manage'']"
| "codes_of PatchUserRole = [''user.manage'']"
| "codes_of _ = []"

fun guard_of :: "'tok api_env \<Rightarrow> turn \<Rightarrow> route \<Rightarrow> 'tok api_req \<Rightarrow> db \<Rightarrow> exn + auth_user" where
  "guard_of E n PostTransfer r d = stepped_up E n r d"
| "guard_of E n rt r d = (if codes_of rt = [] then guarded E n r d else permitted E n r (codes_of rt) d)"

lemma serve_structure:
  "serve E n rt r sv = behind (guard_of E n rt r (sv_db sv)) (\<lambda>a.
     if rt \<in> {PostDeposit, PostWithdrawal, PostTransfer, PostAdjustment}
     then idempotent E n r (rt \<noteq> PostAdjustment) a (handler_of E n rt r a)
     else plainly (if rt = PostWallet then 201 else 200) (handler_of E n rt r a)) sv"
  by (cases rt) (simp_all add: post_wallet_def post_deposit_def post_withdrawal_def post_transfer_def
      post_adjustment_def post_approve_def post_reject_def patch_user_status_def patch_user_role_def)

lemma serve_cases:
  assumes "serve E n rt r sv = (res, sv')"
  obtains (guard) e where "guard_of E n rt r (sv_db sv) = Inl e" "res = Inl e" "sv' = sv"
  | (idle) a where "guard_of E n rt r (sv_db sv) = Inr a" "sv_world sv' = sv_world sv"
  | (handled) a where "guard_of E n rt r (sv_db sv) = Inr a" "sv_world sv' = snd (handler_of E n rt r a (sv_world sv))"
  using behind_cases [OF assms [unfolded serve_structure]] idempotent_world plainly_world
  by (fastforce split: if_splits)

lemma serve_refused_cases:
  assumes "serve E n rt r sv = (Inl e, sv')" "complete_err (tn_idem n) = None"
  shows "sv_world sv' = sv_world sv \<or> (\<exists>a e'. handler_of E n rt r a (sv_world sv) = (Inl e', sv_world sv'))"
  using behind_cases [OF assms(1) [unfolded serve_structure]] idempotent_refused [OF assms(2)] plainly_refused
  by (fastforce split: if_splits)

section \<open>Every request follows the ledger\<close>

text \<open>The rates a transfer meets are not negative.\<close>

definition fair_rates :: "'tok api_env \<Rightarrow> turn \<Rightarrow> server \<Rightarrow> bool" where
  "fair_rates E n sv \<longleftrightarrow> (\<forall>src dst amount rate credit w1. 0 < amount \<and>
     transfer_rate (en_outside E) (tn_ctx n) src dst amount (sv_world sv) = (Inr (rate, credit), w1) \<longrightarrow> 0 \<le> credit)"

lemma run_tx_steps:
  "(\<And>d' a. m (wdb w) = Inr (d', a) \<Longrightarrow> ledger_step\<^sup>*\<^sup>* (wdb w) d') \<Longrightarrow> ledger_step\<^sup>*\<^sup>* (wdb w) (wdb (snd (run_tx m w)))"
  by (auto simp: run_tx_def split: sum.splits)

lemma user_tx_frame:
  "updateStatus c i st a d = Inr (d', u) \<Longrightarrow> wallets d' = wallets d \<and> txns d' = txns d"
  "updateRole c i nm a d = Inr (d', u) \<Longrightarrow> wallets d' = wallets d \<and> txns d' = txns d"
  by (auto simp: updateStatus_def updateStatus_tx_def updateRole_def updateRole_tx_def tx_simps
      split: if_splits sum.splits option.splits)

lemma same_tables_steps:
  "wallets d' = wallets d \<Longrightarrow> txns d' = txns d \<Longrightarrow> ledger_step\<^sup>*\<^sup>* d d'"
  by (rule r_into_rtranclp, rule ls_other)

lemma with_args_cases:
  "with_args E r D k w = (res, w') \<Longrightarrow>
   (\<exists>e. res = Inl e \<and> w' = w) \<or>
   (\<exists>dto. is_uuid (en_V E) (aq_param r) \<and> en_pipe E D (aq_body r) = Inr dto \<and> k (aq_param r) dto w = (res, w'))"
  by (auto simp: with_args_def ParseUUID_def ok_bind_def split: if_splits sum.splits)

lemma with_args_steps:
  assumes "\<And>dto. en_pipe E D (aq_body r) = Inr dto \<Longrightarrow> ledger_step\<^sup>*\<^sup>* (wdb w) (wdb (snd (k (aq_param r) dto w)))"
  shows "ledger_step\<^sup>*\<^sup>* (wdb w) (wdb (snd (with_args E r D k w)))"
  using with_args_cases [of E r D k w "fst (with_args E r D k w)" "snd (with_args E r D k w)"] assms
  by (metis prod.collapse rtranclp.rtrancl_refl snd_conv)

lemma amount_props:
  "required ''amount'' [R_IsInt, R_Min 1] \<in> set MoneyAmountDto"
  "required ''amount'' [R_IsInt, R_Min 1] \<in> set TransferDto"
  "required ''amount'' [R_IsInt, R_Min 1] \<in> set AdjustmentDto"
  by (simp_all add: MoneyAmountDto_def TransferDto_def AdjustmentDto_def)

lemma handler_steps:
  assumes pipe: "validation_pipe (en_V E) (en_pipe E)" and rates: "fair_rates E n sv"
  shows "ledger_step\<^sup>*\<^sup>* (sv_db sv) (wdb (snd (handler_of E n rt r a (sv_world sv))))"
proof -
  note pos = validation_pipe.amount_admitted(1) [OF pipe]
  show ?thesis
  proof (cases rt)
    case PostWallet
    then show ?thesis
      by (auto simp: with_body_def split: sum.splits intro!: run_tx_steps intro: r_into_rtranclp ls_wallet)
  next
    case PostDeposit
    then show ?thesis
      using pos amount_props(1) by (auto intro!: with_args_steps deposit_steps)
  next
    case PostWithdrawal
    then show ?thesis
      using pos amount_props(1) by (auto intro!: with_args_steps run_tx_steps elim!: withdrawal_steps [rotated])
  next
    case PostTransfer
    have "ledger_step\<^sup>*\<^sup>* (sv_db sv) (wdb (snd (transfer (en_outside E) (tn_ctx n) i a toId (dto_int ''amount'' dto) memo (sv_world sv))))"
      if "en_pipe E TransferDto (aq_body r) = Inr dto" for i toId memo dto
      by (rule transfer_steps [OF pos [OF that amount_props(2)]])
        (use rates pos [OF that amount_props(2)] in \<open>unfold fair_rates_def, blast\<close>)
    with PostTransfer show ?thesis by (auto intro!: with_args_steps)
  next
    case PostAdjustment
    then show ?thesis
      using pos amount_props(3) by (auto intro!: with_args_steps adjust_steps)
  next
    case PostApprove
    then show ?thesis by (auto simp: with_id_def split: sum.splits intro: approve_steps)
  next
    case PostReject
    then show ?thesis by (auto intro!: with_args_steps reject_steps)
  next
    case PatchUserStatus
    then show ?thesis
      by (auto intro!: with_args_steps run_tx_steps dest!: user_tx_frame(1) intro: same_tables_steps)
  next
    case PatchUserRole
    then show ?thesis
      by (auto intro!: with_args_steps run_tx_steps dest!: user_tx_frame(2) intro: same_tables_steps)
  qed
qed

end
