(* ===== verification/Access.thy ===== *)
theory Access
  imports Api AuthApi
begin

text \<open>
  What the layers of the API guarantee together: who can change the database through which route,
  that a refused request changes nothing, what the validation pipe admits, and what the push and
  console sign-in routes do with the bodies their clients send.
\<close>

section \<open>A run of the API\<close>

text \<open>
  Any request on any route that writes money or accounts, any request on the auth controller, and
  whatever else leaves the wallets and their rows alone (reads, background jobs).
\<close>

inductive api_step :: "'tok api_env \<Rightarrow> 'tok auth_env \<Rightarrow> server \<Rightarrow> server \<Rightarrow> bool" for E H where
  as_request: "fair_rates E n sv \<Longrightarrow> serve E n rt r sv = (res, sv') \<Longrightarrow> api_step E H sv sv'"
| as_auth: "auth_serve H m ar q (sv_db sv) = (res, d') \<Longrightarrow>
     api_step E H sv (sv\<lparr>sv_world := (sv_world sv)\<lparr>wdb := d'\<rparr>\<rparr>)"
| as_other: "wallets (sv_db sv') = wallets (sv_db sv) \<Longrightarrow> txns (sv_db sv') = txns (sv_db sv) \<Longrightarrow> api_step E H sv sv'"

definition api_start :: "server \<Rightarrow> bool" where
  "api_start sv \<longleftrightarrow> ledger_start (sv_db sv)"

lemma api_step_ledger:
  assumes "validation_pipe (en_V E) (en_pipe E)" "api_step E H sv sv'"
  shows "ledger_step\<^sup>*\<^sup>* (sv_db sv) (sv_db sv')"
  using assms(2)
proof cases
  case (as_request n rt r res)
  from as_request(2) show ?thesis
    by (cases rule: serve_cases) (use handler_steps [OF assms(1) as_request(1)] in auto)
next
  case (as_auth m ar q res d')
  then show ?thesis by (auto dest: auth_steps)
next
  case as_other
  then show ?thesis by (rule same_tables_steps)
qed

section \<open>A small deployment\<close>

definition demo_env :: "(claims \<times> int) api_env" where
  "demo_env = \<lparr>en_jwt = plain_jwt, en_sha = (\<lambda>s. s), en_V = \<lparr>is_uuid = (\<lambda>_. True), is_email = (\<lambda>_. True)\<rparr>,
     en_pipe = simple_pipe \<lparr>is_uuid = (\<lambda>_. True), is_email = (\<lambda>_. True)\<rparr>, en_outside = demo_outside\<rparr>"

definition demo_turn :: "string \<Rightarrow> turn" where
  "demo_turn p = \<lparr>tn_ctx = money_ctx p, tn_ids = (\<lambda>n. p @ show_nat n),
     tn_idem = \<lparr>complete_err = None, release_err = None\<rparr>\<rparr>"

definition ada :: user where
  "ada = \<lparr>u_id = ''u1'', u_email = ''ada@wallet.local'', u_handle = None, u_passwordHash = [],
     u_firstName = ''Ada'', u_lastName = ''L'', u_status = Active, u_totpSecret = None, u_totpEnabled = False,
     u_totpRecoveryHashes = [], u_roleId = ''r1'', u_createdAt = 0\<rparr>"

definition demo_request :: "string \<Rightarrow> jval \<Rightarrow> (claims \<times> int) api_req" where
  "demo_request i body = \<lparr>aq_bearer = Some (no_claims\<lparr>cl_sub := Some ''u1''\<rparr>, 900), aq_stepUp = None,
     aq_key = Some ''k'', aq_url = ''/wallets'', aq_bodyText = [], aq_body = body, aq_query = JNull, aq_param = i\<rparr>"

definition demo_server :: "wallet list \<Rightarrow> server" where
  "demo_server ws = \<lparr>sv_world = demo_world (empty_db\<lparr>users := [ada], wallets := ws\<rparr>), sv_idem = []\<rparr>"

lemmas demo_simps = demo_request_def demo_server_def demo_env_def demo_turn_def demo_world_def empty_db_def
  ada_def demo_wallet_def plain_jwt_def secs_def no_claims_def

lemmas admit_simps = behind_def guarded_def authenticate_def jwt_validate_def findById_def find_user_def toSafeUser_def
  role_of_def find_role_def with_args_def with_body_def ParseUUID_def ok_bind_def simple_pipe_def Let_def
  required_def optional_def converted_def initial_value_def jget_def convert_def prop_ok_def jnum_def
  List.map_filter_simps dto_int_def dto_opt_def dto_string_def jstring_def as_json_def

lemmas keyed_simps = idempotent_def intercept_def present_def RESERVE_FUEL_def numeral_2_eq_2 idem_create_def
  new_idem_def run_reserved_def complete_def upd_rows_def release_and_fail_def release_def

lemmas deposit_simps = deposit_def getOwnedWallet_def find_wallet_def deposit_tx_def tx_defs wallet_set_balance_def
  int4_def int4_max_def txn_create_def int4_opt_def settled_row_def ins_row_def audit_log_def audit_row_of_def
  notify_enqueue_def outbox_enqueue_def event_row_def new_outbox_row_def notification_event_def

lemma demo_pipe: "validation_pipe (en_V demo_env) (en_pipe demo_env)"
  by (simp add: demo_env_def simple.validation_pipe_axioms)

lemma demo_new_wallet:
  "\<exists>res. serve demo_env (demo_turn ''w'') PostWallet
      (demo_request [] (JObj [(''name'', JStr ''Cash''), (''currency'', JStr ''USD'')])) (demo_server []) =
    (Inr res, demo_server [(demo_wallet ''w0'' ''u1'' 0)\<lparr>w_name := ''Cash'', w_createdAt := 1000\<rparr>])"
  by (simp add: post_wallet_def plainly_def CreateWalletDto_def run_tx_def createWallet_def wallet_create_def
      new_wallet_def ins_row_def demo_simps admit_simps)

lemma demo_deposit:
  "\<exists>res sv'. serve demo_env (demo_turn ''a'') PostDeposit (demo_request ''w0'' (JObj [(''amount'', JNum 500)]))
      (demo_server [(demo_wallet ''w0'' ''u1'' 0)\<lparr>w_name := ''Cash'', w_createdAt := 1000\<rparr>]) = (Inr res, sv') \<and>
     wallets (sv_db sv') = [(demo_wallet ''w0'' ''u1'' 500)\<lparr>w_name := ''Cash'', w_createdAt := 1000\<rparr>]"
  by (simp add: post_deposit_def MoneyAmountDto_def demo_simps admit_simps keyed_simps deposit_simps)

lemma demo_rates: "wrates (sv_world sv) = empty_cache \<Longrightarrow> fair_rates demo_env n sv"
  by (auto simp: fair_rates_def transfer_rate_def demo_env_def demo_outside_def getRate_def cache_wrap_def
      cache_get_def empty_cache_def redis_lookup_def fetchRate_def Let_def split: if_splits)

lemma reach_demo:
  "\<exists>sv. reach api_start (api_step demo_env demo_auth) sv \<and>
     wallets (sv_db sv) = [(demo_wallet ''w0'' ''u1'' 500)\<lparr>w_name := ''Cash'', w_createdAt := 1000\<rparr>]"
proof -
  have rates: "fair_rates demo_env n (demo_server ws)" for n ws
    by (rule demo_rates) (simp add: demo_server_def demo_world_def)
  have "reach api_start (api_step demo_env demo_auth) (demo_server [])"
    by (rule reach_init) (simp add: api_start_def ledger_start_def demo_server_def demo_world_def empty_db_def)
  then have "reach api_start (api_step demo_env demo_auth)
      (demo_server [(demo_wallet ''w0'' ''u1'' 0)\<lparr>w_name := ''Cash'', w_createdAt := 1000\<rparr>])"
    using as_request [OF rates] demo_new_wallet by (blast intro: reach_step)
  then show ?thesis using as_request [OF rates] demo_deposit by (blast intro: reach_step)
qed

section \<open>The books\<close>



section \<open>Who can change what\<close>

text \<open>
  The caller behind a request: its bearer token verifies, and its account exists and is active.
\<close>

definition caller :: "'tok api_env \<Rightarrow> turn \<Rightarrow> 'tok api_req \<Rightarrow> db \<Rightarrow> auth_user \<Rightarrow> user \<Rightarrow> bool" where
  "caller E n r d a u \<longleftrightarrow>
     (\<exists>tok p. aq_bearer r = Some tok \<and> j_verify (en_jwt E) (now (tn_ctx n)) tok = Some p \<and> cl_sub p = Some (au_id a)) \<and>
     find_user (au_id a) d = Some u \<and> u_status u = Active"

text \<open>What each route asks of its caller beyond the route's permission codes.\<close>

fun entitled :: "route \<Rightarrow> 'tok api_env \<Rightarrow> turn \<Rightarrow> 'tok api_req \<Rightarrow> db \<Rightarrow> auth_user \<Rightarrow> user \<Rightarrow> bool" where
  "entitled PostDeposit E n r d a u = (\<exists>v. find_wallet (aq_param r) d = Some v \<and> w_userId v = au_id a)"
| "entitled PostWithdrawal E n r d a u = (\<exists>v. find_wallet (aq_param r) d = Some v \<and> w_userId v = au_id a)"
| "entitled PostTransfer E n r d a u =
     ((\<exists>v. find_wallet (aq_param r) d = Some v \<and> w_userId v = au_id a) \<and>
      (u_totpEnabled u \<longrightarrow> (\<exists>tok. aq_stepUp r = Some tok \<and>
         verifyStepUpGrant (en_jwt E) (now (tn_ctx n)) tok = Inr (Some (au_id a)))))"
| "entitled PostApprove E n r d a u =
     (\<exists>t. find_txn (aq_param r) d = Some t \<and> approve_code (t_type t) \<in> set (held_permissions (au_id a) d))"
| "entitled PostReject E n r d a u =
     (\<exists>t. find_txn (aq_param r) d = Some t \<and> approve_code (t_type t) \<in> set (held_permissions (au_id a) d))"
| "entitled PatchUserStatus E n r d a u = (aq_param r \<noteq> au_id a)"
| "entitled PatchUserRole E n r d a u = (aq_param r \<noteq> au_id a)"
| "entitled _ E n r d a u = True"

lemma guarded_caller:
  "guarded E n r d = Inr a \<Longrightarrow> \<exists>u. caller E n r d a u \<and> au_totpEnabled a = u_totpEnabled u"
  by (auto simp: guarded_def authenticate_def jwt_validate_def findById_def toSafeUser_def caller_def
      split: option.splits sum.splits if_splits)

lemma permitted_codes:
  "permitted E n r codes d = Inr a \<Longrightarrow> guarded E n r d = Inr a \<and> set codes \<subseteq> set (held_permissions (au_id a) d)"
  by (auto simp: permitted_def ok_bind_Inr permissions_guard_def opt_default_def held_permissions_def
      list_all_iff split: if_splits option.splits)

lemma stepped_up_grant:
  "stepped_up E n r d = Inr a \<Longrightarrow> guarded E n r d = Inr a \<and>
     (au_totpEnabled a \<longrightarrow> (\<exists>tok. aq_stepUp r = Some tok \<and>
        verifyStepUpGrant (en_jwt E) (now (tn_ctx n)) tok = Inr (Some (au_id a))))"
  by (auto simp: stepped_up_def ok_bind_Inr step_up_guard_def split: if_splits option.splits sum.splits)

lemma guard_of_codes:
  assumes "guard_of E n rt r d = Inr a"
  shows "guarded E n r d = Inr a" and "set (codes_of rt) \<subseteq> set (held_permissions (au_id a) d)"
  using assms by (cases rt; auto dest: permitted_codes stepped_up_grant)+

text \<open>The ownership and permission checks inside the handlers.\<close>

lemma handler_change:
  "wdb (snd (deposit x c i a amount memo w)) \<noteq> wdb w \<Longrightarrow> \<exists>v. find_wallet i (wdb w) = Some v \<and> w_userId v = au_id a"
  "wdb (snd (run_tx (requestWithdrawal c i a amount memo) w)) \<noteq> wdb w \<Longrightarrow>
     \<exists>v. find_wallet i (wdb w) = Some v \<and> w_userId v = au_id a"
  "wdb (snd (approve x c i a w)) \<noteq> wdb w \<Longrightarrow>
     \<exists>t. find_txn i (wdb w) = Some t \<and> approve_code (t_type t) \<in> set (held_permissions (au_id a) (wdb w))"
  "wdb (snd (reject x c i a memo w)) \<noteq> wdb w \<Longrightarrow>
     \<exists>t. find_txn i (wdb w) = Some t \<and> approve_code (t_type t) \<in> set (held_permissions (au_id a) (wdb w))"
  "wdb (snd (run_tx (updateStatus c i st a) w)) \<noteq> wdb w \<Longrightarrow> i \<noteq> au_id a"
  "wdb (snd (run_tx (updateRole c i nm a) w)) \<noteq> wdb w \<Longrightarrow> i \<noteq> au_id a"
  by (auto simp: deposit_def requestWithdrawal_def getOwnedWallet_def run_tx_def approve_def reject_def
      getSettleableType_def assertApprovePermission_def updateStatus_def updateRole_def
      split: sum.splits option.splits if_splits)

lemma transfer_change:
  "wdb (snd (transfer x c i a toId amount memo w)) \<noteq> wdb w \<Longrightarrow> \<exists>v. find_wallet i (wdb w) = Some v \<and> w_userId v = au_id a"
  by (auto simp: transfer_def getOwnedWallet_def split: sum.splits option.splits if_splits)

lemma with_args_change:
  "wdb (snd (with_args E r D k w)) \<noteq> wdb w \<Longrightarrow> \<exists>dto. wdb (snd (k (aq_param r) dto w)) \<noteq> wdb w"
  by (auto simp: with_args_def ParseUUID_def ok_bind_def split: if_splits sum.splits)

lemma with_id_change:
  "wdb (snd (with_id E r k w)) \<noteq> wdb w \<Longrightarrow> wdb (snd (k (aq_param r) w)) \<noteq> wdb w"
  by (auto simp: with_id_def ParseUUID_def split: if_splits)

lemma handler_entitled:
  assumes "wdb (snd (handler_of E n rt r a (sv_world sv))) \<noteq> sv_db sv"
    and "guard_of E n rt r (sv_db sv) = Inr a" "au_totpEnabled a = u_totpEnabled u"
  shows "entitled rt E n r (sv_db sv) a u"
  using assms
  by (cases rt)
    (auto dest!: with_args_change with_id_change handler_change transfer_change stepped_up_grant)

text \<open>C2: no change without authority. Whatever request reaches whatever writing route, if the database
  is different afterwards then the bearer token verified, the caller's account existed and was
  active, the caller's role in the database held every permission code of the route, and the
  caller owned the wallet (for money operations), presented a live step-up grant of their own (for
  transfers of accounts with two factors), held the permission of the transaction's type (for reviews),
  and was not the account being changed (for user management).\<close>

theorem no_change_without_authority:
  assumes "serve E n rt r sv = (res, sv')" and "sv_db sv' \<noteq> sv_db sv"
  shows "\<exists>a u. caller E n r (sv_db sv) a u \<and> entitled rt E n r (sv_db sv) a u \<and>
     set (codes_of rt) \<subseteq> set (held_permissions (au_id a) (sv_db sv))"
  using assms(1)
proof (cases rule: serve_cases)
  case (handled a)
  with assms(2) have change: "wdb (snd (handler_of E n rt r a (sv_world sv))) \<noteq> sv_db sv" by simp
  obtain u where "caller E n r (sv_db sv) a u" and totp: "au_totpEnabled a = u_totpEnabled u"
    using guarded_caller guard_of_codes(1) [OF handled(1)] by blast
  then show ?thesis using handler_entitled [OF change handled(1) totp] guard_of_codes(2) [OF handled(1)] by blast
qed (use assms(2) in auto)

lemma no_change_without_authority_witness:
  "\<exists>a u. caller demo_env (demo_turn ''a'') (demo_request ''w0'' (JObj [(''amount'', JNum 500)]))
     (sv_db (demo_server [(demo_wallet ''w0'' ''u1'' 0)\<lparr>w_name := ''Cash'', w_createdAt := 1000\<rparr>])) a u"
proof -
  obtain res sv' where "serve demo_env (demo_turn ''a'') PostDeposit (demo_request ''w0'' (JObj [(''amount'', JNum 500)]))
      (demo_server [(demo_wallet ''w0'' ''u1'' 0)\<lparr>w_name := ''Cash'', w_createdAt := 1000\<rparr>]) = (Inr res, sv')"
    "wallets (sv_db sv') = [(demo_wallet ''w0'' ''u1'' 500)\<lparr>w_name := ''Cash'', w_createdAt := 1000\<rparr>]"
    using demo_deposit by blast
  from no_change_without_authority [OF this(1)] this(2) show ?thesis
    by (fastforce simp: demo_server_def demo_world_def demo_wallet_def)
qed

section \<open>Refused requests\<close>

lemma run_tx_refused: "run_tx m w = (Inl e, w') \<Longrightarrow> untouched w w'"
  by (auto simp: run_tx_def untouched_def split: sum.splits)

lemma with_args_refused:
  "with_args E r D k w = (Inl e, w') \<Longrightarrow> (\<And>dto. k (aq_param r) dto w = (Inl e, w') \<Longrightarrow> untouched w w') \<Longrightarrow> untouched w w'"
  using with_args_cases [of E r D k w "Inl e" w'] untouched_refl by auto

lemma with_id_refused:
  "with_id E r k w = (Inl e, w') \<Longrightarrow> (k (aq_param r) w = (Inl e, w') \<Longrightarrow> untouched w w') \<Longrightarrow> untouched w w'"
  by (auto simp: with_id_def ParseUUID_def untouched_refl split: if_splits)

lemma handler_refused:
  assumes "handler_of E n rt r a w = (Inl e, w')"
  shows "untouched w w'"
  using assms
  by (cases rt)
    (auto simp: with_body_def as_json_Inl untouched_refl split: sum.splits
      elim!: with_args_refused with_id_refused
      dest: run_tx_refused deposit_refused approve_refused reject_refused adjust_refused transfer_refused)


text \<open>A deposit to a wallet that is not there is refused after the key was reserved.\<close>

lemma demo_refused:
  "\<exists>e sv'. serve demo_env (demo_turn ''a'') PostDeposit (demo_request ''w9'' (JObj [(''amount'', JNum 500)]))
      (demo_server []) = (Inl e, sv')"
  by (simp add: post_deposit_def MoneyAmountDto_def demo_simps admit_simps keyed_simps deposit_simps)


section \<open>What the pipe admits\<close>

text \<open>Every amount that reaches the ledger is the one that was sent, and it is a positive whole number. The
  three bodies that carry money admit no missing, fractional, zero, negative or textual amount, and
  the pipe passes on the number unchanged.\<close>

theorem admitted_amount_is_positive:
  assumes "validation_pipe V pipe" and "D = MoneyAmountDto \<or> D = TransferDto \<or> D = AdjustmentDto"
    and "pipe D v = Inr dto"
  shows "0 < dto_int ''amount'' dto \<and> jget ''amount'' v = Some (JNum (of_int (dto_int ''amount'' dto)))"
proof -
  have "required ''amount'' [R_IsInt, R_Min 1] \<in> set D" "distinct (map dp_name D)"
    using assms(2) amount_props
    by (auto simp: MoneyAmountDto_def TransferDto_def AdjustmentDto_def required_def optional_def)
  then show ?thesis
    using validation_pipe.amount_admitted [OF assms(1,3)] validation_pipe.sent_value [OF assms(1,3)] by blast
qed

lemma admitted_amount_is_positive_witness:
  "0 < dto_int ''amount'' (JObj [(''amount'', JNum 500)]) \<and>
   jget ''amount'' (JObj [(''extra'', JNull), (''amount'', JNum 500)]) = Some (JNum (of_int 500))"
proof -
  have "simple_pipe (en_V demo_env) MoneyAmountDto (JObj [(''extra'', JNull), (''amount'', JNum 500)]) =
      Inr (JObj [(''amount'', JNum 500)])"
    by (simp add: MoneyAmountDto_def admit_simps)
  from admitted_amount_is_positive [OF simple.validation_pipe_axioms disjI1 [OF refl] this]
  show ?thesis by (simp add: dto_int_def jget_def jnum_def)
qed

section \<open>Push subscriptions\<close>

text \<open>What \<open>unsubscribe\<close> is meant to leave: everything but the caller's subscription at that endpoint.\<close>

definition other_subscriptions :: "string \<Rightarrow> string \<Rightarrow> push_subscription list \<Rightarrow> push_subscription list" where
  "other_subscriptions userId ep subs = filter (\<lambda>s. \<not> (ps_userId s = userId \<and> ps_endpoint s = ep)) subs"

text \<open>Nobody can subscribe to push messages. \<open>SubscribeDto\<close> has no decorators, so the pipe
  strips every property and the handler fails on \<open>dto.keys.p256dh\<close>: whatever is sent, with whatever
  pipe, the answer is an error and the table is as before. And \<open>unsubscribe\<close>, whose endpoint is
  stripped the same way, removes every subscription of the caller.\<close>

theorem push_registration_is_broken:
  assumes "validation_pipe (en_V E) (en_pipe E)"
  shows "(\<exists>e. post_subscribe E n r d subs = (Inl e, subs)) \<and>
     (post_unsubscribe E n r d subs = (Inr (), subs') \<longrightarrow>
        (\<exists>a. guarded E n r d = Inr a \<and> subs' = filter (\<lambda>s. ps_userId s \<noteq> au_id a) subs))"
proof -
  consider e where "en_pipe E [] (aq_body r) = Inl e" | "en_pipe E [] (aq_body r) = Inr (JObj [])"
    using validation_pipe.undecorated_stripped [OF assms] by (cases "en_pipe E [] (aq_body r)") auto
  then show ?thesis
    by cases
      (cases "guarded E n r d";
        auto simp: post_subscribe_def post_unsubscribe_def SubscribeDto_def UnsubscribeDto_def ok_bind_def
          prop_of_def jget_def del_rows_def intro: filter_cong)+
qed

text \<open>A caller with two devices asks to silence one.\<close>

definition device :: "string \<Rightarrow> push_subscription" where
  "device ep = \<lparr>ps_endpoint = ep, ps_userId = ''u1'', ps_p256dh = ''p'', ps_auth = ''a''\<rparr>"

lemma push_registration_is_broken_witness:
  "post_unsubscribe demo_env (demo_turn ''a'') (demo_request [] (JObj [(''endpoint'', JStr ''phone'')]))
     (sv_db (demo_server [])) [device ''phone'', device ''laptop''] = (Inr (), []) \<and>
   other_subscriptions ''u1'' ''phone'' [device ''phone'', device ''laptop''] = [device ''laptop''] \<and>
   (\<exists>e. fst (post_subscribe demo_env (demo_turn ''a'')
      (demo_request [] (JObj [(''endpoint'', JStr ''phone''), (''keys'', JObj [(''p256dh'', JStr ''p''), (''auth'', JStr ''a'')])]))
      (sv_db (demo_server [])) []) = Inl e)"
proof -
  have "\<exists>subs'. post_unsubscribe demo_env (demo_turn ''a'') (demo_request [] (JObj [(''endpoint'', JStr ''phone'')]))
     (sv_db (demo_server [])) [device ''phone'', device ''laptop''] = (Inr (), subs')"
    by (simp add: post_unsubscribe_def UnsubscribeDto_def demo_simps admit_simps)
  then obtain subs' where s: "post_unsubscribe demo_env (demo_turn ''a'') (demo_request [] (JObj [(''endpoint'', JStr ''phone'')]))
     (sv_db (demo_server [])) [device ''phone'', device ''laptop''] = (Inr (), subs')" by blast
  have "guarded demo_env (demo_turn ''a'') (demo_request [] (JObj [(''endpoint'', JStr ''phone'')])) (sv_db (demo_server [])) = Inr a
      \<Longrightarrow> au_id a = ''u1''" for a
    by (auto simp: demo_simps admit_simps)
  with push_registration_is_broken [OF demo_pipe] s have "subs' = []"
    by (fastforce simp: device_def)
  with s show ?thesis
    using push_registration_is_broken [OF demo_pipe, of "demo_turn ''a''"]
    by (simp add: other_subscriptions_def device_def) (metis fst_conv)
qed

section \<open>Signing in to the console\<close>

text \<open>A staff account with a second factor cannot sign in to the console. When the API answers
  the password with a challenge, the console's login reads \<open>tokens\<close> that are not there and throws,
  setting no cookie; the customer app passes the challenge on.\<close>

theorem console_login_knows_no_challenge:
  assumes "ri_body i = Some (JObj [(''email'', JStr email), (''password'', JStr password)])"
    and "api (post_json ''/auth/login'' (JObj [(''email'', JStr email), (''password'', JStr password)])) s =
      (Some (json_reply 200 (JObj [(''requires2fa'', JBool True), (''challengeToken'', JStr tok)])), s')"
  shows "console_login api secure t i jar s = (Inl NoProperty, jar, s') \<and>
     customer_login api secure t i jar s = (Inr (json_reply 200
       (JObj [(''requires2fa'', JBool True), (''challengeToken'', JStr tok)])), jar, s')"
  using assms
  by (simp add: console_login_def customer_login_def prop_of_def ok_bind_def json_obj_def call_api_def with_state_def
      finish_sign_in_def open_session_def token_pair_def res_json_def json_reply_def res_ok_def jget_def
      List.map_filter_simps jtruthy_def)

text \<open>An API that answers every password with a challenge.\<close>

definition challenging :: "nat fetch" where
  "challenging c s = (Some (json_reply 200
     (JObj [(''requires2fa'', JBool True), (''challengeToken'', JStr ''c'')])), Suc s)"

definition staff_login :: route_in where
  "staff_login = \<lparr>ri_body = Some (JObj [(''email'', JStr ''f@wallet.local''), (''password'', JStr ''pw'')]),
     ri_header = (\<lambda>_. None), ri_query = (\<lambda>_. None), ri_param = []\<rparr>"

lemma console_login_knows_no_challenge_witness:
  "console_login challenging True 0 staff_login Map.empty 0 = (Inl NoProperty, Map.empty, 1)"
  using console_login_knows_no_challenge [where api = challenging and i = staff_login and s = 0 and s' = 1]
  by (simp add: challenging_def staff_login_def)

end
