(* ===== verification/EndToEnd.thy ===== *)
theory EndToEnd
  imports Exchange Access
begin

text \<open>
  A money screen, its BFF route and the API together. The screen is a session of \<open>Wizards\<close> or
  \<open>Exchange\<close>; its requests reach \<open>Api.serve\<close> through the BFF's routes late, repeatedly, out of order
  or not at all, in between anything else the platform does. What the browser is told is not
  tied to what the API did: any reply may be lost or be an error.
\<close>

section \<open>From the browser to the API\<close>

text \<open>What the route handler is given, and the calls it passes on to an API that answers anything.\<close>

definition browser_in :: "string \<Rightarrow> api_call \<Rightarrow> route_in" where
  "browser_in i c = \<lparr>ri_body = cq_body c, ri_header = map_of (cq_headers c), ri_query = (\<lambda>_. None), ri_param = i\<rparr>"

definition listening :: "http_reply_msg \<Rightarrow> api_call list Bff.server" where
  "listening rep c jar s = (Inr rep, jar, s @ [c])"

definition passed_on ::
  "(api_call list Bff.server \<Rightarrow> route_in \<Rightarrow> jar \<Rightarrow> api_call list \<Rightarrow> api_call list served) \<Rightarrow> string \<Rightarrow> api_call \<Rightarrow> api_call list"
where
  "passed_on handle i c = snd (snd (handle (listening (empty_reply 200)) (browser_in i c) (\<lambda>_. None) []))"

fun bff_route ::
  "route \<Rightarrow> api_call list Bff.server \<Rightarrow> route_in \<Rightarrow> jar \<Rightarrow> api_call list \<Rightarrow> api_call list served" where
  "bff_route PostTransfer = transfers_route"
| "bff_route PostDeposit = deposits_route"
| "bff_route PostWithdrawal = withdrawals_route"
| "bff_route rt = (\<lambda>srv i jar s. (Inl FetchFailed, jar, s))"

text \<open>The routes pass the idempotency key on.\<close>

lemma pass_key: "k \<noteq> [] \<Longrightarrow> call_key c = Some k \<Longrightarrow> pass_header ''idempotency-key'' (browser_in i c) = [(''idempotency-key'', k)]"
  by (simp add: pass_header_def browser_in_def call_key_def given_def)

lemma key_passed_on:
  assumes "c' \<in> set (passed_on (bff_route rt) i c)" "call_key c = Some k" "k \<noteq> []"
  shows "call_key c' = Some k"
proof -
  note facts = assms(1) pass_key [OF assms(3,2), of i]
  show ?thesis
    by (cases rt) (use facts in \<open>auto simp: passed_on_def listening_def transfers_route_def transfer_call_def
        deposits_route_def withdrawals_route_def forward_body_def call_key_def JSON_HEADER_def map_reply_def
        pass_header_def [of "''x-step-up-token''"] split: sum.splits prod.splits if_splits\<close>)
qed

section \<open>Orders of a wallet\<close>

text \<open>What a wallet's owner has had done: rows of deposits, withdrawals and transfers out.\<close>

definition ordered :: "txn_type \<Rightarrow> bool" where
  "ordered ty \<longleftrightarrow> ty = Deposit \<or> ty = Withdrawal \<or> ty = TransferOut"

definition orders :: "string \<Rightarrow> db \<Rightarrow> nat" where
  "orders my d = length (filter (\<lambda>t. t_walletId t = my \<and> ordered (t_type t)) (txns d))"

lemma orders_same: "txns d' = txns d \<Longrightarrow> orders my d' = orders my d"
  by (simp add: orders_def)

lemma orders_append:
  "txns d' = txns d @ ts \<Longrightarrow> length (filter (\<lambda>t. ordered (t_type t)) ts) \<le> 1 \<Longrightarrow> orders my d' \<le> Suc (orders my d)"
proof -
  assume ts: "txns d' = txns d @ ts" "length (filter (\<lambda>t. ordered (t_type t)) ts) \<le> 1"
  have "filter (\<lambda>t. t_walletId t = my \<and> ordered (t_type t)) ts =
      filter (\<lambda>t. t_walletId t = my) (filter (\<lambda>t. ordered (t_type t)) ts)"
    by (simp add: conj_commute)
  then have "length (filter (\<lambda>t. t_walletId t = my \<and> ordered (t_type t)) ts) \<le> 1"
    using order_trans [OF length_filter_le ts(2)] by simp
  then show ?thesis using ts(1) by (simp add: orders_def)
qed

text \<open>The handlers of the three routes: at most one order when they answer, none when they refuse.\<close>

definition one_order :: "string \<Rightarrow> (world \<Rightarrow> (exn + 'a) \<times> world) \<Rightarrow> bool" where
  "one_order my h \<longleftrightarrow> (\<forall>w w'. (\<forall>e. h w = (Inl e, w') \<longrightarrow> orders my (wdb w') = orders my (wdb w)) \<and>
     (\<forall>v. h w = (Inr v, w') \<longrightarrow> orders my (wdb w') \<le> Suc (orders my (wdb w))))"

lemma one_order_args:
  assumes "\<And>i dto. one_order my (h i dto)"
  shows "one_order my (with_args E r D h)"
  using assms unfolding one_order_def with_args_def by (auto split: sum.splits)

lemma one_order_json: "one_order my f \<Longrightarrow> one_order my (\<lambda>w. as_json g (f w))"
  unfolding one_order_def by (auto simp: as_json_def split: sum.splits prod.splits)

lemma deposit_order: "one_order my (deposit x c i a m note)"
  unfolding one_order_def
proof (intro allI conjI impI)
  show "orders my (wdb w') = orders my (wdb w)" if "deposit x c i a m note w = (Inl e, w')" for w w' e
    using deposit_refused [OF that] by (simp add: untouched_def)
  show "orders my (wdb w') \<le> Suc (orders my (wdb w))" if dep: "deposit x c i a m note w = (Inr v, w')" for w w' v
  proof -
    obtain d' ow ev where t: "deposit_tx c i a m note (wdb w) = Inr (d', v, ow, ev)"
      and w': "w' = dispatch x c ev (announce ow (w\<lparr>wdb := d'\<rparr>))"
      using dep by (auto simp: deposit_def split: sum.splits prod.splits)
    have "\<exists>t. txns d' = txns (wdb w) @ [t]" using t by (auto simp: deposit_tx_def tx_simps Let_def)
    then obtain t where "txns d' = txns (wdb w) @ [t]" by blast
    then show ?thesis using orders_append [of "wdb w'" "wdb w" "[t]" my] w' by simp
  qed
qed

lemma withdrawal_order: "one_order my (run_tx (requestWithdrawal c i a m note))"
  unfolding one_order_def run_tx_def requestWithdrawal_def
  by (auto simp: tx_simps orders_def split: sum.splits if_splits prod.splits)

lemma transfer_order: "one_order my (transfer x c i a toId m note)"
  unfolding one_order_def
proof (intro allI conjI impI)
  show "orders my (wdb w') = orders my (wdb w)" if "transfer x c i a toId m note w = (Inl e, w')" for w w' e
    using transfer_refused [OF that] by (simp add: untouched_def)
  show "orders my (wdb w') \<le> Suc (orders my (wdb w))" if tr: "transfer x c i a toId m note w = (Inr v, w')" for w w' v
  proof (rule transfer_success [OF tr])
    fix src dst rate credit w1 d' res
    assume ne: "toId \<noteq> i" and t: "transfer_tx c i a toId m note credit rate (map_option (d_toString (x_decimal x)) rate)
         (sender_handle (au_id a) (wdb w1)) (uuids c 0) (wdb w) = Inr (d', res)" and d': "txns (wdb w') = txns d'"
    obtain out into where "txns d' = txns (wdb w) @ [out, into]" "t_type into = TransferIn"
      by (rule transfer_tx_result [OF t ne]) simp
    then show ?thesis using orders_append [of "wdb w'" "wdb w" "[out, into]" my] d' by (simp add: ordered_def)
  qed
qed

definition money_route :: "route \<Rightarrow> bool" where
  "money_route rt \<longleftrightarrow> rt = PostTransfer \<or> rt = PostDeposit \<or> rt = PostWithdrawal"

lemma handler_order: "money_route rt \<Longrightarrow> one_order my (handler_of E n rt r a)"
  unfolding money_route_def
  by (elim disjE; simp; intro one_order_args one_order_json deposit_order withdrawal_order transfer_order)

section \<open>Deliveries\<close>

text \<open>
  One step of the platform, seen from a wallet \<open>my\<close> of user \<open>u\<close> whose browser has sent the calls
  \<open>cs\<close>. Either one of the calls reaches the API through the BFF, in the user's own session and
  within the 24 hours from \<open>t0\<close> for which keys are kept, and is served to its end; or something else
  happens that orders nothing for this wallet and leaves the user's rows for these keys alone.
\<close>

definition key_rows :: "string \<Rightarrow> string set \<Rightarrow> idem_row list \<Rightarrow> idem_row list" where
  "key_rows u K rows = filter (\<lambda>r. ik_userId r = u \<and> ik_key r \<in> K) rows"

definition arrives :: "'tok api_env \<Rightarrow> string \<Rightarrow> int \<Rightarrow> api_call list \<Rightarrow> turn \<Rightarrow> route \<Rightarrow> 'tok api_req \<Rightarrow> server \<Rightarrow> bool" where
  "arrives E u t0 cs n rt r sv \<longleftrightarrow>
     money_route rt \<and>
     (\<exists>c \<in> set cs. \<exists>i. \<exists>c' \<in> set (passed_on (bff_route rt) i c). call_key c \<noteq> None \<and> aq_key r = call_key c') \<and>
     (\<forall>a. guard_of E n rt r (sv_db sv) = Inr a \<longrightarrow> au_id a = u) \<and>
     t0 \<le> now (tn_ctx n) \<and> now (tn_ctx n) \<le> t0 + IDEM_TTL_MS \<and>
     tn_idem n = no_errors \<and> fresh_ids (tn_ids n) (sv_idem sv)"

inductive platform :: "'tok api_env \<Rightarrow> string \<Rightarrow> string \<Rightarrow> int \<Rightarrow> api_call list \<Rightarrow> server \<Rightarrow> server \<Rightarrow> bool"
  for E u my t0 cs where
  delivered: "arrives E u t0 cs n rt r sv \<Longrightarrow> serve E n rt r sv = (res, sv') \<Longrightarrow> platform E u my t0 cs sv sv'"
| elsewhere: "orders my (sv_db sv') = orders my (sv_db sv) \<Longrightarrow>
    key_rows u (keys_of cs) (sv_idem sv') = key_rows u (keys_of cs) (sv_idem sv) \<Longrightarrow> idem_ok (sv_idem sv') \<Longrightarrow>
    platform E u my t0 cs sv sv'"

text \<open>The orders never outnumber the keys that have been used.\<close>

definition used_keys :: "string \<Rightarrow> string set \<Rightarrow> idem_row list \<Rightarrow> string set" where
  "used_keys u K rows = ik_key ` set (key_rows u K rows)"

definition paid_inv :: "string \<Rightarrow> string \<Rightarrow> int \<Rightarrow> string set \<Rightarrow> nat \<Rightarrow> server \<Rightarrow> bool" where
  "paid_inv u my t0 K base sv \<longleftrightarrow> idem_ok (sv_idem sv) \<and>
     (\<forall>r \<in> set (key_rows u K (sv_idem sv)). t0 \<le> ik_createdAt r) \<and>
     orders my (sv_db sv) \<le> base + card (used_keys u K (sv_idem sv))"

lemma used_keys_sub: "used_keys u K rows \<subseteq> K"
  by (auto simp: used_keys_def key_rows_def)

lemma finite_used [simp]: "finite (used_keys u K rows)"
  by (simp add: used_keys_def)

lemma arrives_key:
  assumes "arrives E u t0 cs n rt r sv" "[] \<notin> keys_of cs"
  obtains k where "aq_key r = Some k" "k \<in> keys_of cs" "k \<noteq> []"
proof -
  obtain c i c' where c: "c \<in> set cs" "c' \<in> set (passed_on (bff_route rt) i c)" "call_key c \<noteq> None" "aq_key r = call_key c'"
    using assms(1) unfolding arrives_def by blast
  then obtain k where k: "call_key c = Some k" by blast
  then have in_K: "k \<in> keys_of cs" using c(1) by (auto simp: keys_of_def)
  then have "k \<noteq> []" using assms(2) by blast
  then show ?thesis using that [OF _ in_K] key_passed_on [OF c(2) k] c(4) by simp
qed

lemma idempotent_cases:
  assumes run: "idempotent E n r True a h sv = (res, sv')" and au: "au_id a = u" "u \<noteq> []"
    and key: "aq_key r = Some k" "k \<noteq> []" and env: "tn_idem n = no_errors" and ok: "idem_ok (sv_idem sv)"
    and fresh: "fresh_ids (tn_ids n) (sv_idem sv)"
    and live: "\<forall>x \<in> set (sv_idem sv). ik_userId x = u \<and> ik_key x = k \<longrightarrow> now (tn_ctx n) \<le> ik_createdAt x + IDEM_TTL_MS"
  obtains (known) x where "x \<in> set (sv_idem sv)" "ik_userId x = u" "ik_key x = k" "sv' = sv"
  | (refused) e w where "h (sv_world sv) = (Inl e, w)" "sv' = sv\<lparr>sv_world := w\<rparr>"
  | (answered) v w x where "\<forall>x \<in> set (sv_idem sv). \<not> same_key u k x" "h (sv_world sv) = (Inr v, w)"
      "ik_userId x = u" "ik_key x = k" "ik_createdAt x = now (tn_ctx n)" "ik_id x \<notin> ik_id ` set (sv_idem sv)"
      "sv' = \<lparr>sv_world = w, sv_idem = sv_idem sv @ [x]\<rparr>"
proof -
  define q where "q = \<lparr>rq_user = Some (au_id a), rq_key = aq_key r, rq_method = ''POST'', rq_url = aq_url r,
     rq_bodyText = aq_bodyText r\<rparr>"
  have q: "rq_user q = Some u" "rq_key q = Some k" using au(1) key(1) by (simp_all add: q_def)
  show ?thesis
  proof (cases "\<exists>x \<in> set (sv_idem sv). same_key u k x")
  case True
  then obtain x where x: "x \<in> set (sv_idem sv)" "ik_userId x = u" "ik_key x = k" by (auto simp: same_key_def)
  have "now (tn_ctx n) \<le> ik_createdAt x + IDEM_TTL_MS" using live x by blast
  then have "\<exists>res. intercept (en_sha E) (tn_idem n) (now (tn_ctx n)) (tn_ids n) True 201 h q (sv_idem sv) (sv_world sv) =
      (res, sv_idem sv, sv_world sv)"
    by (simp add: intercept_existing [OF ok x _ q au(2) key(2)])
  then have "sv' = sv" using run by (auto simp: idempotent_def q_def)
  then show ?thesis using known x by blast
next
  case False
  let ?t = "now (tn_ctx n)"
  let ?new = "new_idem ?t (tn_ids n 1) u k (fingerprint (en_sha E) q)"
  have none: "\<forall>x \<in> set (sv_idem sv). \<not> same_key u k x" using False by blast
  have ids: "\<forall>x \<in> set (sv_idem sv). ik_id x \<noteq> tn_ids n 1" using fresh by (metis fresh_ids_def)
  have i: "intercept (en_sha E) (tn_idem n) ?t (tn_ids n) True 201 h q (sv_idem sv) (sv_world sv) =
      run_reserved (tn_idem n) 201 h (tn_ids n 1) (sv_idem sv @ [?new]) (sv_world sv)"
    by (rule intercept_fresh [OF none fresh q au(2) key(2)])
  show ?thesis
  proof (cases "h (sv_world sv)")
    case (Pair out w)
    show ?thesis
    proof (cases out)
      case (Inl e)
      then have "sv' = \<lparr>sv_world = w, sv_idem = sv_idem sv\<rparr>"
        using run i Pair release_new [OF ids]
        by (simp add: idempotent_def q_def [symmetric] run_reserved_def release_and_fail_def env no_errors_def)
      then show ?thesis using refused Pair Inl by simp
    next
      case (Inr v)
      let ?x = "?new\<lparr>ik_completed := True, ik_statusCode := Some 201, ik_responseBody := v\<rparr>"
      have "sv' = \<lparr>sv_world = w, sv_idem = sv_idem sv @ [?x]\<rparr>"
        using run i Pair Inr complete_new [OF ids]
        by (simp add: idempotent_def q_def [symmetric] run_reserved_def env no_errors_def)
      moreover have "ik_id ?x \<notin> ik_id ` set (sv_idem sv)" using ids by (auto simp: new_idem_def)
      ultimately show ?thesis using answered [OF none, of v w ?x] Pair Inr by (simp add: new_idem_def)
    qed
  qed
  qed
qed

lemma used_keys_append:
  "ik_userId x = u \<Longrightarrow> ik_key x \<in> K \<Longrightarrow> used_keys u K (rows @ [x]) = insert (ik_key x) (used_keys u K rows)"
  by (simp add: used_keys_def key_rows_def)

lemma paid_delivered:
  assumes inv: "paid_inv u my t0 (keys_of cs) base sv" and u: "u \<noteq> []" and K: "[] \<notin> keys_of cs"
    and a: "arrives E u t0 cs n rt r sv" and run: "serve E n rt r sv = (res, sv')"
  shows "paid_inv u my t0 (keys_of cs) base sv'"
proof -
  obtain k where k: "aq_key r = Some k" "k \<in> keys_of cs" "k \<noteq> []" using arrives_key [OF a K] .
  have ok: "idem_ok (sv_idem sv)" and born: "\<forall>x \<in> set (key_rows u (keys_of cs) (sv_idem sv)). t0 \<le> ik_createdAt x"
    and count: "orders my (sv_db sv) \<le> base + card (used_keys u (keys_of cs) (sv_idem sv))"
    using inv by (auto simp: paid_inv_def)
  have rt: "money_route rt" and t: "t0 \<le> now (tn_ctx n)" "now (tn_ctx n) \<le> t0 + IDEM_TTL_MS"
    and env: "tn_idem n = no_errors" and fresh: "fresh_ids (tn_ids n) (sv_idem sv)"
    using a by (auto simp: arrives_def)
  have live: "\<forall>x \<in> set (sv_idem sv). ik_userId x = u \<and> ik_key x = k \<longrightarrow> now (tn_ctx n) \<le> ik_createdAt x + IDEM_TTL_MS"
    using born k(2) t(2) by (force simp: key_rows_def)
  consider "sv' = sv" | b where "guard_of E n rt r (sv_db sv) = Inr b"
      "idempotent E n r True b (handler_of E n rt r b) sv = (res, sv')"
    using behind_cases [OF run [unfolded serve_structure]] rt by (auto simp: money_route_def)
  then show ?thesis
  proof cases
    case (2 b)
    have b: "au_id b = u" using a 2(1) by (auto simp: arrives_def)
    note one = handler_order [OF rt, unfolded one_order_def, rule_format]
    from 2(2) b u k(1,3) env ok fresh live show ?thesis
    proof (cases rule: idempotent_cases)
      case (refused e w)
      have "orders my (wdb w) = orders my (sv_db sv)" using one refused(1) by blast
      then show ?thesis using inv refused(2) by (simp add: paid_inv_def)
    next
      case (answered v w x)
      have "orders my (wdb w) \<le> Suc (orders my (sv_db sv))" using one answered(2) by blast
      moreover have "k \<notin> used_keys u (keys_of cs) (sv_idem sv)"
        using answered(1) by (auto simp: used_keys_def key_rows_def same_key_def)
      ultimately have "orders my (wdb w) \<le> base + card (used_keys u (keys_of cs) (sv_idem sv @ [x]))"
        using count used_keys_append [of x u "keys_of cs" "sv_idem sv"] answered(3,4) k(2) by simp
      moreover have "idem_ok (sv_idem sv @ [x])"
        using ok answered(1,3,4,6) by (force simp: idem_ok_def same_key_def)
      moreover have "\<forall>y \<in> set (key_rows u (keys_of cs) (sv_idem sv @ [x])). t0 \<le> ik_createdAt y"
        using born answered(5) t(1) by (auto simp: key_rows_def)
      ultimately show ?thesis using answered(7) by (simp add: paid_inv_def)
    qed (use inv in simp)
  qed (use inv in simp)
qed

lemma paid_step:
  assumes "paid_inv u my t0 (keys_of cs) base sv" "u \<noteq> []" "[] \<notin> keys_of cs" "platform E u my t0 cs sv sv'"
  shows "paid_inv u my t0 (keys_of cs) base sv'"
  using assms(4)
proof cases
  case (delivered n rt r res)
  then show ?thesis using paid_delivered [OF assms(1-3)] by blast
next
  case elsewhere
  then show ?thesis using assms(1) by (simp add: paid_inv_def used_keys_def)
qed

text \<open>At most one order for each key of the calls, when the server has not seen them before.\<close>

lemma orders_bounded:
  assumes steps: "(platform E u my t0 cs)\<^sup>*\<^sup>* sv sv'" and u: "u \<noteq> []" "[] \<notin> keys_of cs" and ok: "idem_ok (sv_idem sv)"
    and new: "key_rows u (keys_of cs) (sv_idem sv) = []"
  shows "orders my (sv_db sv') \<le> orders my (sv_db sv) + card (keys_of cs)"
proof -
  have "paid_inv u my t0 (keys_of cs) (orders my (sv_db sv)) sv"
    using ok new by (simp add: paid_inv_def used_keys_def)
  with steps have "paid_inv u my t0 (keys_of cs) (orders my (sv_db sv)) sv'"
    by (induction rule: rtranclp_induct) (auto intro: paid_step [OF _ u])
  moreover have "card (used_keys u (keys_of cs) (sv_idem sv')) \<le> card (keys_of cs)"
    by (intro card_mono used_keys_sub) simp
  ultimately show ?thesis by (simp add: paid_inv_def)
qed

context keyed_screen
begin

lemma orders_per_success:
  assumes run: "session step succeeds evs w0 = (w, cs, n)" and start: "key w0 = None"
    and fresh: "\<forall>f \<in> fst ` set evs. f \<noteq> [] \<and> (\<forall>r \<in> set (sv_idem sv). ik_userId r = u \<longrightarrow> ik_key r \<noteq> f)"
    and u: "u \<noteq> []" and ok: "idem_ok (sv_idem sv)" and steps: "(platform E u my t0 cs)\<^sup>*\<^sup>* sv sv'"
  shows "orders my (sv_db sv') \<le> orders my (sv_db sv) + n + 1"
proof -
  have K: "keys_of cs \<subseteq> fst ` set evs" using session_minted [OF run] start by simp
  have "[] \<notin> keys_of cs" using K fresh by blast
  moreover have "key_rows u (keys_of cs) (sv_idem sv) = []"
    using K fresh by (fastforce simp: key_rows_def filter_empty_conv)
  ultimately have "orders my (sv_db sv') \<le> orders my (sv_db sv) + card (keys_of cs)"
    using orders_bounded [OF steps u _ ok] by blast
  then show ?thesis using one_key_per_success [OF run] by linarith
qed

end


lemma exchanges_match_successes:
  assumes run: "session (exchange_step ws) exchange_succeeds evs (exchange_start ws) = (w, cs, n)"
    and fresh: "\<forall>f \<in> fst ` set evs. f \<noteq> [] \<and> (\<forall>r \<in> set (sv_idem sv). ik_userId r = u \<longrightarrow> ik_key r \<noteq> f)"
    and u: "u \<noteq> []" and ok: "idem_ok (sv_idem sv)" and steps: "(platform E u my t0 cs)\<^sup>*\<^sup>* sv sv'"
  shows "orders my (sv_db sv') \<le> orders my (sv_db sv) + n + 1"
  by (rule exchanging.orders_per_success [OF run _ fresh u ok steps]) (simp add: exchange_start_def)

lemma requests_match_successes:
  assumes run: "session (money_step p) money_succeeds evs money_start = (w, cs, n)"
    and fresh: "\<forall>f \<in> fst ` set evs. f \<noteq> [] \<and> (\<forall>r \<in> set (sv_idem sv). ik_userId r = u \<longrightarrow> ik_key r \<noteq> f)"
    and u: "u \<noteq> []" and ok: "idem_ok (sv_idem sv)" and steps: "(platform E u my t0 cs)\<^sup>*\<^sup>* sv sv'"
  shows "orders my (sv_db sv') \<le> orders my (sv_db sv) + n + 1"
  by (rule requesting.orders_per_success [OF run _ fresh u ok steps]) (simp add: money_start_def)

section \<open>Exchanging with the second factor on\<close>

definition an_exchange :: "api_call \<Rightarrow> bool" where
  "an_exchange c \<longleftrightarrow> call_key c = None \<or> (\<exists>i j k m. c = exchange_call i j k m)"

interpretation exchange_calls: answered_screen "exchange_step ws" exchange_succeeds
  "\<lambda>evs. {} :: unit set" "\<lambda>B w. True" "\<lambda>B. an_exchange"
proof unfold_locales
  fix w f e w' out
  show "True \<and> (\<forall>c. out = Some c \<longrightarrow> an_exchange c)" if "exchange_step ws f e w = (w', out)"
    using that by (cases e) (auto simp: exchange_step_def exchange_submit_def an_exchange_def
      split: option.splits if_splits prod.splits quote_task.splits)
qed simp_all

text \<open>C40 (a defect): a customer who turned the second factor on can never exchange. The API asks
  every transfer of such a customer for a step-up grant; the exchange screen has no way to obtain one
  and none of its requests carries one, so each is refused with \<open>STEP_UP_REQUIRED\<close> and changes nothing.\<close>

theorem exchange_cannot_step_up:
  assumes run: "session (exchange_step ws) exchange_succeeds evs (exchange_start ws) = (w, cs, n)"
    and c: "c \<in> set cs" "call_key c = Some k" "c' \<in> set (passed_on transfers_route i c)"
    and r: "aq_stepUp r = map_option tok (map_of (cq_headers c') ''x-step-up-token'')"
    and user: "guarded E t r (sv_db sv) = Inr a" "au_totpEnabled a"
  shows "post_transfer E t r sv = (Inl STEP_UP_REQUIRED, sv)"
proof -
  obtain x j k m where "c = exchange_call x j k m"
    using exchange_calls.session_allowed [OF run _ c(1)] c(2) by (auto simp: an_exchange_def)
  then have "map_of (cq_headers c') ''x-step-up-token'' = None"
    using c(3) by (auto simp: passed_on_def listening_def transfers_route_def transfer_call_def pass_header_def
      browser_in_def exchange_call_def money_call_def JSON_HEADER_def given_def split: sum.splits if_splits)
  then show ?thesis
    using r user by (simp add: post_transfer_def behind_def stepped_up_def step_up_guard_def ok_bind_def)
qed

section \<open>Witnesses\<close>

definition demo_transfer_request :: "(claims \<times> int) api_req" where
  "demo_transfer_request = Access.demo_request ''w1'' (JObj [(''toWalletId'', JStr ''w2''), (''amount'', JNum 2500)])"

lemma demo_sent_call: "money_call (''/api/wallets/'' @ ''w1'' @ ''/transfers'') ''k'' None
     [(''toWalletId'', Some (JStr ''w2'')), (''amount'', Some (jint 2500)), (''note'', None)]
     \<in> set (fst (snd (demo_session demo_sends)))"
  by code_simp

lemma demo_owner:
  "stepped_up demo_env (demo_turn ''a'') demo_transfer_request (sv_db (demo_server [])) = Inr a \<Longrightarrow> au_id a = ''u1''"
  by (auto simp: stepped_up_def step_up_guard_def demo_transfer_request_def demo_simps admit_simps split: if_splits)

lemma demo_arrives:
  "arrives demo_env ''u1'' 1000 (fst (snd (demo_session demo_sends))) (demo_turn ''a'') PostTransfer
     demo_transfer_request (demo_server [])"
proof -
  let ?c = "money_call (''/api/wallets/'' @ ''w1'' @ ''/transfers'') ''k'' None
     [(''toWalletId'', Some (JStr ''w2'')), (''amount'', Some (jint 2500)), (''note'', None)]"
  have "\<exists>c' \<in> set (passed_on (bff_route PostTransfer) ''w1'' ?c). call_key ?c \<noteq> None \<and> aq_key demo_transfer_request = call_key c'"
    by code_simp
  then have "\<exists>c \<in> set (fst (snd (demo_session demo_sends))). \<exists>i. \<exists>c' \<in> set (passed_on (bff_route PostTransfer) i c).
      call_key c \<noteq> None \<and> aq_key demo_transfer_request = call_key c'"
    using demo_sent_call by blast
  moreover have "now (tn_ctx (demo_turn ''a'')) = 1000" by (simp add: demo_turn_def money_ctx_def)
  moreover have "tn_idem (demo_turn ''a'') = no_errors" by (simp add: demo_turn_def no_errors_def)
  moreover have "fresh_ids ids (sv_idem (demo_server []))" for ids by (simp add: fresh_ids_def demo_server_def)
  ultimately show ?thesis unfolding arrives_def using demo_owner by (simp add: money_route_def IDEM_TTL_MS_def)
qed


definition guarded_server :: server where
  "guarded_server = \<lparr>sv_world = demo_world (empty_db\<lparr>users := [ada\<lparr>u_totpEnabled := True\<rparr>]\<rparr>), sv_idem = []\<rparr>"

lemma guarded_ada:
  "guarded demo_env (demo_turn ''a'') demo_transfer_request (sv_db guarded_server) =
     Inr \<lparr>au_id = ''u1'', au_email = [], au_role = [], au_totpEnabled = True\<rparr>"
  by (simp add: opt_default_def guarded_server_def demo_transfer_request_def demo_simps admit_simps)

lemma exchange_cannot_step_up_witness:
  "post_transfer demo_env (demo_turn ''a'') demo_transfer_request guarded_server = (Inl STEP_UP_REQUIRED, guarded_server)"
proof -
  have run: "session (exchange_step demo_wallets) exchange_succeeds demo_exchanging (exchange_start demo_wallets) =
      (fst demo_exchange, fst (snd demo_exchange), snd (snd demo_exchange))"
    by (simp add: demo_exchange_def)
  have "passed_on transfers_route ''w1'' (exchange_call ''w1'' ''w2'' ''k'' 1250) \<noteq> []" by code_simp
  then obtain c' where c': "c' \<in> set (passed_on transfers_route ''w1'' (exchange_call ''w1'' ''w2'' ''k'' 1250))"
    by (cases "passed_on transfers_route ''w1'' (exchange_call ''w1'' ''w2'' ''k'' 1250)") auto
  have "\<forall>c' \<in> set (passed_on transfers_route ''w1'' (exchange_call ''w1'' ''w2'' ''k'' 1250)).
      map_of (cq_headers c') ''x-step-up-token'' = None"
    by code_simp
  then have "aq_stepUp demo_transfer_request = map_option (\<lambda>s. (no_claims, 0)) (map_of (cq_headers c') ''x-step-up-token'')"
    using c' by (simp add: demo_transfer_request_def Access.demo_request_def)
  then show ?thesis
    by (rule exchange_cannot_step_up [OF run demo_exchanged exchange_call_key c' _ guarded_ada]) simp
qed

end
