(* ===== verification/Console.thy ===== *)
theory Console
  imports EndToEnd Backoffice
begin

text \<open>
  The staff console's screens that act (\<open>frontend/components\<close>): the decision buttons and dialogs of
  the approvals queue, the queue's own filter and order, the balance adjustment form, the user
  actions and the sign-in page. They are machines like those of \<open>Wizards\<close>: state, events, the
  request that leaves. \<open>react-hook-form\<close> is taken to do what it documents: \<open>handleSubmit\<close> calls the
  handler for values the schema accepts, and \<open>isSubmitting\<close> lasts until the handler ends.
\<close>

section \<open>The approvals queue\<close>

datatype decision_kind = DepositRequest | WithdrawalRequest

record pending_transaction =
  pt_id :: string
  pt_type :: decision_kind
  pt_amount :: int
  pt_createdAt :: int

datatype kind_filter = AllKinds | OnlyKind decision_kind
datatype queue_sort = Oldest | Newest | Largest

text \<open>\<open>createdAt\<close> is the API's ISO text, which sorts as the instant does.\<close>

definition queue_order :: "queue_sort \<Rightarrow> pending_transaction \<Rightarrow> int" where
  "queue_order s r = (case s of Largest \<Rightarrow> - pt_amount r | Newest \<Rightarrow> - pt_createdAt r | Oldest \<Rightarrow> pt_createdAt r)"

definition of_kind :: "kind_filter \<Rightarrow> pending_transaction \<Rightarrow> bool" where
  "of_kind k r = (case k of AllKinds \<Rightarrow> True | OnlyKind ty \<Rightarrow> pt_type r = ty)"

definition visible_rows :: "kind_filter \<Rightarrow> queue_sort \<Rightarrow> pending_transaction list \<Rightarrow> pending_transaction list" where
  "visible_rows k s rows = sort_key (queue_order s) (filter (of_kind k) rows)"

definition queue_counts :: "pending_transaction list \<Rightarrow> nat \<times> nat \<times> nat" where
  "queue_counts rows = (length rows, length (filter (\<lambda>r. pt_type r = DepositRequest) rows),
     length (filter (\<lambda>r. pt_type r = WithdrawalRequest) rows))"

lemma visible_rows_exact:
  "mset (visible_rows k s rows) = mset (filter (of_kind k) rows)"
  "sorted (map (queue_order s) (visible_rows k s rows))"
  by (simp_all add: visible_rows_def)

lemma queue_counts_match:
  "queue_counts rows = (length (visible_rows AllKinds s rows),
     length (visible_rows (OnlyKind DepositRequest) s rows), length (visible_rows (OnlyKind WithdrawalRequest) s rows))"
  by (simp add: queue_counts_def visible_rows_def of_kind_def cong: filter_cong)

section \<open>Decisions\<close>

text \<open>The same permission gates approving and rejecting.\<close>

definition decision_permission :: "decision_kind \<Rightarrow> string" where
  "decision_permission ty = (case ty of WithdrawalRequest \<Rightarrow> ''withdrawal.approve'' | DepositRequest \<Rightarrow> ''deposit.approve'')"

definition decision_allowed :: "string \<Rightarrow> decision_kind \<Rightarrow> bool" where
  "decision_allowed role ty \<longleftrightarrow> roleHasPermission role (decision_permission ty)"

datatype decision = ApproveIt | RejectIt

record row_props =
  rp_id :: string
  rp_kind :: decision_kind
  rp_role :: string

record row_actions =
  ra_dialog :: "decision option"
  ra_pending :: "decision option"
  ra_note :: string
  ra_toasts :: "toast_msg list"
  ra_refreshes :: nat

definition row_start :: row_actions where
  "row_start = \<lparr>ra_dialog = None, ra_pending = None, ra_note = [], ra_toasts = [], ra_refreshes = 0\<rparr>"

definition settle_call :: "string \<Rightarrow> decision \<Rightarrow> string \<Rightarrow> api_call" where
  "settle_call i a note' = (case a of
     ApproveIt \<Rightarrow> \<lparr>cq_method = ''POST'', cq_path = ''/api/transactions/'' @ i @ ''/approve'', cq_headers = [], cq_body = None\<rparr>
   | RejectIt \<Rightarrow> \<lparr>cq_method = ''POST'', cq_path = ''/api/transactions/'' @ i @ ''/reject'', cq_headers = [JSON_HEADER],
       cq_body = Some (json_obj [(''note'', note_json (Some note'))])\<rparr>)"

definition cap :: "string \<Rightarrow> string" where
  "cap s = (case s of [] \<Rightarrow> [] | c # cs \<Rightarrow> to_upper [c] @ cs)"

definition kind_text :: "decision_kind \<Rightarrow> string" where
  "kind_text ty = (case ty of DepositRequest \<Rightarrow> ''deposit'' | WithdrawalRequest \<Rightarrow> ''withdrawal'')"

definition settle_toast :: "decision_kind \<Rightarrow> decision \<Rightarrow> api_result \<Rightarrow> toast_msg" where
  "settle_toast ty a r = (case r of
     ApiOk st d \<Rightarrow> \<lparr>tm_text = cap (kind_text ty) @ (if a = ApproveIt then '' approved'' else '' rejected''), tm_description = None\<rparr>
   | ApiFailed e \<Rightarrow> toastApiError e [(''HTTP_409'', ''Already reviewed by someone else.'')])"

datatype row_event =
    OpenDialog decision | DismissDialog | RejectNote string | ConfirmDecision decision | SettleReply "http_reply_msg option"

text \<open>The queue is refreshed either way: after a conflict the row is gone.\<close>

fun row_step :: "row_props \<Rightarrow> row_event \<Rightarrow> row_actions \<Rightarrow> row_actions \<times> api_call option" where
  "row_step p (OpenDialog a) w =
     (if decision_allowed (rp_role p) (rp_kind p) \<and> ra_dialog w = None then w\<lparr>ra_dialog := Some a\<rparr> else w, None)"
| "row_step p DismissDialog w = (w\<lparr>ra_dialog := None\<rparr>, None)"
| "row_step p (RejectNote s) w = (if ra_dialog w = Some RejectIt then w\<lparr>ra_note := s\<rparr> else w, None)"
| "row_step p (ConfirmDecision a) w =
     (if ra_dialog w = Some a \<and> ra_pending w = None
      then (w\<lparr>ra_pending := Some a\<rparr>, Some (settle_call (rp_id p) a (trim (ra_note w)))) else (w, None))"
| "row_step p (SettleReply r) w =
     (case ra_pending w of
        None \<Rightarrow> (w, None)
      | Some a \<Rightarrow> (w\<lparr>ra_toasts := ra_toasts w @ [settle_toast (rp_kind p) a (apiRequest r)],
                    ra_refreshes := Suc (ra_refreshes w), ra_pending := None, ra_dialog := None\<rparr>, None))"

fun row_session :: "row_props \<Rightarrow> row_event list \<Rightarrow> row_actions \<Rightarrow> row_actions \<times> api_call list" where
  "row_session p [] w = (w, [])"
| "row_session p (e # evs) w =
     (case row_step p e w of (w1, out) \<Rightarrow> (case row_session p evs w1 of (w2, cs) \<Rightarrow> (w2, list_of out @ cs)))"

text \<open>Who may not decide sends nothing, and at most one decision is out at a time.\<close>

lemma row_session_gated:
  assumes "row_session p evs w = (w', cs)" "\<not> decision_allowed (rp_role p) (rp_kind p)" "ra_dialog w = None"
  shows "cs = []"
  using assms
proof (induction evs arbitrary: w cs)
  case (Cons e evs)
  obtain w1 out where st: "row_step p e w = (w1, out)" by (cases "row_step p e w")
  obtain cs1 where rest: "row_session p evs w1 = (w', cs1)" and cs: "cs = list_of out @ cs1"
    using Cons.prems(1) st by (auto split: prod.splits)
  have "out = None" "ra_dialog w1 = None"
    using st Cons.prems(2,3) by (cases e; auto split: if_splits option.splits)+
  then show ?case using Cons.IH [OF rest Cons.prems(2)] cs by simp
qed simp

lemma row_session_paced:
  assumes "row_session p evs w = (w', cs)"
  shows "length cs + (if ra_pending w = None then 0 else 1) + ra_refreshes w =
    ra_refreshes w' + (if ra_pending w' = None then 0 else 1)"
  using assms
proof (induction evs arbitrary: w cs)
  case (Cons e evs)
  obtain w1 out where st: "row_step p e w = (w1, out)" by (cases "row_step p e w")
  obtain cs1 where rest: "row_session p evs w1 = (w', cs1)" and cs: "cs = list_of out @ cs1"
    using Cons.prems st by (auto split: prod.splits)
  have "length (list_of out) + (if ra_pending w = None then 0 else 1) + ra_refreshes w =
      ra_refreshes w1 + (if ra_pending w1 = None then 0 else (1::nat))"
    using st by (cases e; auto split: if_splits option.splits)
  then show ?case using Cons.IH [OF rest] cs by simp
qed simp

section \<open>Adjusting a balance\<close>

record adjust_values =
  aj_direction :: string
  aj_amount :: "rat option"
  aj_note :: string

text \<open>\<open>NaN\<close> is \<open>None\<close>; \<open>int()\<close> admits the safe integers.\<close>

definition adjustSchema :: "adjust_values \<Rightarrow> bool" where
  "adjustSchema v \<longleftrightarrow> List.member [''credit'', ''debit''] (aj_direction v) \<and>
     (case aj_amount v of None \<Rightarrow> False
      | Some x \<Rightarrow> x = of_int \<lfloor>x\<rfloor> \<and> 0 < x \<and> x \<le> 9007199254740991) \<and> aj_note v \<noteq> []"

record adjust_form =
  aj_values :: adjust_values
  aj_submitting :: bool
  aj_toasts :: "string list"
  aj_refreshes :: nat

definition adjust_reset :: adjust_values where
  "adjust_reset = \<lparr>aj_direction = ''credit'', aj_amount = None, aj_note = []\<rparr>"

definition adjust_start :: adjust_form where
  "adjust_start = \<lparr>aj_values = adjust_reset, aj_submitting = False, aj_toasts = [], aj_refreshes = 0\<rparr>"

definition adjust_call :: "string \<Rightarrow> adjust_values \<Rightarrow> api_call" where
  "adjust_call i v = post_body (''/api/wallets/'' @ i @ ''/adjustments'')
     (json_obj [(''direction'', Some (JStr (aj_direction v))), (''amount'', map_option JNum (aj_amount v)),
        (''note'', Some (JStr (aj_note v)))])"

text \<open>A \<open>fetch\<close> that throws ends the handler: nothing is said and the form keeps its values.\<close>

definition adjust_reply :: "http_reply_msg option \<Rightarrow> adjust_form \<Rightarrow> adjust_form" where
  "adjust_reply r w =
     (let w1 = w\<lparr>aj_submitting := False\<rparr> in
      case r of
        None \<Rightarrow> w1
      | Some m \<Rightarrow>
          if \<not> res_ok (hm_status m)
          then w1\<lparr>aj_toasts := aj_toasts w @ [if hm_status m = 400
                 then ''Rejected -- a debit can't make the balance negative.'' else ''Something went wrong.'']\<rparr>
          else w1\<lparr>aj_values := adjust_reset, aj_refreshes := Suc (aj_refreshes w)\<rparr>)"

datatype adjust_event = SetAdjust adjust_values | SubmitAdjust | AdjustReply "http_reply_msg option"

fun adjust_step :: "string \<Rightarrow> string \<Rightarrow> adjust_event \<Rightarrow> adjust_form \<Rightarrow> adjust_form \<times> api_call option" where
  "adjust_step role i (SetAdjust v) w = (if roleHasPermission role ''wallet.adjust'' then w\<lparr>aj_values := v\<rparr> else w, None)"
| "adjust_step role i SubmitAdjust w =
     (if roleHasPermission role ''wallet.adjust'' \<and> \<not> aj_submitting w \<and> adjustSchema (aj_values w)
      then (w\<lparr>aj_submitting := True\<rparr>, Some (adjust_call i (aj_values w))) else (w, None))"
| "adjust_step role i (AdjustReply r) w = (if aj_submitting w then adjust_reply r w else w, None)"

section \<open>Users\<close>

record staff_user =
  sf_id :: string
  sf_role :: string
  sf_active :: bool

datatype user_change = ChangeStatus bool | ChangeRole string

record user_props =
  up_user :: staff_user
  up_roles :: "string list"
  up_currentId :: string
  up_currentRole :: string

record user_actions =
  ua_confirm :: "user_change option"
  ua_busy :: "user_change option"
  ua_toasts :: "toast_msg list"
  ua_refreshes :: nat

definition user_start :: user_actions where
  "user_start = \<lparr>ua_confirm = None, ua_busy = None, ua_toasts = [], ua_refreshes = 0\<rparr>"

definition isSelf :: "user_props \<Rightarrow> bool" where
  "isSelf p \<longleftrightarrow> sf_id (up_user p) = up_currentId p"

text \<open>Only a super-admin is offered the super-admin role.\<close>

definition roleOptions :: "user_props \<Rightarrow> string list" where
  "roleOptions p = filter (\<lambda>r. r \<noteq> ''super_admin'' \<or> up_currentRole p = ''super_admin'') (up_roles p)"

fun replace_first :: "char \<Rightarrow> char \<Rightarrow> string \<Rightarrow> string" where
  "replace_first a b [] = []"
| "replace_first a b (c # cs) = (if c = a then b # cs else c # replace_first a b cs)"

definition user_call :: "user_props \<Rightarrow> user_change \<Rightarrow> api_call" where
  "user_call p c = (case c of
     ChangeStatus active \<Rightarrow> \<lparr>cq_method = ''PATCH'', cq_path = ''/api/users/'' @ sf_id (up_user p) @ ''/status'',
       cq_headers = [JSON_HEADER], cq_body = Some (JObj [(''status'', JStr (if active then ''active'' else ''suspended''))])\<rparr>
   | ChangeRole r \<Rightarrow> \<lparr>cq_method = ''PATCH'', cq_path = ''/api/users/'' @ sf_id (up_user p) @ ''/role'',
       cq_headers = [JSON_HEADER], cq_body = Some (JObj [(''role'', JStr r)])\<rparr>)"

definition change_toast :: "user_change \<Rightarrow> api_result \<Rightarrow> toast_msg" where
  "change_toast c r = (case r of
     ApiOk st d \<Rightarrow> \<lparr>tm_text = (case c of
         ChangeStatus active \<Rightarrow> if active then ''User reactivated'' else ''User suspended''
       | ChangeRole x \<Rightarrow> ''Role changed to '' @ replace_first CHR ''_'' CHR '' '' x), tm_description = None\<rparr>
   | ApiFailed e \<Rightarrow> toastApiError e [(''HTTP_403'', ''Not allowed.'')])"

datatype user_event = PickRole string | PressStatus | DismissConfirm | RunChange | ChangeReply "http_reply_msg option"

fun user_step :: "user_props \<Rightarrow> user_event \<Rightarrow> user_actions \<Rightarrow> user_actions \<times> api_call option" where
  "user_step p (PickRole r) w =
     (if \<not> isSelf p \<and> ua_busy w = None \<and> ua_confirm w = None \<and> List.member (roleOptions p) r \<and> r \<noteq> [] \<and> r \<noteq> sf_role (up_user p)
      then w\<lparr>ua_confirm := Some (ChangeRole r)\<rparr> else w, None)"
| "user_step p PressStatus w =
     (if \<not> isSelf p \<and> ua_busy w = None \<and> ua_confirm w = None
      then w\<lparr>ua_confirm := Some (ChangeStatus (\<not> sf_active (up_user p)))\<rparr> else w, None)"
| "user_step p DismissConfirm w = (if ua_busy w = None then w\<lparr>ua_confirm := None\<rparr> else w, None)"
| "user_step p RunChange w =
     (case ua_confirm w of
        None \<Rightarrow> (w, None)
      | Some c \<Rightarrow> if ua_busy w = None then (w\<lparr>ua_busy := Some c\<rparr>, Some (user_call p c)) else (w, None))"
| "user_step p (ChangeReply r) w =
     (case ua_busy w of
        None \<Rightarrow> (w, None)
      | Some c \<Rightarrow> (w\<lparr>ua_toasts := ua_toasts w @ [change_toast c (apiRequest r)], ua_busy := None, ua_confirm := None,
           ua_refreshes := (case apiRequest r of ApiOk st d \<Rightarrow> Suc (ua_refreshes w) | ApiFailed e \<Rightarrow> ua_refreshes w)\<rparr>, None))"

fun user_session :: "user_props \<Rightarrow> user_event list \<Rightarrow> user_actions \<Rightarrow> user_actions \<times> api_call list" where
  "user_session p [] w = (w, [])"
| "user_session p (e # evs) w =
     (case user_step p e w of (w1, out) \<Rightarrow> (case user_session p evs w1 of (w2, cs) \<Rightarrow> (w2, list_of out @ cs)))"

text \<open>The console never asks to change its own user, and only a super-admin's asks for a super-admin.\<close>

definition change_ok :: "user_props \<Rightarrow> user_change \<Rightarrow> bool" where
  "change_ok p c \<longleftrightarrow> \<not> isSelf p \<and> (c = ChangeRole ''super_admin'' \<longrightarrow> up_currentRole p = ''super_admin'')"

lemma user_session_ok:
  assumes "user_session p evs w = (w', cs)" "\<forall>c. ua_confirm w = Some c \<longrightarrow> change_ok p c" "x \<in> set cs"
  shows "\<exists>c. change_ok p c \<and> x = user_call p c"
  using assms
proof (induction evs arbitrary: w cs)
  case (Cons e evs)
  obtain w1 out where st: "user_step p e w = (w1, out)" by (cases "user_step p e w")
  obtain cs1 where rest: "user_session p evs w1 = (w', cs1)" and cs: "cs = list_of out @ cs1"
    using Cons.prems(1) st by (auto split: prod.splits)
  have "\<forall>c. ua_confirm w1 = Some c \<longrightarrow> change_ok p c" and "\<forall>x. out = Some x \<longrightarrow> (\<exists>c. change_ok p c \<and> x = user_call p c)"
    using st Cons.prems(2) by (cases e; auto simp: change_ok_def roleOptions_def split: if_splits option.splits)+
  then show ?case using Cons.IH [OF rest] Cons.prems(3) cs by (cases out) auto
qed simp

section \<open>Signing in to the console\<close>

record console_signin =
  ci_error :: "string option"
  ci_submitting :: bool
  ci_home :: bool

datatype console_signin_event = ConsoleSubmit string string | ConsoleReply "http_reply_msg option"

text \<open>\<open>email_ok\<close> is the library's judgement of an address. Every refusal gives the same text; a
  \<open>fetch\<close> that throws gives none.\<close>

fun console_signin_step ::
  "(string \<Rightarrow> bool) \<Rightarrow> console_signin_event \<Rightarrow> console_signin \<Rightarrow> console_signin \<times> api_call option" where
  "console_signin_step email_ok (ConsoleSubmit email password) w =
     (if \<not> ci_submitting w \<and> email_ok email \<and> 1 \<le> length password
      then (w\<lparr>ci_submitting := True, ci_error := None\<rparr>,
            Some (post_body ''/api/auth/login'' (JObj [(''email'', JStr email), (''password'', JStr password)])))
      else (w, None))"
| "console_signin_step email_ok (ConsoleReply r) w =
     (if \<not> ci_submitting w then (w, None)
      else (let w1 = w\<lparr>ci_submitting := False\<rparr> in
        case r of
          None \<Rightarrow> (w1, None)
        | Some m \<Rightarrow> (if res_ok (hm_status m) then w1\<lparr>ci_home := True\<rparr>
                     else w1\<lparr>ci_error := Some ''Invalid email or password.''\<rparr>, None)))"

text \<open>What the form says does not depend on why it was refused.\<close>

lemma signin_refusal_is_vague:
  assumes "\<not> res_ok (hm_status m)" "\<not> res_ok (hm_status m')"
  shows "console_signin_step email_ok (ConsoleReply (Some m)) w = console_signin_step email_ok (ConsoleReply (Some m')) w"
  using assms by (simp add: Let_def)

section \<open>What the console offers and what the API permits\<close>

lemma console_roles_are_seeded: "console_ROLE_PERMISSIONS = ROLE_PERMISSIONS"
  by (simp add: console_ROLE_PERMISSIONS_def ROLE_PERMISSIONS_def console_ALL_def PERMISSIONS_def)

lemma roles_named_once: "distinct (map fst ROLE_PERMISSIONS)"
  by (simp add: ROLE_PERMISSIONS_def)

lemma console_mirrors_seed:
  "(n, ps) \<in> set ROLE_PERMISSIONS \<Longrightarrow> roleHasPermission n p \<longleftrightarrow> p \<in> set ps"
  by (simp add: roleHasPermission_def permissionsForRole_def console_roles_are_seeded roles_named_once)

definition kind_type :: "decision_kind \<Rightarrow> txn_type" where
  "kind_type ty = (case ty of DepositRequest \<Rightarrow> Deposit | WithdrawalRequest \<Rightarrow> Withdrawal)"

text \<open>The console offers a member of staff exactly what the API will let them do. For a role with
  the permissions the seed gives it, the decision buttons are enabled exactly when the API's guard and
  its check of the kind of request let approving and rejecting through, and the adjustment form is
  shown exactly when the API's guard lets an adjustment through.\<close>

theorem console_offers_what_api_permits:
  assumes u: "find_user (au_id a) d = Some u" "u_status u = Active" and r: "role_of u d = Some r"
    and seeded: "(r_name r, r_permissions r) \<in> set ROLE_PERMISSIONS"
  shows "(decision_allowed (r_name r) ty \<longleftrightarrow>
       permissions_guard (Some [''transaction.view_all'']) (Some a) d = Inr True \<and>
       assertApprovePermission a (kind_type ty) d = Inr ())
     \<and> (roleHasPermission (r_name r) ''wallet.adjust'' \<longleftrightarrow> permissions_guard (Some [''wallet.adjust'']) (Some a) d = Inr True)"
proof -
  have guard: "permissions_guard (Some [p]) (Some a) d = Inr True \<longleftrightarrow> p \<in> set (r_permissions r)" for p
    using u r permissions_guard_iff [of p "[]" "Some a" d] by auto
  have held: "held_permissions (au_id a) d = r_permissions r"
    using u r by (simp add: held_permissions_def findByIdWithPermissions_def)
  have view: "''transaction.view_all'' \<in> set (r_permissions r)" if "decision_permission ty \<in> set (r_permissions r)" for ty
    using seeded that by (cases ty) (auto simp: ROLE_PERMISSIONS_def PERMISSIONS_def decision_permission_def)
  have code: "approve_code (kind_type ty) = decision_permission ty" for ty
    by (cases ty) (simp_all add: approve_code_def kind_type_def decision_permission_def)
  show ?thesis
    using view [of ty] by (auto simp: guard held code decision_allowed_def assertApprovePermission_def
      console_mirrors_seed [OF seeded])
qed

section \<open>An adjustment whose answer is lost\<close>

lemma unkeyed_runs:
  "aq_key r = None \<Longrightarrow> idempotent E n r False a h sv = plainly 201 h sv"
  by (cases "h (sv_world sv)") (auto simp: idempotent_def intercept_def present_def plainly_def split: sum.splits)

text \<open>C33 (a defect): an adjustment whose answer is lost is made twice. The form sends no idempotency key,
  neither does the BFF, and the API demands none here. When the network drops the answer the form
  keeps its values and says nothing; pressing again sends the same request, and each arrival is
  served as a new adjustment.\<close>

theorem lost_adjustment_is_repeated:
  assumes pressed: "adjust_step role i SubmitAdjust w = (w1, Some c)"
    and lost: "adjust_step role i (AdjustReply None) w1 = (w2, out)"
    and passed: "c' \<in> set (passed_on adjustments_route j c)" and key: "aq_key r = call_key c'"
  shows "snd (adjust_step role i SubmitAdjust w2) = Some c \<and> aj_toasts w2 = aj_toasts w \<and>
     post_adjustment E n r sv = behind (permitted E n r [''wallet.adjust''] (sv_db sv))
       (\<lambda>a. plainly 201 (handler_of E n PostAdjustment r a)) sv"
proof -
  have w: "aj_values w2 = aj_values w" "\<not> aj_submitting w2" "aj_toasts w2 = aj_toasts w"
    and c: "c = adjust_call i (aj_values w)" and ok: "roleHasPermission role ''wallet.adjust''" "adjustSchema (aj_values w)"
    using pressed lost by (auto simp: adjust_reply_def Let_def split: if_splits)
  have "call_key c' = None"
    using passed by (auto simp: passed_on_def listening_def adjustments_route_def forward_body_def map_reply_def
      call_key_def JSON_HEADER_def split: sum.splits)
  then have "idempotent E n r False a h sv = plainly 201 h sv" for a h using unkeyed_runs key by simp
  then have "snd (adjust_step role i SubmitAdjust w2) = Some c"
    and "post_adjustment E n r sv = behind (permitted E n r [''wallet.adjust''] (sv_db sv))
       (\<lambda>a. plainly 201 (handler_of E n PostAdjustment r a)) sv"
    using w c ok by (simp_all add: post_adjustment_def behind_def split: sum.splits)
  then show ?thesis using w by simp
qed

definition demo_adjustment :: adjust_form where
  "demo_adjustment = adjust_start\<lparr>aj_values := \<lparr>aj_direction = ''credit'', aj_amount = Some 500, aj_note = ''refund''\<rparr>\<rparr>"

lemma lost_adjustment_is_repeated_witness:
  "snd (adjust_step ''finance'' ''w1'' SubmitAdjust (fst (adjust_step ''finance'' ''w1'' (AdjustReply None)
       (fst (adjust_step ''finance'' ''w1'' SubmitAdjust demo_adjustment))))) =
     Some (adjust_call ''w1'' (aj_values demo_adjustment))"
proof -
  let ?c = "adjust_call ''w1'' (aj_values demo_adjustment)"
  have press: "adjust_step ''finance'' ''w1'' SubmitAdjust demo_adjustment =
      (fst (adjust_step ''finance'' ''w1'' SubmitAdjust demo_adjustment), Some ?c)"
    by code_simp
  have "\<exists>c' \<in> set (passed_on adjustments_route ''w1'' ?c). call_key c' = None"
    by code_simp
  then obtain c' where c': "c' \<in> set (passed_on adjustments_route ''w1'' ?c)" "call_key c' = None" by blast
  have key: "aq_key (demo_transfer_request\<lparr>aq_key := None\<rparr>) = call_key c'" using c'(2) by simp
  show ?thesis
    using lost_adjustment_is_repeated [OF press surjective_pairing c'(1) key] by simp
qed

definition finance_db :: db where
  "finance_db = empty_db\<lparr>users := [ada], roles := [\<lparr>r_id = ''r1'', r_name = ''finance'', r_description = None,
     r_permissions = [''deposit.approve'', ''withdrawal.approve'', ''wallet.adjust'', ''transaction.view_all'']\<rparr>]\<rparr>"

lemma console_offers_what_api_permits_witness:
  "decision_allowed ''finance'' WithdrawalRequest \<longleftrightarrow>
     permissions_guard (Some [''transaction.view_all'']) (Some \<lparr>au_id = ''u1'', au_email = [], au_role = [], au_totpEnabled = False\<rparr>)
       finance_db = Inr True \<and>
     assertApprovePermission \<lparr>au_id = ''u1'', au_email = [], au_role = [], au_totpEnabled = False\<rparr> Withdrawal finance_db = Inr ()"
proof -
  let ?r = "\<lparr>r_id = ''r1'', r_name = ''finance'', r_description = None,
     r_permissions = [''deposit.approve'', ''withdrawal.approve'', ''wallet.adjust'', ''transaction.view_all'']\<rparr>"
  have "find_user ''u1'' finance_db = Some ada" "role_of ada finance_db = Some ?r" "u_status ada = Active"
    by (simp_all add: finance_db_def ada_def find_user_def role_of_def find_role_def)
  moreover have "(r_name ?r, r_permissions ?r) \<in> set ROLE_PERMISSIONS" by (simp add: ROLE_PERMISSIONS_def)
  ultimately show ?thesis
    using console_offers_what_api_permits [of "\<lparr>au_id = ''u1'', au_email = [], au_role = [], au_totpEnabled = False\<rparr>"
      finance_db ada ?r WithdrawalRequest] by (simp add: kind_type_def)
qed

end
