(* ===== verification/Forms.thy ===== *)
theory Forms
  imports EndToEnd
begin

text \<open>
  The customer app's plain forms (sign-up, a new wallet, an alert, a holding), which send one request
  and then go on or show a message, and the two halves of input validation: what a form's schema
  accepts, and what the API's DTO admits after the BFF has passed it on.
\<close>

section \<open>A form that sends one request\<close>

record form_view =
  fo_submitting :: bool
  fo_toasts :: "toast_msg list"
  fo_pushed :: "string option"

definition form_start :: form_view where
  "form_start = \<lparr>fo_submitting = False, fo_toasts = [], fo_pushed = None\<rparr>"

definition form_submit :: "bool \<Rightarrow> api_call \<Rightarrow> form_view \<Rightarrow> form_view \<times> api_call option" where
  "form_submit valid c w = (if valid \<and> \<not> fo_submitting w then (w\<lparr>fo_submitting := True\<rparr>, Some c) else (w, None))"

definition form_reply :: "(string \<times> string) list \<Rightarrow> string \<Rightarrow> http_reply_msg option \<Rightarrow> form_view \<Rightarrow> form_view" where
  "form_reply overrides target r w =
     (let w1 = w\<lparr>fo_submitting := False\<rparr> in
      case apiRequest r of
        ApiFailed e \<Rightarrow> w1\<lparr>fo_toasts := fo_toasts w @ [toastApiError e overrides]\<rparr>
      | ApiOk st d \<Rightarrow> w1\<lparr>fo_pushed := Some target\<rparr>)"

text \<open>\<open>Number\<close> of a decimal text, exactly (a double is the nearest to it).\<close>

definition number_of :: "string \<Rightarrow> rat" where
  "number_of s = of_nat (digits_val (whole_part s)) + of_nat (digits_val (frac_part s)) / 10 ^ length (frac_part s)"

definition alert_call :: "alert_form \<Rightarrow> api_call" where
  "alert_call f = post_body ''/api/alerts'' (json_obj [(''symbol'', Some (JStr (lf_symbol f))),
     (''type'', Some (JStr ''crypto'')), (''targetPrice'', Some (JNum (number_of (lf_targetPrice f)))),
     (''direction'', Some (JStr (lf_direction f)))])"

definition alert_submit :: "alert_form \<Rightarrow> form_view \<Rightarrow> form_view \<times> api_call option" where
  "alert_submit f = form_submit (alertSchema f) (alert_call f)"

definition alert_reply :: "http_reply_msg option \<Rightarrow> form_view \<Rightarrow> form_view" where
  "alert_reply = form_reply [(''HTTP_500'', ''Could not set that alert. Please try again.'')] ''/alerts''"

definition holding_call :: "holding_form \<Rightarrow> api_call" where
  "holding_call f = post_body ''/api/portfolio'' (json_obj [(''symbol'', Some (JStr (hf_symbol f))),
     (''type'', Some (JStr ''crypto'')), (''quantity'', Some (JNum (number_of (hf_quantity f)))),
     (''avgCost'', Some (JNum (number_of (hf_avgCost f))))])"

definition holding_submit :: "holding_form \<Rightarrow> form_view \<Rightarrow> form_view \<times> api_call option" where
  "holding_submit f = form_submit (holdingSchema f) (holding_call f)"

definition holding_reply :: "http_reply_msg option \<Rightarrow> form_view \<Rightarrow> form_view" where
  "holding_reply = form_reply [(''HTTP_500'', ''Could not add that holding. Please try again.'')] ''/portfolio''"

definition signup_submit :: "(string \<Rightarrow> bool) \<Rightarrow> register_dto \<Rightarrow> form_view \<Rightarrow> form_view \<times> api_call option" where
  "signup_submit email_ok f =
     form_submit (signupSchema email_ok f) (post_body ''/api/auth/register'' (signup_json f))"

definition signup_reply :: "http_reply_msg option \<Rightarrow> form_view \<Rightarrow> form_view" where
  "signup_reply = form_reply [] ''/''"

text \<open>The new-wallet form offers the currencies the customer does not hold yet.\<close>

definition wallet_options :: "string list \<Rightarrow> string list" where
  "wallet_options owned = filter (\<lambda>c. \<not> List.member owned c) CURRENCY_CODES"

definition wallet_call :: "string \<Rightarrow> api_call" where
  "wallet_call currency = post_body ''/api/wallets'' (JObj [(''currency'', JStr currency)])"

definition wallet_submit :: "string list \<Rightarrow> string \<Rightarrow> form_view \<Rightarrow> form_view \<times> api_call option" where
  "wallet_submit owned currency = form_submit (List.member (wallet_options owned) currency) (wallet_call currency)"

definition wallet_reply :: "http_reply_msg option \<Rightarrow> form_view \<Rightarrow> form_view" where
  "wallet_reply = form_reply [(''HTTP_500'', ''Could not add that wallet. Please try again.'')] ''/''"

section \<open>What a form accepts, the API admits\<close>

definition admits :: "validators \<Rightarrow> dto \<Rightarrow> jval \<Rightarrow> bool" where
  "admits V D v \<longleftrightarrow> distinct (map dp_name D) \<and> (\<exists>fs. v = JObj fs) \<and>
     (\<forall>p \<in> set D. dp_conv p = NoConv \<and> prop_ok V p (initial_value p (jget (dp_name p) v)))"

context validation_pipe
begin

lemma admits_accepted: "admits V D v \<Longrightarrow> \<exists>v'. pipe D v = Inr v'"
  using accepted [of D] by (auto simp: admits_def)

end

lemma point_not_digit [simp]: "\<not> is_digit CHR ''.''"
  by code_simp

lemma positive_number_of:
  assumes "number_regex s" "positive_number s"
  shows "0 < number_of s"
proof -
  define w r where "w = whole_part s" and "r = dropWhile (\<lambda>c. c \<noteq> CHR ''.'') s"
  have s: "s = w @ r" by (simp add: w_def r_def whole_part_def)
  have w: "all_digits w" "r \<noteq> [] \<longrightarrow> all_digits (tl r)"
    using assms(1) unfolding number_regex_def Let_def r_def [symmetric] w_def [symmetric] by (auto split: if_splits)
  have "\<forall>x \<in> set (tl r). is_digit x"
    using w(2) by (cases "r = []") (simp_all add: all_digits_def list_all_iff)
  then have "\<forall>x \<in> set (tl r). x \<noteq> CHR ''.''" using digit_not_point by blast
  then have f: "frac_part s = tl r" 
    unfolding frac_part_def r_def [symmetric] takeWhile_eq_all_conv .
  have "positive_number w \<or> r \<noteq> [] \<and> positive_number (tl r)"
  proof (cases r)
    case Nil
    then show ?thesis using assms(2) s by simp
  next
    case (Cons c f)
    have "c = CHR ''.''" using Cons by (simp add: r_def dropWhile_eq_Cons_conv)
    then show ?thesis using assms(2) s Cons by (auto simp: positive_number_def)
  qed
  then have "0 < digits_val w \<or> 0 < digits_val (tl r)"
    using w digits_val_pos [of w] digits_val_pos [of "tl r"] by (cases "r = []") simp_all
  moreover have "(0::rat) < of_nat a + of_nat b / 10 ^ n" if "0 < a \<or> 0 < b" for a b n
    using that add_pos_nonneg [of "of_nat a" "of_nat b / 10 ^ n :: rat"] add_nonneg_pos [of "of_nat a" "of_nat b / 10 ^ n :: rat"]
    by (cases "0 < b") simp_all
  ultimately show ?thesis unfolding number_of_def f w_def [symmetric] by blast
qed

text \<open>What a schema accepts gives a body the DTO admits, one form after the other.\<close>

lemmas admit_facts = admits_def prop_ok_def required_def optional_def initial_value_def jget_def jstring_def
  jnum_def json_obj_def List.map_filter_simps

lemma amount_admitted_body:
  assumes "amountSchema f"
  shows "admits V MoneyAmountDto (json_obj [(''amount'', Some (minor_json (af_amount f))), (''note'', note_json (af_note f))])"
proof -
  obtain m where "minor_json (af_amount f) = JNum (of_nat m)" "0 < m"
    using schema_parses [of "af_amount f"] assms by (auto simp: amountSchema_def minor_json_def jint_def)
  then show ?thesis by (auto simp: MoneyAmountDto_def admit_facts note_json_def split: option.splits)
qed

lemma transfer_admitted_body:
  assumes "transferSchema f" "jget ''walletId'' rc = Some (JStr i)" "is_uuid V i"
  shows "admits V TransferDto (json_obj [(''toWalletId'', jget ''walletId'' rc), (''amount'', Some (minor_json (tf_amount f))),
     (''note'', note_json (tf_note f))])"
proof -
  obtain m where "minor_json (tf_amount f) = JNum (of_nat m)" "0 < m"
    using schema_parses [of "tf_amount f"] assms(1) by (auto simp: transferSchema_def minor_json_def jint_def)
  then show ?thesis unfolding assms(2)
    using assms(3) by (auto simp: TransferDto_def admit_facts note_json_def split: option.splits)
qed

lemma alert_admitted_body:
  assumes "alertSchema f" "length (lf_symbol f) \<le> 10"
  shows "admits V AddAlertDto (json_obj [(''symbol'', Some (JStr (lf_symbol f))),
     (''type'', Some (JStr ''crypto'')), (''targetPrice'', Some (JNum (number_of (lf_targetPrice f)))),
     (''direction'', Some (JStr (lf_direction f)))])"
  using assms positive_number_of [of "lf_targetPrice f"]
  by (cases "lf_symbol f") (auto simp: AddAlertDto_def admit_facts alertSchema_def)

lemma holding_admitted_body:
  assumes "holdingSchema f" "length (hf_symbol f) \<le> 10"
  shows "admits V AddHoldingDto (json_obj [(''symbol'', Some (JStr (hf_symbol f))),
     (''type'', Some (JStr ''crypto'')), (''quantity'', Some (JNum (number_of (hf_quantity f)))),
     (''avgCost'', Some (JNum (number_of (hf_avgCost f))))])"
  using assms positive_number_of [of "hf_quantity f"] positive_number_of [of "hf_avgCost f"]
  by (cases "hf_symbol f") (auto simp: AddHoldingDto_def admit_facts holdingSchema_def)

lemma wallet_admitted_body:
  "walletSchema c \<Longrightarrow> admits V CreateWalletDto (JObj [(''name'', JStr (c @ '' wallet'')), (''currency'', JStr c)])"
  by (auto simp: CreateWalletDto_def admit_facts walletSchema_def CURRENCY_CODES_def SUPPORTED_CURRENCIES_def)

lemma pick_fields:
  "pick names (Some (JObj kvs)) = Inr (map (\<lambda>f. (f, jget f (JObj kvs))) names)"
  by (induction names) (simp_all add: prop_of_def ok_bind_def)

text \<open>The BFF passes on the named fields of the body.\<close>

lemma forwarded_body:
  assumes "c' \<in> set (passed_on (\<lambda>srv. forward_body srv meth path hdrs names rep) i c)" "cq_body c = Some (JObj kvs)"
  shows "cq_body c' = Some (json_obj (map (\<lambda>f. (f, jget f (JObj kvs))) names))"
  using assms by (auto simp: passed_on_def listening_def forward_body_def map_reply_def body_or_empty_def browser_in_def
      pick_fields)

lemma deposit_body:
  assumes "c' \<in> set (passed_on deposits_route i (request_call p k f))"
  shows "cq_body c' = Some (json_obj [(''amount'', Some (minor_json (af_amount f))), (''note'', note_json (af_note f))])"
  using assms by (auto simp: passed_on_def listening_def deposits_route_def forward_body_def map_reply_def body_or_empty_def
      browser_in_def request_call_def money_call_def json_obj_def List.map_filter_simps pick_fields jget_def
      split: option.splits)

lemma transfers_passed:
  assumes "pick [''toWalletId'', ''amount'', ''note''] (body_or_empty (browser_in i c)) = Inr kvs"
  shows "passed_on transfers_route i c = [transfer_call (browser_in i c) kvs]"
  using assms by (simp add: passed_on_def transfers_route_def listening_def split: sum.splits)

lemma transfer_body:
  assumes "c' \<in> set (passed_on transfers_route i (send_call p k token rc v))" "jget ''walletId'' rc = Some (JStr x)"
  shows "cq_body c' = Some (json_obj [(''toWalletId'', jget ''walletId'' rc), (''amount'', Some (minor_json (tf_amount v))),
     (''note'', note_json (tf_note v))])"
proof -
  define kvs where "kvs = (''toWalletId'', JStr x) # (''amount'', minor_json (tf_amount v)) #
    (case note_json (tf_note v) of None \<Rightarrow> [] | Some n \<Rightarrow> [(''note'', n)])"
  have sent: "json_obj [(''toWalletId'', jget ''walletId'' rc), (''amount'', Some (minor_json (tf_amount v))),
      (''note'', note_json (tf_note v))] = JObj kvs"
    using assms(2) by (simp add: kvs_def json_obj_def List.map_filter_simps split: option.splits)
  then have "body_or_empty (browser_in i (send_call p k token rc v)) = Some (JObj kvs)"
    by (simp add: body_or_empty_def browser_in_def send_call_def money_call_def)
  then have "pick [''toWalletId'', ''amount'', ''note''] (body_or_empty (browser_in i (send_call p k token rc v))) =
      Inr [(''toWalletId'', jget ''walletId'' rc), (''amount'', Some (minor_json (tf_amount v))), (''note'', note_json (tf_note v))]"
    using assms(2) by (simp only: pick_fields) (simp add: kvs_def jget_def split: option.splits)
  from transfers_passed [OF this] assms(1) show ?thesis by (simp add: transfer_call_def)
qed

lemma alert_body:
  assumes "c' \<in> set (passed_on alerts_post_route i (alert_call f))"
  shows "cq_body c' = cq_body (alert_call f)"
  using assms by (auto simp: passed_on_def listening_def alerts_post_route_def forward_body_def map_reply_def body_or_empty_def
      browser_in_def alert_call_def post_body_def json_obj_def List.map_filter_simps pick_fields jget_def)

lemma holding_body:
  assumes "c' \<in> set (passed_on portfolio_post_route i (holding_call f))"
  shows "cq_body c' = cq_body (holding_call f)"
  using assms by (auto simp: passed_on_def listening_def portfolio_post_route_def forward_body_def map_reply_def body_or_empty_def
      browser_in_def holding_call_def post_body_def json_obj_def List.map_filter_simps pick_fields jget_def)

lemma wallet_body:
  assumes "c' \<in> set (passed_on (\<lambda>srv. wallets_post_route srv as_text) i (wallet_call c))"
  shows "cq_body c' = Some (JObj [(''name'', JStr (c @ '' wallet'')), (''currency'', JStr c)])"
  using assms by (auto simp: passed_on_def listening_def wallets_post_route_def map_reply_def body_or_empty_def
      browser_in_def wallet_call_def post_body_def post_json_def prop_of_def jget_def Let_def)

definition admitted_call :: "(dto \<Rightarrow> jval \<Rightarrow> exn + jval) \<Rightarrow> dto \<Rightarrow> api_call \<Rightarrow> bool" where
  "admitted_call pipe D c \<longleftrightarrow> (\<exists>b v'. cq_body c = Some b \<and> pipe D b = Inr v')"

text \<open>C23: what a form accepts is not refused for its shape. The request of a filled-in deposit,
  send, alert, holding or wallet form that its schema accepts reaches the API through the BFF with a
  body that the route's DTO admits, given that the recipient's id is a UUID and symbols have at most
  ten characters.\<close>

theorem forms_are_admitted:
  assumes "validation_pipe V pipe"
  shows "(amountSchema f1 \<and> c1 \<in> set (passed_on deposits_route i (request_call p k f1)) \<longrightarrow> admitted_call pipe MoneyAmountDto c1)
    \<and> (transferSchema f2 \<and> jget ''walletId'' rc = Some (JStr x) \<and> is_uuid V x \<and>
        c2 \<in> set (passed_on transfers_route i (send_call q k token rc f2)) \<longrightarrow> admitted_call pipe TransferDto c2)
    \<and> (alertSchema f3 \<and> length (lf_symbol f3) \<le> 10 \<and> c3 \<in> set (passed_on alerts_post_route i (alert_call f3))
        \<longrightarrow> admitted_call pipe AddAlertDto c3)
    \<and> (holdingSchema f4 \<and> length (hf_symbol f4) \<le> 10 \<and> c4 \<in> set (passed_on portfolio_post_route i (holding_call f4))
        \<longrightarrow> admitted_call pipe AddHoldingDto c4)
    \<and> (walletSchema f5 \<and> c5 \<in> set (passed_on (\<lambda>srv. wallets_post_route srv as_text) i (wallet_call f5))
        \<longrightarrow> admitted_call pipe CreateWalletDto c5)"
proof (intro conjI impI; elim conjE)
  note acc = validation_pipe.admits_accepted [OF assms]
  show "admitted_call pipe MoneyAmountDto c1" if "amountSchema f1" "c1 \<in> set (passed_on deposits_route i (request_call p k f1))"
    using acc [OF amount_admitted_body [OF that(1)]] deposit_body [OF that(2)] by (auto simp: admitted_call_def)
  show "admitted_call pipe TransferDto c2" if "transferSchema f2" "jget ''walletId'' rc = Some (JStr x)" "is_uuid V x"
    "c2 \<in> set (passed_on transfers_route i (send_call q k token rc f2))"
    using acc [OF transfer_admitted_body [OF that(1-3)]] transfer_body [OF that(4,2)] by (auto simp: admitted_call_def)
  show "admitted_call pipe AddAlertDto c3" if "alertSchema f3" "length (lf_symbol f3) \<le> 10"
    "c3 \<in> set (passed_on alerts_post_route i (alert_call f3))"
    using acc [OF alert_admitted_body [OF that(1,2)]] alert_body [OF that(3)]
    by (auto simp: admitted_call_def alert_call_def post_body_def)
  show "admitted_call pipe AddHoldingDto c4" if "holdingSchema f4" "length (hf_symbol f4) \<le> 10"
    "c4 \<in> set (passed_on portfolio_post_route i (holding_call f4))"
    using acc [OF holding_admitted_body [OF that(1,2)]] holding_body [OF that(3)]
    by (auto simp: admitted_call_def holding_call_def post_body_def)
  show "admitted_call pipe CreateWalletDto c5" if "walletSchema f5"
    "c5 \<in> set (passed_on (\<lambda>srv. wallets_post_route srv as_text) i (wallet_call f5))"
    using acc [OF wallet_admitted_body [OF that(1)]] wallet_body [OF that(2)] by (auto simp: admitted_call_def)
qed

lemma forms_are_admitted_witness:
  "\<exists>c \<in> set (passed_on deposits_route ''w1'' (request_call \<lparr>mp_mode = DepositMode, mp_walletId = ''w1'', mp_balance = 0\<rparr> ''k''
      \<lparr>af_amount = ''25'', af_note = None\<rparr>)). admitted_call (en_pipe demo_env) MoneyAmountDto c"
proof -
  let ?c = "request_call \<lparr>mp_mode = DepositMode, mp_walletId = ''w1'', mp_balance = 0\<rparr> ''k'' \<lparr>af_amount = ''25'', af_note = None\<rparr>"
  have "passed_on deposits_route ''w1'' ?c \<noteq> []" "amountSchema \<lparr>af_amount = ''25'', af_note = None\<rparr>"
    by code_simp+
  then obtain c where "c \<in> set (passed_on deposits_route ''w1'' ?c)" by (metis list.set_sel(1))
  then show ?thesis
    using forms_are_admitted [OF demo_pipe] \<open>amountSchema \<lparr>af_amount = ''25'', af_note = None\<rparr>\<close> by blast
qed

section \<open>Amounts beyond the column\<close>

text \<open>The forms and the DTO accept amounts the database cannot hold. An amount field
  lets nine digits through, up to 999,999,999.99, and the DTO sets no maximum, but balances are 32-bit
  columns: a deposit that would lift the balance over 21,474,836.47 is admitted, changes nothing, and
  is answered as an internal error.\<close>

theorem oversized_deposit_is_internal_error:
  assumes typed: "amountSchema f" "parseAmountToMinor (af_amount f) = Some m"
    and wl: "find_wallet i (wdb w) = Some wl" "w_userId wl = au_id a" "0 \<le> w_balance wl"
    and big: "2147483647 < w_balance wl + int m"
  shows "admits V MoneyAmountDto (json_obj [(''amount'', Some (minor_json (af_amount f))), (''note'', note_json (af_note f))])
     \<and> deposit x c i a (int m) note w = (Inl Int4Overflow, w) \<and> eb_statusCode (toErrorBody Int4Overflow url t) = 500"
proof -
  have "\<not> int4 (w_balance wl + int m)" using big by (simp add: int4_def int4_max_def)
  then have "deposit_tx c i a (int m) note (wdb w) = Inl Int4Overflow"
    using wl by (simp add: deposit_tx_def tx_defs wallet_set_balance_def Let_def)
  moreover have "getOwnedWallet (wdb w) i a = Inr wl" using wl by (simp add: getOwnedWallet_def)
  moreover have "eb_statusCode (toErrorBody Int4Overflow url t) = 500"
    by (simp add: toErrorBody_other internal_body_status)
  ultimately show ?thesis using amount_admitted_body [OF typed(1)] by (simp add: deposit_def)
qed

lemma oversized_deposit_is_internal_error_witness:
  "fst (deposit demo_outside (money_ctx ''a'') ''w0'' \<lparr>au_id = ''u1'', au_email = [], au_role = [], au_totpEnabled = False\<rparr>
     100 None (demo_world (empty_db\<lparr>wallets := [demo_wallet ''w0'' ''u1'' 2147483647]\<rparr>))) = Inl Int4Overflow"
proof -
  have typed: "amountSchema \<lparr>af_amount = ''1'', af_note = None\<rparr>"
    "parseAmountToMinor (af_amount \<lparr>af_amount = ''1'', af_note = None\<rparr>) = Some 100"
    by code_simp+
  have wl: "find_wallet ''w0'' (wdb (demo_world (empty_db\<lparr>wallets := [demo_wallet ''w0'' ''u1'' 2147483647]\<rparr>))) =
      Some (demo_wallet ''w0'' ''u1'' 2147483647)"
    by (simp add: demo_world_def demo_wallet_def find_wallet_def)
  show ?thesis
    using oversized_deposit_is_internal_error [OF typed wl, of "\<lparr>au_id = ''u1'', au_email = [], au_role = [], au_totpEnabled = False\<rparr>"
        undefined demo_outside "money_ctx ''a''" None "[]" 0]
    by (simp add: demo_wallet_def)
qed

end
