(* ===== verification/Pages.thy ===== *)
theory Pages
  imports Console Forms Exchange Views
begin

text \<open>
  The server-rendered pages of both apps (\<open>frontend/app\<close>, \<open>customer/app\<close>): what a page reads from the
  API, when it redirects, refuses, gives up or throws, and the values it hands to its components; and
  the signs of the two statements (\<open>activity-card.tsx\<close>, \<open>transaction-history.tsx\<close>). A page runs on the
  Next server with the request's cookies; the API is any state transformer. Markup is not modelled.
\<close>

section \<open>Pages\<close>

text \<open>A \<open>redirect\<close>, a header that refuses or gives up, an exception (Next's error page), or the page.\<close>

datatype 'v page_end = PageRedirect string | PageDenied string | PageFailed string | PageError exn | PageShown 'v

definition page_get :: "'s fetch \<Rightarrow> int \<Rightarrow> jar \<Rightarrow> string \<Rightarrow> 's \<Rightarrow> (exn + http_reply_msg) \<times> 's" where
  "page_get fetch t jar path s = serverApi fetch t (GET_call path) jar s"

text \<open>\<open>await\<close> of a read, and of what is computed from it.\<close>

definition awaiting :: "(exn + 'a) \<times> 's \<Rightarrow> ('a \<Rightarrow> 's \<Rightarrow> 'v page_end \<times> 's) \<Rightarrow> 'v page_end \<times> 's" where
  "awaiting m k = (case m of (Inl e, s) \<Rightarrow> (PageError e, s) | (Inr a, s) \<Rightarrow> k a s)"

definition shown :: "exn + 'v \<Rightarrow> 's \<Rightarrow> 'v page_end \<times> 's" where
  "shown r s = (case r of Inl e \<Rightarrow> (PageError e, s) | Inr v \<Rightarrow> (PageShown v, s))"

text \<open>\<open>Promise.all\<close> of two reads: both are sent, and one that fails fails the whole.\<close>

definition both :: "(exn + 'a) \<times> 's \<Rightarrow> ('s \<Rightarrow> (exn + 'b) \<times> 's) \<Rightarrow> (exn + 'a \<times> 'b) \<times> 's" where
  "both m k = (case m of (a, s) \<Rightarrow> (case k s of (b, s') \<Rightarrow> (ok_bind a (\<lambda>x. ok_bind b (\<lambda>y. Inr (x, y))), s')))"

definition query_text :: "(string \<Rightarrow> string) \<Rightarrow> search_params \<Rightarrow> string" where
  "query_text enc sp = join ''&'' (map (\<lambda>(k, v). enc k @ ''='' @ enc v) sp)"

section \<open>The console's pages\<close>

text \<open>The identity mirror in the cookie; any falsy value counts as none.\<close>

definition console_user :: "int \<Rightarrow> jar \<Rightarrow> jval option" where
  "console_user t jar =
     (case getSessionUser t jar of None \<Rightarrow> None | Some u \<Rightarrow> if js_truthy u then Some u else None)"

definition session_role :: "jval \<Rightarrow> string" where
  "session_role u = (case jget ''role'' u of Some (JStr r) \<Rightarrow> r | _ \<Rightarrow> [])"

definition staff_page ::
  "int \<Rightarrow> jar \<Rightarrow> string \<Rightarrow> string \<Rightarrow> (string \<Rightarrow> 's \<Rightarrow> 'v page_end \<times> 's) \<Rightarrow> 's \<Rightarrow> 'v page_end \<times> 's" where
  "staff_page t jar permission refused k s =
     (case console_user t jar of
        None \<Rightarrow> (PageRedirect ''/login'', s)
      | Some u \<Rightarrow> if \<not> roleHasPermission (session_role u) permission then (PageDenied refused, s)
                  else k (session_role u) s)"

definition ApprovalsPage :: "'s fetch \<Rightarrow> int \<Rightarrow> jar \<Rightarrow> 's \<Rightarrow> (jval \<times> string) page_end \<times> 's" where
  "ApprovalsPage fetch t jar =
     staff_page t jar ''transaction.view_all'' ''You don't have access to the approvals queue.'' (\<lambda>role s.
     awaiting (page_get fetch t jar ''/transactions/pending'' s) (\<lambda>r s.
       if hm_status r = 401 then (PageRedirect ''/login'', s)
       else if \<not> res_ok (hm_status r) then (PageFailed ''Couldn't load the queue. Try again.'', s)
       else shown (ok_bind (res_json r) (\<lambda>v. Inr (v, role))) s))"

definition page_of :: "string \<Rightarrow> http_reply_msg \<Rightarrow> exn + jval option \<times> jval option" where
  "page_of items r = ok_bind (res_json r) (\<lambda>v.
     ok_bind (prop_of (Some v) items) (\<lambda>xs. ok_bind (prop_of (Some v) ''total'') (\<lambda>n. Inr (xs, n))))"

definition WalletsPage ::
  "'s fetch \<Rightarrow> (string \<Rightarrow> string) \<Rightarrow> (string \<Rightarrow> js_number) \<Rightarrow> (string \<Rightarrow> raw_param option) \<Rightarrow> int \<Rightarrow> jar
     \<Rightarrow> 's \<Rightarrow> (jval option \<times> jval option) page_end \<times> 's" where
  "WalletsPage fetch enc num raw t jar =
     staff_page t jar ''transaction.view_all'' ''You don't have access to wallets.'' (\<lambda>role s.
     awaiting (page_get fetch t jar (''/admin/wallets?'' @ query_text enc (apiQuery True (parseTableParams num raw WALLETS_TABLE))) s)
       (\<lambda>r s. if hm_status r = 401 then (PageRedirect ''/login'', s)
         else if \<not> res_ok (hm_status r) then (PageFailed ''Couldn't load wallets. Try again.'', s)
         else shown (page_of ''wallets'' r) s))"

text \<open>The last component tells whether the adjustment form is there.\<close>

definition WalletDetailPage :: "'s fetch \<Rightarrow> string \<Rightarrow> int \<Rightarrow> jar \<Rightarrow> 's \<Rightarrow> (jval \<times> jval \<times> bool) page_end \<times> 's" where
  "WalletDetailPage fetch i t jar =
     staff_page t jar ''transaction.view_all'' ''You don't have access to wallets.'' (\<lambda>role s.
     awaiting (both (page_get fetch t jar (''/admin/wallets/'' @ i) s)
         (page_get fetch t jar (''/admin/wallets/'' @ i @ ''/transactions''))) (\<lambda>(wr, tr) s.
       if hm_status wr = 401 \<or> hm_status tr = 401 then (PageRedirect ''/login'', s)
       else if hm_status wr = 404 then (PageFailed ''No wallet with that id.'', s)
       else if \<not> res_ok (hm_status wr) \<or> \<not> res_ok (hm_status tr) then (PageFailed ''Couldn't load this wallet. Try again.'', s)
       else shown (ok_bind (res_json wr) (\<lambda>w. ok_bind (res_json tr) (\<lambda>ts. Inr (w, ts, roleHasPermission role ''wallet.adjust'')))) s))"

definition UsersPage ::
  "'s fetch \<Rightarrow> (string \<Rightarrow> string) \<Rightarrow> (string \<Rightarrow> js_number) \<Rightarrow> (string \<Rightarrow> raw_param option) \<Rightarrow> int \<Rightarrow> jar
     \<Rightarrow> 's \<Rightarrow> ((jval option \<times> jval option) \<times> jval) page_end \<times> 's" where
  "UsersPage fetch enc num raw t jar =
     staff_page t jar ''user.manage'' ''You don't have access to user management.'' (\<lambda>role s.
     awaiting (both (page_get fetch t jar (''/users?'' @ query_text enc (apiQuery True (parseTableParams num raw USERS_TABLE))) s)
         (page_get fetch t jar ''/roles'')) (\<lambda>(ur, rr) s.
       if hm_status ur = 401 \<or> hm_status rr = 401 then (PageRedirect ''/login'', s)
       else if \<not> res_ok (hm_status ur) \<or> \<not> res_ok (hm_status rr) then (PageFailed ''Couldn't load users. Try again.'', s)
       else shown (ok_bind (page_of ''users'' ur) (\<lambda>p. ok_bind (res_json rr) (\<lambda>rs. Inr (p, rs)))) s))"

definition AuditPage ::
  "'s fetch \<Rightarrow> (string \<Rightarrow> string) \<Rightarrow> (string \<Rightarrow> js_number) \<Rightarrow> (string \<Rightarrow> raw_param option) \<Rightarrow> int \<Rightarrow> jar
     \<Rightarrow> 's \<Rightarrow> (jval option \<times> jval option) page_end \<times> 's" where
  "AuditPage fetch enc num raw t jar =
     staff_page t jar ''audit.view'' ''You don't have access to the audit trail.'' (\<lambda>role s.
     awaiting (page_get fetch t jar (''/audit-logs?'' @ query_text enc (apiQuery False (parseTableParams num raw AUDIT_TABLE))) s)
       (\<lambda>r s. if hm_status r = 401 then (PageRedirect ''/login'', s)
         else if \<not> res_ok (hm_status r) then (PageFailed ''Couldn't load the audit trail. Try again.'', s)
         else shown (page_of ''logs'' r) s))"

text \<open>\<open>serverApi(...).then(...).catch(() => null)\<close>\<close>

definition read_or_null :: "bool \<Rightarrow> (exn + http_reply_msg) \<times> 's \<Rightarrow> jval option \<times> 's" where
  "read_or_null needs_ok m =
     (case m of
        (Inl e, s) \<Rightarrow> (None, s)
      | (Inr r, s) \<Rightarrow> ((if needs_ok \<and> \<not> res_ok (hm_status r) then None
                      else case res_json r of Inl e \<Rightarrow> None | Inr v \<Rightarrow> Some v), s))"

definition greeting :: "nat \<Rightarrow> string" where
  "greeting hour = (if hour < 12 then ''Good morning'' else if hour < 18 then ''Good afternoon'' else ''Good evening'')"

record dashboard_view =
  dv_greeting :: string
  dv_overview :: "jval option"
  dv_health :: "jval option option"

text \<open>\<open>dv_health\<close> is there for the roles that see the system card; \<open>Some None\<close> is "unavailable".\<close>

definition DashboardPage :: "'s fetch \<Rightarrow> nat \<Rightarrow> int \<Rightarrow> jar \<Rightarrow> 's \<Rightarrow> dashboard_view page_end \<times> 's" where
  "DashboardPage fetch hour t jar s =
     (case console_user t jar of
        None \<Rightarrow> (PageRedirect ''/login'', s)
      | Some u \<Rightarrow>
          (let canSeeQueue = roleHasPermission (session_role u) ''transaction.view_all'';
               canSeeSystem = (session_role u = ''super_admin'' \<or> session_role u = ''admin'');
               (ov, s1) = (if canSeeQueue then read_or_null True (page_get fetch t jar ''/admin/overview'' s) else (None, s));
               (he, s2) = (if canSeeSystem then read_or_null False (page_get fetch t jar ''/health'' s1) else (None, s1))
           in (if \<not> canSeeQueue then PageDenied (greeting hour)
               else PageShown \<lparr>dv_greeting = greeting hour, dv_overview = ov,
                      dv_health = (if canSeeSystem then Some he else None)\<rparr>, s2)))"

text \<open>The shell's badge; a body without the number throws.\<close>

definition DashboardLayout :: "'s fetch \<Rightarrow> int \<Rightarrow> jar \<Rightarrow> 's \<Rightarrow> (jval \<times> jval option) page_end \<times> 's" where
  "DashboardLayout fetch t jar s =
     (case console_user t jar of
        None \<Rightarrow> (PageRedirect ''/login'', s)
      | Some u \<Rightarrow>
          if \<not> roleHasPermission (session_role u) ''transaction.view_all'' then (PageShown (u, Some (JNum 0)), s)
          else (case page_get fetch t jar ''/admin/overview'' s of
             (Inl e, s') \<Rightarrow> (PageShown (u, Some (JNum 0)), s')
           | (Inr r, s') \<Rightarrow>
               if \<not> res_ok (hm_status r) then (PageShown (u, Some (JNum 0)), s')
               else shown (ok_bind (res_json r) (\<lambda>v. ok_bind (prop_of (Some v) ''pending'') (\<lambda>p.
                      ok_bind (prop_of p ''count'') (\<lambda>n. Inr (u, n))))) s'))"

definition denied_page :: "'v page_end \<Rightarrow> bool" where
  "denied_page p = (case p of PageDenied e \<Rightarrow> True | _ \<Rightarrow> False)"

lemma staff_page_denied:
  assumes "console_user t jar = Some u" "\<And>role s. \<not> denied_page (fst (k role s))"
  shows "denied_page (fst (staff_page t jar p e k s)) \<longleftrightarrow> \<not> roleHasPermission (session_role u) p"
  using assms by (simp add: staff_page_def denied_page_def)

lemma not_denied_simps [simp]:
  "\<not> denied_page (PageRedirect l)" "\<not> denied_page (PageFailed m)" "\<not> denied_page (PageError e)"
  "\<not> denied_page (PageShown v)" "\<not> denied_page (fst (shown r s))"
  by (auto simp: denied_page_def shown_def split: sum.splits)

lemma awaiting_not_denied:
  "(\<And>a s. \<not> denied_page (fst (k a s))) \<Longrightarrow> \<not> denied_page (fst (awaiting m k))"
  by (auto simp: awaiting_def split: prod.splits sum.splits)

lemma console_pages_denied:
  assumes "console_user t jar = Some u"
  shows "denied_page (fst (ApprovalsPage fetch t jar s)) \<longleftrightarrow> \<not> roleHasPermission (session_role u) ''transaction.view_all''"
    "denied_page (fst (WalletsPage fetch enc num raw t jar s)) \<longleftrightarrow> \<not> roleHasPermission (session_role u) ''transaction.view_all''"
    "denied_page (fst (WalletDetailPage fetch i t jar s)) \<longleftrightarrow> \<not> roleHasPermission (session_role u) ''transaction.view_all''"
    "denied_page (fst (UsersPage fetch enc num raw t jar s)) \<longleftrightarrow> \<not> roleHasPermission (session_role u) ''user.manage''"
    "denied_page (fst (AuditPage fetch enc num raw t jar s)) \<longleftrightarrow> \<not> roleHasPermission (session_role u) ''audit.view''"
  unfolding ApprovalsPage_def WalletsPage_def WalletDetailPage_def UsersPage_def AuditPage_def
  by (rule staff_page_denied [OF assms], rule awaiting_not_denied, simp split: prod.splits)+

lemma permitted_one:
  assumes "guarded E n r d = Inr a" "find_user (au_id a) d = Some u" "u_status u = Active" "role_of u d = Some rl"
  shows "permitted E n r [p] d = Inr a \<longleftrightarrow> p \<in> set (r_permissions rl)"
proof -
  have "permissions_guard (Some [p]) (Some a) d = Inr True \<longleftrightarrow> p \<in> set (r_permissions rl)"
    using assms permissions_guard_iff [of p "[]" "Some a" d] by auto
  moreover have "permissions_guard (Some [p]) (Some a) d = Inr b \<Longrightarrow> b" for b
    by (auto simp: permissions_guard_def opt_default_def split: option.splits if_splits)
  ultimately show ?thesis
    using assms(1) by (cases "permissions_guard (Some [p]) (Some a) d") (auto simp: permitted_def ok_bind_def)
qed

lemma nav_items_visible:
  assumes "g \<in> set (navGroupsForRole role)" "x \<in> set (ng_items g)"
  shows "item_visible role x \<and> (ni_href x, ni_permission x) \<in>
    {(''/'', None), (''/approvals'', Some ''deposit.approve''), (''/wallets'', Some ''transaction.view_all''),
     (''/users'', Some ''user.manage''), (''/audit'', Some ''audit.view'')}"
proof -
  have "item_visible role x" "\<exists>h \<in> set GROUPS. x \<in> set (ng_items h)"
    using assms by (auto simp: navGroupsForRole_def)
  moreover have "\<forall>h \<in> set GROUPS. \<forall>x \<in> set (ng_items h). (ni_href x, ni_permission x) \<in>
    {(''/'', None), (''/approvals'', Some ''deposit.approve''), (''/wallets'', Some ''transaction.view_all''),
     (''/users'', Some ''user.manage''), (''/audit'', Some ''audit.view'')}"
    by (simp add: GROUPS_def nav_def)
  ultimately show ?thesis by blast
qed


section \<open>The two statements\<close>

datatype tone = NeutralTone | PositiveTone | NegativeTone | PendingTone

definition CREDITS :: "string list" where "CREDITS = [''deposit'', ''transfer_in'']"
definition DEBITS :: "string list" where "DEBITS = [''withdrawal'', ''transfer_out'']"

definition isCredit :: "string \<Rightarrow> bool" where
  "isCredit type = List.member CREDITS type"

definition activity_tone :: "string \<Rightarrow> string \<Rightarrow> tone" where
  "activity_tone type status =
     (if status = ''pending'' then PendingTone else if status = ''rejected'' then NeutralTone
      else if isCredit type then PositiveTone else NegativeTone)"

definition console_tone :: "string \<Rightarrow> string \<Rightarrow> tone" where
  "console_tone type status =
     (if status \<noteq> ''approved'' then NeutralTone
      else if List.member CREDITS type then PositiveTone else if List.member DEBITS type then NegativeTone else NeutralTone)"

text \<open>The signs of a statement are those of the ledger. For a row of a sound ledger that is not an
  adjustment, the customer's statement shows plus for a settled row only if the balance did not fall
  and minus only if it fell, shows no sign for what is pending or declined, and the console agrees.\<close>

theorem statement_signs_match_ledger:
  assumes "row_ok x" "t_type x \<noteq> Adjustment"
  shows "(activity_tone (type_text (t_type x)) (txn_status_text (t_status x)) = PositiveTone \<longrightarrow>
        t_status x = Approved \<and> 0 \<le> settled_delta x)
    \<and> (activity_tone (type_text (t_type x)) (txn_status_text (t_status x)) = NegativeTone \<longrightarrow>
        t_status x = Approved \<and> settled_delta x < 0)
    \<and> (t_status x = Approved \<longrightarrow> console_tone (type_text (t_type x)) (txn_status_text (t_status x)) =
        activity_tone (type_text (t_type x)) (txn_status_text (t_status x)))"
  using assms
  by (cases "t_status x"; cases "t_type x")
    (auto simp: row_ok_def signed_ok_def settled_delta_def activity_tone_def console_tone_def isCredit_def CREDITS_def DEBITS_def
      split: option.splits)

text \<open>A credit adjustment reads as money that left. Adjustments are stored with a positive
  amount whichever way they go, and the customer's statement counts every type but deposits and
  incoming transfers as a debit: a balance raised by the staff appears in red with a minus sign.\<close>

theorem credit_adjustment_reads_as_debit:
  assumes "adjust_tx c i Credit amount note actor d = Inr (d', x, ow)" "0 < amount"
  shows "settled_delta x = amount \<and> 0 < settled_delta x \<and>
    activity_tone (type_text (t_type x)) (txn_status_text (t_status x)) = NegativeTone"
  using assms
  by (auto simp: adjust_tx_def Let_def tx_simps settled_row_def settled_delta_def activity_tone_def isCredit_def CREDITS_def)

definition finance_jar :: jar where
  "finance_jar = [SESSION_USER_COOKIE \<mapsto> \<lparr>ck_text = CkJson (JObj [(''role'', JStr ''finance'')]),
     ck_opts = cookieOptions True 1, ck_expires = 1000000\<rparr>]"

definition failing :: "unit fetch" where
  "failing c s = (Some (empty_reply 500), s)"


lemma statement_signs_match_ledger_witness:
  "console_tone ''deposit'' ''approved'' = activity_tone ''deposit'' ''approved''"
proof -
  define x where "x = \<lparr>t_id = ''t'', t_walletId = ''w0'', t_type = Deposit, t_amount = 5, t_balanceBefore = Some 0,
    t_balanceAfter = Some 5, t_status = Approved, t_requestedBy = ''u1'', t_reviewedBy = Some ''u1'', t_reviewedAt = Some 0,
    t_note = None, t_transferId = None, t_counterpartyWalletId = None, t_exchangeRate = None, t_createdAt = 0\<rparr>"
  have "row_ok x" "t_type x \<noteq> Adjustment" by (simp_all add: x_def row_ok_def signed_ok_def)
  from statement_signs_match_ledger [OF this] show ?thesis by (simp add: x_def)
qed

lemma credit_adjustment_reads_as_debit_witness:
  "activity_tone ''adjustment'' ''approved'' = NegativeTone"
proof -
  obtain d' x ow where ok: "adjust_tx (money_ctx ''a'') ''w0'' Credit 5 ''fix''
      \<lparr>au_id = ''u9'', au_email = [], au_role = [], au_totpEnabled = False\<rparr>
      (empty_db\<lparr>wallets := [demo_wallet ''w0'' ''u1'' 0], users := [ada]\<rparr>) = Inr (d', x, ow)"
    and ty: "t_type x = Adjustment" "t_status x = Approved"
    by (force simp: adjust_tx_def tx_defs wallet_set_balance_def txn_create_def int4_def int4_max_def int4_opt_def
        settled_row_def ins_row_def audit_log_def audit_row_of_def find_wallet_def demo_wallet_def empty_db_def upd_rows_def Let_def)
  show ?thesis using credit_adjustment_reads_as_debit [OF ok] ty by simp
qed

end
