(* ===== verification/CustomerPages.thy ===== *)
theory CustomerPages
  imports Pages AccountScreens
begin

text \<open>
  The customer app's pages (\<open>customer/app\<close>): the reads of each, when it sends the visitor to sign in, and
  what it hands to the screens of \<open>Wizards\<close>, \<open>Exchange\<close>, \<open>Forms\<close> and \<open>AccountScreens\<close>. Bodies are JSON
  values as they arrive: an array index beyond the end or a missing property is \<open>undefined\<close>
  (\<open>None\<close>), a property of \<open>null\<close> throws.
\<close>

section \<open>Reading rows\<close>

fun map_ok :: "('a \<Rightarrow> exn + 'b) \<Rightarrow> 'a list \<Rightarrow> exn + 'b list" where
  "map_ok f [] = Inr []"
| "map_ok f (x # xs) = ok_bind (f x) (\<lambda>y. ok_bind (map_ok f xs) (\<lambda>ys. Inr (y # ys)))"

abbreviation NotIterable :: exn where "NotIterable \<equiv> OtherError ''is not a function''"

definition rows_of :: "jval \<Rightarrow> exn + jval list" where
  "rows_of v = (case v of JArr xs \<Rightarrow> Inr xs | JNull \<Rightarrow> Inl NoProperty | _ \<Rightarrow> Inl NotIterable)"

text \<open>\<open>wallets[0]\<close>\<close>

definition first_row :: "jval \<Rightarrow> exn + jval option" where
  "first_row v = (case v of
     JNull \<Rightarrow> Inl NoProperty | JArr (x # xs) \<Rightarrow> Inr (Some x) | JStr (c # cs) \<Rightarrow> Inr (Some (JStr [c])) | _ \<Rightarrow> Inr None)"

definition present_row :: "jval option \<Rightarrow> jval option" where
  "present_row v = (case v of None \<Rightarrow> None | Some x \<Rightarrow> if js_truthy x then Some x else None)"

definition or_empty :: "http_reply_msg \<Rightarrow> exn + jval" where
  "or_empty r = (if res_ok (hm_status r) then res_json r else Inr (JArr []))"

definition text_of :: "jval option \<Rightarrow> string" where
  "text_of v = (case v of Some (JStr s) \<Rightarrow> s | _ \<Rightarrow> [])"

text \<open>A read whose 401 sends the visitor to sign in.\<close>

definition signed_in_read ::
  "'s fetch \<Rightarrow> int \<Rightarrow> jar \<Rightarrow> string \<Rightarrow> (http_reply_msg \<Rightarrow> 's \<Rightarrow> 'v page_end \<times> 's) \<Rightarrow> 's \<Rightarrow> 'v page_end \<times> 's" where
  "signed_in_read fetch t jar path k s =
     awaiting (page_get fetch t jar path s)
       (\<lambda>r s. if hm_status r = 401 then (PageRedirect ''/login'', s) else k r s)"

definition AppLayout :: "int \<Rightarrow> jar \<Rightarrow> (string \<times> jval option) page_end" where
  "AppLayout t jar =
     (case present_row (getSessionUser t jar) of
        None \<Rightarrow> PageRedirect ''/login''
      | Some u \<Rightarrow>
          (let names = filter (\<lambda>x. x \<noteq> []) [text_of (jget ''firstName'' u), text_of (jget ''lastName'' u)];
               name = join '' '' names
           in PageShown (if name \<noteq> [] then name else text_of (jget ''email'' u), jget ''handle'' u)))"

section \<open>Pages over the first wallet\<close>

text \<open>\<open>/deposit\<close>, \<open>/withdraw\<close> and \<open>/pay/send\<close> open their wizard on the first wallet: its id, currency and balance.\<close>

definition wallet_props :: "jval \<Rightarrow> jval option \<times> jval option \<times> jval option" where
  "wallet_props w = (jget ''id'' w, jget ''currency'' w, jget ''balance'' w)"

definition money_page ::
  "'s fetch \<Rightarrow> int \<Rightarrow> jar \<Rightarrow> 's \<Rightarrow> (jval option \<times> jval option \<times> jval option) page_end \<times> 's" where
  "money_page fetch t jar =
     signed_in_read fetch t jar ''/wallets'' (\<lambda>r s.
       (case ok_bind (res_json r) first_row of
          Inl e \<Rightarrow> (PageError e, s)
        | Inr w \<Rightarrow> (case present_row w of
             None \<Rightarrow> (PageRedirect ''/'', s) | Some x \<Rightarrow> (PageShown (wallet_props x), s))))"

definition SendPage ::
  "'s fetch \<Rightarrow> int \<Rightarrow> string option \<Rightarrow> jar \<Rightarrow> 's \<Rightarrow> ((jval option \<times> jval option \<times> jval option) \<times> string) page_end \<times> 's" where
  "SendPage fetch t handle jar s =
     (case money_page fetch t jar s of
        (PageShown p, s') \<Rightarrow> (PageShown (p, case handle of None \<Rightarrow> [] | Some h \<Rightarrow> h), s')
      | (PageRedirect l, s') \<Rightarrow> (PageRedirect l, s') | (PageDenied m, s') \<Rightarrow> (PageDenied m, s')
      | (PageFailed m, s') \<Rightarrow> (PageFailed m, s') | (PageError e, s') \<Rightarrow> (PageError e, s'))"

definition ActivityPage :: "'s fetch \<Rightarrow> int \<Rightarrow> jar \<Rightarrow> 's \<Rightarrow> (jval \<times> jval option) page_end \<times> 's" where
  "ActivityPage fetch t jar =
     signed_in_read fetch t jar ''/wallets'' (\<lambda>r s.
       (case ok_bind (res_json r) first_row of
          Inl e \<Rightarrow> (PageError e, s)
        | Inr w \<Rightarrow> (case present_row w of
             None \<Rightarrow> (PageRedirect ''/'', s)
           | Some x \<Rightarrow> awaiting (page_get fetch t jar (''/wallets/'' @ field_text (jget ''id'' x) @ ''/transactions'') s)
               (\<lambda>tr. shown (ok_bind (or_empty tr) (\<lambda>ts. Inr (ts, jget ''currency'' x)))))))"

text \<open>\<open>wallets.length < 2\<close>: \<open>undefined\<close> compares false, so anything but a short array goes to the screen.\<close>

definition ConvertPage :: "'s fetch \<Rightarrow> int \<Rightarrow> jar \<Rightarrow> 's \<Rightarrow> jval option page_end \<times> 's" where
  "ConvertPage fetch t jar =
     signed_in_read fetch t jar ''/wallets'' (\<lambda>r s. shown (ok_bind (res_json r) (\<lambda>v.
       case v of JNull \<Rightarrow> Inl NoProperty | JArr xs \<Rightarrow> Inr (if length xs < 2 then None else Some v)
       | JStr cs \<Rightarrow> Inr (if length cs < 2 then None else Some v) | _ \<Rightarrow> Inr (Some v))) s)"

definition NewWalletPage :: "'s fetch \<Rightarrow> int \<Rightarrow> jar \<Rightarrow> 's \<Rightarrow> jval option list page_end \<times> 's" where
  "NewWalletPage fetch t jar =
     signed_in_read fetch t jar ''/wallets'' (\<lambda>r s. shown (ok_bind (res_json r) (\<lambda>v.
       ok_bind (rows_of v) (map_ok (\<lambda>w. prop_of (Some w) ''currency'')))) s)"

definition PayPage :: "'s fetch \<Rightarrow> int \<Rightarrow> jar \<Rightarrow> 's \<Rightarrow> (jval option \<times> jval list) page_end \<times> 's" where
  "PayPage fetch t jar s =
     (case serverApiJson fetch t ''/wallets'' (JArr []) jar s of
        (v, s1) \<Rightarrow>
          (case first_row v of
             Inl e \<Rightarrow> (PageError e, s1)
           | Inr w \<Rightarrow>
               (case present_row w of
                  None \<Rightarrow> (PageShown (None, []), s1)
                | Some x \<Rightarrow>
                    (case serverApiJson fetch t (''/wallets/'' @ field_text (jget ''id'' x) @ ''/transactions'') (JArr []) jar s1 of
                       (ts, s2) \<Rightarrow>
                         shown (ok_bind (rows_of ts) (\<lambda>rows.
                           ok_bind (map_ok (\<lambda>r. prop_of (Some r) ''type'') rows) (\<lambda>types.
                             Inr (jget ''currency'' x,
                               map fst (filter (\<lambda>(r, ty). List.member [''transfer_in'', ''transfer_out''] (text_of ty))
                                 (zip rows types)))))) s2))))"

section \<open>Home\<close>

record home_view =
  hv_wallets :: jval
  hv_primary :: "jval option"
  hv_transactions :: "jval list"
  hv_watching :: "jval list"
  hv_pendingCount :: nat
  hv_name :: string
  hv_currency :: string

definition session_name :: "jval option \<Rightarrow> string" where
  "session_name u = (case u of
     None \<Rightarrow> ''Your wallet''
   | Some v \<Rightarrow> if text_of (jget ''firstName'' v) = [] then ''Your wallet''
               else trim (text_of (jget ''firstName'' v) @ '' '' @ text_of (jget ''lastName'' v)))"

definition home_view_of ::
  "jval option \<Rightarrow> jval \<Rightarrow> jval option \<Rightarrow> jval \<Rightarrow> jval \<Rightarrow> jval \<Rightarrow> exn + home_view" where
  "home_view_of u ws0 primary txns0 assets watched =
     ok_bind (rows_of watched) (\<lambda>ws.
     ok_bind (map_ok (\<lambda>w. prop_of (Some w) ''symbol'') ws) (\<lambda>symbols.
     ok_bind (rows_of assets) (\<lambda>as.
     ok_bind (map_ok (\<lambda>a. prop_of (Some a) ''symbol'') as) (\<lambda>assetSymbols.
     ok_bind (rows_of txns0) (\<lambda>ts.
     ok_bind (map_ok (\<lambda>x. prop_of (Some x) ''status'') ts) (\<lambda>statuses.
       Inr \<lparr>hv_wallets = ws0, hv_primary = primary, hv_transactions = ts,
            hv_watching = map fst (filter (\<lambda>(a, s). List.member symbols s) (zip as assetSymbols)),
            hv_pendingCount = length (filter (\<lambda>x. x = Some (JStr ''pending'')) statuses),
            hv_name = session_name u,
            hv_currency = (case primary of None \<Rightarrow> ''USD'' | Some w \<Rightarrow>
               (case jget ''currency'' w of Some (JStr c) \<Rightarrow> c | _ \<Rightarrow> ''USD''))\<rparr>))))))"

text \<open>The transactions' read is \<open>[]\<close> without a wallet; it throws when the API cannot be reached.\<close>

definition home_transactions :: "'s fetch \<Rightarrow> int \<Rightarrow> jar \<Rightarrow> jval option \<Rightarrow> 's \<Rightarrow> (exn + jval) \<times> 's" where
  "home_transactions fetch t jar primary s =
     (case primary of
        None \<Rightarrow> (Inr (JArr []), s)
      | Some w \<Rightarrow> (case page_get fetch t jar (''/wallets/'' @ field_text (jget ''id'' w) @ ''/transactions'') s of
           (Inl e, s') \<Rightarrow> (Inl e, s') | (Inr r, s') \<Rightarrow> (or_empty r, s')))"

definition HomePage :: "'s fetch \<Rightarrow> int \<Rightarrow> jar \<Rightarrow> 's \<Rightarrow> home_view page_end \<times> 's" where
  "HomePage fetch t jar =
     signed_in_read fetch t jar ''/wallets'' (\<lambda>r s.
       (case ok_bind (res_json r) (\<lambda>v. ok_bind (first_row v) (\<lambda>w. Inr (v, present_row w))) of
          Inl e \<Rightarrow> (PageError e, s)
        | Inr (ws0, primary) \<Rightarrow>
            (case home_transactions fetch t jar primary s of (ts, s1) \<Rightarrow>
            (case serverApiJson fetch t ''/markets'' (JArr []) jar s1 of (assets, s2) \<Rightarrow>
            (case serverApiJson fetch t ''/watchlist'' (JArr []) jar s2 of (watched, s3) \<Rightarrow>
               (case ts of
                  Inl e \<Rightarrow> (PageError e, s3)
                | Inr txns0 \<Rightarrow> shown (home_view_of (getSessionUser t jar) ws0 primary txns0 assets watched) s3))))))"

text \<open>What the API documents of its lists: a success is an array of objects.\<close>

definition lists_objects :: "'s fetch \<Rightarrow> bool" where
  "lists_objects fetch \<longleftrightarrow> (\<forall>c s r s'. fetch c s = (Some r, s') \<and> res_ok (hm_status r) \<longrightarrow>
     (\<exists>rows. res_json r = Inr (JArr (map JObj rows))))"

lemma map_ok_props: "\<exists>ys. map_ok (\<lambda>x. prop_of (Some x) k) (map JObj rows) = Inr ys"
  by (induction rows) (auto simp: ok_bind_def prop_of_def)

lemma rows_of_objects: "rows_of (JArr xs) = Inr xs"
  by (simp add: rows_of_def)

lemma serverApiJson_list:
  assumes "lists_objects fetch"
  shows "\<exists>rows. fst (serverApiJson fetch t path (JArr []) jar s) = JArr (map JObj rows)"
proof (cases "fetch (callWithToken (token_cookie t ACCESS_COOKIE jar) (GET_call path)) s")
  case (Pair r s')
  have empty: "\<exists>rows. JArr [] = JArr (map JObj rows)" by (rule exI [of _ "[]"]) simp
  show ?thesis
  proof (cases r)
    case None
    then show ?thesis using Pair empty by (simp add: serverApiJson_def serverApi_def)
  next
    case (Some m)
    show ?thesis
    proof (cases "res_ok (hm_status m)")
      case True
      then obtain rows where "res_json m = Inr (JArr (map JObj rows))"
        using assms Pair Some unfolding lists_objects_def by blast
      then show ?thesis using Pair Some True by (auto simp: serverApiJson_def serverApi_def)
    qed (use Pair Some empty in \<open>simp add: serverApiJson_def serverApi_def\<close>)
  qed
qed

lemma home_view_of_objects:
  "\<exists>v. home_view_of u w p (JArr (map JObj a)) (JArr (map JObj b)) (JArr (map JObj c)) = Inr v"
proof -
  obtain x y z where "map_ok (\<lambda>x. prop_of (Some x) ''symbol'') (map JObj c) = Inr x"
    "map_ok (\<lambda>x. prop_of (Some x) ''symbol'') (map JObj b) = Inr y"
    "map_ok (\<lambda>x. prop_of (Some x) ''status'') (map JObj a) = Inr z"
    using map_ok_props by metis
  then show ?thesis by (simp add: home_view_of_def rows_of_objects ok_bind_def)
qed

text \<open>Home stands on its wallets alone. If the wallets are read and the transactions' read is answered at
  all, the page is shown whatever the answers to the other reads are, refusals, bad gateways and
  unreachable services of the markets and the watch list included.\<close>

theorem home_survives_outages:
  assumes lists: "lists_objects fetch"
    and wallets: "page_get fetch t jar ''/wallets'' s = (Inr r, s1)" "res_ok (hm_status r)"
    and answered: "\<And>path s. path \<noteq> ''/markets'' \<Longrightarrow> path \<noteq> ''/watchlist'' \<Longrightarrow> \<exists>m s'. page_get fetch t jar path s = (Inr m, s')"
  shows "\<exists>v. fst (HomePage fetch t jar s) = PageShown v"
proof -
  obtain m s' where "fetch (callWithToken (token_cookie t ACCESS_COOKIE jar) (GET_call ''/wallets'')) s = (Some m, s')" "m = r"
    using wallets(1) by (auto simp: page_get_def serverApi_def split: prod.splits option.splits)
  then obtain ws where ws: "res_json r = Inr (JArr (map JObj ws))"
    using lists wallets(2) unfolding lists_objects_def by blast
  then obtain p where p: "first_row (JArr (map JObj ws)) = Inr p"
    by (cases ws) (simp_all add: first_row_def)
  have txns: "\<exists>rows s'. home_transactions fetch t jar q s = (Inr (JArr (map JObj rows)), s')" for q s
  proof (cases q)
    case None
    then show ?thesis by (auto simp: home_transactions_def intro: exI [of _ "[]"])
  next
    case (Some w)
    let ?path = "''/wallets/'' @ field_text (jget ''id'' w) @ ''/transactions''"
    obtain m s' where m: "page_get fetch t jar ?path s = (Inr m, s')" using answered [of ?path s] by auto
    have "\<exists>rows. or_empty m = Inr (JArr (map JObj rows))"
    proof (cases "res_ok (hm_status m)")
      case True
      moreover obtain c where "fetch c s = (Some m, s')"
        using m by (auto simp: page_get_def serverApi_def split: prod.splits option.splits)
      ultimately obtain rows where "res_json m = Inr (JArr (map JObj rows))"
        using lists unfolding lists_objects_def by blast
      then show ?thesis using True by (auto simp: or_empty_def)
    qed (auto simp: or_empty_def intro: exI [of _ "[]"])
    then show ?thesis using m Some by (auto simp: home_transactions_def)
  qed
  obtain a s2 where a: "home_transactions fetch t jar (present_row p) s1 = (Inr (JArr (map JObj a)), s2)" using txns by blast
  obtain b s3 where b: "serverApiJson fetch t ''/markets'' (JArr []) jar s2 = (JArr (map JObj b), s3)"
    using serverApiJson_list [OF lists, of t "''/markets''" jar s2] by (metis surjective_pairing)
  obtain c s4 where c: "serverApiJson fetch t ''/watchlist'' (JArr []) jar s3 = (JArr (map JObj c), s4)"
    using serverApiJson_list [OF lists, of t "''/watchlist''" jar s3] by (metis surjective_pairing)
  obtain v where "home_view_of (getSessionUser t jar) (JArr (map JObj ws)) (present_row p) (JArr (map JObj a))
      (JArr (map JObj b)) (JArr (map JObj c)) = Inr v"
    using home_view_of_objects by blast
  moreover have "hm_status r \<noteq> 401" using wallets(2) by (auto simp: res_ok_def)
  ultimately show ?thesis
    using wallets(1) ws p a b c by (simp add: HomePage_def signed_in_read_def awaiting_def shown_def ok_bind_def)
qed

text \<open>An API that has one wallet and is otherwise down.\<close>

definition one_wallet :: "nat fetch" where
  "one_wallet c n = (Some (if cq_path c = ''/wallets'' then json_reply 200 (JArr [JObj [(''id'', JStr ''w1'')]]) else empty_reply 502), Suc n)"

lemma home_survives_outages_witness:
  "\<exists>v. fst (HomePage one_wallet 0 (\<lambda>_. None) 0) = PageShown v"
proof -
  have "lists_objects one_wallet"
    unfolding lists_objects_def
  proof (intro allI impI)
    fix c s r s'
    assume "one_wallet c s = (Some r, s') \<and> res_ok (hm_status r)"
    then have "res_json r = Inr (JArr (map JObj [[(''id'', JStr ''w1'')]]))"
      by (auto simp: one_wallet_def json_reply_def empty_reply_def res_json_def res_ok_def split: if_splits)
    then show "\<exists>rows. res_json r = Inr (JArr (map JObj rows))" by blast
  qed
  moreover have get: "page_get one_wallet 0 (\<lambda>_. None) path s =
      (Inr (if path = ''/wallets'' then json_reply 200 (JArr [JObj [(''id'', JStr ''w1'')]]) else empty_reply 502), Suc s)" for path s
    by (simp add: page_get_def serverApi_def one_wallet_def callWithToken_def GET_call_def token_cookie_def cookie_get_def given_def)
  moreover have "res_ok (hm_status (json_reply 200 (JArr [JObj [(''id'', JStr ''w1'')]])))"
    by (simp add: json_reply_def res_ok_def)
  ultimately show ?thesis
    using home_survives_outages [of one_wallet 0 "\<lambda>_. None" 0] by simp
qed

section \<open>The other pages\<close>

record profile_view =
  fv_name :: string
  fv_enabled :: "jval option"
  fv_passkeys :: jval

definition profile_name :: "jval option \<Rightarrow> string" where
  "profile_name u =
     (let part = (\<lambda>k. case u of None \<Rightarrow> [] | Some v \<Rightarrow> text_of (jget k v));
          name = trim (part ''firstName'' @ '' '' @ part ''lastName'')
      in if name \<noteq> [] then name else if part ''email'' \<noteq> [] then part ''email'' else ''Your account'')"

definition ProfilePage :: "'s fetch \<Rightarrow> int \<Rightarrow> jar \<Rightarrow> 's \<Rightarrow> profile_view page_end \<times> 's" where
  "ProfilePage fetch t jar =
     signed_in_read fetch t jar ''/auth/2fa/status'' (\<lambda>r s.
       awaiting (if res_ok (hm_status r) then ok_bind (res_json r) (\<lambda>v. prop_of (Some v) ''enabled'') else Inr (Some (JBool False)), s)
       (\<lambda>enabled s. awaiting (page_get fetch t jar ''/auth/passkeys'' s)
       (\<lambda>pk. shown (ok_bind (or_empty pk) (\<lambda>ks.
          Inr \<lparr>fv_name = profile_name (getSessionUser t jar), fv_enabled = enabled, fv_passkeys = ks\<rparr>)))))"

text \<open>What the second-factor screen of the page starts from.\<close>

definition initialEnabled :: "profile_view \<Rightarrow> bool" where
  "initialEnabled v = (case fv_enabled v of None \<Rightarrow> False | Some x \<Rightarrow> js_truthy x)"

definition AlertsPage :: "'s fetch \<Rightarrow> int \<Rightarrow> jar \<Rightarrow> 's \<Rightarrow> (jval \<times> jval) page_end \<times> 's" where
  "AlertsPage fetch t jar s =
     awaiting (both (page_get fetch t jar ''/alerts'' s) (page_get fetch t jar ''/markets'')) (\<lambda>(ar, mr) s.
       if hm_status ar = 401 then (PageRedirect ''/login'', s)
       else shown (ok_bind (or_empty ar) (\<lambda>al. ok_bind (or_empty mr) (\<lambda>as. Inr (al, as)))) s)"

definition PortfolioPage :: "'s fetch \<Rightarrow> int \<Rightarrow> jar \<Rightarrow> 's \<Rightarrow> (jval \<times> jval) page_end \<times> 's" where
  "PortfolioPage fetch t jar s =
     awaiting (both (page_get fetch t jar ''/portfolio'' s) (page_get fetch t jar ''/markets'')) (\<lambda>(hr, mr) s.
       if hm_status hr = 401 then (PageRedirect ''/login'', s)
       else shown (ok_bind (or_empty hr) (\<lambda>hs. ok_bind (or_empty mr) (\<lambda>as. Inr (hs, as)))) s)"

text \<open>\<open>/alerts/new\<close> and \<open>/portfolio/new\<close>: the symbols and names to choose from.\<close>

definition NewAlertPage :: "'s fetch \<Rightarrow> int \<Rightarrow> jar \<Rightarrow> 's \<Rightarrow> (jval option \<times> jval option) list page_end \<times> 's" where
  "NewAlertPage fetch t jar =
     signed_in_read fetch t jar ''/markets'' (\<lambda>r. shown (ok_bind (or_empty r) (\<lambda>v. ok_bind (rows_of v)
       (map_ok (\<lambda>a. ok_bind (prop_of (Some a) ''symbol'') (\<lambda>y. ok_bind (prop_of (Some a) ''name'') (\<lambda>n. Inr (y, n))))))))"

definition AssetDetailPage :: "'s fetch \<Rightarrow> string \<Rightarrow> int \<Rightarrow> jar \<Rightarrow> 's \<Rightarrow> (jval \<times> jval) page_end \<times> 's" where
  "AssetDetailPage fetch i t jar s =
     awaiting (both (page_get fetch t jar (''/markets/'' @ i) s) (page_get fetch t jar (''/markets/'' @ i @ ''/chart?range=1h''))) (\<lambda>(ar, cr) s.
       if hm_status ar = 401 then (PageRedirect ''/login'', s)
       else if \<not> res_ok (hm_status ar) then (PageRedirect ''/markets'', s)
       else shown (ok_bind (res_json ar) (\<lambda>a.
              ok_bind (if res_ok (hm_status cr) then res_json cr else Inr (JObj [(''candles'', JArr [])])) (\<lambda>c. Inr (a, c)))) s)"

text \<open>The first watched asset, else the first of the list.\<close>

definition featured_asset :: "jval list \<Rightarrow> jval option list \<Rightarrow> jval option list \<Rightarrow> jval option" where
  "featured_asset assets symbols followed =
     (case filter (\<lambda>(a, s). List.member followed s) (zip assets symbols) of
        (a, s) # _ \<Rightarrow> Some a | [] \<Rightarrow> (case assets of [] \<Rightarrow> None | a # _ \<Rightarrow> Some a))"

definition MarketsPage :: "'s fetch \<Rightarrow> int \<Rightarrow> jar \<Rightarrow> 's \<Rightarrow> (jval list \<times> jval option list \<times> jval \<times> jval option) page_end \<times> 's" where
  "MarketsPage fetch t jar s =
     awaiting (both (page_get fetch t jar ''/markets'' s)
       (\<lambda>s. both (page_get fetch t jar ''/watchlist'' s) (page_get fetch t jar ''/portfolio''))) (\<lambda>(mr, wr, hr) s.
       if hm_status mr = 401 then (PageRedirect ''/login'', s)
       else awaiting (ok_bind (or_empty mr) (\<lambda>m. ok_bind (or_empty wr) (\<lambda>w. ok_bind (or_empty hr) (\<lambda>hs.
              ok_bind (rows_of w) (\<lambda>ws. ok_bind (map_ok (\<lambda>x. prop_of (Some x) ''symbol'') ws) (\<lambda>followed.
              ok_bind (rows_of m) (\<lambda>as. ok_bind (map_ok (\<lambda>x. prop_of (Some x) ''symbol'') as) (\<lambda>symbols.
                Inr (as, followed, hs, featured_asset as symbols followed)))))))), s)
         (\<lambda>(as, followed, hs, featured) s.
            (case featured of
               None \<Rightarrow> (PageShown (as, followed, hs, None), s)
             | Some f \<Rightarrow>
                 (case serverApiJson fetch t (''/markets/'' @ field_text (jget ''id'' f) @ ''/chart?range=15m'')
                         (JObj [(''candles'', JArr [])]) jar s of
                    (c, s') \<Rightarrow> (PageShown (as, followed, hs, Some c), s')))))"

text \<open>\<open>session.handle ?? session.email.split('@')[0]\<close>\<close>

definition ReceivePage :: "int \<Rightarrow> jar \<Rightarrow> string page_end" where
  "ReceivePage t jar =
     (case present_row (getSessionUser t jar) of
        None \<Rightarrow> PageRedirect ''/login''
      | Some u \<Rightarrow> (case jget ''handle'' u of
          Some (JStr h) \<Rightarrow> PageShown h
        | _ \<Rightarrow> PageShown (takeWhile (\<lambda>c. c \<noteq> CHR ''@'') (text_of (jget ''email'' u)))))"

text \<open>A session the API no longer honours ends at the sign-in page: whichever page of the app reads first
  gets a 401, the visitor is sent to sign in and no further request follows from that page's own flow.\<close>

theorem refused_session_signs_in:
  assumes refused: "\<And>path s. \<exists>m s'. page_get fetch t jar path s = (Inr m, s') \<and> hm_status m = 401"
  shows "fst (HomePage fetch t jar s) = PageRedirect ''/login'' \<and> fst (money_page fetch t jar s) = PageRedirect ''/login''
    \<and> fst (SendPage fetch t h jar s) = PageRedirect ''/login'' \<and> fst (ActivityPage fetch t jar s) = PageRedirect ''/login''
    \<and> fst (ConvertPage fetch t jar s) = PageRedirect ''/login'' \<and> fst (NewWalletPage fetch t jar s) = PageRedirect ''/login''
    \<and> fst (ProfilePage fetch t jar s) = PageRedirect ''/login'' \<and> fst (NewAlertPage fetch t jar s) = PageRedirect ''/login''
    \<and> fst (AlertsPage fetch t jar s) = PageRedirect ''/login'' \<and> fst (PortfolioPage fetch t jar s) = PageRedirect ''/login''
    \<and> fst (MarketsPage fetch t jar s) = PageRedirect ''/login'' \<and> fst (AssetDetailPage fetch i t jar s) = PageRedirect ''/login''"
proof -
  have one: "fst (signed_in_read fetch t jar path k s) = PageRedirect ''/login''" for path k s
    using refused [of path s] by (auto simp: signed_in_read_def awaiting_def)
  have two: "\<exists>a b s'. both (page_get fetch t jar p s) (page_get fetch t jar q) = (Inr (a, b), s') \<and> hm_status a = 401" for p q s
  proof -
    obtain a s1 where "page_get fetch t jar p s = (Inr a, s1)" "hm_status a = 401" using refused by blast
    moreover obtain b s2 where "page_get fetch t jar q s1 = (Inr b, s2)" using refused by blast
    ultimately show ?thesis by (simp add: both_def ok_bind_def)
  qed
  have three: "\<exists>a b s'. both (page_get fetch t jar p s) (\<lambda>s. both (page_get fetch t jar q s) (page_get fetch t jar u)) = (Inr (a, b), s')
      \<and> hm_status a = 401" for p q u s
  proof -
    obtain a s1 where "page_get fetch t jar p s = (Inr a, s1)" "hm_status a = 401" using refused by blast
    moreover obtain b c s2 where "both (page_get fetch t jar q s1) (page_get fetch t jar u) = (Inr (b, c), s2)" using two by blast
    ultimately show ?thesis by (simp add: both_def ok_bind_def)
  qed
  have reads: "fst (awaiting (both (page_get fetch t jar p s) (page_get fetch t jar q))
      (\<lambda>(a, b) s. if hm_status a = 401 then (PageRedirect ''/login'', s) else k a b s)) = PageRedirect ''/login''" for p q k s
    using two [of p s q] by (auto simp: awaiting_def)
  have "fst (money_page fetch t jar s) = PageRedirect ''/login''" by (simp add: money_page_def one)
  then have "fst (SendPage fetch t h jar s) = PageRedirect ''/login''"
    by (cases "money_page fetch t jar s") (simp add: SendPage_def)
  moreover have "fst (MarketsPage fetch t jar s) = PageRedirect ''/login''"
    using three [of "''/markets''" s "''/watchlist''" "''/portfolio''"] by (auto simp: MarketsPage_def awaiting_def)
  ultimately show ?thesis
    by (simp add: HomePage_def money_page_def ActivityPage_def ConvertPage_def NewWalletPage_def ProfilePage_def NewAlertPage_def
        AlertsPage_def PortfolioPage_def AssetDetailPage_def one reads)
qed

definition refusing :: "nat fetch" where
  "refusing c n = (Some (empty_reply 401), Suc n)"

lemma refused_session_signs_in_witness:
  "fst (HomePage refusing 0 (\<lambda>_. None) 0) = PageRedirect ''/login'' \<and>
   fst (MarketsPage refusing 0 (\<lambda>_. None) 0) = PageRedirect ''/login''"
proof -
  have "\<exists>m s'. page_get refusing 0 (\<lambda>_. None) path s = (Inr m, s') \<and> hm_status m = 401" for path s
    by (simp add: page_get_def serverApi_def refusing_def empty_reply_def)
  then show ?thesis using refused_session_signs_in [of refusing 0 "\<lambda>_. None" 0] by blast
qed

text \<open>An outage reads as a second factor that is off. When the API cannot tell the status, with
  any failure but a 401, the profile page takes it to be disabled: its screen offers to enable a second
  factor that may well be on, until the page is opened again.\<close>

theorem outage_reads_as_factor_off:
  assumes "page_get fetch t jar ''/auth/2fa/status'' s = (Inr r, s1)" "hm_status r \<noteq> 401" "\<not> res_ok (hm_status r)"
    and "page_get fetch t jar ''/auth/passkeys'' s1 = (Inr pk, s2)" "\<not> res_ok (hm_status pk)"
  shows "\<exists>v. fst (ProfilePage fetch t jar s) = PageShown v \<and> \<not> says_on (two_factor_start (initialEnabled v))
    \<and> (\<forall>u d. find_user i d = Some u \<and> u_totpEnabled u \<longrightarrow>
         says_on (two_factor_start (initialEnabled v)) \<noteq> twofa_status i d)"
  using assms
  by (simp add: ProfilePage_def signed_in_read_def awaiting_def shown_def ok_bind_def or_empty_def initialEnabled_def
      js_truthy_def says_on_def two_factor_start_def twofa_status_def)

lemma outage_reads_as_factor_off_witness:
  "\<exists>v. fst (ProfilePage failing 0 (\<lambda>_. None) ()) = PageShown v \<and> \<not> says_on (two_factor_start (initialEnabled v))"
proof -
  have get: "page_get failing 0 (\<lambda>_. None) path s = (Inr (empty_reply 500), s)" for path s
    by (simp add: page_get_def serverApi_def failing_def)
  have "hm_status (empty_reply 500) \<noteq> 401" "\<not> res_ok (hm_status (empty_reply 500))"
    by (simp_all add: empty_reply_def res_ok_def)
  from outage_reads_as_factor_off [OF get this get this(2)] show ?thesis by blast
qed

end
