(* ===== verification/Dashboard.thy ===== *)
theory Dashboard
  imports CustomerPages
begin

text \<open>
  The console's start page as the staff read it (\<open>frontend/app/(dashboard)/page.tsx\<close> and
  \<open>components/dashboard/\<close>): the three tiles, the oldest requests and the system card, computed from
  the bodies of \<open>/admin/overview\<close> and \<open>/health\<close>, which \<open>overview_json\<close> and \<open>health_json\<close> write as the API
  does. The lemmas relate what is shown to the tables, and show what an outage reads as. A long dash
  is written \<open>--\<close>; the age of a request (\<open>relativeTime\<close> of its ISO text) is a parameter.
\<close>

section \<open>The bodies\<close>

definition total_json :: "type_total \<Rightarrow> jval" where
  "total_json g = JObj [(''count'', jint (int (tt_count g))), (''amount'', jint (tt_amount g))]"

definition pending_json :: "pending_row \<Rightarrow> jval" where
  "pending_json r = JObj [(''id'', JStr (t_id (pr_txn r))), (''type'', JStr (type_text (t_type (pr_txn r)))),
     (''amount'', jint (t_amount (pr_txn r))), (''note'', jopt (t_note (pr_txn r))),
     (''createdAt'', JStr (iso_string (t_createdAt (pr_txn r)))),
     (''wallet'', JObj [(''id'', JStr (pr_walletId r)), (''name'', JStr (pr_walletName r)), (''currency'', JStr (pr_currency r)),
        (''user'', JObj [(''email'', JStr (pr_email r))])])]"

definition overview_json :: "overview_report \<Rightarrow> jval" where
  "overview_json r = JObj
     [(''pending'', JObj [(''count'', jint (int (ov_pendingCount r))), (''oldestCreatedAt'', jopt (ov_oldestCreatedAt r)),
        (''byType'', JObj [(''deposit'', total_json (ov_deposit r)), (''withdrawal'', total_json (ov_withdrawal r))])]),
      (''today'', JObj [(''approved'', jint (int (ov_approved r))), (''rejected'', jint (int (ov_rejected r)))]),
      (''oldestPending'', JArr (map pending_json (ov_oldestPending r)))]"

definition up_text :: "up_down \<Rightarrow> string" where
  "up_text u = (case u of Up \<Rightarrow> ''up'' | Down \<Rightarrow> ''down'')"

definition health_json :: "health_report \<Rightarrow> jval" where
  "health_json r = JObj [(''status'', JStr (case hh_status r of HealthOk \<Rightarrow> ''ok'' | Degraded \<Rightarrow> ''degraded'')),
     (''db'', JStr (up_text (hh_db r))), (''redis'', JStr (up_text (hh_redis r))), (''rabbitmq'', JStr (up_text (hh_rabbitmq r))),
     (''outboxPending'', case hh_outboxPending r of None \<Rightarrow> JNull | Some n \<Rightarrow> jint (int n)),
     (''deadLetters'', case hh_deadLetters r of None \<Rightarrow> JNull | Some n \<Rightarrow> jint (int n))]"

section \<open>Reading them\<close>

text \<open>\<open>v?.k\<close>, and \<open>v.k1.k2\<close>, which throws where a link is missing.\<close>

definition opt_prop :: "jval option \<Rightarrow> string \<Rightarrow> jval option" where
  "opt_prop v k = (case v of None \<Rightarrow> None | Some JNull \<Rightarrow> None | Some j \<Rightarrow> jget k j)"

fun prop_path :: "jval option \<Rightarrow> string list \<Rightarrow> exn + jval option" where
  "prop_path v [] = Inr v"
| "prop_path v (k # ks) = ok_bind (prop_of v k) (\<lambda>x. prop_path x ks)"

text \<open>A number of the report; all of them are integers.\<close>

definition int_at :: "jval option \<Rightarrow> int" where
  "int_at v = (case v of Some (JNum n) \<Rightarrow> \<lfloor>n\<rfloor> | _ \<Rightarrow> 0)"

definition int_or_dash :: "jval option \<Rightarrow> string" where
  "int_or_dash v = (case v of Some (JNum n) \<Rightarrow> show_int \<lfloor>n\<rfloor> | _ \<Rightarrow> ''--'')"

definition plural :: "int \<Rightarrow> string \<Rightarrow> string" where
  "plural n w = show_int n @ '' '' @ w @ (if n = 1 then [] else ''s'')"

text \<open>\<open>replace(' ago', '')\<close>: the first occurrence.\<close>

fun strip_ago :: "string \<Rightarrow> string" where
  "strip_ago [] = []"
| "strip_ago (c # cs) = (if starts_with (c # cs) '' ago'' then drop 4 (c # cs) else c # strip_ago cs)"

section \<open>The tiles\<close>

datatype stat_tone = NeutralStat | PendingStat
datatype stat_value = StatText string | StatMoney int string

record stat_tile =
  st_label :: string
  st_value :: stat_value
  st_tone :: stat_tone
  st_hint :: "string option"

definition pending_tile :: "(string \<Rightarrow> string) \<Rightarrow> jval option \<Rightarrow> stat_tile" where
  "pending_tile ago p =
     \<lparr>st_label = ''Pending approvals'', st_value = StatText (int_or_dash (opt_prop p ''count'')),
      st_tone = (if jtruthy p \<and> 0 < int_at (opt_prop p ''count'') then PendingStat else NeutralStat),
      st_hint = Some (case opt_prop p ''oldestCreatedAt'' of
        Some (JStr (c # cs)) \<Rightarrow> ''Oldest has waited '' @ strip_ago (ago (c # cs)) | _ \<Rightarrow> ''Nothing waiting'')\<rparr>"

definition by_type :: "jval option \<Rightarrow> string \<Rightarrow> exn + int \<times> int" where
  "by_type p k =
     ok_bind (prop_path p [''byType'', k, ''count'']) (\<lambda>n.
     ok_bind (prop_path p [''byType'', k, ''amount'']) (\<lambda>a. Inr (int_at n, int_at a)))"

text \<open>The amounts of all currencies are added up and shown in dollars.\<close>

definition in_flight_tile :: "jval option \<Rightarrow> exn + stat_tile" where
  "in_flight_tile p =
     (if \<not> jtruthy p
      then Inr \<lparr>st_label = ''Money in flight'', st_value = StatText ''--'', st_tone = NeutralStat, st_hint = None\<rparr>
      else ok_bind (by_type p ''deposit'') (\<lambda>(dn, da). ok_bind (by_type p ''withdrawal'') (\<lambda>(wn, wa).
        Inr \<lparr>st_label = ''Money in flight'', st_value = StatMoney (da + wa) ''USD'', st_tone = NeutralStat,
          st_hint = Some (plural dn ''deposit'' @ '' - '' @ plural wn ''withdrawal'')\<rparr>)))"

definition decided_tile :: "jval option \<Rightarrow> exn + stat_tile" where
  "decided_tile ov =
     (if \<not> jtruthy ov
      then Inr \<lparr>st_label = ''Decided today'', st_value = StatText ''--'', st_tone = NeutralStat, st_hint = None\<rparr>
      else ok_bind (prop_path ov [''today'', ''approved'']) (\<lambda>a. ok_bind (prop_path ov [''today'', ''rejected'']) (\<lambda>r.
        Inr \<lparr>st_label = ''Decided today'', st_value = StatText (show_int (int_at a + int_at r)), st_tone = NeutralStat,
          st_hint = Some (show_int (int_at a) @ '' approved - '' @ show_int (int_at r) @ '' rejected'')\<rparr>)))"

definition queue_headline :: "jval option \<Rightarrow> string" where
  "queue_headline p =
     (if jtruthy p \<and> 0 < int_at (opt_prop p ''count'')
      then plural (int_at (opt_prop p ''count'')) ''request'' @ '' waiting for a decision.'' else ''The queue is clear.'')"

section \<open>The oldest requests\<close>

record decision_item =
  di_id :: string
  di_type :: string
  di_amount :: int
  di_currency :: string
  di_email :: string
  di_walletName :: string
  di_note :: "string option"
  di_createdAt :: string

definition decision_item :: "jval \<Rightarrow> exn + decision_item" where
  "decision_item r =
     ok_bind (prop_path (Some r) [''wallet'', ''currency'']) (\<lambda>c.
     ok_bind (prop_path (Some r) [''wallet'', ''user'', ''email'']) (\<lambda>e.
     ok_bind (prop_path (Some r) [''wallet'', ''name'']) (\<lambda>n.
       Inr \<lparr>di_id = text_of (jget ''id'' r), di_type = text_of (jget ''type'' r), di_amount = int_at (jget ''amount'' r),
         di_currency = text_of c, di_email = text_of e, di_walletName = text_of n,
         di_note = (case jget ''note'' r of Some (JStr (x # xs)) \<Rightarrow> Some (x # xs) | _ \<Rightarrow> None),
         di_createdAt = text_of (jget ''createdAt'' r)\<rparr>)))"

text \<open>\<open>subject.type === 'withdrawal'\<close> decides which permission the two buttons ask for.\<close>

definition item_allowed :: "string \<Rightarrow> decision_item \<Rightarrow> bool" where
  "item_allowed role i = decision_allowed role (if di_type i = ''withdrawal'' then WithdrawalRequest else DepositRequest)"

record needs_decision =
  nd_viewAll :: "string option"
  nd_empty :: "string option"
  nd_items :: "(decision_item \<times> bool) list"

definition NeedsDecision :: "jval list \<Rightarrow> int \<Rightarrow> string \<Rightarrow> exn + needs_decision" where
  "NeedsDecision rows queued role = ok_bind (map_ok decision_item rows) (\<lambda>items.
     Inr \<lparr>nd_viewAll = (if 0 < queued then Some (''View all '' @ show_int queued) else None),
       nd_empty = (if rows = [] then Some ''Every request has been decided.'' else None),
       nd_items = map (\<lambda>i. (i, item_allowed role i)) items\<rparr>)"

section \<open>The system card\<close>

record system_shown =
  sh_deps :: "(string \<times> bool) list"
  sh_outbox :: "string \<times> bool"
  sh_dead :: "string \<times> bool"

definition is_up :: "jval option \<Rightarrow> bool" where
  "is_up v \<longleftrightarrow> (case v of Some (JStr s) \<Rightarrow> s = ''up'' | _ \<Rightarrow> False)"

definition counter :: "jval option \<Rightarrow> string \<times> bool" where
  "counter v = (int_or_dash v, 0 < int_at v)"

text \<open>\<open>None\<close> is "Health check unavailable."; a counter is its text and whether it is coloured.\<close>

definition SystemCard :: "jval option \<Rightarrow> system_shown option" where
  "SystemCard health =
     (case present_row health of
        None \<Rightarrow> None
      | Some h \<Rightarrow> Some \<lparr>sh_deps = [(''Postgres'', is_up (jget ''db'' h)), (''Redis'', is_up (jget ''redis'' h)),
           (''RabbitMQ'', is_up (jget ''rabbitmq'' h))],
         sh_outbox = counter (jget ''outboxPending'' h), sh_dead = counter (jget ''deadLetters'' h)\<rparr>)"

section \<open>The page\<close>

record dashboard_screen =
  ds_description :: string
  ds_tiles :: "stat_tile list"
  ds_needs :: needs_decision
  ds_system :: "system_shown option option"

definition oldest_rows :: "jval option \<Rightarrow> jval list" where
  "oldest_rows ov = (case opt_prop ov ''oldestPending'' of Some (JArr xs) \<Rightarrow> xs | _ \<Rightarrow> [])"

definition dashboard_screen :: "(string \<Rightarrow> string) \<Rightarrow> string \<Rightarrow> dashboard_view \<Rightarrow> exn + dashboard_screen" where
  "dashboard_screen ago role v =
     (let ov = dv_overview v; p = opt_prop ov ''pending''
      in ok_bind (in_flight_tile p) (\<lambda>flight. ok_bind (decided_tile ov) (\<lambda>decided.
         ok_bind (NeedsDecision (oldest_rows ov) (int_at (opt_prop p ''count'')) role) (\<lambda>needs.
           Inr \<lparr>ds_description = queue_headline p, ds_tiles = [pending_tile ago p, flight, decided], ds_needs = needs,
             ds_system = map_option SystemCard (dv_health v)\<rparr>))))"

section \<open>What the staff see is the queue\<close>

lemma int_at_simps [simp]: "int_at (Some (jint n)) = n" "int_at None = 0" "int_or_dash (Some (jint n)) = show_int n"
  by (simp_all add: int_at_def int_or_dash_def jint_def)

lemma opt_prop_simps [simp]:
  "opt_prop None k = None" "opt_prop (Some JNull) k = None" "opt_prop (Some (JObj fs)) k = map_of fs k"
  by (simp_all add: opt_prop_def jget_def)

lemma prop_of_obj [simp]: "prop_of (Some (JObj fs)) k = Inr (map_of fs k)"
  by (simp add: prop_of_def jget_def)

lemma ok_bind_simps [simp]: "ok_bind (Inr a) k = k a" "ok_bind (Inl e) k = Inl e"
  by (simp_all add: ok_bind_def)

lemma jtruthy_obj [simp]: "jtruthy (Some (JObj fs))" "\<not> jtruthy None"
  by (simp_all add: jtruthy_def)

definition row_item :: "pending_row \<Rightarrow> decision_item" where
  "row_item r = \<lparr>di_id = t_id (pr_txn r), di_type = type_text (t_type (pr_txn r)), di_amount = t_amount (pr_txn r),
     di_currency = pr_currency r, di_email = pr_email r, di_walletName = pr_walletName r,
     di_note = (if given (t_note (pr_txn r)) then t_note (pr_txn r) else None),
     di_createdAt = iso_string (t_createdAt (pr_txn r))\<rparr>"

lemma decision_item_row [simp]: "decision_item (pending_json r) = Inr (row_item r)"
  by (simp add: decision_item_def pending_json_def row_item_def jget_def text_of_def jopt_def given_def
      split: option.splits list.splits)

lemma decision_items [simp]: "map_ok decision_item (map pending_json rows) = Inr (map row_item rows)"
  by (induction rows) simp_all

lemma in_flight_of_report:
  "in_flight_tile (opt_prop (Some (overview_json r)) ''pending'') =
     Inr \<lparr>st_label = ''Money in flight'', st_value = StatMoney (tt_amount (ov_deposit r) + tt_amount (ov_withdrawal r)) ''USD'',
       st_tone = NeutralStat, st_hint = Some (plural (int (tt_count (ov_deposit r))) ''deposit'' @ '' - ''
         @ plural (int (tt_count (ov_withdrawal r))) ''withdrawal'')\<rparr>"
  by (simp add: overview_json_def in_flight_tile_def by_type_def total_json_def)

lemma decided_of_report:
  "decided_tile (Some (overview_json r)) =
     Inr \<lparr>st_label = ''Decided today'', st_value = StatText (show_int (int (ov_approved r) + int (ov_rejected r))),
       st_tone = NeutralStat, st_hint = Some (show_int (int (ov_approved r)) @ '' approved - ''
         @ show_int (int (ov_rejected r)) @ '' rejected'')\<rparr>"
  by (simp add: overview_json_def decided_tile_def)

lemma headline_of_report:
  "queue_headline (opt_prop (Some (overview_json r)) ''pending'') =
     (if ov_pendingCount r = 0 then ''The queue is clear.''
      else plural (int (ov_pendingCount r)) ''request'' @ '' waiting for a decision.'')"
  by (simp add: overview_json_def queue_headline_def)

lemma rows_of_report [simp]: "oldest_rows (Some (overview_json r)) = map pending_json (ov_oldestPending r)"
  by (simp add: oldest_rows_def overview_json_def)

lemma count_of_report [simp]:
  "int_at (opt_prop (opt_prop (Some (overview_json r)) ''pending'') ''count'') = int (ov_pendingCount r)"
  by (simp add: overview_json_def)

lemma screen_of_report:
  "\<exists>x. dashboard_screen ago role \<lparr>dv_greeting = g, dv_overview = Some (overview_json r), dv_health = h\<rparr> = Inr x \<and>
     ds_description x = (if ov_pendingCount r = 0 then ''The queue is clear.''
       else plural (int (ov_pendingCount r)) ''request'' @ '' waiting for a decision.'') \<and>
     st_value (ds_tiles x ! 1) = StatMoney (tt_amount (ov_deposit r) + tt_amount (ov_withdrawal r)) ''USD'' \<and>
     ds_needs x = \<lparr>nd_viewAll = (if ov_pendingCount r = 0 then None else Some (''View all '' @ show_int (int (ov_pendingCount r)))),
       nd_empty = (if ov_oldestPending r = [] then Some ''Every request has been decided.'' else None),
       nd_items = map (\<lambda>p. (row_item p, item_allowed role (row_item p))) (ov_oldestPending r)\<rparr>"
  by (simp add: dashboard_screen_def Let_def in_flight_of_report decided_of_report headline_of_report NeedsDecision_def)

lemma overview_read:
  assumes "console_user t jar = Some u" "roleHasPermission (session_role u) ''transaction.view_all''"
    and "page_get fetch t jar ''/admin/overview'' s = m"
  shows "\<exists>h. fst (DashboardPage fetch hour t jar s) =
    PageShown \<lparr>dv_greeting = greeting hour, dv_overview = fst (read_or_null True m), dv_health = h\<rparr>"
  using assms by (auto simp: DashboardPage_def Let_def split: prod.splits)

text \<open>C32: the start page of the console tells the queue as it is. For a role that may see it, when the
  overview is answered, the headline and the link count the pending requests of the tables, the list is the head of
  the approvals queue, each with its wallet, owner and amount, the list is called done only when the
  queue is empty, and the money in flight is the sum of the pending deposits and withdrawals
  (of every currency, labelled as dollars).\<close>

theorem dashboard_shows_queue:
  fixes d :: db
  assumes "console_user t jar = Some u" "roleHasPermission (session_role u) ''transaction.view_all''"
    and "page_get fetch t jar ''/admin/overview'' s = (Inr (json_reply 200 (overview_json (overview sod t0 d))), s1)"
  defines "q \<equiv> listPending d" and "n \<equiv> int (length (listPending d))"
  shows "\<exists>v x. fst (DashboardPage fetch hour t jar s) = PageShown v \<and> dashboard_screen ago (session_role u) v = Inr x \<and>
    ds_description x = (if q = [] then ''The queue is clear.'' else plural n ''request'' @ '' waiting for a decision.'') \<and>
    map fst (nd_items (ds_needs x)) = map row_item (take 5 q) \<and>
    nd_viewAll (ds_needs x) = (if q = [] then None else Some (''View all '' @ show_int n)) \<and>
    (nd_empty (ds_needs x) = Some ''Every request has been decided.'' \<longleftrightarrow> q = []) \<and>
    st_value (ds_tiles x ! 1) =
      StatMoney (sum_list (map t_amount (filter (\<lambda>t. t_type t = Deposit) (map pr_txn q)))
        + sum_list (map t_amount (filter (\<lambda>t. t_type t = Withdrawal) (map pr_txn q)))) ''USD''"
proof -
  define r where "r = overview sod t0 d"
  have body: "fst (read_or_null True (page_get fetch t jar ''/admin/overview'' s)) = Some (overview_json r)"
    by (simp add: assms(3) read_or_null_def json_reply_def res_ok_def res_json_def r_def)
  obtain h where page: "fst (DashboardPage fetch hour t jar s) =
      PageShown \<lparr>dv_greeting = greeting hour, dv_overview = Some (overview_json r), dv_health = h\<rparr>"
    using overview_read [OF assms(1,2) refl, of fetch hour s] unfolding body by blast
  obtain x where x: "dashboard_screen ago (session_role u)
      \<lparr>dv_greeting = greeting hour, dv_overview = Some (overview_json r), dv_health = h\<rparr> = Inr x"
    and shown: "ds_description x = (if ov_pendingCount r = 0 then ''The queue is clear.''
        else plural (int (ov_pendingCount r)) ''request'' @ '' waiting for a decision.'')"
      "st_value (ds_tiles x ! 1) = StatMoney (tt_amount (ov_deposit r) + tt_amount (ov_withdrawal r)) ''USD''"
      "ds_needs x = \<lparr>nd_viewAll = (if ov_pendingCount r = 0 then None else Some (''View all '' @ show_int (int (ov_pendingCount r)))),
        nd_empty = (if ov_oldestPending r = [] then Some ''Every request has been decided.'' else None),
        nd_items = map (\<lambda>p. (row_item p, item_allowed (session_role u) (row_item p))) (ov_oldestPending r)\<rparr>"
    using screen_of_report [of ago "session_role u" "greeting hour" r h] by (elim exE conjE) (rule that)
  have "ov_oldestPending r = take 5 q" "ov_pendingCount r = length q"
    "tt_amount (ov_deposit r) = sum_list (map t_amount (filter (\<lambda>t. t_type t = Deposit) (map pr_txn q)))"
    "tt_amount (ov_withdrawal r) = sum_list (map t_amount (filter (\<lambda>t. t_type t = Withdrawal) (map pr_txn q)))"
    using overview_matches_queue [of sod t0 d] by (simp_all add: r_def q_def)
  then show ?thesis using page x shown by (auto simp: n_def q_def [symmetric] comp_def)
qed

definition mixed_queue :: db where
  "mixed_queue = empty_db\<lparr>
     wallets := [demo_wallet ''w1'' ''u1'' 1000, (demo_wallet ''w2'' ''u1'' 1000)\<lparr>w_currency := ''EUR''\<rparr>],
     txns := [pending_txn (money_ctx ''a'') ''t1'' ''w1'' Withdrawal 250 ''u1'' None,
              pending_txn (money_ctx ''b'') ''t2'' ''w2'' Withdrawal 100 ''u1'' None]\<rparr>"

definition overview_api :: "db \<Rightarrow> unit fetch" where
  "overview_api d c s = (Some (json_reply 200 (overview_json (overview id 0 d))), s)"

lemma finance_user:
  "console_user 0 finance_jar = Some (JObj [(''role'', JStr ''finance'')])"
  "roleHasPermission (session_role (JObj [(''role'', JStr ''finance'')])) ''transaction.view_all''"
  by (simp_all add: console_user_def getSessionUser_def cookie_get_def finance_jar_def js_truthy_def session_role_def jget_def
      roleHasPermission_def permissionsForRole_def console_ROLE_PERMISSIONS_def List.member_iff)

text \<open>Two dollars fifty and one euro are shown as three dollars fifty.\<close>

lemma dashboard_shows_queue_witness:
  "\<exists>v x. fst (DashboardPage (overview_api mixed_queue) 9 0 finance_jar ()) = PageShown v \<and>
     dashboard_screen id ''finance'' v = Inr x \<and> st_value (ds_tiles x ! 1) = StatMoney 350 ''USD'' \<and>
     map (di_currency \<circ> fst) (nd_items (ds_needs x)) = [''USD'', ''EUR'']"
proof -
  have get: "page_get (overview_api mixed_queue) 0 finance_jar ''/admin/overview'' () =
      (Inr (json_reply 200 (overview_json (overview id 0 mixed_queue))), ())"
    by (simp add: page_get_def serverApi_def overview_api_def)
  have q: "listPending mixed_queue = map (pending_view mixed_queue) (txns mixed_queue)"
    by (simp add: listPending_def mixed_queue_def pending_txn_def order_asc_def money_ctx_def)
  have cur: "map (di_currency \<circ> row_item) (take 5 (listPending mixed_queue)) = [''USD'', ''EUR'']"
    and amounts: "map pr_txn (listPending mixed_queue) = txns mixed_queue"
    unfolding q by (simp_all add: mixed_queue_def pending_txn_def pending_view_def find_wallet_def demo_wallet_def row_item_def)
  have sums: "sum_list (map t_amount (filter (\<lambda>t. t_type t = Deposit) (txns mixed_queue))) = 0"
    "sum_list (map t_amount (filter (\<lambda>t. t_type t = Withdrawal) (txns mixed_queue))) = 350"
    by (simp_all add: mixed_queue_def pending_txn_def)
  have role: "session_role (JObj [(''role'', JStr ''finance'')]) = ''finance''" by (simp add: session_role_def jget_def)
  have currencies: "map (di_currency \<circ> fst) xs = map di_currency (map fst xs)" for xs :: "(decision_item \<times> bool) list"
    by simp
  have each: "map di_currency (map row_item rows) = map (di_currency \<circ> row_item) rows" for rows by simp
  note shown = dashboard_shows_queue [OF finance_user get, of 9 id, unfolded amounts sums role add_0]
  show ?thesis
    unfolding currencies
    by (rule exE [OF shown], erule exE, elim conjE) (rule exI, rule exI, intro conjI, assumption, assumption, assumption,
      simp only: each cur)
qed

text \<open>C37 (a defect): an outage reads as an empty queue. When the overview cannot be read, because the API
  is not reached or answers with an error, the console's start page says that the queue is clear, that nothing
  is waiting and that every request has been decided, whatever is waiting in the tables.\<close>

theorem outage_reads_as_clear_queue:
  assumes "console_user t jar = Some u" "roleHasPermission (session_role u) ''transaction.view_all''"
    and "case page_get fetch t jar ''/admin/overview'' s of
      (Inl e, s1) \<Rightarrow> True | (Inr r, s1) \<Rightarrow> \<not> res_ok (hm_status r)"
  shows "\<exists>v x. fst (DashboardPage fetch hour t jar s) = PageShown v \<and> dashboard_screen ago (session_role u) v = Inr x \<and>
    ds_description x = ''The queue is clear.'' \<and> st_hint (ds_tiles x ! 0) = Some ''Nothing waiting'' \<and>
    ds_needs x = \<lparr>nd_viewAll = None, nd_empty = Some ''Every request has been decided.'', nd_items = []\<rparr>"
proof -
  have "fst (read_or_null True (page_get fetch t jar ''/admin/overview'' s)) = None"
    using assms(3) by (auto simp: read_or_null_def split: prod.splits sum.splits)
  then obtain h where page: "fst (DashboardPage fetch hour t jar s) =
      PageShown \<lparr>dv_greeting = greeting hour, dv_overview = None, dv_health = h\<rparr>"
    using overview_read [OF assms(1,2) refl, of fetch hour s] by metis
  show ?thesis unfolding page
    by (simp add: dashboard_screen_def Let_def in_flight_tile_def decided_tile_def oldest_rows_def NeedsDecision_def
        queue_headline_def pending_tile_def)
qed

lemma outage_reads_as_clear_queue_witness:
  "\<exists>v x. fst (DashboardPage failing 9 0 finance_jar ()) = PageShown v \<and> dashboard_screen id ''finance'' v = Inr x \<and>
     ds_description x = ''The queue is clear.''"
proof -
  have get: "page_get failing 0 finance_jar ''/admin/overview'' () = (Inr (empty_reply 500), ())"
    by (simp add: page_get_def serverApi_def failing_def)
  have role: "session_role (JObj [(''role'', JStr ''finance'')]) = ''finance''" by (simp add: session_role_def jget_def)
  show ?thesis
    using outage_reads_as_clear_queue [OF finance_user, of failing "()" 9 id] unfolding get role
    by (auto simp: empty_reply_def res_ok_def)
qed

section \<open>The system card\<close>

text \<open>The health report is shown as it is; an error envelope in its place, as the page does not look at the status,
  reads as three dependencies that are down.\<close>

lemma system_card_of_report:
  "SystemCard (Some (health_json r)) = Some
     \<lparr>sh_deps = [(''Postgres'', hh_db r = Up), (''Redis'', hh_redis r = Up), (''RabbitMQ'', hh_rabbitmq r = Up)],
       sh_outbox = (case hh_outboxPending r of None \<Rightarrow> (''--'', False) | Some n \<Rightarrow> (show_int (int n), 0 < n)),
       sh_dead = (case hh_deadLetters r of None \<Rightarrow> (''--'', False) | Some n \<Rightarrow> (show_int (int n), 0 < n))\<rparr>"
proof -
  have up: "is_up (Some (JStr (up_text u))) \<longleftrightarrow> u = Up" for u by (cases u) (simp_all add: is_up_def up_text_def)
  have "counter (Some (case v of None \<Rightarrow> JNull | Some n \<Rightarrow> jint (int n))) =
      (case v of None \<Rightarrow> (''--'', False) | Some n \<Rightarrow> (show_int (int n), 0 < n))" for v
    by (cases v) (simp_all add: counter_def int_or_dash_def int_at_def jint_def)
  then show ?thesis by (simp add: SystemCard_def present_row_def js_truthy_def health_json_def jget_def up)
qed

lemma envelope_reads_as_all_down:
  "\<exists>x. SystemCard (Some (error_json b)) = Some x \<and> sh_deps x = [(''Postgres'', False), (''Redis'', False), (''RabbitMQ'', False)]"
  by (cases "eb_details b") (simp_all add: SystemCard_def present_row_def js_truthy_def error_json_def details_json_def
      jget_def is_up_def)

end
