(* ===== verification/Browsing.thy ===== *)
theory Browsing
  imports CustomerPages
begin

text \<open>
  Opening a page of either app, as the browser lives it: the request passes the proxy (\<open>proxy.ts\<close>),
  the layout and the page render on the Next server, and every redirect is followed. \<open>browse\<close> does
  that for a given number of requests; the time of one navigation does not pass. The API is any
  state transformer, or (\<open>guarded_api\<close>) one that asks its token guard first, as every API route
  these pages read does. The theorems say when a navigation settles on a page, and when it never
  does; and how long the identity that the layouts read lives.
\<close>

section \<open>Following redirects\<close>

fun browse ::
  "nat \<Rightarrow> (string \<Rightarrow> jar \<Rightarrow> 's \<Rightarrow> (exn + edge_reply) \<times> jar \<times> 's) \<Rightarrow> (string \<Rightarrow> jar \<Rightarrow> 's \<Rightarrow> 'v page_end \<times> 's)
     \<Rightarrow> string \<Rightarrow> jar \<Rightarrow> 's \<Rightarrow> (string \<times> 'v page_end) option" where
  "browse 0 proxy render path jar s = None"
| "browse (Suc n) proxy render path jar s =
     (case proxy path jar s of
        (Inl e, jar', s') \<Rightarrow> Some (path, PageError e)
      | (Inr (EdgeRedirect l), jar', s') \<Rightarrow> browse n proxy render l jar' s'
      | (Inr EdgeNext, jar', s') \<Rightarrow>
          (case render path jar' s' of
             (PageRedirect l, s'') \<Rightarrow> browse n proxy render l jar' s''
           | (p, s'') \<Rightarrow> Some (path, p)))"

definition plain :: "'v page_end \<times> 's \<Rightarrow> unit page_end \<times> 's" where
  "plain p = map_prod (map_page_end (\<lambda>_. ())) id p"

text \<open>The pages under \<open>app/(app)\<close>, by their paths; \<open>/pay/send\<close> without a handle in its query.\<close>

definition ASSET_PATH :: string where "ASSET_PATH = ''/markets/''"

text \<open>A folder \<open>[id]\<close> matches one segment of the path that is not empty.\<close>

definition dynamic_id :: "string \<Rightarrow> string \<Rightarrow> string option" where
  "dynamic_id pre path =
     (if starts_with path pre \<and> drop (length pre) path \<noteq> [] \<and> CHR ''/'' \<notin> set (drop (length pre) path)
      then Some (drop (length pre) path) else None)"

lemma dynamic_id_iff: "dynamic_id pre path = Some i \<longleftrightarrow> path = pre @ i \<and> i \<noteq> [] \<and> CHR ''/'' \<notin> set i"
  by (auto simp: dynamic_id_def starts_with_def) (metis append_take_drop_id)

definition customer_page :: "'s fetch \<Rightarrow> int \<Rightarrow> string \<Rightarrow> jar \<Rightarrow> 's \<Rightarrow> unit page_end \<times> 's" where
  "customer_page fetch t path jar s =
     (if path = ''/'' then plain (HomePage fetch t jar s)
      else if path = ''/deposit'' \<or> path = ''/withdraw'' then plain (money_page fetch t jar s)
      else if path = ''/pay'' then plain (PayPage fetch t jar s)
      else if path = ''/pay/send'' then plain (SendPage fetch t None jar s)
      else if path = ''/pay/receive'' then plain (ReceivePage t jar, s)
      else if path = ''/pay/scan'' then (PageShown (), s)
      else if path = ''/activity'' then plain (ActivityPage fetch t jar s)
      else if path = ''/convert'' then plain (ConvertPage fetch t jar s)
      else if path = ''/wallets/new'' then plain (NewWalletPage fetch t jar s)
      else if path = ''/profile'' then plain (ProfilePage fetch t jar s)
      else if path = ''/alerts'' then plain (AlertsPage fetch t jar s)
      else if path = ''/alerts/new'' \<or> path = ''/portfolio/new'' then plain (NewAlertPage fetch t jar s)
      else if path = ''/portfolio'' then plain (PortfolioPage fetch t jar s)
      else if path = ''/markets'' then plain (MarketsPage fetch t jar s)
      else case dynamic_id ASSET_PATH path of
             Some i \<Rightarrow> plain (AssetDetailPage fetch i t jar s) | None \<Rightarrow> (PageFailed ''Not found'', s))"

definition customer_render :: "'s fetch \<Rightarrow> int \<Rightarrow> string \<Rightarrow> jar \<Rightarrow> 's \<Rightarrow> unit page_end \<times> 's" where
  "customer_render fetch t path jar s =
     (if is_public customer_public path then (PageShown (), s)
      else case AppLayout t jar of
             PageRedirect l \<Rightarrow> (PageRedirect l, s)
           | _ \<Rightarrow> customer_page fetch t path jar s)"

definition customer_browse ::
  "nat \<Rightarrow> 's fetch \<Rightarrow> bool \<Rightarrow> int \<Rightarrow> string \<Rightarrow> jar \<Rightarrow> 's \<Rightarrow> (string \<times> unit page_end) option" where
  "customer_browse n fetch secure t = browse n (customer_proxy fetch secure t) (customer_render fetch t)"

text \<open>The pages under \<open>app/(dashboard)\<close>, with the query string of the three tables.\<close>

record table_env =
  te_enc :: "string \<Rightarrow> string"
  te_num :: "string \<Rightarrow> js_number"
  te_raw :: "string \<Rightarrow> raw_param option"
  te_hour :: nat

definition WALLET_PATH :: string where "WALLET_PATH = ''/wallets/''"

definition console_page :: "table_env \<Rightarrow> 's fetch \<Rightarrow> int \<Rightarrow> string \<Rightarrow> jar \<Rightarrow> 's \<Rightarrow> unit page_end \<times> 's" where
  "console_page e fetch t path jar s =
     (if path = ''/'' then plain (DashboardPage fetch (te_hour e) t jar s)
      else if path = ''/approvals'' then plain (ApprovalsPage fetch t jar s)
      else if path = ''/wallets'' then plain (WalletsPage fetch (te_enc e) (te_num e) (te_raw e) t jar s)
      else if path = ''/users'' then plain (UsersPage fetch (te_enc e) (te_num e) (te_raw e) t jar s)
      else if path = ''/audit'' then plain (AuditPage fetch (te_enc e) (te_num e) (te_raw e) t jar s)
      else case dynamic_id WALLET_PATH path of
             Some i \<Rightarrow> plain (WalletDetailPage fetch i t jar s) | None \<Rightarrow> (PageFailed ''Not found'', s))"

definition console_render :: "table_env \<Rightarrow> 's fetch \<Rightarrow> int \<Rightarrow> string \<Rightarrow> jar \<Rightarrow> 's \<Rightarrow> unit page_end \<times> 's" where
  "console_render e fetch t path jar s =
     (if is_public console_public path then (PageShown (), s)
      else case DashboardLayout fetch t jar s of
             (PageRedirect l, s') \<Rightarrow> (PageRedirect l, s')
           | (PageError x, s') \<Rightarrow> (PageError x, s')
           | (_, s') \<Rightarrow> console_page e fetch t path jar s')"

definition console_browse ::
  "nat \<Rightarrow> table_env \<Rightarrow> 's fetch \<Rightarrow> bool \<Rightarrow> int \<Rightarrow> string \<Rightarrow> jar \<Rightarrow> 's \<Rightarrow> (string \<times> unit page_end) option" where
  "console_browse n e fetch secure t = browse n (console_proxy fetch secure t) (console_render e fetch t)"

section \<open>The identity mirror\<close>

text \<open>The mirror is absent or holds what sign-in put there.\<close>

definition mirror_ok :: "int \<Rightarrow> jar \<Rightarrow> bool" where
  "mirror_ok t jar \<longleftrightarrow> (cookie_has t SESSION_USER_COOKIE jar \<longrightarrow> present_row (getSessionUser t jar) \<noteq> None)"

lemma session_cookie_kept:
  "setTokens secure t tk jar SESSION_USER_COOKIE = jar SESSION_USER_COOKIE"
  by (simp add: setTokens_def cookie_set_def)

lemma session_cookie_cleared: "clearAuthCookies jar SESSION_USER_COOKIE = None"
  by (simp add: clearAuthCookies_def)

text \<open>No request but a sign-in writes it: it is as it was, or gone.\<close>

definition mirror_from :: "jar \<Rightarrow> jar \<Rightarrow> bool" where
  "mirror_from jar jar' \<longleftrightarrow>
     jar' SESSION_USER_COOKIE = jar SESSION_USER_COOKIE \<or> jar' SESSION_USER_COOKIE = None"

lemma mirror_from_rules:
  "mirror_from jar jar" "mirror_from jar (setTokens secure t tk jar)" "mirror_from jar (clearAuthCookies jar)"
  by (simp_all add: mirror_from_def session_cookie_kept session_cookie_cleared)

lemma mirror_from_trans: "mirror_from a b \<Longrightarrow> mirror_from b c \<Longrightarrow> mirror_from a c"
  by (auto simp: mirror_from_def)

lemma mirror_from_reads:
  assumes "mirror_from jar jar'"
  shows "mirror_ok t jar \<Longrightarrow> mirror_ok t jar'"
    and "getSessionUser t jar' = getSessionUser t jar \<or> getSessionUser t jar' = None"
  using assms by (auto simp: mirror_from_def mirror_ok_def cookie_has_def cookie_get_def getSessionUser_def)

lemma customer_refresh_mirror:
  "mirror_from jar (fst (snd (customer_refreshAtEdge api secure t r jar s)))"
  by (auto simp: customer_refreshAtEdge_def mirror_from_rules split: option.splits prod.splits sum.splits)

lemma console_refresh_mirror:
  "mirror_from jar (fst (snd (console_refreshAtEdge api secure t r jar s)))"
  by (auto simp: console_refreshAtEdge_def mirror_from_rules split: option.splits prod.splits sum.splits)

lemma customer_proxy_mirror: "mirror_from jar (fst (snd (customer_proxy api secure t path jar s)))"
  by (auto simp: customer_proxy_def edge_proxy_def Let_def mirror_from_rules customer_refresh_mirror)

lemma console_proxy_mirror: "mirror_from jar (fst (snd (console_proxy api secure t path jar s)))"
  by (auto simp: console_proxy_def edge_proxy_def Let_def mirror_from_rules console_refresh_mirror)

lemma customer_route_mirror:
  "mirror_from jar (fst (snd (customer_serverApiWithRefresh api secure t c jar s)))"
  by (auto simp: customer_serverApiWithRefresh_def retry_with_def refreshAuthCookies_def mirror_from_rules
      split: option.splits prod.splits sum.splits)

lemma customer_visits_mirror: "mirror_from jar (fst (fold (customer_visit api secure) visits (jar, s)))"
proof (induction visits arbitrary: jar s)
  case (Cons v vs)
  obtain jar' s' where v: "customer_visit api secure v (jar, s) = (jar', s')" by fastforce
  have "mirror_from jar jar'"
    using customer_proxy_mirror [of jar api secure] customer_route_mirror [of jar api secure] v
    by (cases v) (metis customer_visit.simps fst_conv)+
  then show ?case using Cons.IH [of jar' s'] v by (auto intro: mirror_from_trans)
qed (simp add: mirror_from_rules)

text \<open>The identity the pages show is the one that signed in, for seven days at most. After a
  sign-in, whatever pages are opened and routes called, and however often the tokens are refreshed,
  the mirror holds the user of the sign-in or nothing, and from the end of the seventh day every
  protected page is answered with the sign-in page.\<close>

theorem identity_is_of_sign_in:
  "let jar = fst (fold (customer_visit api secure) visits (setAuthCookies secure t0 (Some u) tk jar0, s)) in
     (getSessionUser t jar = Some u \<or> getSessionUser t jar = None) \<and>
     (t0 + 1000 * REFRESH_MAX_AGE \<le> t \<and> \<not> is_public customer_public path \<longrightarrow>
        fst (customer_proxy api secure t path jar s') = Inr (EdgeRedirect ''/login''))"
proof -
  define jar1 where "jar1 = setAuthCookies secure t0 (Some u) tk jar0"
  define jar where "jar = fst (fold (customer_visit api secure) visits (jar1, s))"
  have ck: "jar1 SESSION_USER_COOKIE = Some \<lparr>ck_text = CkJson u, ck_opts = cookieOptions secure REFRESH_MAX_AGE,
      ck_expires = t0 + 1000 * REFRESH_MAX_AGE\<rparr>"
    by (simp add: jar1_def setAuthCookies_def cookie_set_def cookieOptions_def)
  have m: "mirror_from jar1 jar" unfolding jar_def by (rule customer_visits_mirror)
  have "getSessionUser t jar = Some u \<or> getSessionUser t jar = None"
    using mirror_from_reads(2) [OF m, of t] ck by (simp add: getSessionUser_def [of t jar1] cookie_get_def split: if_splits)
  moreover have "\<not> cookie_has t SESSION_USER_COOKIE jar" if "t0 + 1000 * REFRESH_MAX_AGE \<le> t"
    using that m ck by (auto simp: mirror_from_def cookie_has_def cookie_get_def)
  ultimately show ?thesis
    unfolding jar_def [symmetric] jar1_def [symmetric] Let_def by (simp add: customer_proxy_def edge_proxy_def Let_def)
qed

definition granting :: "unit fetch" where
  "granting c s = (Some (json_reply 201 (JObj [(''accessToken'', JStr ''a2''), (''refreshToken'', JStr ''r2'')])), s)"

definition signed_in_jar :: jar where
  "signed_in_jar = setAuthCookies True 0 (Some (JObj [])) (''tok'', ''ref'') (\<lambda>_. None)"

text \<open>The tokens were refreshed on the sixth day and live on; the session does not.\<close>

definition sixth_day :: jar where
  "sixth_day = fst (fold (customer_visit granting True) [OpenPage 518400000 ''/''] (signed_in_jar, ()))"

lemma sixth_day_refreshes: "token_cookie 604800000 REFRESH_COOKIE sixth_day = Some ''r2''"
  by (simp add: sixth_day_def signed_in_jar_def setAuthCookies_def setTokens_def cookie_set_def customer_proxy_def
      edge_proxy_def is_public_def customer_public_def starts_with_def cookie_has_def cookie_get_def token_cookie_def
      cookieOptions_def REFRESH_MAX_AGE_def ACCESS_MAX_AGE_def given_def raw_text_def customer_refreshAtEdge_def
      granting_def json_reply_def res_ok_def read_tokens_def res_json_def ok_bind_def token_pair_def prop_of_def
      jget_def field_text_def Let_def)

lemma identity_is_of_sign_in_witness:
  "token_cookie 604800000 REFRESH_COOKIE sixth_day = Some ''r2'' \<and>
   fst (customer_proxy granting True 604800000 ''/pay'' sixth_day ()) = Inr (EdgeRedirect ''/login'')"
  using identity_is_of_sign_in [of granting True "[OpenPage 518400000 ''/'']" 0 "JObj []" "(''tok'', ''ref'')" "\<lambda>_. None" "()"
      604800000 "''/pay''" "()"] sixth_day_refreshes pay_not_public
  by (simp add: sixth_day_def signed_in_jar_def REFRESH_MAX_AGE_def Let_def)

section \<open>A token the API refuses\<close>

text \<open>\<open>ExtractJwt.fromAuthHeaderAsBearerToken()\<close>, then the guard, then the route.\<close>

definition bearer_of :: "api_call \<Rightarrow> string option" where
  "bearer_of c = (case map_of (cq_headers c) ''authorization'' of
     None \<Rightarrow> None | Some v \<Rightarrow> if starts_with v ''Bearer '' then Some (drop 7 v) else None)"

definition guarded_api :: "string jwt_lib \<Rightarrow> int \<Rightarrow> db \<Rightarrow> (auth_user \<Rightarrow> 's fetch) \<Rightarrow> 's fetch" where
  "guarded_api J t d routes c s =
     (case authenticate J t (bearer_of c) d of
        Inl e \<Rightarrow> (Some (error_envelope e (cq_path c) t), s) | Inr u \<Rightarrow> routes u c s)"

lemma refused_read:
  assumes "token_cookie t ACCESS_COOKIE jar = Some tok" "tok \<noteq> []" "authenticate J t (Some tok) d = Inl UNAUTHORIZED"
  shows "\<exists>m s'. page_get (guarded_api J t d routes) t jar path s = (Inr m, s') \<and> hm_status m = 401"
proof -
  have "bearer_of (callWithToken (Some tok) (GET_call path)) = Some tok"
    using assms(2) by (simp add: callWithToken_def given_def GET_call_def bearer_of_def starts_with_def)
  moreover have "hm_status (error_envelope UNAUTHORIZED x t) = 401" for x
    by (simp add: error_envelope_def json_reply_def UNAUTHORIZED_def toErrorBody_def Let_def)
  ultimately show ?thesis using assms(1,3) by (simp add: page_get_def serverApi_def guarded_api_def)
qed

text \<open>The pages whose first read is not optional.\<close>

definition reads_first :: "string \<Rightarrow> bool" where
  "reads_first path \<longleftrightarrow>
     List.member [''/'', ''/deposit'', ''/withdraw'', ''/pay/send'', ''/activity'', ''/convert'', ''/wallets/new'',
       ''/profile'', ''/alerts'', ''/alerts/new'', ''/portfolio'', ''/portfolio/new'', ''/markets''] path \<or>
     dynamic_id ASSET_PATH path \<noteq> None"

lemma asset_path_split:
  "dynamic_id ASSET_PATH path \<noteq> None \<Longrightarrow> \<exists>i. path = ''/markets/'' @ i \<and> dynamic_id ASSET_PATH (''/markets/'' @ i) = Some i"
  by (auto simp: dynamic_id_iff ASSET_PATH_def)

lemma reads_first_cases:
  assumes "reads_first path"
  obtains "path = ''/''" | "path = ''/deposit''" | "path = ''/withdraw''" | "path = ''/pay/send''" | "path = ''/activity''"
    | "path = ''/convert''" | "path = ''/wallets/new''" | "path = ''/profile''" | "path = ''/alerts''" | "path = ''/alerts/new''"
    | "path = ''/portfolio''" | "path = ''/portfolio/new''" | "path = ''/markets''" | i where "path = ''/markets/'' @ i" "dynamic_id ASSET_PATH (''/markets/'' @ i) = Some i"
  using assms unfolding reads_first_def List.member_iff list.set insert_iff empty_iff
  by (elim disjE) (erule that, erule that, erule that, erule that, erule that, erule that, erule that, erule that,
    erule that, erule that, erule that, erule that, erule that, simp, drule asset_path_split, elim exE conjE, erule that, assumption)

lemma plain_redirect: "fst p = PageRedirect l \<Longrightarrow> fst (plain p) = PageRedirect l"
  by (cases p) (simp add: plain_def)

lemma refused_page_redirects:
  assumes refused: "\<And>path s. \<exists>m s'. page_get fetch t jar path s = (Inr m, s') \<and> hm_status m = 401"
    and "reads_first path"
  shows "fst (customer_page fetch t path jar s) = PageRedirect ''/login''"
proof -
  note pages = refused_session_signs_in [OF refused]
  note each = plain_redirect [OF pages [THEN conjunct1]]
  show ?thesis
    using assms(2) by (cases rule: reads_first_cases)
      (simp_all add: customer_page_def plain_redirect pages)
qed

text \<open>C29 (a defect): a customer whose access token the API no longer honours cannot reach the
  sign-in page. An account that is suspended while its access cookie lives bounces: every page that
  reads its data redirects to the sign-in page, where the proxy sees the identity mirror and
  redirects back to the start page. However many redirects the browser follows, no page is shown.\<close>

theorem suspended_customer_bounces:
  assumes "j_verify J t tok = Some p" "cl_sub p = Some i" "find_user i d = Some u" "u_status u \<noteq> Active"
    and "cookie_get t SESSION_USER_COOKIE jar = Some (CkJson v)" "js_truthy v"
    and "token_cookie t ACCESS_COOKIE jar = Some tok" "tok \<noteq> []"
    and "reads_first path \<or> is_public customer_public path"
  shows "customer_browse n (guarded_api J t d routes) secure t path jar s = None"
  using assms(9)
proof (induction n arbitrary: path s)
  case (Suc n)
  let ?api = "guarded_api J t d routes"
  have "authenticate J t (Some tok) d = Inl UNAUTHORIZED"
    using assms(1-4) by (simp add: authenticate_def jwt_validate_def findById_def toSafeUser_def)
  then have refused: "\<exists>m s'. page_get ?api t jar path s = (Inr m, s') \<and> hm_status m = 401" for path s
    by (rule refused_read [OF assms(7,8)])
  have has: "cookie_has t SESSION_USER_COOKIE jar" "cookie_has t ACCESS_COOKIE jar"
    using assms(5,7) by (auto simp: cookie_has_def token_cookie_def)
  have layout: "\<exists>x. AppLayout t jar = PageShown x"
    using assms(5,6) by (simp add: AppLayout_def getSessionUser_def present_row_def Let_def)
  have root: "reads_first ''/''" "is_public customer_public ''/login''"
    by (simp_all add: reads_first_def is_public_def customer_public_def)
  show ?case
  proof (cases "is_public customer_public path")
    case True
    then have "customer_proxy ?api secure t path jar s = (Inr (EdgeRedirect ''/''), jar, s)"
      using has by (simp add: customer_proxy_def edge_proxy_def)
    then show ?thesis using Suc.IH [of "''/''"] root by (simp add: customer_browse_def)
  next
    case False
    then have proxy: "customer_proxy ?api secure t path jar s = (Inr EdgeNext, jar, s)"
      using has by (simp add: customer_proxy_def edge_proxy_def)
    obtain s' where "customer_page ?api t path jar s = (PageRedirect ''/login'', s')"
      using refused_page_redirects [OF refused] Suc.prems False by (metis prod.collapse)
    then have "customer_render ?api t path jar s = (PageRedirect ''/login'', s')"
      using False layout by (auto simp: customer_render_def)
    then show ?thesis using proxy Suc.IH [of "''/login''"] root by (simp add: customer_browse_def)
  qed
qed (simp add: customer_browse_def)

definition suspended_db :: db where
  "suspended_db = empty_db\<lparr>users := [demo_user\<lparr>u_status := Suspended\<rparr>]\<rparr>"

definition one_token :: "string jwt_lib" where
  "one_token = \<lparr>j_sign = (\<lambda>t c ttl. ''tok''), j_verify = (\<lambda>t tok. Some (no_claims\<lparr>cl_sub := Some ''u1''\<rparr>))\<rparr>"

lemma signed_in_cookies:
  "0 \<le> t \<Longrightarrow> t < 900000 \<Longrightarrow> cookie_get t SESSION_USER_COOKIE signed_in_jar = Some (CkJson (JObj [])) \<and>
     token_cookie t ACCESS_COOKIE signed_in_jar = Some ''tok''"
  by (simp add: signed_in_jar_def setAuthCookies_def setTokens_def cookie_set_def cookie_get_def token_cookie_def
      cookieOptions_def REFRESH_MAX_AGE_def ACCESS_MAX_AGE_def raw_text_def)

lemma suspended_customer_bounces_witness:
  "customer_browse 20 (guarded_api one_token 60000 suspended_db (\<lambda>_ c s. (None, s))) True 60000 ''/'' signed_in_jar () = None"
  by (rule suspended_customer_bounces [where p = "no_claims\<lparr>cl_sub := Some ''u1''\<rparr>" and i = "''u1''"
        and u = "demo_user\<lparr>u_status := Suspended\<rparr>" and v = "JObj []" and tok = "''tok''"])
    (use signed_in_cookies [of 60000] in \<open>simp_all add: one_token_def suspended_db_def find_user_def demo_user_def
      js_truthy_def reads_first_def\<close>)

text \<open>It ends when the access cookie does: the refresh is refused and the cookies are wiped.\<close>

lemma refused_refresh_signs_in:
  assumes "cookie_has t SESSION_USER_COOKIE jar" "\<not> cookie_has t ACCESS_COOKIE jar"
    and "token_cookie t REFRESH_COOKIE jar = Some r" "r \<noteq> []"
    and "api (refresh_call r) s = (Some m, s')" "hm_status m = 401 \<or> hm_status m = 403"
    and "\<not> is_public customer_public path"
  shows "customer_browse (Suc (Suc n)) api secure t path jar s = Some (''/login'', PageShown ())"
proof -
  have "customer_proxy api secure t path jar s = (Inr (EdgeRedirect ''/login''), clearAuthCookies jar, s')"
    using assms by (auto simp: customer_proxy_def edge_proxy_def given_def customer_refreshAtEdge_def)
  moreover have "is_public customer_public ''/login''" by (simp add: is_public_def customer_public_def)
  ultimately show ?thesis
    by (simp add: customer_browse_def customer_proxy_def edge_proxy_def cookie_has_def cookie_get_def
        session_cookie_cleared customer_render_def)
qed

section \<open>Navigation settles\<close>

text \<open>No read is answered with 401.\<close>

definition honoured :: "'s fetch \<Rightarrow> bool" where
  "honoured fetch \<longleftrightarrow> (\<forall>c s m s'. cq_method c = ''GET'' \<and> fetch c s = (Some m, s') \<longrightarrow> hm_status m \<noteq> 401)"

lemma honoured_read: "honoured fetch \<Longrightarrow> page_get fetch t jar path s = (Inr m, s') \<Longrightarrow> hm_status m \<noteq> 401"
proof -
  assume h: "honoured fetch" and get: "page_get fetch t jar path s = (Inr m, s')"
  define c where "c = callWithToken (token_cookie t ACCESS_COOKIE jar) (GET_call path)"
  have "fetch c s = (Some m, s')"
    using get by (auto simp: page_get_def serverApi_def c_def split: option.splits prod.splits)
  moreover have "cq_method c = ''GET''" by (simp add: c_def callWithToken_def GET_call_def)
  ultimately show "hm_status m \<noteq> 401" using h unfolding honoured_def by blast
qed

lemma awaiting_redirect:
  "fst (awaiting m k) = PageRedirect l \<longleftrightarrow> (\<exists>a s. m = (Inr a, s) \<and> fst (k a s) = PageRedirect l)"
  by (cases m) (auto simp: awaiting_def split: sum.splits)

lemma shown_redirect [simp]: "fst (shown r s) \<noteq> PageRedirect l"
  by (simp add: shown_def split: sum.splits)

lemma both_reads: "both m k = (Inr (a, b), s) \<Longrightarrow> \<exists>s1. m = (Inr a, s1) \<and> k s1 = (Inr b, s)"
  by (auto simp: both_def ok_bind_def split: prod.splits sum.splits)

lemma signed_in_redirect:
  "honoured fetch \<Longrightarrow> fst (signed_in_read fetch t jar path k s) = PageRedirect l \<Longrightarrow> \<exists>r s'. fst (k r s') = PageRedirect l"
  by (auto simp: signed_in_read_def awaiting_redirect dest: honoured_read split: if_splits)

lemma home_lands: "honoured fetch \<Longrightarrow> fst (HomePage fetch t jar s) \<noteq> PageRedirect l"
  unfolding HomePage_def
  by (auto dest!: signed_in_redirect split: sum.splits prod.splits)

lemma markets_lands: "honoured fetch \<Longrightarrow> fst (MarketsPage fetch t jar s) \<noteq> PageRedirect l"
  by (auto simp: MarketsPage_def awaiting_redirect dest!: both_reads dest: honoured_read
      split: if_splits option.splits prod.splits)

lemma money_redirect: "honoured fetch \<Longrightarrow> fst (money_page fetch t jar s) = PageRedirect l \<Longrightarrow> l = ''/''"
  unfolding money_page_def by (auto dest!: signed_in_redirect split: sum.splits option.splits)

lemma send_redirect: "honoured fetch \<Longrightarrow> fst (SendPage fetch t h jar s) = PageRedirect l \<Longrightarrow> l = ''/''"
  using money_redirect [of fetch t jar s] by (auto simp: SendPage_def split: prod.splits page_end.splits)

lemma activity_redirect: "honoured fetch \<Longrightarrow> fst (ActivityPage fetch t jar s) = PageRedirect l \<Longrightarrow> l = ''/''"
  unfolding ActivityPage_def
  by (auto simp: awaiting_redirect dest!: signed_in_redirect split: sum.splits option.splits)

lemma asset_redirect: "honoured fetch \<Longrightarrow> fst (AssetDetailPage fetch i t jar s) = PageRedirect l \<Longrightarrow> l = ''/markets''"
  by (auto simp: AssetDetailPage_def awaiting_redirect dest!: both_reads dest: honoured_read split: if_splits)

lemma others_land:
  assumes "honoured fetch"
  shows "fst (ConvertPage fetch t jar s) \<noteq> PageRedirect l" "fst (NewWalletPage fetch t jar s) \<noteq> PageRedirect l"
    "fst (ProfilePage fetch t jar s) \<noteq> PageRedirect l" "fst (NewAlertPage fetch t jar s) \<noteq> PageRedirect l"
    "fst (AlertsPage fetch t jar s) \<noteq> PageRedirect l" "fst (PortfolioPage fetch t jar s) \<noteq> PageRedirect l"
    "fst (PayPage fetch t jar s) \<noteq> PageRedirect l"
  subgoal using assms unfolding ConvertPage_def by (auto dest!: signed_in_redirect)
  subgoal using assms unfolding NewWalletPage_def by (auto dest!: signed_in_redirect)
  subgoal using assms unfolding ProfilePage_def by (auto simp: awaiting_redirect dest!: signed_in_redirect)
  subgoal using assms unfolding NewAlertPage_def by (auto dest!: signed_in_redirect)
  subgoal using assms by (auto simp: AlertsPage_def awaiting_redirect dest!: both_reads dest: honoured_read split: if_splits)
  subgoal using assms by (auto simp: PortfolioPage_def awaiting_redirect dest!: both_reads dest: honoured_read split: if_splits)
  subgoal by (auto simp: PayPage_def split: sum.splits option.splits prod.splits)
  done

lemma plain_redirect_iff: "fst (plain p) = PageRedirect l \<longleftrightarrow> fst p = PageRedirect l"
  by (cases p; cases "fst p") (auto simp: plain_def)

text \<open>A page sends the visitor to the start page or to the list of assets, and those two stay.\<close>

lemma customer_page_redirect:
  assumes "honoured fetch" "present_row (getSessionUser t jar) \<noteq> None"
    and "fst (customer_page fetch t path jar s) = PageRedirect l"
  shows "(l = ''/'' \<or> l = ''/markets'') \<and> path \<noteq> ''/'' \<and> path \<noteq> ''/markets''"
proof -
  have "fst (ReceivePage t jar, s) \<noteq> PageRedirect l" for s :: 'a
    using assms(2) by (auto simp: ReceivePage_def split: option.splits jval.splits)
  then show ?thesis
    using assms(3) money_redirect [OF assms(1)] send_redirect [OF assms(1)] activity_redirect [OF assms(1)]
      asset_redirect [OF assms(1)] home_lands [OF assms(1)] markets_lands [OF assms(1)] others_land [OF assms(1)]
    unfolding customer_page_def by (auto simp: plain_redirect_iff split: if_splits option.splits)
qed

lemma cookie_same: "jar' k = jar k \<Longrightarrow> cookie_get t k jar' = cookie_get t k jar"
  by (simp add: cookie_get_def)

text \<open>
  What the two apps have in common: a proxy with its refresh, which ends the session or leaves the
  mirror alone, in front of pages of which the public ones need nothing.
\<close>

definition settles :: "string list \<Rightarrow> int \<Rightarrow> jar \<Rightarrow> (string \<times> unit page_end) option \<Rightarrow> bool" where
  "settles public t jar r \<longleftrightarrow> (\<exists>p e. r = Some (p, e) \<and>
     (cookie_has t SESSION_USER_COOKIE jar \<and> cookie_has t ACCESS_COOKIE jar \<longrightarrow> \<not> is_public public p) \<and>
     (\<not> cookie_has t SESSION_USER_COOKIE jar \<longrightarrow> is_public public p \<and> e = PageShown ()))"

locale web_app =
  fixes public :: "string list" and t :: int
    and refresh :: "string \<Rightarrow> jar \<Rightarrow> 's \<Rightarrow> (exn + edge_reply) \<times> jar \<times> 's"
    and render :: "string \<Rightarrow> jar \<Rightarrow> 's \<Rightarrow> unit page_end \<times> 's"
  assumes login_public: "is_public public ''/login''" and root_private: "\<not> is_public public ''/''"
    and public_shown: "is_public public path \<Longrightarrow> render path jar s = (PageShown (), s)"
    and refresh_ends: "refresh r jar s = (Inr (EdgeRedirect l), jar', s') \<Longrightarrow>
      l = ''/login'' \<and> \<not> cookie_has t SESSION_USER_COOKIE jar'"
    and refresh_keeps: "refresh r jar s = (Inr EdgeNext, jar', s') \<Longrightarrow>
      jar' SESSION_USER_COOKIE = jar SESSION_USER_COOKIE"
begin

lemma hops:
  "edge_proxy public refresh t path jar s = (Inr EdgeNext, jar', s') \<Longrightarrow> render path jar' s' = (PageRedirect l, s'') \<Longrightarrow>
     browse (Suc n) (edge_proxy public refresh t) render path jar s = browse n (edge_proxy public refresh t) render l jar' s''"
  "edge_proxy public refresh t path jar s = (Inr (EdgeRedirect l), jar', s') \<Longrightarrow>
     browse (Suc n) (edge_proxy public refresh t) render path jar s = browse n (edge_proxy public refresh t) render l jar' s'"
  by simp_all

lemma proxy_on_page:
  assumes "cookie_has t SESSION_USER_COOKIE jar" "\<not> is_public public path"
  obtains (fails) e jar' s' where "edge_proxy public refresh t path jar s = (Inl e, jar', s')"
  | (ends) jar' s' where "edge_proxy public refresh t path jar s = (Inr (EdgeRedirect ''/login''), jar', s')"
      "\<not> cookie_has t SESSION_USER_COOKIE jar'" "\<not> cookie_has t ACCESS_COOKIE jar"
  | (goes_on) jar' s' where "edge_proxy public refresh t path jar s = (Inr EdgeNext, jar', s')"
      "jar' SESSION_USER_COOKIE = jar SESSION_USER_COOKIE"
      "cookie_has t ACCESS_COOKIE jar \<Longrightarrow> cookie_has t ACCESS_COOKIE jar'"
proof (cases "cookie_has t ACCESS_COOKIE jar \<or> \<not> given (token_cookie t REFRESH_COOKIE jar)")
  case True
  then have "edge_proxy public refresh t path jar s = (Inr EdgeNext, jar, s)"
    using assms by (auto simp: edge_proxy_def Let_def)
  then show ?thesis using goes_on by blast
next
  case False
  then have p: "edge_proxy public refresh t path jar s = refresh (the (token_cookie t REFRESH_COOKIE jar)) jar s"
    using assms by (auto simp: edge_proxy_def Let_def)
  obtain res jar' s' where r: "refresh (the (token_cookie t REFRESH_COOKIE jar)) jar s = (res, jar', s')"
    using prod_cases3 by blast
  show ?thesis
  proof (cases res)
    case (Inl e)
    then show ?thesis using p r fails by simp
  next
    case (Inr q)
    then show ?thesis using p r False ends goes_on refresh_ends refresh_keeps by (cases q) auto
  qed
qed

lemma signed_out_settles:
  "\<not> cookie_has t SESSION_USER_COOKIE jar \<Longrightarrow>
     settles public t jar (browse (Suc (Suc n)) (edge_proxy public refresh t) render path jar s)"
  using login_public by (cases "is_public public path") (auto simp: settles_def edge_proxy_def public_shown Let_def)

lemma one_page:
  assumes "cookie_has t SESSION_USER_COOKIE jar" "mirror_ok t jar" "\<not> is_public public path"
    and moved: "\<And>l jar' s s'. render path jar' s = (PageRedirect l, s') \<Longrightarrow>
      cookie_has t SESSION_USER_COOKIE jar' \<Longrightarrow> mirror_ok t jar' \<Longrightarrow>
      settles public t jar' (browse (Suc (Suc n)) (edge_proxy public refresh t) render l jar' s')"
  shows "settles public t jar (browse (Suc (Suc (Suc n))) (edge_proxy public refresh t) render path jar s)"
  using assms(1,3)
proof (cases rule: proxy_on_page [of jar path s])
  case (fails e jar' s')
  then show ?thesis using assms(1,3) by (simp add: settles_def)
next
  case (ends jar' s')
  then show ?thesis
    using signed_out_settles [OF ends(2), of n "''/login''" s'] assms(1) by (auto simp: hops(2) [OF ends(1)] settles_def)
next
  case (goes_on jar' s')
  have has: "cookie_has t SESSION_USER_COOKIE jar'" "mirror_ok t jar'"
    using assms(1,2) cookie_same [of jar' SESSION_USER_COOKIE jar t] goes_on(2)
    by (simp_all add: mirror_ok_def cookie_has_def getSessionUser_def)
  obtain e s'' where render: "render path jar' s' = (e, s'')" by fastforce
  show ?thesis
  proof (cases e)
    case (PageRedirect l)
    have "settles public t jar' (browse (Suc (Suc n)) (edge_proxy public refresh t) render l jar' s'')"
      using moved [OF render [unfolded PageRedirect] has] .
    then show ?thesis
      using hops(1) [OF goes_on(1) render [unfolded PageRedirect]] goes_on(3) has(1) assms(1)
      by (auto simp: settles_def)
  qed (use goes_on(1) render assms(1,3) in \<open>auto simp: settles_def\<close>)
qed

text \<open>Some pages, the start page among them, never redirect; every other leads to one of them or to
  the sign-in page, from which the proxy leads to the start page.\<close>

lemma navigation_settles:
  assumes mirror: "mirror_ok t jar" and steady: "''/'' \<in> steady" "\<And>p. p \<in> steady \<Longrightarrow> \<not> is_public public p"
    and leads: "\<And>path jar s l s'. render path jar s = (PageRedirect l, s') \<Longrightarrow> cookie_has t SESSION_USER_COOKIE jar \<Longrightarrow>
      mirror_ok t jar \<Longrightarrow> path \<notin> steady \<and> (l \<in> steady \<or> l = ''/login'')"
  shows "settles public t jar (browse 5 (edge_proxy public refresh t) render path jar s)"
proof (cases "cookie_has t SESSION_USER_COOKIE jar")
  case False
  then show ?thesis using signed_out_settles [OF False, of 3] by (simp add: numeral_eq_Suc)
next
  case True
  have stays: "settles public t jar (browse (Suc (Suc (Suc n))) (edge_proxy public refresh t) render path jar s)"
    if "cookie_has t SESSION_USER_COOKIE jar" "mirror_ok t jar" "path \<in> steady" for n path jar s
  proof (rule one_page [OF that(1,2) steady(2) [OF that(3)]])
    fix l jar' s s'
    assume "render path jar' s = (PageRedirect l, s')" "cookie_has t SESSION_USER_COOKIE jar'" "mirror_ok t jar'"
    then have False using leads that(3) by blast
    then show "settles public t jar' (browse (Suc (Suc n)) (edge_proxy public refresh t) render l jar' s')" ..
  qed
  have bounced: "settles public t jar (browse (Suc (Suc (Suc (Suc n)))) (edge_proxy public refresh t) render path jar s)"
    if "cookie_has t SESSION_USER_COOKIE jar" "mirror_ok t jar" "is_public public path" for n path jar s
  proof -
    have "edge_proxy public refresh t path jar s = (Inr (EdgeRedirect ''/''), jar, s)"
      using that(1,3) by (simp add: edge_proxy_def)
    then show ?thesis using stays [OF that(1,2) steady(1), of n s] by (simp only: hops(2))
  qed
  have "settles public t jar (browse (Suc (Suc (Suc (Suc (Suc 0))))) (edge_proxy public refresh t) render path jar s)"
  proof (cases "is_public public path")
    case pub: True
    show ?thesis by (rule bounced [OF True mirror pub])
  next
    case False
    show ?thesis
    proof (rule one_page [OF True mirror False])
      fix l jar' s s'
      assume "render path jar' s = (PageRedirect l, s')" "cookie_has t SESSION_USER_COOKIE jar'" "mirror_ok t jar'"
      then show "settles public t jar' (browse (Suc (Suc (Suc (Suc 0)))) (edge_proxy public refresh t) render l jar' s')"
        using leads stays bounced login_public by metis
    qed
  qed
  then show ?thesis by (simp only: numeral_eq_Suc pred_numeral_simps Num.BitM.simps One_nat_def)
qed

end

lemma cleared_ends: "\<not> cookie_has t SESSION_USER_COOKIE (clearAuthCookies jar)"
  by (simp add: cookie_has_def cookie_get_def session_cookie_cleared)

interpretation customer_app: web_app customer_public t "customer_refreshAtEdge api secure t" "customer_render fetch t"
  for t api secure fetch
  by unfold_locales
    (auto simp: is_public_def customer_public_def starts_with_def customer_render_def customer_refreshAtEdge_def
      cleared_ends session_cookie_kept split: option.splits if_splits sum.splits prod.splits)

interpretation console_app: web_app console_public t "console_refreshAtEdge api secure t" "console_render e fetch t"
  for t api secure e fetch
  by unfold_locales
    (auto simp: is_public_def console_public_def starts_with_def console_render_def console_refreshAtEdge_def
      cleared_ends session_cookie_kept split: option.splits if_splits sum.splits prod.splits)

lemma mirror_row: "mirror_ok t jar \<Longrightarrow> cookie_has t SESSION_USER_COOKIE jar \<Longrightarrow> present_row (getSessionUser t jar) \<noteq> None"
  by (simp add: mirror_ok_def)

lemma layout_shows: "present_row (getSessionUser t jar) \<noteq> None \<Longrightarrow> \<exists>x. AppLayout t jar = PageShown x"
  by (auto simp: AppLayout_def Let_def)

text \<open>C28: every navigation in the customer app settles. Whatever path is opened with whatever cookies,
  unless the mirror is not the JSON that sign-in wrote, and as long as no read is answered with 401,
  the browser follows at most four redirects to a page (or an error page); with an identity and
  an access cookie it is never the sign-in page, and without an identity it is nothing else.\<close>

theorem customer_navigation_settles:
  assumes "honoured fetch" "mirror_ok t jar"
  shows "\<exists>p e. customer_browse 5 fetch secure t path jar s = Some (p, e) \<and>
     (cookie_has t SESSION_USER_COOKIE jar \<and> cookie_has t ACCESS_COOKIE jar \<longrightarrow> \<not> is_public customer_public p) \<and>
     (\<not> cookie_has t SESSION_USER_COOKIE jar \<longrightarrow> is_public customer_public p \<and> e = PageShown ())"
proof -
  have "settles customer_public t jar (browse 5 (edge_proxy customer_public (customer_refreshAtEdge fetch secure t) t)
      (customer_render fetch t) path jar s)"
  proof (rule customer_app.navigation_settles [OF assms(2), of "{''/'', ''/markets''}"])
    fix path jar s l s'
    assume r: "customer_render fetch t path jar s = (PageRedirect l, s')" "cookie_has t SESSION_USER_COOKIE jar" "mirror_ok t jar"
    then have "customer_page fetch t path jar s = (PageRedirect l, s')"
      using layout_shows [OF mirror_row] by (fastforce simp: customer_render_def split: if_splits)
    then show "path \<notin> {''/'', ''/markets''} \<and> (l \<in> {''/'', ''/markets''} \<or> l = ''/login'')"
      using customer_page_redirect [OF assms(1) mirror_row [OF r(3,2)], of path s l] by auto
  qed (auto simp: is_public_def customer_public_def starts_with_def)
  then show ?thesis by (simp add: settles_def customer_browse_def customer_proxy_def)
qed

text \<open>Every navigation in the console settles, whatever the API answers, a refused token included:
  its start page reads without insisting, so the sign-in page leads to it and no further.\<close>

theorem console_navigation_settles:
  assumes "mirror_ok t jar"
  shows "\<exists>p e'. console_browse 5 e fetch secure t path jar s = Some (p, e') \<and>
     (cookie_has t SESSION_USER_COOKIE jar \<and> cookie_has t ACCESS_COOKIE jar \<longrightarrow> \<not> is_public console_public p) \<and>
     (\<not> cookie_has t SESSION_USER_COOKIE jar \<longrightarrow> is_public console_public p \<and> e' = PageShown ())"
proof -
  have "settles console_public t jar (browse 5 (edge_proxy console_public (console_refreshAtEdge fetch secure t) t)
      (console_render e fetch t) path jar s)"
  proof (rule console_app.navigation_settles [OF assms, of "{''/''}"])
    fix path jar s l s'
    assume r: "console_render e fetch t path jar s = (PageRedirect l, s')" "cookie_has t SESSION_USER_COOKIE jar" "mirror_ok t jar"
    then obtain u where u: "console_user t jar = Some u"
      using mirror_row [OF r(3,2)] by (auto simp: console_user_def present_row_def split: option.splits if_splits)
    have layout: "fst (DashboardLayout fetch t jar s) \<noteq> PageRedirect l" for s l
      by (simp add: DashboardLayout_def u split: prod.splits sum.splits)
    obtain s1 where "console_page e fetch t path jar s1 = (PageRedirect l, s')"
      using r(1) layout [of s l] by (auto simp: console_render_def split: if_splits prod.splits page_end.splits)
    then have "fst (console_page e fetch t path jar s1) = PageRedirect l" by simp
    then show "path \<notin> {''/''} \<and> (l \<in> {''/''} \<or> l = ''/login'')"
      by (auto simp: console_page_def plain_redirect_iff DashboardPage_def ApprovalsPage_def WalletsPage_def UsersPage_def
          AuditPage_def WalletDetailPage_def staff_page_def u awaiting_redirect Let_def split: if_splits prod.splits option.splits)
  qed (auto simp: is_public_def console_public_def starts_with_def)
  then show ?thesis by (simp add: settles_def console_browse_def console_proxy_def)
qed

lemma signed_in_mirror: "mirror_ok 60000 signed_in_jar"
  using signed_in_cookies [of 60000] by (simp add: mirror_ok_def getSessionUser_def present_row_def js_truthy_def)

lemma signed_in_session: "cookie_has 60000 SESSION_USER_COOKIE signed_in_jar" "cookie_has 60000 ACCESS_COOKIE signed_in_jar"
  using signed_in_cookies [of 60000] by (auto simp: cookie_has_def token_cookie_def)

lemma customer_navigation_settles_witness:
  "\<exists>p e. customer_browse 5 bad_gateway True 60000 ''/login'' signed_in_jar () = Some (p, e) \<and> \<not> is_public customer_public p"
proof -
  have "honoured bad_gateway" by (auto simp: honoured_def bad_gateway_def empty_reply_def)
  from customer_navigation_settles [OF this signed_in_mirror, of True "''/login''" "()"]
  show ?thesis using signed_in_session by blast
qed

definition no_query :: table_env where
  "no_query = \<lparr>te_enc = id, te_num = (\<lambda>_. JsNaN), te_raw = (\<lambda>_. None), te_hour = 9\<rparr>"

lemma console_navigation_settles_witness:
  "\<exists>p e'. console_browse 5 no_query refusing True 60000 ''/users'' signed_in_jar 0 = Some (p, e') \<and> \<not> is_public console_public p"
  using console_navigation_settles [OF signed_in_mirror, of no_query refusing True "''/users''" 0] signed_in_session by blast

end
