(* ===== verification/Shell.thy ===== *)
theory Shell
  imports Browsing
begin

text \<open>
  What frames the pages: the console's sidebar and page bar (\<open>frontend/components/shell\<close>), the customer
  app's navigation, stepper and theme control (\<open>customer/components/layout\<close>, \<open>theme-toggle.tsx\<close>), and the links
  that lead from one page to another. The lemmas show that every link leads to a page that exists
  and may be opened, and that every page can be reached by links.
\<close>

section \<open>The console's page bar\<close>

text \<open>\<open>split('/')\<close>\<close>

definition split_slash :: "string \<Rightarrow> string list" where
  "split_slash s = foldr (\<lambda>c acc. if c = CHR ''/'' then [] # acc else (c # hd acc) # tl acc) s [[]]"

definition path_segments :: "string \<Rightarrow> string list" where
  "path_segments pathname = filter (\<lambda>x. x \<noteq> []) (split_slash pathname)"

definition detailLabel :: "string \<Rightarrow> string" where
  "detailLabel section' =
     (case map_of [(''wallets'', ''Wallet''), (''users'', ''User'')] section' of Some l \<Rightarrow> l | None \<Rightarrow> ''Detail'')"

text \<open>Each crumb is its label and its link; the last one is not a link.\<close>

definition crumbs :: "string \<Rightarrow> (string \<times> string) list" where
  "crumbs pathname =
     (let segs = path_segments pathname
      in if segs = [] then [(''Dashboard'', ''/'')]
         else map (\<lambda>i. (if i = 0 then (case map_of SEGMENT_LABELS (segs ! 0) of Some l \<Rightarrow> l | None \<Rightarrow> segs ! 0)
                        else detailLabel (segs ! 0),
                        ''/'' @ join ''/'' (take (Suc i) segs))) [0..<length segs])"

definition crumb_links :: "string \<Rightarrow> string list" where
  "crumb_links pathname = map snd (butlast (crumbs pathname))"

section \<open>The console's sidebar\<close>

record sidebar_item =
  si_href :: string
  si_label :: string
  si_active :: bool
  si_badge :: "int option"

record sidebar =
  sb_groups :: "(string \<times> sidebar_item list) list"
  sb_initials :: string
  sb_role :: string

definition sidebar_item :: "string \<Rightarrow> int \<Rightarrow> nav_item \<Rightarrow> sidebar_item" where
  "sidebar_item pathname pendingCount i =
     (let count = (if ni_badge i = Some ''pending'' then pendingCount else 0)
      in \<lparr>si_href = ni_href i, si_label = ni_label i, si_active = isActivePath (ni_href i) pathname,
          si_badge = (if 0 < count then Some count else None)\<rparr>)"

definition AppSidebar :: "string \<Rightarrow> string \<Rightarrow> int \<Rightarrow> string \<Rightarrow> sidebar" where
  "AppSidebar email role pendingCount pathname =
     \<lparr>sb_groups = map (\<lambda>g. (ng_label g, map (sidebar_item pathname pendingCount) (ng_items g))) (navGroupsForRole role),
      sb_initials = to_upper (take 2 email), sb_role = replace_first CHR ''_'' CHR '' '' role\<rparr>"

text \<open>The log-out item asks for nothing but the answer, whatever it is.\<close>

definition console_logout :: "'s fetch \<Rightarrow> 's \<Rightarrow> string list \<times> 's" where
  "console_logout fetch s =
     (case fetch (post_empty ''/api/auth/logout'') s of
        (None, s') \<Rightarrow> ([], s') | (Some m, s') \<Rightarrow> ([''/login''], s'))"

section \<open>The customer app's navigation\<close>

definition nav_shown :: "string \<Rightarrow> (string \<times> string \<times> bool) list" where
  "nav_shown pathname = map (\<lambda>(href, label). (href, label, isActivePath href pathname)) NAV_ITEMS"

text \<open>The links of the three shapes, in their order: tabs, rail, sidebar.\<close>

definition tab_links :: "string list" where
  "tab_links = map fst (take 2 NAV_ITEMS) @ [''/pay/scan''] @ map fst (drop 2 NAV_ITEMS)"

definition rail_links :: "string list" where
  "rail_links = ''/'' # map fst NAV_ITEMS"

definition side_links :: "string list" where
  "side_links = ''/'' # map fst NAV_ITEMS @ [''/profile'']"

datatype step_state = StepCurrent | StepDone | StepTodo

text \<open>A step's state, and whether the bar behind it is filled (the last has none).\<close>

definition Stepper :: "string list \<Rightarrow> nat \<Rightarrow> (string \<times> step_state \<times> bool option) list" where
  "Stepper steps current =
     map (\<lambda>i. (steps ! i,
       if Suc i = current then StepCurrent else if Suc i < current then StepDone else StepTodo,
       if i < length steps - 1 then Some (Suc i < current) else None)) [0..<length steps]"

text \<open>The theme control: \<open>'system'\<close> until it is mounted, then what is stored.\<close>

definition THEMES :: "string list" where "THEMES = [''system'', ''light'', ''dark'']"

definition ThemeToggle :: "bool \<Rightarrow> string option \<Rightarrow> (string \<times> bool) list" where
  "ThemeToggle mounted theme =
     (let current = (if mounted then (case theme of None \<Rightarrow> ''system'' | Some t \<Rightarrow> t) else ''system'')
      in map (\<lambda>v. (v, current = v)) THEMES)"

section \<open>The links of the customer app's pages\<close>

text \<open>What the pages show depends on the customer: the number of wallets and of settled or pending rows, the
  watched assets, the catalogue, the featured asset with its symbol, and the holdings, all by asset id.\<close>

record link_env =
  le_wallets :: nat
  le_transactions :: nat
  le_transfers :: nat
  le_watching :: "string list"
  le_assets :: "string list"
  le_featured :: "(string \<times> string) option"
  le_holdings :: "string list"

definition asset_link :: "string \<Rightarrow> string" where
  "asset_link i = ''/markets/'' @ i"

definition HERO_LINKS :: "string list" where
  "HERO_LINKS = [''/activity'', ''/alerts'', ''/deposit'', ''/pay/send'', ''/pay'']"

definition QUICK_ACTIONS :: "(string \<times> string) list" where
  "QUICK_ACTIONS = [(''/deposit'', ''Deposit''), (''/pay/send'', ''Send''), (''/convert'', ''Exchange''), (''/withdraw'', ''Withdraw'')]"

definition PAY_ACTIONS :: "(string \<times> string) list" where
  "PAY_ACTIONS = [(''/pay/send'', ''Send''), (''/pay/receive'', ''Receive''), (''/pay/scan'', ''Scan to pay'')]"

text \<open>\<open>ActivityCard\<close>: "See all" is there when rows are left out. \<open>WatchingCard\<close> and \<open>MarketsTicker\<close> show four rows.\<close>

definition see_all :: "nat \<Rightarrow> nat \<Rightarrow> string list" where
  "see_all limit n = (if limit < n then [''/activity''] else [])"

definition watching_links :: "string list \<Rightarrow> string list" where
  "watching_links ids = (if ids = [] then [] else ''/markets'' # map asset_link (take 4 ids))"

definition ticker_links :: "string list \<Rightarrow> string list" where
  "ticker_links ids = map asset_link (take 4 ids)"

definition home_links :: "link_env \<Rightarrow> string list" where
  "home_links e = HERO_LINKS @ map fst QUICK_ACTIONS @
     (if 1 < le_wallets e then [''/convert'', ''/wallets/new''] else []) @ see_all 6 (le_transactions e) @
     watching_links (le_watching e) @ (if 0 < le_wallets e then ticker_links (le_assets e) else [])"

definition featured_links :: "(string \<times> string) option \<Rightarrow> string list" where
  "featured_links f = (case f of None \<Rightarrow> []
     | Some (i, symbol) \<Rightarrow> [asset_link i, ''/alerts/new?symbol='' @ encodeURIComponent symbol])"

definition markets_links :: "link_env \<Rightarrow> string list" where
  "markets_links e = featured_links (le_featured e) @ [''/portfolio'', ''/portfolio'', ''/alerts''] @ map asset_link (le_assets e)"

definition portfolio_links :: "link_env \<Rightarrow> string list" where
  "portfolio_links e = [''/markets'', ''/portfolio/new''] @ ticker_links (le_assets e) @ [''/alerts/new''] @
     (if le_holdings e = [] then [''/portfolio/new''] else map asset_link (le_holdings e))"

definition convert_links :: "link_env \<Rightarrow> string list" where
  "convert_links e = ''/'' # (if le_wallets e < 2 then [''/wallets/new''] else [])"

definition page_links :: "link_env \<Rightarrow> string \<Rightarrow> string list" where
  "page_links e path =
     (if path = ''/'' then home_links e
      else if path = ''/pay'' then (if 0 < le_wallets e then see_all 5 (le_transfers e) else []) @ map fst PAY_ACTIONS
      else if path = ''/pay/send'' \<or> path = ''/pay/receive'' then [''/pay'']
      else if path = ''/pay/scan'' then [''/pay'', ''/pay/send'']
      else if path = ''/convert'' then convert_links e
      else if path = ''/markets'' then markets_links e
      else if path = ''/portfolio'' then portfolio_links e
      else if path = ''/portfolio/new'' then [''/portfolio'']
      else if path = ''/alerts'' then ''/alerts/new'' # ticker_links (le_assets e)
      else if path = ''/alerts/new'' then [''/alerts'']
      else if dynamic_id ASSET_PATH path \<noteq> None then [''/markets'']
      else if List.member [''/deposit'', ''/withdraw'', ''/activity'', ''/wallets/new''] path then [''/'']
      else [])"

definition app_links :: "link_env \<Rightarrow> string \<Rightarrow> string list" where
  "app_links e path = tab_links @ rail_links @ side_links @ page_links e path"

text \<open>The path of a link, without its query.\<close>

definition link_path :: "string \<Rightarrow> string" where
  "link_path l = takeWhile (\<lambda>c. c \<noteq> CHR ''?'') l"

section \<open>One place at a time\<close>

lemma split_slash_Cons:
  "split_slash (c # s) = (if c = CHR ''/'' then [] # split_slash s else (c # hd (split_slash s)) # tl (split_slash s))"
  by (simp add: split_slash_def)

lemma split_slash_plain: "CHR ''/'' \<notin> set s \<Longrightarrow> split_slash s = [s]"
  by (induction s) (auto simp: split_slash_Cons, simp add: split_slash_def)

text \<open>The page of a wallet shows where it belongs, and its first crumb leads to the list.\<close>

lemma crumbs_of_wallet:
  assumes "CHR ''/'' \<notin> set i" "i \<noteq> []"
  shows "crumbs (''/wallets/'' @ i) = [(''Wallets'', ''/wallets''), (''Wallet'', ''/wallets/'' @ i)]"
proof -
  have "path_segments (''/wallets/'' @ i) = [''wallets'', i]"
    using assms by (simp add: path_segments_def split_slash_Cons split_slash_plain)
  then show ?thesis
    by (simp add: crumbs_def Let_def SEGMENT_LABELS_def detailLabel_def upt_rec numeral_2_eq_2)
qed

lemma crumbs_of_sections:
  "crumbs ''/'' = [(''Dashboard'', ''/'')]" "crumbs ''/approvals'' = [(''Approvals'', ''/approvals'')]"
  "crumbs ''/wallets'' = [(''Wallets'', ''/wallets'')]" "crumbs ''/users'' = [(''Users'', ''/users'')]"
  "crumbs ''/audit'' = [(''Audit'', ''/audit'')]"
  by (simp_all add: crumbs_def path_segments_def split_slash_def SEGMENT_LABELS_def Let_def)

lemma tabs_exclude:
  "\<not> (starts_with p ''/pay'' \<and> starts_with p ''/markets'')" "\<not> (starts_with p ''/pay'' \<and> starts_with p ''/profile'')"
  "\<not> (starts_with p ''/markets'' \<and> starts_with p ''/profile'')"
  by (cases p rule: list.exhaust [case_names Nil Cons]; simp add: starts_with_def;
      rename_tac c cs; case_tac cs; simp; rename_tac d ds; case_tac ds; auto)+

lemma one_tab_active: "length (filter (\<lambda>(h, l, a). a) (nav_shown path)) \<le> 1"
proof -
  have "\<not> starts_with ''/'' ''/pay''" "\<not> starts_with ''/'' ''/markets''" "\<not> starts_with ''/'' ''/profile''"
    by (simp_all add: starts_with_def)
  then show ?thesis
    using tabs_exclude [of path] by (auto simp: nav_shown_def NAV_ITEMS_def isActivePath_def)
qed

text \<open>The steps before the current one are done, those after it are not, and it is the only one that is current.\<close>

lemma stepper_states:
  assumes "i < length steps"
  shows "fst (Stepper steps current ! i) = steps ! i \<and>
    fst (snd (Stepper steps current ! i)) =
      (if Suc i = current then StepCurrent else if Suc i < current then StepDone else StepTodo)"
  using assms by (simp add: Stepper_def)

section \<open>Every link leads to a page, and every page is reached\<close>

definition customer_paths :: "string list" where
  "customer_paths = [''/'', ''/deposit'', ''/withdraw'', ''/pay'', ''/pay/send'', ''/pay/receive'', ''/pay/scan'', ''/activity'',
     ''/convert'', ''/wallets/new'', ''/profile'', ''/alerts'', ''/alerts/new'', ''/portfolio/new'', ''/portfolio'', ''/markets'']"

definition page_exists :: "string \<Rightarrow> bool" where
  "page_exists path \<longleftrightarrow> List.member customer_paths path \<or> dynamic_id ASSET_PATH path \<noteq> None"

lemma missing_page: "\<not> page_exists path \<Longrightarrow> customer_page fetch t path jar s = (PageFailed ''Not found'', s)"
  by (auto simp: page_exists_def customer_paths_def customer_page_def)

text \<open>The other way round: no page of the app gives up with a header.\<close>

lemma failed_simps [simp]: "fst (shown r s) \<noteq> PageFailed m"
  by (simp add: shown_def split: sum.splits)

lemma awaiting_failed:
  "(\<And>a s. fst (k a s) \<noteq> PageFailed m) \<Longrightarrow> fst (awaiting q k) \<noteq> PageFailed m"
  by (auto simp: awaiting_def split: prod.splits sum.splits)

lemma awaiting_failed_iff:
  "fst (awaiting q k) = PageFailed m \<longleftrightarrow> (\<exists>a s. q = (Inr a, s) \<and> fst (k a s) = PageFailed m)"
  by (cases q) (auto simp: awaiting_def split: sum.splits)

lemma signed_in_failed:
  "(\<And>a s. fst (k a s) \<noteq> PageFailed m) \<Longrightarrow> fst (signed_in_read fetch t jar path k s) \<noteq> PageFailed m"
  unfolding signed_in_read_def by (rule awaiting_failed) simp

lemma money_failed: "fst (money_page fetch t jar s) \<noteq> PageFailed m"
  unfolding money_page_def by (rule signed_in_failed) (auto split: sum.splits option.splits)

lemma pages_do_not_fail:
  "fst (HomePage fetch t jar s) \<noteq> PageFailed m" "fst (SendPage fetch t h jar s) \<noteq> PageFailed m"
  "fst (ActivityPage fetch t jar s) \<noteq> PageFailed m" "fst (ConvertPage fetch t jar s) \<noteq> PageFailed m"
  "fst (NewWalletPage fetch t jar s) \<noteq> PageFailed m" "fst (PayPage fetch t jar s) \<noteq> PageFailed m"
  "fst (ProfilePage fetch t jar s) \<noteq> PageFailed m" "fst (AlertsPage fetch t jar s) \<noteq> PageFailed m"
  "fst (NewAlertPage fetch t jar s) \<noteq> PageFailed m" "fst (PortfolioPage fetch t jar s) \<noteq> PageFailed m"
  "fst (MarketsPage fetch t jar s) \<noteq> PageFailed m" "fst (AssetDetailPage fetch i t jar s) \<noteq> PageFailed m"
  "ReceivePage t jar \<noteq> PageFailed m"
  subgoal unfolding HomePage_def by (rule signed_in_failed) (auto split: sum.splits prod.splits)
  subgoal using money_failed [of fetch t jar s m] by (cases "money_page fetch t jar s") (auto simp: SendPage_def split: page_end.splits)
  subgoal unfolding ActivityPage_def by (rule signed_in_failed) (auto simp: awaiting_failed_iff split: sum.splits option.splits)
  subgoal unfolding ConvertPage_def by (rule signed_in_failed) simp
  subgoal unfolding NewWalletPage_def by (rule signed_in_failed) simp
  subgoal by (auto simp: PayPage_def split: sum.splits option.splits prod.splits)
  subgoal unfolding ProfilePage_def by (rule signed_in_failed) (intro awaiting_failed failed_simps)
  subgoal unfolding AlertsPage_def by (rule awaiting_failed) (auto split: prod.splits)
  subgoal unfolding NewAlertPage_def by (rule signed_in_failed) simp
  subgoal unfolding PortfolioPage_def by (rule awaiting_failed) (auto split: prod.splits)
  subgoal unfolding MarketsPage_def by (rule awaiting_failed) (auto simp: awaiting_failed_iff split: prod.splits option.splits sum.splits)
  subgoal unfolding AssetDetailPage_def by (rule awaiting_failed) (auto split: prod.splits)
  subgoal by (auto simp: ReceivePage_def split: option.splits jval.splits)
  done

lemma existing_page: "page_exists path \<Longrightarrow> fst (customer_page fetch t path jar s) \<noteq> PageFailed ''Not found''"
proof -
  have plain: "fst (plain p) \<noteq> PageFailed m" if "fst p \<noteq> PageFailed m" for p :: "'v page_end \<times> 's" and m
    using that by (cases p; cases "fst p") (auto simp: plain_def)
  assume "page_exists path"
  then show "fst (customer_page fetch t path jar s) \<noteq> PageFailed ''Not found''"
    unfolding page_exists_def customer_paths_def List.member_iff list.set insert_iff empty_iff
    by (elim disjE FalseE)
      (auto simp: customer_page_def plain pages_do_not_fail money_failed split: option.splits)
qed

text \<open>The ids of assets are slugs, and what is watched, held or featured is in the catalogue.\<close>

definition link_env_ok :: "link_env \<Rightarrow> bool" where
  "link_env_ok e \<longleftrightarrow>
     (\<forall>i \<in> set (le_assets e). i \<noteq> [] \<and> CHR ''/'' \<notin> set i \<and> CHR ''?'' \<notin> set i) \<and>
     set (le_watching e) \<union> set (le_holdings e) \<union> fst ` set_option (le_featured e) \<subseteq> set (le_assets e)"

inductive visits :: "link_env \<Rightarrow> string \<Rightarrow> bool" for e where
  start: "visits e ''/''"
| click: "visits e path \<Longrightarrow> l \<in> set (app_links e path) \<Longrightarrow> visits e (link_path l)"

lemma link_path_asset: "CHR ''?'' \<notin> set i \<Longrightarrow> link_path (asset_link i) = asset_link i"
  by (auto simp: link_path_def asset_link_def takeWhile_eq_all_conv)

lemma nav_targets: "l \<in> set (tab_links @ rail_links @ side_links) \<Longrightarrow> link_path l \<in> set customer_paths"
  by (auto simp: tab_links_def rail_links_def side_links_def NAV_ITEMS_def customer_paths_def link_path_def)

lemma set_take4: "x \<in> set (take n xs) \<Longrightarrow> x \<in> set xs"
  by (rule in_set_takeD)

definition catalogue :: "link_env \<Rightarrow> string set" where
  "catalogue e = set customer_paths \<union> asset_link ` set (le_assets e)"

lemma asset_in_catalogue:
  "link_env_ok e \<Longrightarrow> i \<in> set (le_assets e) \<union> set (le_watching e) \<union> set (le_holdings e) \<Longrightarrow> link_path (asset_link i) \<in> catalogue e"
  by (auto simp: link_env_ok_def catalogue_def link_path_asset)

lemma static_in_catalogue: "link_path l \<in> set customer_paths \<Longrightarrow> link_path l \<in> catalogue e"
  by (simp add: catalogue_def)

lemma page_targets:
  assumes "link_env_ok e" "l \<in> set (page_links e path)"
  shows "link_path l \<in> catalogue e"
proof -
  have static [simp]: "link_path ''/'' \<in> catalogue e" "link_path ''/deposit'' \<in> catalogue e" "link_path ''/withdraw'' \<in> catalogue e"
    "link_path ''/pay'' \<in> catalogue e" "link_path ''/pay/send'' \<in> catalogue e" "link_path ''/pay/receive'' \<in> catalogue e"
    "link_path ''/pay/scan'' \<in> catalogue e" "link_path ''/activity'' \<in> catalogue e" "link_path ''/convert'' \<in> catalogue e"
    "link_path ''/wallets/new'' \<in> catalogue e" "link_path ''/alerts'' \<in> catalogue e" "link_path ''/alerts/new'' \<in> catalogue e"
    "link_path ''/portfolio/new'' \<in> catalogue e" "link_path ''/portfolio'' \<in> catalogue e" "link_path ''/markets'' \<in> catalogue e"
    by (simp_all add: catalogue_def customer_paths_def link_path_def)
  have feature: "link_path x \<in> catalogue e" if "x \<in> set (featured_links (le_featured e))" for x
  proof (cases "le_featured e")
    case (Some p)
    obtain i sym where p: "p = (i, sym)" by (cases p)
    have "i \<in> set (le_assets e)" using assms(1) Some p by (auto simp: link_env_ok_def)
    then have "link_path (asset_link i) \<in> catalogue e" using asset_in_catalogue [OF assms(1)] by blast
    moreover have "link_path (''/alerts/new?symbol='' @ encodeURIComponent sym) = link_path ''/alerts/new''"
      by (simp add: link_path_def)
    ultimately show ?thesis using that Some p by (auto simp: featured_links_def)
  qed (use that in \<open>simp add: featured_links_def\<close>)
  have ticker: "link_path x \<in> catalogue e" if "x \<in> set (ticker_links (le_assets e))" for x
    using that asset_in_catalogue [OF assms(1)] by (auto simp: ticker_links_def dest: set_take4)
  have watching: "link_path x \<in> catalogue e" if "x \<in> set (watching_links (le_watching e))" for x
    using that asset_in_catalogue [OF assms(1)]
    by (auto simp: watching_links_def dest: set_take4 split: if_splits)
  have assets: "link_path x \<in> catalogue e" if "x \<in> asset_link ` set (le_assets e) \<union> asset_link ` set (le_holdings e)" for x
    using that asset_in_catalogue [OF assms(1)] by auto
  have home: "link_path x \<in> catalogue e" if "x \<in> set (home_links e)" for x
    using that watching ticker
    by (auto simp: home_links_def HERO_LINKS_def QUICK_ACTIONS_def see_all_def split: if_splits)
  have markets: "link_path x \<in> catalogue e" if "x \<in> set (markets_links e)" for x
    using that feature assets by (auto simp: markets_links_def)
  have portfolio: "link_path x \<in> catalogue e" if x: "x \<in> set (portfolio_links e)" for x
    using x ticker assets by (auto simp: portfolio_links_def split: if_splits)
  show ?thesis
    using assms(2) home markets portfolio ticker
    by (auto simp: page_links_def see_all_def PAY_ACTIONS_def convert_links_def split: if_splits)
qed

lemma visits_by: "visits e path \<Longrightarrow> l \<in> set (page_links e path) \<Longrightarrow> link_path l = p \<Longrightarrow> visits e p"
  using visits.click [of e path l] by (auto simp: app_links_def)

lemma visits_section: "path \<in> {''/'', ''/pay'', ''/pay/scan'', ''/markets'', ''/profile''} \<Longrightarrow> visits e path"
proof -
  have "link_path l = l" if "l \<in> set tab_links" for l
    using that by (auto simp: tab_links_def NAV_ITEMS_def link_path_def)
  then show "path \<in> {''/'', ''/pay'', ''/pay/scan'', ''/markets'', ''/profile''} \<Longrightarrow> visits e path"
    using visits.click [OF visits.start, of path e]
    by (auto simp: app_links_def tab_links_def NAV_ITEMS_def)
qed

lemma visits_home:
  assumes "p \<in> {''/activity'', ''/alerts'', ''/deposit'', ''/pay/send'', ''/convert'', ''/withdraw''}"
  shows "visits e p"
proof (rule visits_by [OF visits.start])
  show "p \<in> set (page_links e ''/'')"
    using assms by (auto simp: page_links_def home_links_def HERO_LINKS_def QUICK_ACTIONS_def)
qed (use assms in \<open>auto simp: link_path_def\<close>)

lemma visits_deeper:
  "visits e ''/pay/receive''" "visits e ''/portfolio''" "visits e ''/portfolio/new''" "visits e ''/alerts/new''"
  "visits e ''/wallets/new''"
proof -
  show "visits e ''/pay/receive''"
    by (rule visits_by [OF visits_section, where l = "''/pay/receive''" and path = "''/pay''"]) (auto simp: page_links_def PAY_ACTIONS_def link_path_def)
  show pf: "visits e ''/portfolio''"
    by (rule visits_by [OF visits_section, where l = "''/portfolio''" and path = "''/markets''"]) (auto simp: page_links_def markets_links_def link_path_def)
  show "visits e ''/portfolio/new''"
    by (rule visits_by [OF pf, where l = "''/portfolio/new''"]) (auto simp: page_links_def portfolio_links_def link_path_def)
  show "visits e ''/alerts/new''"
    by (rule visits_by [OF visits_home, where l = "''/alerts/new''" and path = "''/alerts''"]) (auto simp: page_links_def link_path_def)
  show "visits e ''/wallets/new''"
  proof (cases "1 < le_wallets e")
    case True
    show ?thesis
      by (rule visits_by [OF visits.start, where l = "''/wallets/new''"])
        (use True in \<open>auto simp: page_links_def home_links_def link_path_def\<close>)
  next
    case False
    show ?thesis
      by (rule visits_by [OF visits_home, where l = "''/wallets/new''" and path = "''/convert''"])
        (use False in \<open>auto simp: page_links_def convert_links_def link_path_def\<close>)
  qed
qed

text \<open>The customer app has no dead link and no orphan page. Whatever the customer has, the pages that can be
  reached from the start page by following links are exactly the app's pages and those of the assets of the
  catalogue, and each of them exists.\<close>

theorem links_reach_exactly_the_pages:
  assumes "link_env_ok e"
  shows "(visits e path \<longleftrightarrow> path \<in> catalogue e) \<and> (path \<in> catalogue e \<longrightarrow> page_exists path)"
proof -
  have "path \<in> catalogue e" if "visits e path"
    using that
  proof induction
    case start
    then show ?case by (simp add: catalogue_def customer_paths_def)
  next
    case (click path l)
    then show ?case
      using page_targets [OF assms] static_in_catalogue [OF nav_targets] by (auto simp: app_links_def)
  qed
  moreover have "visits e path" if p: "path \<in> set customer_paths"
  proof -
    have "set customer_paths \<subseteq> {''/'', ''/pay'', ''/pay/scan'', ''/markets'', ''/profile''} \<union>
        {''/activity'', ''/alerts'', ''/deposit'', ''/pay/send'', ''/convert'', ''/withdraw''} \<union>
        {''/pay/receive'', ''/portfolio'', ''/portfolio/new'', ''/alerts/new'', ''/wallets/new''}"
      by (simp add: customer_paths_def)
    from subsetD [OF this p] show ?thesis
      unfolding Un_iff by (elim disjE) (erule visits_section, erule visits_home, elim insertE, simp_all add: visits_deeper)
  qed
  moreover have "visits e (asset_link i)" if "i \<in> set (le_assets e)" for i
    by (rule visits_by [OF visits_section, where l = "asset_link i" and path = "''/markets''"])
      (use that assms in \<open>auto simp: page_links_def markets_links_def link_env_ok_def link_path_asset\<close>)
  moreover have "page_exists path" if "path \<in> catalogue e"
    using that assms
    by (auto simp: catalogue_def page_exists_def List.member_iff link_env_ok_def asset_link_def ASSET_PATH_def dynamic_id_def starts_with_def)
  ultimately show ?thesis unfolding catalogue_def by blast
qed

end
