(* ===== verification/Tables.thy ===== *)
theory Tables
  imports Views Backoffice
begin

text \<open>
  The controls above and below the console's tables (\<open>frontend/components/data-table\<close>,
  \<open>components/audit/audit-table.tsx\<close>): each is a patch of the table state that \<open>tableHref\<close> writes into
  the URL (\<open>Views\<close>).
\<close>

section \<open>Sorting and paging\<close>

definition no_patch :: table_patch where
  "no_patch = \<lparr>pt_q = None, pt_sort = None, pt_page = None, pt_size = None, pt_filters = None\<rparr>"

text \<open>A click on the header of a column: ascending, or descending when it is already sorted ascending.\<close>

definition sort_active :: "table_params \<Rightarrow> string \<Rightarrow> bool" where
  "sort_active p field \<longleftrightarrow> field \<noteq> [] \<and> field = fst (split_colon (tp_sort p))"

definition sort_click :: "table_params \<Rightarrow> string \<Rightarrow> table_patch" where
  "sort_click p field = no_patch\<lparr>pt_sort := Some (field @ '':'' @
     (if sort_active p field \<and> snd (split_colon (tp_sort p)) = Some ''asc'' then ''desc'' else ''asc''))\<rparr>"

definition page_count :: "table_params \<Rightarrow> nat \<Rightarrow> nat" where
  "page_count p rows = max 1 ((rows + tp_size p - 1) div tp_size p)"

definition prev_disabled :: "table_params \<Rightarrow> bool" where
  "prev_disabled p \<longleftrightarrow> tp_page p \<le> 1"

definition next_disabled :: "table_params \<Rightarrow> nat \<Rightarrow> bool" where
  "next_disabled p rows \<longleftrightarrow> enat (page_count p rows) \<le> tp_page p"

definition prev_click :: "table_params \<Rightarrow> table_patch" where
  "prev_click p = no_patch\<lparr>pt_page := Some (tp_page p - 1)\<rparr>"

definition next_click :: "table_params \<Rightarrow> table_patch" where
  "next_click p = no_patch\<lparr>pt_page := Some (tp_page p + 1)\<rparr>"

definition size_pick :: "nat \<Rightarrow> table_patch" where
  "size_pick n = no_patch\<lparr>pt_size := Some n\<rparr>"

text \<open>Within the pages there are, the buttons stay within them, and one goes back over the other.\<close>

lemma paging_stays_in_range:
  assumes "tp_page p = enat k" "1 \<le> k" "k \<le> page_count p rows"
  shows "(\<not> next_disabled p rows \<longrightarrow> pt_page (next_click p) = Some (enat (k + 1)) \<and> k + 1 \<le> page_count p rows)
    \<and> (\<not> prev_disabled p \<longrightarrow> pt_page (prev_click p) = Some (enat (k - 1)) \<and> 1 \<le> k - 1)"
  using assms
  by (auto simp: next_disabled_def prev_disabled_def next_click_def prev_click_def no_patch_def one_enat_def)

lemma all_rows_within_pages:
  assumes "0 < tp_size p"
  shows "rows \<le> page_count p rows * tp_size p"
proof -
  define s where "s = tp_size p"
  have "(rows + s - 1) div s * s + (rows + s - 1) mod s = rows + s - 1" by simp
  moreover have "(rows + s - 1) mod s \<le> s - 1" using assms unfolding s_def [symmetric] by (simp add: less_Suc_eq_le [symmetric])
  ultimately have "rows \<le> (rows + s - 1) div s * s" using assms unfolding s_def [symmetric] by linarith
  also have "\<dots> \<le> page_count p rows * s" unfolding page_count_def s_def by (intro mult_right_mono) simp_all
  finally show ?thesis by (simp add: s_def)
qed

section \<open>The toolbar\<close>

record filter_def =
  fd_key :: string
  fd_label :: string
  fd_allLabel :: "string option"
  fd_options :: "(string \<times> string) list"

definition allLabel :: "filter_def \<Rightarrow> string" where
  "allLabel f = (case fd_allLabel f of Some l \<Rightarrow> l | None \<Rightarrow> ''All '' @ to_lower (fd_label f) @ ''s'')"

definition search_patch :: "string \<Rightarrow> table_patch" where
  "search_patch q = no_patch\<lparr>pt_q := Some q\<rparr>"

definition filter_pick :: "filter_def \<Rightarrow> string option \<Rightarrow> table_patch" where
  "filter_pick f v = no_patch\<lparr>pt_filters := Some [(fd_key f, if v = Some ''__all__'' then None else v)]\<rparr>"

definition clear_all :: "table_config \<Rightarrow> table_patch" where
  "clear_all cfg = no_patch\<lparr>pt_q := Some [], pt_filters := Some (map (\<lambda>k. (k, None)) (tc_filterKeys cfg))\<rparr>"

text \<open>The chips: what each says (the search text without its typographic quotes), and what its cross does.\<close>

definition chips :: "table_params \<Rightarrow> filter_def list \<Rightarrow> (string \<times> string \<times> table_patch) list" where
  "chips p fs =
     (if tp_q p \<noteq> [] then [(''q'', tp_q p, search_patch [])] else []) @
     List.map_filter (\<lambda>f. case map_of (tp_filters p) (fd_key f) of
        None \<Rightarrow> None
      | Some v \<Rightarrow> if v = [] then None
          else Some (fd_key f, fd_label f @ '': '' @ (case map_of (fd_options f) v of None \<Rightarrow> v | Some l \<Rightarrow> l), filter_pick f None)) fs"

lemma fold_clear: "fold patch_filter (map (\<lambda>k. (k, None)) ks) fs = filter (\<lambda>p. fst p \<notin> set ks) fs"
  by (induction ks arbitrary: fs) (auto simp: patch_filter_def present_def intro!: filter_cong)

text \<open>Clear-all leaves only what is not a filter: the sort and the page size.\<close>

lemma clear_all_clears:
  assumes "\<forall>kv \<in> set (tp_filters p). fst kv \<in> set (tc_filterKeys cfg)"
  shows "tableHref_params p (clear_all cfg) cfg =
    set_if (tp_size p \<noteq> default_size cfg) ''size'' (show_nat (tp_size p))
      (set_if (tp_sort p \<noteq> tc_defaultSort cfg) ''sort'' (tp_sort p) [])"
proof -
  have "filter (\<lambda>kv. fst kv \<notin> set (tc_filterKeys cfg)) (tp_filters p) = []" using assms by simp
  moreover have "filter_params ks [] sp = sp" for ks sp
    by (induction ks) (simp_all add: filter_params_def present_def)
  ultimately show ?thesis
    by (simp add: tableHref_params_def clear_all_def no_patch_def opt_default_def fold_clear patch_resets_def set_if_def Let_def)
qed

section \<open>The audit table\<close>

text \<open>\<open>action.split('.')[1]\<close> and the first tone whose name it starts with.\<close>

definition action_verb :: "string \<Rightarrow> string" where
  "action_verb action =
     (case dropWhile (\<lambda>c. c \<noteq> CHR ''.'') action of
        [] \<Rightarrow> action | c # rest \<Rightarrow> takeWhile (\<lambda>c. c \<noteq> CHR ''.'') rest)"

definition ACTION_TONE :: "(string \<times> string) list" where
  "ACTION_TONE = [(''approve'', ''approved''), (''reject'', ''rejected''), (''adjust'', ''pending'')]"

definition action_tone :: "string \<Rightarrow> string option" where
  "action_tone action = map_option snd (List.find (\<lambda>(k, t). starts_with (action_verb action) k) ACTION_TONE)"

text \<open>The date presets, over the API's day text.\<close>

definition DAY :: int where "DAY = 86400000"

definition iso_day :: "int \<Rightarrow> string" where "iso_day t = take 10 (iso_string t)"

definition date_presets :: "int \<Rightarrow> (string \<times> string) list" where
  "date_presets t = [(''Today'', iso_day t), (''7 days'', iso_day (t - 7 * DAY)), (''30 days'', iso_day (t - 30 * DAY))]"

definition preset_pick :: "string \<Rightarrow> table_patch" where
  "preset_pick from = no_patch\<lparr>pt_filters := Some [(''from'', Some from), (''to'', None)]\<rparr>"

lemma action_tones:
  "action_tone ''deposit.approve'' = Some ''approved''" "action_tone ''withdrawal.reject'' = Some ''rejected''"
  "action_tone ''wallet.adjust'' = Some ''pending''" "action_tone ''wallet.transfer'' = None"
  by code_simp+

end
