(* ===== verification/Cards.thy ===== *)
theory Cards
  imports Dashboard Shell Tables
begin

text \<open>
  What the rows, cards and dialogs of the two apps show (\<open>customer/components\<close>, \<open>frontend/components\<close>),
  as functions of the data they are given: which rows, which label, tone and action, and what they say
  when there is nothing. Money and price texts of \<open>Intl.NumberFormat\<close> and \<open>toFixed\<close> are parameters; a
  dash is written \<open>--\<close> and a middle dot \<open>-\<close>.
\<close>

section \<open>Prices\<close>

definition formatChangePct :: "('n::linordered_field \<Rightarrow> string) \<Rightarrow> 'n \<Rightarrow> string" where
  "formatChangePct fixed2 pct = (if 0 \<le> pct then ''+'' else []) @ fixed2 pct @ ''%''"

definition formatCompactPrice :: "('n::linordered_field \<Rightarrow> string) \<Rightarrow> 'n \<Rightarrow> string" where
  "formatCompactPrice shortened v = (if v = 0 then ''--'' else shortened v)"

datatype sign_tone = GainTone | LossTone

definition ChangeText :: "('n::linordered_field \<Rightarrow> string) \<Rightarrow> 'n \<Rightarrow> string \<Rightarrow> sign_tone \<times> string" where
  "ChangeText fixed2 pct suffix = (if 0 \<le> pct then GainTone else LossTone, formatChangePct fixed2 pct @ suffix)"

text \<open>The logo, or the first letters of the symbol when there is none or it did not load.\<close>

definition CoinIcon :: "string option \<Rightarrow> bool \<Rightarrow> string \<Rightarrow> string + string" where
  "CoinIcon src failed symbol = (if \<not> given src \<or> failed then Inr (take 4 symbol) else Inl (the src))"

section \<open>Holdings and alerts\<close>

text \<open>A list, or what stands in its place: a title and a link.\<close>

datatype 'r rows_shown = RowsEmpty string "string option" | RowsShown "'r list"

record 'n holding_line =
  hl_link :: string
  hl_name :: string
  hl_quantity :: "'n \<times> string"
  hl_value :: string
  hl_change :: "sign_tone \<times> string"

definition HoldingList ::
  "('n \<Rightarrow> string) \<Rightarrow> ('n::linordered_field \<Rightarrow> string) \<Rightarrow> 'n holding_row list \<Rightarrow> 'n holding_line rows_shown" where
  "HoldingList formatPrice fixed2 rows =
     (if rows = [] then RowsEmpty ''Nothing tracked yet'' (Some ''/portfolio/new'')
      else RowsShown (map (\<lambda>r. \<lparr>hl_link = asset_link (hr_id r), hl_name = hr_name r,
        hl_quantity = (hr_quantity r, hr_symbol r), hl_value = formatPrice (hr_value r),
        hl_change = ChangeText fixed2 (hr_pnlPct r) []\<rparr>) rows))"

definition PortfolioSummary ::
  "('n \<Rightarrow> string) \<Rightarrow> ('n::linordered_field \<Rightarrow> string) \<Rightarrow> 'n \<Rightarrow> 'n \<Rightarrow> 'n \<Rightarrow> string \<times> sign_tone \<times> string" where
  "PortfolioSummary formatPrice fixed2 totalValue totalPnl totalPnlPct =
     (let plus = (if 0 \<le> totalPnl then ''+'' else [])
      in (formatPrice totalValue, if 0 \<le> totalPnl then GainTone else LossTone,
          plus @ formatPrice totalPnl @ '' ('' @ plus @ fixed2 totalPnlPct @ ''%)''))"

record alert_line =
  aw_symbol :: string
  aw_condition :: string
  aw_now :: "string option"
  aw_pill :: "bool \<times> string"

definition AlertList :: "('n \<Rightarrow> string) \<Rightarrow> 'n alert_view list \<Rightarrow> alert_line rows_shown" where
  "AlertList formatPrice rows =
     (if rows = [] then RowsEmpty ''No alerts yet'' (Some ''/alerts/new'')
      else RowsShown (map (\<lambda>r. let a = av_alert r; reached = at_triggeredAt a \<noteq> None in
        \<lparr>aw_symbol = at_symbol a,
          aw_condition = (if at_direction a = ''above'' then ''Above '' else ''Below '') @ formatPrice (at_targetPrice a),
          aw_now = map_option (\<lambda>p. ''now '' @ formatPrice p) (av_currentPrice r),
          aw_pill = (reached, if reached then ''Reached'' else ''Watching'')\<rparr>) rows))"

section \<open>Markets\<close>

record market_line =
  ml_link :: string
  ml_name :: string
  ml_symbol :: string
  ml_price :: string
  ml_change :: "sign_tone \<times> string"
  ml_followed :: "bool option"

definition market_line ::
  "('n \<Rightarrow> string) \<Rightarrow> ('n::linordered_field \<Rightarrow> string) \<Rightarrow> bool option \<Rightarrow> 'n market_asset \<Rightarrow> market_line" where
  "market_line formatPrice fixed2 followed a =
     \<lparr>ml_link = asset_link (ma_id a), ml_name = ma_name a, ml_symbol = ma_symbol a, ml_price = formatPrice (ma_price a),
       ml_change = ChangeText fixed2 (ma_change24h a) [], ml_followed = followed\<rparr>"

definition MarketList ::
  "('n \<Rightarrow> string) \<Rightarrow> ('n::linordered_field \<Rightarrow> string) \<Rightarrow> string list option \<Rightarrow> string \<Rightarrow> 'n market_asset list
     \<Rightarrow> market_line rows_shown" where
  "MarketList formatPrice fixed2 followedSymbols emptyText assets =
     (if assets = [] then RowsEmpty emptyText None
      else RowsShown (map (\<lambda>a. market_line formatPrice fixed2
        (map_option (\<lambda>fs. List.member fs (ma_symbol a)) followedSymbols) a) assets))"

text \<open>Both cards are not there at all without assets, and show at most four.\<close>

definition WatchingCard ::
  "('n \<Rightarrow> string) \<Rightarrow> ('n::linordered_field \<Rightarrow> string) \<Rightarrow> 'n market_asset list \<Rightarrow> market_line list option" where
  "WatchingCard formatPrice fixed2 assets =
     (if assets = [] then None else Some (map (market_line formatPrice fixed2 None) (take 4 assets)))"

definition MarketsTicker ::
  "('n \<Rightarrow> string) \<Rightarrow> ('n::linordered_field \<Rightarrow> string) \<Rightarrow> 'n market_asset list \<Rightarrow> market_line list option" where
  "MarketsTicker formatPrice fixed2 assets =
     (if assets = [] then None else Some (map (market_line formatPrice fixed2 None) (take 4 assets)))"

section \<open>The customer's statement\<close>

record activity_row =
  ar_id :: string
  ar_type :: string
  ar_amount :: int
  ar_status :: string
  ar_note :: "string option"
  ar_createdAt :: int

definition ACTIVITY_LABEL :: "(string \<times> string) list" where
  "ACTIVITY_LABEL = [(''deposit'', ''Deposit''), (''withdrawal'', ''Withdrawal''), (''transfer_out'', ''Sent''),
     (''transfer_in'', ''Received''), (''adjustment'', ''Adjustment'')]"

datatype row_status = PendingReview | Declined | SettledAt int

record activity_line =
  ay_id :: string
  ay_text :: string
  ay_status :: row_status
  ay_amount :: "tone \<times> int"

definition activity_line :: "activity_row \<Rightarrow> activity_line" where
  "activity_line r =
     \<lparr>ay_id = ar_id r,
       ay_text = (case map_of ACTIVITY_LABEL (ar_type r) of Some l \<Rightarrow> l | None \<Rightarrow> ar_type r) @
         (if given (ar_note r) then '' - '' @ the (ar_note r) else []),
       ay_status = (if ar_status r = ''pending'' then PendingReview else if ar_status r = ''rejected'' then Declined
         else SettledAt (ar_createdAt r)),
       ay_amount = (activity_tone (ar_type r) (ar_status r), ar_amount r)\<rparr>"

record activity_card =
  ac_seeAll :: bool
  ac_groups :: "(string option \<times> activity_line list) list"

text \<open>\<open>limit\<close> 0 stands for no limit, as in the code.\<close>

definition ActivityCard ::
  "calendar \<Rightarrow> int \<Rightarrow> nat \<Rightarrow> bool \<Rightarrow> bool \<Rightarrow> activity_row list \<Rightarrow> activity_card" where
  "ActivityCard cal now_ms limit linked grouped transactions =
     (let rows = (if limit \<noteq> 0 then take limit transactions else transactions);
          groups = (if grouped then map (\<lambda>(l, rs). (Some l, rs)) (groupByDay cal ar_createdAt now_ms rows) else [(None, rows)])
      in \<lparr>ac_seeAll = (linked \<and> limit < length transactions),
          ac_groups = (if rows = [] then [] else map (\<lambda>(l, rs). (l, map activity_line rs)) groups)\<rparr>)"

definition PendingCard :: "activity_row list \<Rightarrow> (string \<times> int \<times> int) list" where
  "PendingCard transactions =
     map (\<lambda>r. (ar_type r, ar_amount r, ar_createdAt r)) (filter (\<lambda>r. ar_status r = ''pending'') transactions)"

text \<open>The chip beside the balance.\<close>

definition BalanceCard :: "(int \<Rightarrow> string \<Rightarrow> string) \<Rightarrow> int \<Rightarrow> string \<Rightarrow> nat \<Rightarrow> string \<times> string option" where
  "BalanceCard formatMoney balance currency pendingCount =
     (formatMoney balance currency, if 0 < pendingCount then Some (show_nat pendingCount @ '' pending'') else None)"

definition WalletList :: "(int \<Rightarrow> string \<Rightarrow> string) \<Rightarrow> wallet_summary list \<Rightarrow> (int list \<times> string \<times> string \<times> string) list" where
  "WalletList formatMoney ws =
     map (\<lambda>w. (currencyFlag (ws_currency w), ws_currency w, currencyName (ws_currency w), formatMoney (ws_balance w) (ws_currency w))) ws"

section \<open>Exchange and send\<close>

text \<open>The currency sheet: the rows with the one that is chosen, and what a press does.\<close>

definition CurrencyPicker ::
  "(int \<Rightarrow> string \<Rightarrow> string) \<Rightarrow> wallet_summary list \<Rightarrow> string \<Rightarrow> (string \<times> bool \<times> string \<times> string) list" where
  "CurrencyPicker formatMoney ws selectedId =
     map (\<lambda>w. (ws_id w, ws_id w = selectedId, currencyName (ws_currency w), formatMoney (ws_balance w) (ws_currency w))) ws"

text \<open>The field's popup: a status, an error, or the one match; the card once the popup is closed.\<close>

record recipient_popup =
  pu_status :: "string option"
  pu_error :: "string option"
  pu_items :: "(string \<times> jval option \<times> jval option) list"

definition RecipientCombobox :: "recipient_state \<Rightarrow> string \<Rightarrow> recipient_popup" where
  "RecipientCombobox st v =
     \<lparr>pu_status = (if st = LkLooking then Some (''Looking up @'' @ to_lower (trim v)) else None),
       pu_error = (case st of LkError m \<Rightarrow> Some m | _ \<Rightarrow> None),
       pu_items = (case st of LkFound nm h cur \<Rightarrow> [(h, nm, cur)] | _ \<Rightarrow> [])\<rparr>"

definition RecipientCard :: "recipient_state \<Rightarrow> (jval option \<times> string \<times> jval option) option" where
  "RecipientCard st = (case st of LkFound nm h cur \<Rightarrow> Some (nm, h, cur) | _ \<Rightarrow> None)"

text \<open>\<open>navigator.clipboard.writeText\<close> succeeds or throws; an account without a handle has no button.\<close>

definition CopyHandle :: "string option \<Rightarrow> bool \<Rightarrow> (string \<times> toast_msg) option" where
  "CopyHandle handle written =
     (if \<not> given handle then None
      else Some (''@'' @ the handle,
        if written then \<lparr>tm_text = ''Handle copied'', tm_description = Some (''Anyone can pay you with @'' @ the handle @ ''.'')\<rparr>
        else \<lparr>tm_text = ''Could not copy your handle.'', tm_description = None\<rparr>))"

section \<open>The profile's cards\<close>

definition SecurityStatusCard :: "bool \<Rightarrow> nat \<Rightarrow> string \<times> string" where
  "SecurityStatusCard twoFactorEnabled passkeyCount =
     (if twoFactorEnabled then ''On'' else ''Off'',
      if passkeyCount = 0 then ''None yet'' else if passkeyCount = 1 then ''1 passkey'' else show_nat passkeyCount @ '' passkeys'')"

definition AccountSummaryCard :: "string \<Rightarrow> string option \<Rightarrow> string \<Rightarrow> string \<times> string \<times> string option \<times> string" where
  "AccountSummaryCard name handle email =
     (initials name ''ME'', name, if given handle then Some (''@'' @ the handle) else None, email)"

section \<open>The console's tables\<close>

datatype user_cell = NoActions | Actions "string list" string

record user_line =
  ul_name :: string
  ul_you :: bool
  ul_email :: string
  ul_handle :: string
  ul_role :: string
  ul_status :: string
  ul_actions :: user_cell

text \<open>One's own row carries no actions; the others offer the roles one may give and the opposite status.\<close>

definition user_line :: "string list \<Rightarrow> string \<Rightarrow> string \<Rightarrow> safe_user \<Rightarrow> user_line" where
  "user_line offered currentUserId currentUserRole u =
     (let role = (case su_role u of None \<Rightarrow> [] | Some (i, nm) \<Rightarrow> nm);
          p = \<lparr>up_user = \<lparr>sf_id = su_id u, sf_role = role, sf_active = (su_status u = Active)\<rparr>, up_roles = offered,
                up_currentId = currentUserId, up_currentRole = currentUserRole\<rparr>
      in \<lparr>ul_name = su_firstName u @ '' '' @ su_lastName u, ul_you = (su_id u = currentUserId), ul_email = su_email u,
           ul_handle = (if given (su_handle u) then ''@'' @ the (su_handle u) else ''--''),
           ul_role = replace_first CHR ''_'' CHR '' '' role, ul_status = status_text (su_status u),
           ul_actions = (if su_id u = currentUserId then NoActions
             else Actions (map (replace_first CHR ''_'' CHR '' '') (roleOptions p))
               (if su_status u = Active then ''Suspend'' else ''Reactivate''))\<rparr>)"

definition USER_FILTERS :: "string list \<Rightarrow> filter_def list" where
  "USER_FILTERS offered =
     [\<lparr>fd_key = ''role'', fd_label = ''Role'', fd_allLabel = Some ''All roles'',
        fd_options = map (\<lambda>r. (r, replace_first CHR ''_'' CHR '' '' r)) offered\<rparr>,
      \<lparr>fd_key = ''status'', fd_label = ''Status'', fd_allLabel = Some ''All statuses'',
        fd_options = [(''active'', ''Active''), (''suspended'', ''Suspended'')]\<rparr>]"

definition CURRENCIES :: "string list" where "CURRENCIES = [''USD'', ''EUR'', ''GBP'', ''JPY'']"

definition WALLET_FILTERS :: "filter_def list" where
  "WALLET_FILTERS = [\<lparr>fd_key = ''currency'', fd_label = ''Currency'', fd_allLabel = Some ''All currencies'',
     fd_options = map (\<lambda>c. (c, c)) CURRENCIES\<rparr>]"

text \<open>A wallet's row: its name and link, the owner, the currency, the balance.\<close>

definition wallet_line :: "staff_wallet \<Rightarrow> (string \<times> string) \<times> string \<times> string \<times> int" where
  "wallet_line w = ((''/wallets/'' @ Wallets.sw_id w, Wallets.sw_name w), Wallets.sw_email w, Wallets.sw_currency w, Wallets.sw_balance w)"

definition AUDIT_ACTIONS :: "string list" where
  "AUDIT_ACTIONS = [''deposit.settle'', ''deposit.approve'', ''deposit.reject'', ''withdrawal.approve'', ''withdrawal.reject'',
     ''wallet.adjust'', ''wallet.transfer'', ''user.status_change'', ''user.role_change'']"

definition AUDIT_FILTERS :: "filter_def list" where
  "AUDIT_FILTERS =
     [\<lparr>fd_key = ''entityType'', fd_label = ''Entity'', fd_allLabel = Some ''All entities'',
        fd_options = map (\<lambda>v. (v, v)) [''transaction'', ''wallet'', ''user'']\<rparr>,
      \<lparr>fd_key = ''action'', fd_label = ''Action'', fd_allLabel = Some ''All actions'',
        fd_options = map (\<lambda>a. (a, replace_first CHR ''_'' CHR '' '' a)) AUDIT_ACTIONS\<rparr>]"

text \<open>A value of a change: absent, an amount, or as it is.\<close>

datatype diff_text = DiffDash | DiffNull | DiffMoney rat | DiffText string | DiffJson jval

definition diff_text :: "string \<Rightarrow> jval option \<Rightarrow> diff_text" where
  "diff_text key v = (case v of
     None \<Rightarrow> DiffDash
   | Some (JNum n) \<Rightarrow> if List.member MONEY_KEYS key then DiffMoney (n / 100) else DiffJson (JNum n)
   | Some JNull \<Rightarrow> DiffNull | Some (JStr s) \<Rightarrow> DiffText s | Some j \<Rightarrow> DiffJson j)"

definition DiffList :: "jval \<Rightarrow> jval \<Rightarrow> (string \<times> bool \<times> diff_text \<times> diff_text) list" where
  "DiffList before after = map (\<lambda>r. (humanKey (df_key r), df_kind r = Removed,
     diff_text (df_key r) (df_before r), diff_text (df_key r) (df_after r))) (diffSnapshots before after)"

text \<open>An audit row: its action and tone, what it is about, the changes, the actor and the address.\<close>

definition audit_line ::
  "audit_row \<Rightarrow> (string \<times> string option) \<times> (string \<times> string) \<times> (string \<times> bool \<times> diff_text \<times> diff_text) list \<times> string \<times> string" where
  "audit_line l =
     (let e = al_entry l; a = action_name (ae_action e)
      in ((replace_first CHR ''_'' CHR '' '' a, action_tone a), (entity_name (ae_entityType e), take 8 (ae_entityId e)),
          DiffList (ae_oldValue e) (ae_newValue e), take 8 (ae_actorUserId e),
          case al_ipAddress l of None \<Rightarrow> ''--'' | Some ip \<Rightarrow> ip))"

section \<open>The console's dialogs\<close>

text \<open>What is asked before money or access changes: the title, the sentence, and the button.\<close>

definition money_words :: "(int \<Rightarrow> string \<Rightarrow> string) \<Rightarrow> decision_item \<Rightarrow> string" where
  "money_words formatMoney s = formatMoney (di_amount s) (di_currency s)"

definition ApproveDialog :: "(int \<Rightarrow> string \<Rightarrow> string) \<Rightarrow> decision_item \<Rightarrow> string \<times> string \<times> string" where
  "ApproveDialog formatMoney s =
     (''Approve '' @ di_type s @ '' of '' @ money_words formatMoney s @ ''?'',
      (if di_type s = ''deposit'' then ''Add'' else ''Send'') @ '' '' @ money_words formatMoney s @ '' '' @
        (if di_type s = ''deposit'' then ''to'' else ''from'') @ '' '' @ di_walletName s @ '' ('' @ di_email s @
        ''). This moves money and is recorded in the audit trail.'',
      ''Approve '' @ di_type s)"

definition RejectDialog :: "(int \<Rightarrow> string \<Rightarrow> string) \<Rightarrow> decision_item \<Rightarrow> string \<times> string \<times> string" where
  "RejectDialog formatMoney s =
     (''Reject '' @ di_type s @ '' of '' @ money_words formatMoney s @ ''?'',
      di_email s @ '' will be told their '' @ di_type s @ '' was declined. Nothing moves. A note helps them understand why.'',
      ''Reject '' @ di_type s)"

definition UserDialog :: "string \<Rightarrow> string \<Rightarrow> user_change \<Rightarrow> string \<times> string \<times> string" where
  "UserDialog email role c = (case c of
     ChangeStatus active \<Rightarrow>
       ((if active then ''Reactivate '' else ''Suspend '') @ email @ ''?'',
        if active then ''They will be able to log in again with the access their role grants.''
        else ''They will be signed out and unable to log in until reactivated. Their wallets and history are untouched.'',
        if active then ''Reactivate user'' else ''Suspend user'')
   | ChangeRole r \<Rightarrow>
       (''Change '' @ email @ CHR 0x27 # ''s role?'',
        ''From '' @ replace_first CHR ''_'' CHR '' '' role @ '' to '' @ replace_first CHR ''_'' CHR '' '' r @
          ''. Takes effect on their next request.'',
        ''Change role''))"

text \<open>A row of the wallet's statement: amount with its tone, and the running balance once there is one.\<close>

definition TransactionLine :: "txn \<Rightarrow> string \<times> (tone \<times> int) \<times> string \<times> int option \<times> string" where
  "TransactionLine x = (replace_first CHR ''_'' CHR '' '' (type_text (t_type x)),
     (console_tone (type_text (t_type x)) (txn_status_text (t_status x)), t_amount x), txn_status_text (t_status x),
     t_balanceAfter x, case t_note x of None \<Rightarrow> ''--'' | Some n \<Rightarrow> n)"

section \<open>What they promise\<close>

lemma see_all_of_card: "ac_seeAll (ActivityCard cal n limit linked g rows) \<longleftrightarrow> linked \<and> limit < length rows"
  by (simp add: ActivityCard_def Let_def)

text \<open>A statement's card shows the newest rows it is given, each once and in their order, grouped or not.\<close>

lemma activity_card_rows:
  "concat (map snd (ac_groups (ActivityCard cal n limit linked grouped rows))) =
     map activity_line (if limit \<noteq> 0 then take limit rows else rows)"
proof -
  have ungrouped: "concat (map (\<lambda>x. map activity_line (snd x)) gs) = map activity_line (concat (map snd gs))"
    for gs :: "(string \<times> activity_row list) list"
    by (induction gs) auto
  have days: "concat (map snd (groupByDay cal ar_createdAt n rs)) = rs" for rs
    using group_by_day_ok [of cal ar_createdAt n rs] by (simp add: groups_ok_def)
  show ?thesis
    by (auto simp: ActivityCard_def Let_def comp_def case_prod_beta ungrouped days)
qed

text \<open>The aside's pending rows are those the statement marks as waiting.\<close>

lemma pending_card_matches:
  "PendingCard rows = map (\<lambda>r. (ar_type r, ar_amount r, ar_createdAt r))
     (filter (\<lambda>r. ay_status (activity_line r) = PendingReview) rows)"
proof -
  have "ay_status (activity_line r) = PendingReview \<longleftrightarrow> ar_status r = ''pending''" for r by (simp add: activity_line_def)
  then show ?thesis by (simp add: PendingCard_def)
qed

text \<open>The audit filter offers exactly the actions and the entities that the API writes.\<close>

lemma audit_actions_complete: "set AUDIT_ACTIONS = range action_name"
proof -
  have "range action_name = action_name ` {DepositSettle, DepositApprove, DepositReject, WithdrawalApprove, WithdrawalReject,
      WalletAdjust, WalletTransfer, UserStatusChange, UserRoleChange}"
    by (rule arg_cong [where f = "image action_name"]) (use audit_action.exhaust in blast)
  then show ?thesis by (simp add: AUDIT_ACTIONS_def insert_commute)
qed

text \<open>The currency filter is not that of the app: wallets of six currencies that customers open cannot be
  filtered for, and the filter offers one that the app does not open.\<close>

lemma currency_filter_misses:
  "set CURRENCY_CODES - set CURRENCIES = {''SGD'', ''AUD'', ''CAD'', ''CHF'', ''NZD'', ''HKD''}"
  "set CURRENCIES - set CURRENCY_CODES = {''JPY''}"
  by (simp_all add: CURRENCY_CODES_def SUPPORTED_CURRENCIES_def CURRENCIES_def insert_Diff_if)

text \<open>One's own row never offers an action, and a super-admin role is offered only by a super-admin.\<close>

lemma own_row_has_no_actions: "ul_actions (user_line rs me myRole u) = NoActions \<longleftrightarrow> su_id u = me"
  by (simp add: user_line_def Let_def)

lemma picker_marks_one:
  "distinct (map ws_id ws) \<Longrightarrow> length (filter (\<lambda>(i, chosen, n, m). chosen) (CurrencyPicker f ws i)) \<le> 1"
proof -
  assume "distinct (map ws_id ws)"
  then have "length (filter (\<lambda>w. ws_id w = i) ws) \<le> 1"
  proof (induction ws)
    case (Cons w ws)
    then have "ws_id w = i \<Longrightarrow> filter (\<lambda>w. ws_id w = i) ws = []" by (auto simp: filter_empty_conv image_iff)
    then show ?case using Cons by auto
  qed simp
  then show ?thesis by (simp add: CurrencyPicker_def filter_map comp_def)
qed

section \<open>Without prices a portfolio reads as empty\<close>

text \<open>
  \<open>markets/page.tsx\<close> withholds the total when no price came, as "$0.00 would read as a real balance".
  The portfolio page does not: without prices every holding is dropped, the total is nought, and the list
  says that nothing is tracked.
\<close>

lemma no_prices_no_rows: "computePortfolio hs [] =
  \<lparr>po_rows = [], po_totalValue = 0, po_totalInvested = 0, po_totalPnl = 0, po_totalPnlPct = 0\<rparr>"
proof -
  have "List.map_filter (holding_view []) hs = []"
    by (induction hs) (simp_all add: List.map_filter_def holding_view_def price_map_def)
  then show ?thesis by (simp add: computePortfolio_def Let_def)
qed

lemma priceless_portfolio_reads_as_empty:
  "HoldingList f g (po_rows (computePortfolio hs [])) = RowsEmpty ''Nothing tracked yet'' (Some ''/portfolio/new'')"
  "fst (PortfolioSummary f g (po_totalValue (computePortfolio hs [])) p q) = f 0"
  by (simp_all add: no_prices_no_rows HoldingList_def PortfolioSummary_def Let_def)

text \<open>The alerts' list keeps its rows without prices; only the current price is missing.\<close>

lemma priceless_alerts_stay:
  "as \<noteq> [] \<Longrightarrow> \<exists>ls. AlertList f (computeAlerts as []) = RowsShown ls \<and> length ls = length as \<and> (\<forall>l \<in> set ls. aw_now l = None)"
  by (simp add: AlertList_def computeAlerts_def Let_def price_map_def)

end
