(* ===== verification/DeviceScreens.thy ===== *)
theory DeviceScreens
  imports Wizards
begin

text \<open>
  What the customer app does with the browser's own devices and with rows that can be removed: push
  subscriptions (\<open>lib/push/subscribe.ts\<close>, \<open>components/alerts/push-toggle.tsx\<close>), the list of passkeys
  (\<open>components/security/passkey-manager.tsx\<close>), the buttons that delete after a confirmation, the QR
  scanner and signing out. The browser's calls are parameters; they may change the state they share
  with the network.
\<close>

section \<open>Push subscriptions\<close>

text \<open>What the code uses of the browser: whether it has service workers and push, whether it has
  \<open>Notification\<close>, the permission and the dialog that asks for it, registering the worker, subscribing
  with the key's bytes, the endpoint of the current subscription, and unsubscribing.\<close>

record 's push_platform =
  pq_supported :: bool
  pq_notifications :: bool
  pq_permission :: "'s \<Rightarrow> string"
  pq_request :: "'s \<Rightarrow> (exn + string) \<times> 's"
  pq_register :: "'s \<Rightarrow> (exn + unit) \<times> 's"
  pq_subscribe :: "nat list \<Rightarrow> 's \<Rightarrow> (exn + jval) \<times> 's"
  pq_current :: "'s \<Rightarrow> (exn + string option) \<times> 's"
  pq_unsubscribe :: "string \<Rightarrow> 's \<Rightarrow> (exn + unit) \<times> 's"

definition base64_of_url :: "string \<Rightarrow> string" where
  "base64_of_url base64 =
     map (\<lambda>c. if c = CHR ''-'' then CHR ''+'' else if c = CHR ''_'' then CHR ''/'' else c)
       (base64 @ replicate ((4 - length base64 mod 4) mod 4) CHR ''='')"

text \<open>\<open>atob\<close> is the browser's.\<close>

definition urlBase64ToUint8Array :: "(string \<Rightarrow> exn + string) \<Rightarrow> string \<Rightarrow> exn + nat list" where
  "urlBase64ToUint8Array atob base64 =
     (case atob (base64_of_url base64) of Inl e \<Rightarrow> Inl e | Inr raw \<Rightarrow> Inr (map of_char raw))"

lemma base64_is_padded: "length (base64_of_url s) mod 4 = 0"
proof -
  define n where "n = length s mod 4"
  have "n < 4" by (simp add: n_def)
  then consider "n = 0" | "n = 1" | "n = 2" | "n = 3" by linarith
  then have "(n + (4 - n) mod 4) mod 4 = 0" by cases simp_all
  moreover have "length (base64_of_url s) mod 4 = (n + (4 - n) mod 4) mod 4"
    unfolding base64_of_url_def n_def by (simp only: length_map length_append length_replicate mod_add_left_eq)
  ultimately show ?thesis by simp
qed

definition subscribeToPush ::
  "'s push_platform \<Rightarrow> (string \<Rightarrow> exn + string) \<Rightarrow> string \<Rightarrow> 's fetch \<Rightarrow> 's \<Rightarrow> (exn + bool) \<times> 's" where
  "subscribeToPush P atob key fetch s =
     (if \<not> pq_supported P then (Inr False, s)
      else case pq_request P s of
        (Inl e, s1) \<Rightarrow> (Inl e, s1)
      | (Inr permission, s1) \<Rightarrow>
          if permission \<noteq> ''granted'' then (Inr False, s1)
          else (case pq_register P s1 of
             (Inl e, s2) \<Rightarrow> (Inl e, s2)
           | (Inr u, s2) \<Rightarrow>
               (case urlBase64ToUint8Array atob key of
                  Inl e \<Rightarrow> (Inl e, s2)
                | Inr bytes \<Rightarrow>
                    (case pq_subscribe P bytes s2 of
                       (Inl e, s3) \<Rightarrow> (Inl e, s3)
                     | (Inr sub, s3) \<Rightarrow>
                         (case fetch (post_body ''/api/push/subscribe'' sub) s3 of
                            (None, s4) \<Rightarrow> (Inl FetchFailed, s4)
                          | (Some r, s4) \<Rightarrow> (Inr (res_ok (hm_status r)), s4))))))"

definition unsubscribeFromPush :: "'s push_platform \<Rightarrow> 's fetch \<Rightarrow> 's \<Rightarrow> (exn + unit) \<times> 's" where
  "unsubscribeFromPush P fetch s =
     (case pq_current P s of
        (Inl e, s1) \<Rightarrow> (Inl e, s1)
      | (Inr None, s1) \<Rightarrow> (Inr (), s1)
      | (Inr (Some endpoint), s1) \<Rightarrow>
          (case fetch (post_body ''/api/push/unsubscribe'' (JObj [(''endpoint'', JStr endpoint)])) s1 of
             (None, s2) \<Rightarrow> (Inl FetchFailed, s2)
           | (Some r, s2) \<Rightarrow> pq_unsubscribe P endpoint s2))"

record push_toggle =
  pg_perm :: string
  pg_busy :: bool

text \<open>The effect of mounting reads the permission.\<close>

definition push_open :: "'s push_platform \<Rightarrow> 's \<Rightarrow> push_toggle" where
  "push_open P s = \<lparr>pg_perm = (if pq_notifications P then pq_permission P s else ''default''), pg_busy = False\<rparr>"

definition push_says_on :: "push_toggle \<Rightarrow> bool" where
  "push_says_on w \<longleftrightarrow> pg_perm w = ''granted''"

definition push_enable ::
  "'s push_platform \<Rightarrow> (string \<Rightarrow> exn + string) \<Rightarrow> string \<Rightarrow> 's fetch \<Rightarrow> push_toggle \<Rightarrow> 's \<Rightarrow> push_toggle \<times> 's" where
  "push_enable P atob key fetch w s =
     (case subscribeToPush P atob key fetch s of
        (Inl e, s1) \<Rightarrow> (w\<lparr>pg_busy := True\<rparr>, s1)
      | (Inr ok, s1) \<Rightarrow>
          (w\<lparr>pg_perm := (if pq_notifications P then pq_permission P s1 else pg_perm w), pg_busy := False\<rparr>, s1))"

definition push_disable :: "'s push_platform \<Rightarrow> 's fetch \<Rightarrow> push_toggle \<Rightarrow> 's \<Rightarrow> push_toggle \<times> 's" where
  "push_disable P fetch w s =
     (case unsubscribeFromPush P fetch s of
        (Inl e, s1) \<Rightarrow> (w\<lparr>pg_busy := True\<rparr>, s1)
      | (Inr u, s1) \<Rightarrow> (w\<lparr>pg_perm := ''default'', pg_busy := False\<rparr>, s1))"

text \<open>The button is there unless notifications are denied, and disabled while busy.\<close>

definition push_press ::
  "'s push_platform \<Rightarrow> (string \<Rightarrow> exn + string) \<Rightarrow> string \<Rightarrow> 's fetch \<Rightarrow> push_toggle \<Rightarrow> 's \<Rightarrow> push_toggle \<times> 's" where
  "push_press P atob key fetch w s =
     (if pg_busy w \<or> pg_perm w = ''denied'' then (w, s)
      else if push_says_on w then push_disable P fetch w s else push_enable P atob key fetch w s)"

text \<open>The push toggle shows the browser's permission, not whether there is a subscription.
  Once the person has granted the permission it says "on" although the API refused to register the
  subscription; and after turning push off it says "off" only until the page is opened again, since
  the permission stays granted.\<close>

theorem push_toggle_shows_permission:
  assumes off: "pg_perm w = ''default''" "\<not> pg_busy w" "pq_notifications P"
    and refused: "subscribeToPush P atob key fetch s = (Inr False, s1)" "pq_permission P s1 = ''granted''"
    and turned_off: "unsubscribeFromPush P fetch s1 = (Inr u, s2)" "pq_permission P s2 = ''granted''"
  shows "push_says_on (fst (push_press P atob key fetch w s))
    \<and> \<not> push_says_on (fst (push_press P atob key fetch (fst (push_press P atob key fetch w s)) s1))
    \<and> push_says_on (push_open P s2)"
  using assms by (simp add: push_press_def push_says_on_def push_enable_def push_disable_def push_open_def)

text \<open>A browser that grants, with an API that refuses every registration; the state is the current endpoint.\<close>

definition granting :: "string option push_platform" where
  "granting = \<lparr>pq_supported = True, pq_notifications = True, pq_permission = (\<lambda>s. ''granted''),
     pq_request = (\<lambda>s. (Inr ''granted'', s)), pq_register = (\<lambda>s. (Inr (), s)),
     pq_subscribe = (\<lambda>k s. (Inr (JObj [(''endpoint'', JStr ''https://push'')]), Some ''https://push'')),
     pq_current = (\<lambda>s. (Inr s, s)), pq_unsubscribe = (\<lambda>e s. (Inr (), None))\<rparr>"

definition bad_request :: "string option fetch" where
  "bad_request c s = (Some (empty_reply 400), s)"

lemma push_toggle_shows_permission_witness:
  "push_says_on (fst (push_press granting Inr ''BA'' bad_request \<lparr>pg_perm = ''default'', pg_busy = False\<rparr> None))
   \<and> push_says_on (push_open granting None)"
proof -
  let ?w = "\<lparr>pg_perm = ''default'', pg_busy = False\<rparr>"
  have s: "subscribeToPush granting Inr ''BA'' bad_request None = (Inr False, Some ''https://push'')"
    by (simp add: subscribeToPush_def granting_def urlBase64ToUint8Array_def bad_request_def empty_reply_def res_ok_def)
  have u: "unsubscribeFromPush granting bad_request (Some ''https://push'') = (Inr (), None)"
    by (simp add: unsubscribeFromPush_def granting_def bad_request_def)
  have g: "pq_permission granting x = ''granted''" "pq_notifications granting" for x by (simp_all add: granting_def)
  show ?thesis
    using push_toggle_shows_permission [OF _ _ g(2) s g(1) u g(1), of ?w] by simp
qed

section \<open>Passkeys\<close>

record passkey_row =
  pr_id :: string
  pr_label :: "string option"
  pr_deviceType :: "string option"
  pr_createdAt :: int

datatype passkey_wait = Registering | Listing

record passkey_manager =
  pm_keys :: "passkey_row list"
  pm_label :: string
  pm_busy :: bool
  pm_removing :: "passkey_row option"
  pm_removeBusy :: bool
  pm_supported :: "bool option"
  pm_wait :: "passkey_wait option"
  pm_toasts :: "toast_msg list"

definition passkeys_open :: "passkey_row list \<Rightarrow> passkey_manager" where
  "passkeys_open ks = \<lparr>pm_keys = ks, pm_label = [], pm_busy = False, pm_removing = None, pm_removeBusy = False,
     pm_supported = None, pm_wait = None, pm_toasts = []\<rparr>"

definition plain_toast :: "string \<Rightarrow> toast_msg" where
  "plain_toast t = \<lparr>tm_text = t, tm_description = None\<rparr>"

text \<open>What leaves: the registration ceremony with an optional name, or a request.\<close>

datatype passkey_effect = RunRegister "string option" | SendCall api_call

definition delete_call :: "string \<Rightarrow> api_call" where
  "delete_call path = \<lparr>cq_method = ''DELETE'', cq_path = path, cq_headers = [], cq_body = None\<rparr>"

text \<open>\<open>PkListed\<close>: \<open>Inl\<close> is an exception of \<open>fetch\<close> or of reading the body, \<open>Inr None\<close> a response that is not ok.\<close>

datatype passkey_event =
    PkSupport bool | PkLabel string | PkAdd | PkRegistered "exn + bool" | PkListed "exn + passkey_row list option"
  | PkPick passkey_row | PkDismiss | PkRemove | PkRemoved "http_reply_msg option"

fun passkey_step :: "passkey_event \<Rightarrow> passkey_manager \<Rightarrow> passkey_manager \<times> passkey_effect option" where
  "passkey_step (PkSupport b) w = (w\<lparr>pm_supported := Some b\<rparr>, None)"
| "passkey_step (PkLabel s) w = (if pm_supported w = Some False then w else w\<lparr>pm_label := s\<rparr>, None)"
| "passkey_step PkAdd w =
     (if pm_supported w = Some True \<and> \<not> pm_busy w
      then (w\<lparr>pm_busy := True, pm_wait := Some Registering\<rparr>,
            Some (RunRegister (if pm_label w = [] then None else Some (pm_label w))))
      else (w, None))"
| "passkey_step (PkRegistered res) w =
     (if pm_wait w \<noteq> Some Registering then (w, None)
      else case res of
        Inl e \<Rightarrow> (w\<lparr>pm_wait := None, pm_busy := False, pm_toasts := pm_toasts w @ [plain_toast ''Passkey setup was cancelled.'']\<rparr>, None)
      | Inr False \<Rightarrow> (w\<lparr>pm_wait := None, pm_busy := False,
          pm_toasts := pm_toasts w @ [plain_toast ''Could not add the passkey. Try again.'']\<rparr>, None)
      | Inr True \<Rightarrow> (w\<lparr>pm_wait := Some Listing\<rparr>, Some (SendCall (GET_call ''/api/passkeys''))))"
| "passkey_step (PkListed res) w =
     (if pm_wait w \<noteq> Some Listing then (w, None)
      else (let w1 = w\<lparr>pm_wait := None, pm_busy := False\<rparr> in
        case res of
          Inl e \<Rightarrow> (w1\<lparr>pm_toasts := pm_toasts w @ [plain_toast ''Passkey setup was cancelled.'']\<rparr>, None)
        | Inr None \<Rightarrow> (w1\<lparr>pm_label := []\<rparr>, None)
        | Inr (Some ks) \<Rightarrow> (w1\<lparr>pm_label := [], pm_keys := ks\<rparr>, None)))"
| "passkey_step (PkPick k) w =
     (if k \<in> set (pm_keys w) \<and> pm_removing w = None then w\<lparr>pm_removing := Some k\<rparr> else w, None)"
| "passkey_step PkDismiss w = (if pm_removeBusy w then w else w\<lparr>pm_removing := None\<rparr>, None)"
| "passkey_step PkRemove w =
     (case pm_removing w of
        None \<Rightarrow> (w, None)
      | Some k \<Rightarrow> if pm_removeBusy w then (w, None)
                  else (w\<lparr>pm_removeBusy := True\<rparr>, Some (SendCall (delete_call (''/api/passkeys/'' @ pr_id k)))))"
| "passkey_step (PkRemoved r) w =
     (if \<not> pm_removeBusy w then (w, None)
      else (let w1 = w\<lparr>pm_removeBusy := False\<rparr> in
        case (apiRequest r, pm_removing w) of
          (ApiFailed e, _) \<Rightarrow> (w1\<lparr>pm_toasts := pm_toasts w @ [toastApiError e []]\<rparr>, None)
        | (ApiOk st d, None) \<Rightarrow> (w1, None)
        | (ApiOk st d, Some k) \<Rightarrow> (w1\<lparr>pm_keys := filter (\<lambda>x. pr_id x \<noteq> pr_id k) (pm_keys w), pm_removing := None,
            pm_toasts := pm_toasts w @ [plain_toast ''Passkey removed'']\<rparr>, None)))"

text \<open>Every row leaves the list only by the API's word: by a confirmed removal that it answered with
  success, or by the fresh list after a registration.\<close>

lemma passkey_rows_kept:
  assumes "passkey_step e w = (w', out)" "k \<in> set (pm_keys w)" "k \<notin> set (pm_keys w')"
  shows "(\<exists>ks. e = PkListed (Inr (Some ks)) \<and> k \<notin> set ks)
    \<or> (\<exists>r st d g. e = PkRemoved r \<and> apiRequest r = ApiOk st d \<and> pm_removeBusy w \<and> pm_removing w = Some g \<and> pr_id k = pr_id g)"
  using assms
  by (cases e) (auto simp: Let_def split: if_splits sum.splits option.splits bool.splits api_result.splits)

text \<open>While a removal is pending its dialog stays: what was confirmed is what is taken out.\<close>

lemma pending_removal_stays:
  assumes "passkey_step e w = (w', out)" "pm_removeBusy w" "pm_removing w = Some k" "\<forall>r. e \<noteq> PkRemoved r"
  shows "pm_removeBusy w' \<and> pm_removing w' = Some k \<and> (\<forall>c. out = Some (SendCall c) \<longrightarrow> cq_method c = ''GET'')"
  using assms
  by (cases e) (auto simp: GET_call_def Let_def split: if_splits sum.splits option.splits bool.splits)

section \<open>Buttons that delete after a confirmation\<close>

record remove_button =
  rm_open :: bool
  rm_busy :: bool
  rm_toasts :: "toast_msg list"
  rm_refreshes :: nat

definition remove_start :: remove_button where
  "remove_start = \<lparr>rm_open = False, rm_busy = False, rm_toasts = [], rm_refreshes = 0\<rparr>"

datatype remove_event = RmOpen | RmDismiss | RmConfirm | RmReply "http_reply_msg option"

text \<open>\<open>ConfirmDialog\<close>: no change of its visibility while an answer is pending.\<close>

fun remove_step :: "string \<Rightarrow> string \<Rightarrow> remove_event \<Rightarrow> remove_button \<Rightarrow> remove_button \<times> api_call option" where
  "remove_step path said RmOpen w = (if rm_open w then w else w\<lparr>rm_open := True\<rparr>, None)"
| "remove_step path said RmDismiss w = (if rm_busy w then w else w\<lparr>rm_open := False\<rparr>, None)"
| "remove_step path said RmConfirm w =
     (if rm_open w \<and> \<not> rm_busy w then (w\<lparr>rm_busy := True\<rparr>, Some (delete_call path)) else (w, None))"
| "remove_step path said (RmReply r) w =
     (if \<not> rm_busy w then (w, None)
      else (let w1 = w\<lparr>rm_busy := False, rm_open := False\<rparr> in
        case apiRequest r of
          ApiFailed e \<Rightarrow> (w1\<lparr>rm_toasts := rm_toasts w @ [toastApiError e []]\<rparr>, None)
        | ApiOk st d \<Rightarrow> (w1\<lparr>rm_toasts := rm_toasts w @ [plain_toast said], rm_refreshes := Suc (rm_refreshes w)\<rparr>, None)))"

definition remove_alert :: "string \<Rightarrow> remove_event \<Rightarrow> remove_button \<Rightarrow> remove_button \<times> api_call option" where
  "remove_alert i = remove_step (''/api/alerts/'' @ encodeURIComponent i) ''Alert removed''"

definition remove_holding :: "string \<Rightarrow> remove_event \<Rightarrow> remove_button \<Rightarrow> remove_button \<times> api_call option" where
  "remove_holding symbol =
     remove_step (''/api/portfolio/'' @ encodeURIComponent symbol) (symbol @ '' removed from your portfolio'')"

lemma delete_needs_confirmation:
  assumes "remove_step path said e w = (w', Some c)"
  shows "e = RmConfirm \<and> rm_open w \<and> \<not> rm_busy w \<and> rm_busy w' \<and> c = delete_call path"
  using assms by (cases e) (auto simp: Let_def split: if_splits api_result.splits)

section \<open>Scanning and signing out\<close>

text \<open>The scanner hands over decoded texts; the first that is a payment code stops it.\<close>

record qr_scanner =
  qs_stopped :: bool
  qs_pushed :: "string option"

definition scan_text :: "string \<Rightarrow> qr_scanner \<Rightarrow> qr_scanner" where
  "scan_text s w =
     (case parseQr s of
        Some handle \<Rightarrow> if handle \<noteq> [] \<and> \<not> qs_stopped w
                       then w\<lparr>qs_stopped := True, qs_pushed := Some (''/pay/send?handle='' @ handle)\<rparr> else w
      | None \<Rightarrow> w)"

text \<open>Whatever else the camera sees, the page that opens is that of the first payment code.\<close>

lemma first_code_wins:
  "qs_stopped w \<Longrightarrow> fold scan_text ss w = w"
  by (induction ss) (auto simp: scan_text_def split: option.splits)

text \<open>Signing out leaves for the sign-in page whatever the answer is.\<close>

definition signOut :: "'s fetch \<Rightarrow> 's \<Rightarrow> string list \<times> 's" where
  "signOut fetch s = ([''/login''], snd (fetch (post_empty ''/api/auth/logout'') s))"

end
