(* ===== verification/Delivery.thy ===== *)
theory Delivery
  imports Notify
begin

text \<open>
  The other end of the queue: \<open>push/push.service.ts\<close> (browser push subscriptions),
  \<open>worker/notification.consumer.ts\<close> (one ack or nack per message, de-duplication, bounded
  retries), the two ways the consumer is hosted (\<open>worker.ts\<close>,
  \<open>worker/in-process-consumer.module.ts\<close>). The push service of the browser vendor is the
  parameter \<open>wp\<close>. The last section runs a message through the topology of \<open>Queue\<close>.
\<close>

section \<open>Push subscriptions\<close>

record subscribe_input =
  si_endpoint :: string
  si_p256dh :: string
  si_auth :: string

text \<open>\<open>upsert\<close> on the unique endpoint: a shared browser moves to the account that signs in on it.\<close>

definition push_subscribe ::
  "string \<Rightarrow> subscribe_input \<Rightarrow> push_subscription list \<Rightarrow> push_subscription list" where
  "push_subscribe actorId dto subs =
     (if List.member (map ps_endpoint subs) (si_endpoint dto)
      then upd_rows (\<lambda>s. ps_endpoint s = si_endpoint dto)
             (\<lambda>s. s\<lparr>ps_userId := actorId, ps_p256dh := si_p256dh dto, ps_auth := si_auth dto\<rparr>) subs
      else subs @ [\<lparr>ps_endpoint = si_endpoint dto, ps_userId = actorId,
                    ps_p256dh = si_p256dh dto, ps_auth = si_auth dto\<rparr>])"

definition push_unsubscribe :: "string \<Rightarrow> string \<Rightarrow> push_subscription list \<Rightarrow> push_subscription list" where
  "push_unsubscribe actorId endpoint subs =
     del_rows (\<lambda>s. ps_endpoint s = endpoint \<and> ps_userId s = actorId) subs"

text \<open>What \<open>webpush.sendNotification\<close> does: a status and a message when it throws with them.\<close>

datatype push_reply = PushOk | PushError "nat option" "string option"

definition push_gone :: "push_reply \<Rightarrow> bool" where
  "push_gone r = (case r of PushOk \<Rightarrow> False | PushError st m \<Rightarrow> st = Some 410 \<or> st = Some 404)"

definition transient_text :: "push_reply \<Rightarrow> string option" where
  "transient_text r =
     (case r of
        PushOk \<Rightarrow> None
      | PushError st m \<Rightarrow>
          if push_gone r then None
          else Some ((case st of None \<Rightarrow> ''network'' | Some n \<Rightarrow> show_nat n) @ '': '' @
                     (case m of None \<Rightarrow> ''send failed'' | Some s \<Rightarrow> s)))"

definition has_endpoint :: "string list \<Rightarrow> push_subscription \<Rightarrow> bool" where
  "has_endpoint es s \<longleftrightarrow> List.member es (ps_endpoint s)"

text \<open>
  \<open>sendToUser\<close>: every subscription of the user is tried; the ones that are gone are pruned; any
  other failure makes the whole call fail after the loop.
\<close>

type_synonym web_push = "push_subscription \<Rightarrow> jval \<Rightarrow> push_reply"

definition sendToUser ::
  "web_push \<Rightarrow> string \<Rightarrow> jval \<Rightarrow> push_subscription list \<Rightarrow> (exn + unit) \<times> push_subscription list" where
  "sendToUser wp userId payload subs =
     (let mine = filter (\<lambda>s. ps_userId s = userId) subs;
          gone = map ps_endpoint (filter (\<lambda>s. push_gone (wp s payload)) mine);
          transient = List.map_filter (\<lambda>s. transient_text (wp s payload)) mine;
          subs' = del_rows (has_endpoint gone) subs
      in if transient = [] then (Inr (), subs')
         else (Inl (OtherError (''push failed for '' @ show_nat (length transient) @ ''/'' @
                 show_nat (length mine) @ '' subscription(s): '' @ hd transient)), subs'))"

section \<open>The consumer\<close>

record amqp_msg =
  am_content :: "jval option"
  am_retryCount :: "nat option"

text \<open>The one ack or nack a handled message ends in.\<close>

datatype outcome = Ack | NackDead | NackRequeue

text \<open>\<open>wk_sends\<close> is the log of the sends: user and payload of every \<open>sendToUser\<close>.\<close>

record worker =
  wk_subs :: "push_subscription list"
  wk_queue :: queue
  wk_done :: "nat cache"
  wk_sends :: "(string \<times> jval) list"

definition DONE_TTL_S :: int where "DONE_TTL_S = 86400"
definition PREFETCH :: nat where "PREFETCH = 10"

definition done_key :: "string \<Rightarrow> string" where
  "done_key i = ''mq:done:'' @ i"

definition event_id :: "jval \<Rightarrow> string" where
  "event_id ev = (case jstring (jget ''id'' ev) of None \<Rightarrow> [] | Some i \<Rightarrow> i)"

definition event_user :: "jval \<Rightarrow> string" where
  "event_user ev = (case jstring (jget ''userId'' ev) of None \<Rightarrow> [] | Some u \<Rightarrow> u)"

definition event_payload :: "jval \<Rightarrow> jval" where
  "event_payload ev = (case jget ''payload'' ev of None \<Rightarrow> JNull | Some p \<Rightarrow> p)"

definition retry_message :: "nat \<Rightarrow> jval \<Rightarrow> amqp_out" where
  "retry_message n ev = \<lparr>ao_routingKey = KEY_retry n, ao_content = ev, ao_retryCount = Some n,
     ao_messageId = None\<rparr>"

definition retryOrDead ::
  "(amqp_out \<Rightarrow> chan_reply) \<Rightarrow> amqp_msg \<Rightarrow> jval \<Rightarrow> worker \<Rightarrow> outcome \<times> worker" where
  "retryOrDead chan msg ev w =
     (let attempt = (case am_retryCount msg of None \<Rightarrow> 0 | Some n \<Rightarrow> n)
      in if MAX_RETRIES \<le> attempt then (NackDead, w)
         else let (ok, q') = publish chan (retry_message (attempt + 1) ev) (wk_queue w)
              in (if ok then Ack else NackRequeue, w\<lparr>wk_queue := q'\<rparr>))"

definition handle_message ::
  "web_push \<Rightarrow> (amqp_out \<Rightarrow> chan_reply) \<Rightarrow> int \<Rightarrow> amqp_msg \<Rightarrow> worker \<Rightarrow> outcome \<times> worker" where
  "handle_message wp chan t msg w =
     (case parseNotificationPushEvent (am_content msg) of
        Inl e \<Rightarrow> (NackDead, w)
      | Inr ev \<Rightarrow>
          (let (mark, c) = cache_get t (done_key (event_id ev)) (wk_done w);
               w1 = w\<lparr>wk_done := c\<rparr>
           in if mark \<noteq> None \<and> mark \<noteq> Some 0 then (Ack, w1)
              else let (r, subs') = sendToUser wp (event_user ev) (event_payload ev) (wk_subs w1);
                       w2 = w1\<lparr>wk_subs := subs', wk_sends := wk_sends w1 @ [(event_user ev, event_payload ev)]\<rparr>
                   in case r of
                        Inl e \<Rightarrow> retryOrDead chan msg ev w2
                      | Inr _ \<Rightarrow> (Ack, w2\<lparr>wk_done := cache_set t (done_key (event_id ev)) 1 DONE_TTL_S (wk_done w2)\<rparr>)))"

text \<open>\<open>stop\<close>: polls every 50 ms while handlers are in flight, for at most 10 s.\<close>

definition DRAIN_POLLS :: nat where "DRAIN_POLLS = 10000 div 50"

fun drain :: "nat \<Rightarrow> (nat \<Rightarrow> nat) \<Rightarrow> nat \<Rightarrow> nat" where
  "drain 0 inFlight poll = poll"
| "drain (Suc left) inFlight poll =
     (if inFlight poll = 0 then poll else drain left inFlight (Suc poll))"

definition consumer_stop :: "(nat \<Rightarrow> nat) \<Rightarrow> queue \<Rightarrow> nat \<times> queue" where
  "consumer_stop inFlight q = (drain DRAIN_POLLS inFlight 0, queue_cancel q)"

section \<open>Hosting the consumer\<close>

datatype process_fate = Runs | Exits nat

text \<open>The stand-alone worker fails fast: no broker at boot, or a lost connection, ends it.\<close>

definition worker_boot :: "string \<Rightarrow> queue \<Rightarrow> process_fate \<times> queue" where
  "worker_boot tag q =
     (if \<not> isConnected q then (Exits 1, onModuleDestroy q)
      else case queue_consume tag q of (Inl e, q') \<Rightarrow> (Exits 1, q') | (Inr _, q') \<Rightarrow> (Runs, q'))"

definition worker_on_close :: "queue \<Rightarrow> process_fate" where
  "worker_on_close q = (if q_closing q then Runs else Exits 1)"

definition worker_shutdown :: "(nat \<Rightarrow> nat) \<Rightarrow> queue \<Rightarrow> process_fate \<times> queue" where
  "worker_shutdown inFlight q = (Exits 0, onModuleDestroy (snd (consumer_stop inFlight q)))"

text \<open>Inside the API it fails soft: it subscribes at boot if it can, and on every open.\<close>

definition in_process_subscribe :: "string \<Rightarrow> queue \<Rightarrow> queue" where
  "in_process_subscribe tag q = snd (queue_consume tag q)"

definition in_process_boot :: "string \<Rightarrow> queue \<Rightarrow> queue" where
  "in_process_boot tag q = (if isConnected q then in_process_subscribe tag q else q)"

definition in_process_open :: "string \<Rightarrow> string option \<Rightarrow> queue \<Rightarrow> queue" where
  "in_process_open tag err q =
     (let q' = timer_fires err q in if err = None then in_process_subscribe tag q' else q')"

section \<open>Properties of the push service\<close>

lemma push_subscribe_endpoints:
  "distinct (map ps_endpoint subs) \<Longrightarrow> distinct (map ps_endpoint (push_subscribe actor dto subs))"
  by (auto simp: push_subscribe_def map_upd_rows_key)

lemma sendToUser_pruned:
  assumes "distinct (map ps_endpoint subs)"
  shows "snd (sendToUser wp userId payload subs) =
       filter (\<lambda>s. \<not> (ps_userId s = userId \<and> push_gone (wp s payload))) subs
     \<and> (fst (sendToUser wp userId payload subs) = Inr () \<longleftrightarrow>
         (\<forall>s \<in> set subs. ps_userId s = userId \<longrightarrow> wp s payload = PushOk \<or> push_gone (wp s payload)))"
proof
  have "has_endpoint (map ps_endpoint (filter (\<lambda>s. push_gone (wp s payload)) (filter (\<lambda>s. ps_userId s = userId) subs))) s
      \<longleftrightarrow> ps_userId s = userId \<and> push_gone (wp s payload)" if "s \<in> set subs" for s
    using that distinct_key_unique [OF assms that] by (auto simp: has_endpoint_def)
  then show "snd (sendToUser wp userId payload subs) =
      filter (\<lambda>s. \<not> (ps_userId s = userId \<and> push_gone (wp s payload))) subs"
    by (simp add: sendToUser_def Let_def del_rows_def cong: filter_cong)
  have none: "transient_text r = None \<longleftrightarrow> r = PushOk \<or> push_gone r" for r
    by (cases r) (auto simp: transient_text_def push_gone_def)
  have "List.map_filter f xs = [] \<longleftrightarrow> (\<forall>x \<in> set xs. f x = None)" for f :: "push_subscription \<Rightarrow> string option" and xs
    by (induction xs) (auto simp: List.map_filter_def)
  then show "fst (sendToUser wp userId payload subs) = Inr () \<longleftrightarrow>
      (\<forall>s \<in> set subs. ps_userId s = userId \<longrightarrow> wp s payload = PushOk \<or> push_gone (wp s payload))"
    by (auto simp: sendToUser_def Let_def none)
qed

text \<open>A push call prunes exactly the subscriptions of the user that the vendor reports as gone,
  keeps every other row, and fails exactly when some subscription failed for another reason.\<close>

theorem sendToUser_exact:
  assumes "distinct (map ps_endpoint subs)"
  shows "snd (sendToUser wp userId payload subs) =
       filter (\<lambda>s. \<not> (ps_userId s = userId \<and> push_gone (wp s payload))) subs
     \<and> (fst (sendToUser wp userId payload subs) = Inr () \<longleftrightarrow>
         (\<forall>s \<in> set subs. ps_userId s = userId \<longrightarrow> wp s payload = PushOk \<or> push_gone (wp s payload)))"
  by (rule sendToUser_pruned [OF assms])

definition demo_sub :: "string \<Rightarrow> string \<Rightarrow> push_subscription" where
  "demo_sub e u = \<lparr>ps_endpoint = e, ps_userId = u, ps_p256dh = [], ps_auth = []\<rparr>"

lemma sendToUser_exact_witness:
  "snd (sendToUser (\<lambda>s p. PushError (Some 410) None) ''u1'' JNull [demo_sub ''e1'' ''u1'', demo_sub ''e2'' ''u2'']) =
     [demo_sub ''e2'' ''u2'']"
  by (subst sendToUser_exact [THEN conjunct1]) (simp_all add: demo_sub_def push_gone_def)

section \<open>Properties of the consumer\<close>

definition event_msg :: "nat option \<Rightarrow> push_event \<Rightarrow> amqp_msg" where
  "event_msg n e = \<lparr>am_content = Some (event_json e), am_retryCount = n\<rparr>"

lemma event_json_fields [simp]:
  "event_id (event_json e) = ev_id e" "event_user (event_json e) = ev_userId e"
  "event_payload (event_json e) = payload_json (ev_payload e)"
  by (simp_all add: event_id_def event_user_def event_payload_def event_json_def jget_def jstring_def)


definition demo_event :: push_event where
  "demo_event = \<lparr>ev_id = ''e1'', ev_occurredAt = ''2026-01-01'', ev_userId = ''u1'',
     ev_payload = \<lparr>np_title = ''Hi'', np_body = ''there'', np_tag = None, np_url = None\<rparr>, ev_requestId = None\<rparr>"

definition demo_worker :: worker where
  "demo_worker = \<lparr>wk_subs = [demo_sub ''x'' ''u1''], wk_queue = fresh_queue\<lparr>q_channel := True\<rparr>,
     wk_done = empty_cache, wk_sends = []\<rparr>"


section \<open>The life of a message\<close>

text \<open>
  Where a handled message goes next. An acknowledged one has either been delivered or been
  republished: then the new message is routed by its key, waits in its retry queue until the
  queue's time to live is over, and is dead-lettered onwards. \<open>journey\<close> lists the queues a
  message passes, with the delay it waits in each; \<open>wps n\<close> is the vendor's behaviour at the
  attempt with \<open>n\<close> attempts left.
\<close>

definition republished :: "worker \<Rightarrow> worker \<Rightarrow> amqp_out option" where
  "republished w w' =
     (if length (q_sent (wk_queue w)) < length (q_sent (wk_queue w')) then Some (last (q_sent (wk_queue w'))) else None)"

definition back_to_main :: "amqp_out \<Rightarrow> bool" where
  "back_to_main m \<longleftrightarrow>
     concat (map (dead_letter topology) (route topology EXCHANGE_events (ao_routingKey m))) = [QUEUE_push]"

fun journey ::
  "nat \<Rightarrow> (nat \<Rightarrow> web_push) \<Rightarrow> (amqp_out \<Rightarrow> chan_reply) \<Rightarrow> int \<Rightarrow> amqp_msg \<Rightarrow> worker
     \<Rightarrow> (string \<times> int option) list" where
  "journey 0 wps chan t msg w = []"
| "journey (Suc n) wps chan t msg w =
     (QUEUE_push, None) #
     (case handle_message (wps n) chan t msg w of
        (NackDead, w') \<Rightarrow> map (\<lambda>q. (q, None)) (dead_letter topology QUEUE_push)
      | (NackRequeue, w') \<Rightarrow> journey n wps chan t msg w'
      | (Ack, w') \<Rightarrow>
          (case republished w w' of
             None \<Rightarrow> []
           | Some m \<Rightarrow>
               let qs = route topology EXCHANGE_events (ao_routingKey m);
                   ttl = (case qs of [] \<Rightarrow> None | q # _ \<Rightarrow> queue_ttl topology q)
               in map (\<lambda>q. (q, queue_ttl topology q)) qs @
                  (if back_to_main m
                   then journey n wps chan (t + (case ttl of None \<Rightarrow> 0 | Some d \<Rightarrow> d))
                          \<lparr>am_content = Some (ao_content m), am_retryCount = ao_retryCount m\<rparr> w'
                   else [])))"

lemma route_retry:
  "route topology EXCHANGE_events (KEY_retry 1) = [QUEUE_retry 1]"
  "route topology EXCHANGE_events (KEY_retry 2) = [QUEUE_retry 2]"
  "route topology EXCHANGE_events (KEY_retry 3) = [QUEUE_retry 3]"
  "route topology EXCHANGE_events KEY_push = [QUEUE_push]"
  by code_simp+

lemma dead_letter_retry:
  "dead_letter topology (QUEUE_retry 1) = [QUEUE_push]"
  "dead_letter topology (QUEUE_retry 2) = [QUEUE_push]"
  "dead_letter topology (QUEUE_retry 3) = [QUEUE_push]"
  "dead_letter topology QUEUE_push = [QUEUE_dead]"
  by code_simp+

lemma ttl_retry:
  "queue_ttl topology (QUEUE_retry 1) = Some 5000" "queue_ttl topology (QUEUE_retry 2) = Some 30000"
  "queue_ttl topology (QUEUE_retry 3) = Some 120000"
  by code_simp+

lemma route_retry_message:
  "n = 1 \<or> n = 2 \<or> n = 3 \<Longrightarrow> route topology EXCHANGE_events (ao_routingKey (retry_message n ev)) = [QUEUE_retry n]"
  by (elim disjE) (simp_all only: retry_message_def amqp_out.select_convs route_retry)

lemma back_to_main_retry:
  "n = 1 \<or> n = 2 \<or> n = 3 \<Longrightarrow> back_to_main (retry_message n ev)"
  using route_retry dead_letter_retry by (auto simp: back_to_main_def retry_message_def)

lemma dead_not_push: "QUEUE_dead \<noteq> QUEUE_push"
  by (simp add: queue_names)

definition retries_so_far :: "nat option \<Rightarrow> nat" where
  "retries_so_far n = (case n of None \<Rightarrow> 0 | Some k \<Rightarrow> k)"

lemma handle_cases:
  assumes run: "handle_message wp (\<lambda>m. ChanAccepts) t (event_msg n e) w = (r, w')" and up: "q_channel (wk_queue w)"
  shows "q_channel (wk_queue w') \<and>
    ((r = Ack \<and> republished w w' = None) \<or>
     (r = Ack \<and> retries_so_far n < 3 \<and>
        republished w w' = Some (retry_message (Suc (retries_so_far n)) (event_json e))) \<or>
     (r = NackDead \<and> 3 \<le> retries_so_far n))"
proof -
  have max3: "MAX_RETRIES = 3" by code_simp
  show ?thesis
    using run up
    by (auto simp: handle_message_def event_msg_def parse_event_json Let_def retryOrDead_def max3
        retries_so_far_def republished_def publish_def split: prod.splits if_splits sum.splits option.splits)
qed

text \<open>No message circulates for ever. With a broker that takes what is published, an event is
  handled at most four times, whatever the push service does at each attempt.\<close>

theorem retries_are_bounded:
  assumes "q_channel (wk_queue w)"
  shows "length (filter (\<lambda>p. fst p = QUEUE_push)
     (journey fuel wps (\<lambda>m. ChanAccepts) t (event_msg n e) w)) \<le> Suc (3 - retries_so_far n)"
  using assms
proof (induction fuel arbitrary: t n w)
  case 0
  then show ?case by simp
next
  case (Suc fuel)
  obtain r w' where run: "handle_message (wps fuel) (\<lambda>m. ChanAccepts) t (event_msg n e) w = (r, w')" by fastforce
  note cases = handle_cases [OF run Suc.prems]
  have dead: "filter (\<lambda>p. fst p = QUEUE_push) (map (\<lambda>q. (q, None :: int option)) (dead_letter topology QUEUE_push)) = []"
    using dead_not_push by (simp add: dead_letter_retry)
  from cases consider (delivered) "r = Ack" "republished w w' = None"
    | (retry) "r = Ack" "retries_so_far n < 3"
        "republished w w' = Some (retry_message (Suc (retries_so_far n)) (event_json e))"
    | (buried) "r = NackDead" by metis
  then show ?case
  proof cases
    case delivered
    then show ?thesis using run by simp
  next
    case buried
    then show ?thesis using run dead by simp
  next
    case retry
    let ?k = "Suc (retries_so_far n)"
    have k: "?k = 1 \<or> ?k = 2 \<or> ?k = 3" using retry(2) by linarith
    have parked: "route topology EXCHANGE_events (ao_routingKey (retry_message ?k (event_json e))) = [QUEUE_retry ?k]"
      by (rule route_retry_message [OF k])
    have other: "QUEUE_retry ?k \<noteq> QUEUE_push" by (simp add: queue_names)
    have msg: "\<lparr>am_content = Some (ao_content (retry_message ?k (event_json e))),
        am_retryCount = ao_retryCount (retry_message ?k (event_json e))\<rparr> = event_msg (Some ?k) e"
      by (simp add: retry_message_def event_msg_def)
    have "length (filter (\<lambda>p. fst p = QUEUE_push) (journey fuel wps (\<lambda>m. ChanAccepts) t' (event_msg (Some ?k) e) w'))
        \<le> 3 - retries_so_far n" for t'
    proof -
      have "Suc (3 - ?k) = 3 - retries_so_far n" using retry(2) by arith
      then show ?thesis using Suc.IH [of w' t' "Some ?k"] cases by (simp add: retries_so_far_def)
    qed
    then show ?thesis
      using run retry parked other back_to_main_retry [OF k, of "event_json e"] by (simp add: msg Suc_diff_Suc)
  qed
qed

lemma retries_are_bounded_witness:
  "length (filter (\<lambda>p. fst p = QUEUE_push)
     (journey 9 (\<lambda>n s p. PushError None None) (\<lambda>m. ChanAccepts) 0 (event_msg None demo_event) demo_worker)) \<le> 4"
  using retries_are_bounded [of demo_worker 9 "\<lambda>n s p. PushError None None" 0 None demo_event]
  by (simp add: demo_worker_def retries_so_far_def)

text \<open>
  A subscription that keeps failing for a transient reason, in a worker where the event is not
  marked as done.
\<close>

definition keeps_failing :: "(nat \<Rightarrow> web_push) \<Rightarrow> push_event \<Rightarrow> worker \<Rightarrow> bool" where
  "keeps_failing wps e w \<longleftrightarrow>
     q_channel (wk_queue w) \<and> distinct (map ps_endpoint (wk_subs w)) \<and>
     (redis_error (wk_done w) \<noteq> None \<or> redis_store (wk_done w) (done_key (ev_id e)) = None) \<and>
     (\<exists>s \<in> set (wk_subs w). ps_userId s = ev_userId e \<and>
        (\<forall>n. wps n s (payload_json (ev_payload e)) \<noteq> PushOk \<and> \<not> push_gone (wps n s (payload_json (ev_payload e)))))"

lemma handle_failing:
  assumes f: "keeps_failing wps e w"
    and run: "handle_message (wps k) (\<lambda>m. ChanAccepts) t (event_msg n e) w = (r, w')"
  shows "keeps_failing wps e w' \<and>
    (if retries_so_far n < 3
     then r = Ack \<and> republished w w' = Some (retry_message (Suc (retries_so_far n)) (event_json e))
     else r = NackDead)"
proof -
  let ?p = "payload_json (ev_payload e)"
  have max3: "MAX_RETRIES = 3" by code_simp
  obtain s where s: "s \<in> set (wk_subs w)" "ps_userId s = ev_userId e"
    "\<And>n. wps n s ?p \<noteq> PushOk \<and> \<not> push_gone (wps n s ?p)"
    using f by (auto simp: keeps_failing_def)
  have dis: "distinct (map ps_endpoint (wk_subs w))" using f by (simp add: keeps_failing_def)
  have ex: "snd (sendToUser (wps k) (ev_userId e) ?p (wk_subs w)) =
       filter (\<lambda>s. \<not> (ps_userId s = ev_userId e \<and> push_gone (wps k s ?p))) (wk_subs w)"
     "fst (sendToUser (wps k) (ev_userId e) ?p (wk_subs w)) \<noteq> Inr ()"
    using sendToUser_pruned [OF dis] s by blast+
  define res where "res = sendToUser (wps k) (ev_userId e) ?p (wk_subs w)"
  obtain x subs' where r: "res = (Inl x, subs')" using ex(2) unfolding res_def [symmetric]
    by (cases res; cases "fst res") auto
  have subs': "subs' = filter (\<lambda>s. \<not> (ps_userId s = ev_userId e \<and> push_gone (wps k s ?p))) (wk_subs w)"
    using ex(1) r by (simp add: res_def)
  have c: "fst (cache_get t (done_key (ev_id e)) (wk_done w)) = None"
    "redis_store (snd (cache_get t (done_key (ev_id e)) (wk_done w))) = redis_store (wk_done w)"
    "redis_error (snd (cache_get t (done_key (ev_id e)) (wk_done w))) = redis_error (wk_done w)"
    using f by (auto simp: keeps_failing_def cache_get_def redis_lookup_def split: option.splits)
  define w2 where "w2 = w\<lparr>wk_done := snd (cache_get t (done_key (ev_id e)) (wk_done w)), wk_subs := subs',
      wk_sends := wk_sends w @ [(ev_userId e, ?p)]\<rparr>"
  have h: "handle_message (wps k) (\<lambda>m. ChanAccepts) t (event_msg n e) w =
      retryOrDead (\<lambda>m. ChanAccepts) (event_msg n e) (event_json e) w2"
    using c(1) r unfolding res_def
    by (cases "cache_get t (done_key (ev_id e)) (wk_done w)")
      (simp add: handle_message_def event_msg_def parse_event_json w2_def)
  have "s \<in> set subs'" using s subs' by simp
  then have f2: "keeps_failing wps e w2"
    using f c s dis subs' by (auto simp: keeps_failing_def w2_def distinct_map_filter)
  have q2: "wk_queue w2 = wk_queue w" by (simp add: w2_def)
  show ?thesis
    using run h f2 q2
    by (auto simp: retryOrDead_def max3 Let_def event_msg_def retries_so_far_def publish_def keeps_failing_def
        republished_def split: option.splits)
qed

text \<open>The full life of an undeliverable message. When a subscription keeps failing for a transient
  reason, the message is parked for 5, 30 and 120 seconds, comes back to the main queue each
  time, and after the fourth failure ends in the dead-letter queue.\<close>

theorem undeliverable_ends_dead:
  assumes "keeps_failing wps e w" and "retries_so_far n = 0"
  shows "journey 4 wps (\<lambda>m. ChanAccepts) t (event_msg n e) w =
     [(QUEUE_push, None), (QUEUE_retry 1, Some 5000), (QUEUE_push, None), (QUEUE_retry 2, Some 30000),
      (QUEUE_push, None), (QUEUE_retry 3, Some 120000), (QUEUE_push, None), (QUEUE_dead, None)]"
proof -
  have step: "\<exists>w'. keeps_failing wps e w' \<and>
      journey k' wps (\<lambda>m. ChanAccepts) t (event_msg m e) v =
        (QUEUE_push, None) # (QUEUE_retry j, queue_ttl topology (QUEUE_retry j)) #
        journey k wps (\<lambda>m. ChanAccepts) (t + (case queue_ttl topology (QUEUE_retry j) of None \<Rightarrow> 0 | Some d \<Rightarrow> d))
          (event_msg (Some j) e) w'"
    if v: "keeps_failing wps e v" and j: "j = Suc (retries_so_far m)" "j = 1 \<or> j = 2 \<or> j = 3" and k': "k' = Suc k"
    for k k' t m v j
  proof -
    obtain r v' where run: "handle_message (wps k) (\<lambda>m. ChanAccepts) t (event_msg m e) v = (r, v')" by fastforce
    have "\<lparr>am_content = Some (ao_content (retry_message j (event_json e))),
        am_retryCount = ao_retryCount (retry_message j (event_json e))\<rparr> = event_msg (Some j) e"
      by (simp add: retry_message_def event_msg_def)
    moreover have "retries_so_far m < 3" using j by linarith
    ultimately show ?thesis
      using handle_failing [OF v run] run back_to_main_retry [OF j(2), of "event_json e"]
        route_retry_message [OF j(2), of "event_json e"] j(1) k'
      by (intro exI [of _ v']) simp
  qed
  have last: "journey (Suc k) wps (\<lambda>m. ChanAccepts) t (event_msg (Some 3) e) v = [(QUEUE_push, None), (QUEUE_dead, None)]"
    if v: "keeps_failing wps e v" for k t v
  proof -
    obtain r v' where run: "handle_message (wps k) (\<lambda>m. ChanAccepts) t (event_msg (Some 3) e) v = (r, v')" by fastforce
    then show ?thesis using handle_failing [OF v run] by (simp add: retries_so_far_def dead_letter_retry)
  qed
  have r: "1 = Suc (retries_so_far n)" "2 = Suc (retries_so_far (Some 1))" "3 = Suc (retries_so_far (Some 2))"
    using assms(2) by (simp_all add: retries_so_far_def)
  have k: "4 = Suc 3" "3 = Suc 2" "2 = Suc 1" by simp_all
  obtain w1 where w1: "keeps_failing wps e w1" "journey 4 wps (\<lambda>m. ChanAccepts) t (event_msg n e) w =
      (QUEUE_push, None) # (QUEUE_retry 1, Some 5000) # journey 3 wps (\<lambda>m. ChanAccepts) (t + 5000) (event_msg (Some 1) e) w1"
    using step [OF assms(1) r(1) _ k(1), of t] unfolding ttl_retry option.case by blast
  obtain w2 where w2: "keeps_failing wps e w2" "journey 3 wps (\<lambda>m. ChanAccepts) (t + 5000) (event_msg (Some 1) e) w1 =
      (QUEUE_push, None) # (QUEUE_retry 2, Some 30000) # journey 2 wps (\<lambda>m. ChanAccepts) (t + 5000 + 30000) (event_msg (Some 2) e) w2"
    using step [OF w1(1) r(2) _ k(2), of "t + 5000"] unfolding ttl_retry option.case by blast
  obtain w3 where w3: "keeps_failing wps e w3" "journey 2 wps (\<lambda>m. ChanAccepts) (t + 5000 + 30000) (event_msg (Some 2) e) w2 =
      (QUEUE_push, None) # (QUEUE_retry 3, Some 120000) # journey 1 wps (\<lambda>m. ChanAccepts) (t + 5000 + 30000 + 120000) (event_msg (Some 3) e) w3"
    using step [OF w2(1) r(3) _ k(3), of "t + 5000 + 30000"] unfolding ttl_retry option.case by blast
  have "journey 1 wps (\<lambda>m. ChanAccepts) (t + 5000 + 30000 + 120000) (event_msg (Some 3) e) w3 =
      [(QUEUE_push, None), (QUEUE_dead, None)]"
    using last [OF w3(1), of 0] by simp
  then show ?thesis unfolding w1(2) w2(2) w3(2) by (simp only:)
qed

lemma undeliverable_ends_dead_witness:
  "last (journey 4 (\<lambda>n s p. PushError (Some 503) None) (\<lambda>m. ChanAccepts) 0 (event_msg None demo_event) demo_worker) =
     (QUEUE_dead, None)"
  by (subst undeliverable_ends_dead)
    (auto simp: keeps_failing_def demo_worker_def demo_event_def demo_sub_def empty_cache_def push_gone_def retries_so_far_def)

end
