(* ===== verification/Spec2Isabelle.thy ===== *)
theory Spec2Isabelle
  imports Announcements Cards DeviceScreens EndToEnd Access Delivery Alerts Outbox Rates Views Inputs HttpErrors
begin

text \<open>
  MaxOne: a wallet and ledger platform. The API (\<open>backend/\<close>, NestJS over Postgres, Redis and
  RabbitMQ) keeps wallets, an append-only ledger, accounts and sessions; a worker delivers push
  notifications; two Next.js apps stand in front of it as back ends for their browsers (BFF):
  \<open>customer/\<close> for customers and \<open>frontend/\<close> for staff.

  How the parts interact, and where they are modelled:

  \<^item> \<open>Prelude\<close>: JavaScript and Prisma helpers every part uses: JSON values, exceptions with HTTP
    statuses, database transactions as functions to a sum (\<open>tx\<close>: an error leaves no trace), row
    updates by key, decimal text, and reachability with invariants (\<open>reach\<close>).
  \<^item> \<open>Schema\<close>: \<open>prisma/schema.prisma\<close>, a record per model; \<open>db\<close> is the tables together. Int columns
    are mathematical integers with their 32-bit range checked at every write (\<open>int4\<close>).
  \<^item> \<open>Wallets\<close>, \<open>Ledger\<close>, \<open>Money\<close>: \<open>wallets/wallets.service.ts\<close>. \<open>Wallets\<close> has the operations, each
    with its transaction (balance, ledger row, audit row, outbox row) and what follows the commit;
    \<open>Ledger\<close> the step relation of the tables and its invariant; \<open>Money\<close> the theorems. \<open>Locking\<close> has the
    same transactions statement by statement, with their row locks and overlapping requests;
    \<open>Announcements\<close> what the live balance makes of requests that overlap.
  \<^item> \<open>Users\<close>: \<open>users/\<close>, the roles, the seed and the console's mirror of the permissions.
  \<^item> \<open>Tokens\<close>, \<open>Auth\<close>: \<open>auth/\<close>. Single-purpose JWTs, refresh rotation split where the code's
    transactions end (so that other requests can come between), passwords, second factors,
    passkeys, the guards and the socket gateway.
  \<^item> \<open>Idempotency\<close>: \<open>idempotency/\<close>, the key store and the interceptor around any handler.
  \<^item> \<open>Cache\<close>, \<open>Rates\<close>, \<open>Markets\<close>, \<open>Alerts\<close>: \<open>cache/\<close>, \<open>rates/\<close>, \<open>markets/\<close>, \<open>alerts/\<close>, \<open>holdings/\<close>,
    \<open>watchlist/\<close> and the background jobs of \<open>realtime/\<close>.
  \<^item> \<open>Queue\<close>, \<open>Notify\<close>, \<open>Outbox\<close>, \<open>Delivery\<close>: \<open>queue/\<close>, \<open>realtime/\<close>, \<open>outbox/\<close>, \<open>worker/\<close>, \<open>push/\<close>: a
    notification is a row written with the money, published after the commit or by the relay, and
    consumed with retries until delivered or dead.
  \<^item> \<open>Backoffice\<close>: audit history, the work queue of the dashboard, health and the operations watch.
  \<^item> \<open>HttpErrors\<close>: the error envelope from the exception filter through the BFF to the browser.
  \<^item> \<open>Dto\<close>, \<open>Api\<close>, \<open>AuthApi\<close>, \<open>Access\<close>: the DTO classes, the controllers (\<open>AuthApi\<close> is
    \<open>auth.controller.ts\<close>) with guards, interceptor and pipes composed as Nest runs them, and what
    those layers guarantee together.
  \<^item> \<open>Inputs\<close>, \<open>Views\<close>, \<open>Bff\<close>: the two apps: input rules, the pure functions behind the pages,
    cookies, the edge proxy, the retrying API client and all route handlers.
  \<^item> \<open>Pages\<close>, \<open>CustomerPages\<close>: the server-rendered pages of \<open>frontend/app\<close> and \<open>customer/app\<close>: their
    reads, redirects and refusals; the signs of the two statements. \<open>Browsing\<close> puts \<open>proxy.ts\<close>, the
    layouts and the pages together as a browser that follows redirects; \<open>Shell\<close> has the navigation
    and the links from page to page.
  \<^item> \<open>Dashboard\<close>, \<open>Cards\<close>: what the console's start page, and the rows, cards and dialogs of both
    apps, say of the data they are given.
  \<^item> \<open>Wizards\<close>, \<open>Exchange\<close>, \<open>Forms\<close>, \<open>AccountScreens\<close>, \<open>LiveScreens\<close>, \<open>DeviceScreens\<close>: the customer app's
    interactive components as state machines; \<open>Console\<close>, \<open>Tables\<close>: the console's.
  \<^item> \<open>EndToEnd\<close>: a screen, the BFF's routes and the API's as one system (\<open>platform\<close>): what a session of
    a screen can have done to the tables.

  Screens. The state of a component is a record of its \<open>useState\<close> cells and of what it has in
  flight; an event is typing, a button, a timer or a reply, and one whose control is not on the
  screen or is disabled changes nothing; a step gives the next state and the request that leaves. A
  reply may come at any time, in any order, or be lost (\<open>None\<close>). \<open>session\<close> runs a list of events and
  collects the requests and successes; the locale \<open>keyed_screen\<close> says what every money screen
  promises of its idempotency key. React is taken to run handlers to their next \<open>await\<close>, and
  \<open>react-hook-form\<close> to call the handler for accepted values and to be submitting until it ends.
  In \<open>platform\<close> the API serves one request at a time. A long dash in a text is written \<open>--\<close>.

  Parameters. What is not in the repository is an argument: JWT signing (\<open>jwt_laws\<close>), decimal
  arithmetic (\<open>decimal_laws\<close>), Nest's validation pipe (\<open>validation_pipe\<close>), password hashing, one-time
  codes and WebAuthn (no laws needed), Redis, the broker, HTTP providers and the clock. Each locale
  is interpreted on a concrete instance, which the witnesses use.

  Concurrency. A Prisma transaction is one step. For the money transactions \<open>Locking\<close> justifies it:
  there a request runs its statements one by one, waits for the row locks it asks for, keeps its
  writes to itself until it commits (read committed) and releases its locks then, and
  \<open>overlapping_calls_are_serial\<close> shows that every interleaving ends in tables and answers of some
  order of whole requests. Where the code reads outside a transaction (rotation, recovery codes,
  alert checks, the outbox relay) the model splits the operation there and theorems speak about
  the interleavings.

  Bounds. \<open>RESERVE_FUEL = 2\<close>: an idempotency reservation retries at most once, and \<open>reserve_ends\<close>
  shows that this is enough. A message's journey takes at most four deliveries
  (\<open>undeliverable_ends_dead\<close>). The worker's drain polls \<open>DRAIN_POLLS\<close> times, as the code does.

  What the lemmas show, by group: the ledger's invariant, its refinement by every money handler
  and the audit row of each (\<open>Ledger\<close>, \<open>Money\<close>, \<open>Access\<close>); that each request acts once per key and a
  refused one not at all (\<open>Idempotency\<close>, \<open>Access\<close>); sessions, factors and grants (\<open>Tokens\<close>, \<open>Auth\<close>,
  \<open>AuthApi\<close>); that events reach their end (\<open>Outbox\<close>, \<open>Delivery\<close>); round trips of amounts, codes, errors
  and table state (\<open>Inputs\<close>, \<open>HttpErrors\<close>, \<open>Views\<close>); that what a screen shows is what is sent and done
  (\<open>Wizards\<close>, \<open>Exchange\<close>, \<open>EndToEnd\<close>, \<open>AccountScreens\<close>, \<open>LiveScreens\<close>); that forms and pages agree
  with what the API admits and permits (\<open>Forms\<close>, \<open>Pages\<close>); that navigation settles and that every
  link leads to a page (\<open>Browsing\<close>, \<open>Shell\<close>); that the dashboard tells the queue (\<open>Dashboard\<close>). Theorems marked as defects show behaviour
  that the code does not mean.

  Bounds of \<open>Browsing\<close>: a navigation follows at most four redirects; \<open>customer_navigation_settles\<close> and
  \<open>console_navigation_settles\<close> show that this is enough, where one settles at all.

  Not modelled: markup and the component library (what is drawn, not what is decided), module
  wiring, logging configuration, the rate limiter and the Swagger document. Strings are sequences
  of 8-bit characters. Numbers that are prices are elements of an ordered field, so float rounding
  is not modelled; money is integers.

  Left to do: requests of several screens served at the same time in \<open>platform\<close> (\<open>Locking\<close> has them
  at the level of the tables); Next's client-side cache of pages, which can show an older page than
  the one the API would render; the price and money texts of the browser's locale.
\<close>

end
